(* ===== verification/Prelude.thy ===== *)
theory Prelude
  imports Main "HOL-Library.Word"
begin

text \<open>
  Shared vocabulary of the development.

  \<^item> Machine types of the C sources: bytes and the unsigned integers of 16, 32 and 64
    bits are \<^typ>\<open>8 word\<close> and so on; a C \<^verbatim>\<open>int\<close>, \<^verbatim>\<open>gint32\<close> or \<^verbatim>\<open>gint64\<close> whose
    value provably stays in range is an \<^typ>\<open>int\<close>, with conversions to unsigned fields
    written out by \<open>word_of_int\<close>.
  \<^item> Growable arrays (\<^verbatim>\<open>GArray\<close>) are lists; the index operations the code uses on them are
    \<open>remove_index\<close> and \<open>insert_val\<close>.
  \<^item> \<open>view\<close> is the finite map a list of keyed items stands for; it is the abstraction
    function of the refinement lemmas.
  \<^item> The collection \<open>array_ops\<close> holds the rewrite rules of the array operations.
\<close>

type_synonym u8 = "8 word"
type_synonym u16 = "16 word"
type_synonym u32 = "32 word"
type_synonym u64 = "64 word"

named_theorems array_ops
named_theorems store_defs

section \<open>Array operations\<close>

definition remove_index :: "nat \<Rightarrow> 'a list \<Rightarrow> 'a list" where
  "remove_index i xs = take i xs @ drop (Suc i) xs"

definition insert_val :: "'a list \<Rightarrow> nat \<Rightarrow> 'a \<Rightarrow> 'a list" where
  "insert_val xs i x = take i xs @ x # drop i xs"

lemma length_remove_index [simp]:
  "i < length xs \<Longrightarrow> length (remove_index i xs) = length xs - 1"
  by (simp add: remove_index_def)

lemma remove_index_append [array_ops]:
  "remove_index (length us) (us @ y # vs) = us @ vs"
  by (simp add: remove_index_def)

lemma list_update_length_append [array_ops]:
  "(us @ y # vs)[length us := z] = us @ z # vs"
  by simp

lemma set_insert_val [simp]: "set (insert_val xs i x) = insert x (set xs)"
proof -
  have "set (insert_val xs i x) = insert x (set (take i xs @ drop i xs))"
    by (simp only: insert_val_def set_append list.set) blast
  then show ?thesis by simp
qed

section \<open>First index satisfying a predicate\<close>

primrec first_idx :: "('a \<Rightarrow> bool) \<Rightarrow> nat \<Rightarrow> 'a list \<Rightarrow> nat option" where
  "first_idx P i [] = None"
| "first_idx P i (x # xs) = (if P x then Some i else first_idx P (Suc i) xs)"

lemma first_idx_None: "first_idx P i xs = None \<longleftrightarrow> (\<forall>x\<in>set xs. \<not> P x)"
  by (induction xs arbitrary: i) auto

lemma first_idx_Some:
  "first_idx P i xs = Some j \<Longrightarrow>
   i \<le> j \<and> j < i + length xs \<and> take (j - i) xs = takeWhile (\<lambda>x. \<not> P x) xs
   \<and> drop (j - i) xs = dropWhile (\<lambda>x. \<not> P x) xs"
proof (induction xs arbitrary: i)
  case Nil
  then show ?case by simp
next
  case (Cons x xs)
  show ?case
  proof (cases "P x")
    case True
    with Cons.prems show ?thesis by simp
  next
    case False
    with Cons.prems have "first_idx P (Suc i) xs = Some j" by simp
    note ih = Cons.IH [OF this]
    then have "j - i = Suc (j - Suc i)" by linarith
    with ih False show ?thesis by simp
  qed
qed

lemma first_idx_append:
  "first_idx P i (us @ vs) =
   (case first_idx P i us of None \<Rightarrow> first_idx P (i + length us) vs | Some j \<Rightarrow> Some j)"
  by (induction us arbitrary: i) (simp_all split: option.split)

lemma first_idx_hit:
  assumes "\<forall>u\<in>set us. \<not> P u" "P y"
  shows "first_idx P i (us @ y # vs) = Some (i + length us)"
  using assms by (simp add: first_idx_append first_idx_None [THEN iffD2])

lemma insert_at_first_idx:
  "insert_val xs (case first_idx P 0 xs of None \<Rightarrow> length xs | Some j \<Rightarrow> j) x =
   takeWhile (\<lambda>x. \<not> P x) xs @ x # dropWhile (\<lambda>x. \<not> P x) xs"
proof (cases "first_idx P 0 xs")
  case None
  then have "\<forall>x\<in>set xs. \<not> P x" by (simp add: first_idx_None)
  then have "takeWhile (\<lambda>x. \<not> P x) xs = xs" "dropWhile (\<lambda>x. \<not> P x) xs = []"
    by (simp_all add: takeWhile_eq_all_conv dropWhile_eq_Nil_conv)
  with None show ?thesis
    unfolding insert_val_def by (simp del: takeWhile_eq_all_conv dropWhile_eq_Nil_conv)
next
  case (Some j)
  from first_idx_Some [OF this] show ?thesis
    by (simp add: Some insert_val_def)
qed

section \<open>Keyed lists as maps\<close>

definition view :: "('i \<Rightarrow> 'k) \<Rightarrow> ('i \<Rightarrow> 'o) \<Rightarrow> 'i list \<Rightarrow> 'k \<Rightarrow> 'o option" where
  "view key obs xs = map_of (map (\<lambda>i. (key i, obs i)) xs)"

lemma view_Nil [simp]: "view key obs [] = Map.empty"
  by (simp add: view_def)

lemma view_Cons [simp]: "view key obs (x # xs) = (view key obs xs)(key x \<mapsto> obs x)"
  by (simp add: view_def)

lemma view_append [simp]: "view key obs (xs @ ys) = view key obs ys ++ view key obs xs"
  by (simp add: view_def)

lemma dom_view [simp]: "dom (view key obs xs) = key ` set xs"
  by (simp add: view_def dom_map_of_conv_image_fst image_image)

lemma view_None: "view key obs xs k = None \<longleftrightarrow> k \<notin> key ` set xs"
  by (metis domIff dom_view)

lemma view_notin: "k \<notin> key ` set xs \<Longrightarrow> view key obs xs k = None"
  by (simp add: view_None)

lemma view_insert_distinct:
  assumes "key x \<notin> key ` set us" "key x \<notin> key ` set vs"
  shows "view key obs (us @ x # vs) = (view key obs (us @ vs))(key x \<mapsto> obs x)"
proof
  fix k
  from assms show "view key obs (us @ x # vs) k = ((view key obs (us @ vs))(key x \<mapsto> obs x)) k"
    by (cases "k = key x") (simp_all add: map_add_def view_notin split: option.split)
qed

lemma view_remove_distinct:
  assumes "key x \<notin> key ` set us" "key x \<notin> key ` set vs"
  shows "view key obs (us @ vs) = (view key obs (us @ x # vs))(key x := None)"
proof
  fix k
  from assms show "view key obs (us @ vs) k = ((view key obs (us @ x # vs))(key x := None)) k"
    by (cases "k = key x") (simp_all add: map_add_def view_notin split: option.split)
qed

lemma split_first_key:
  assumes "k \<in> key ` set xs" "distinct (map key xs)"
  obtains us y vs where "xs = us @ y # vs" "key y = k" "k \<notin> key ` set us" "k \<notin> key ` set vs"
proof -
  from assms(1) obtain y where y: "y \<in> set xs" "key y = k" by auto
  then obtain us vs where "xs = us @ y # vs" by (meson split_list)
  with y assms(2) show ?thesis
    by (intro that [of us y vs]) auto
qed

end
