(* ===== verification/Inet.thy ===== *)
theory Inet
  imports Prelude
begin

unbundle bit_operations_syntax

text \<open>
  IPv6 address helpers of \<^verbatim>\<open>NetworkManager/shared/nm-glib-aux/nm-shared-utils.c\<close> that router
  discovery uses. Addresses are the list of their 16 bytes in network order; bit \<open>j\<close> of an
  address counts from the most significant bit of the first byte.
\<close>

definition nm_utils_ip6_address_clear_host_address :: "u8 list \<Rightarrow> u8 \<Rightarrow> u8 list" where
  "nm_utils_ip6_address_clear_host_address src plen =
     (if plen < 128 then
        (let nbytes = unat plen div 8; nbits = unat plen mod 8;
             dst = take nbytes src
                   @ (if nbits \<noteq> 0 then [src ! nbytes AND push_bit (8 - nbits) 0xFF] else [])
         in dst @ replicate (16 - length dst) 0)
      else src)"

definition IN6_IS_ADDR_LINKLOCAL :: "u8 list \<Rightarrow> bool" where
  "IN6_IS_ADDR_LINKLOCAL a \<longleftrightarrow> a ! 0 = 0xfe \<and> a ! 1 AND 0xc0 = 0x80"

definition addr_bit :: "u8 list \<Rightarrow> nat \<Rightarrow> bool" where
  "addr_bit a j = bit (a ! (j div 8)) (7 - j mod 8)"

lemma unat_u8_lt_128: "plen < (128 :: u8) \<Longrightarrow> unat plen < 128"
  by (simp add: word_less_nat_alt)

lemma length_clear_host:
  assumes "length src = 16"
  shows "length (nm_utils_ip6_address_clear_host_address src plen) = 16"
proof (cases "plen < 128")
  case True
  then have "unat plen div 8 < 16" using unat_u8_lt_128 [OF True] by simp
  with True assms show ?thesis
    by (simp add: nm_utils_ip6_address_clear_host_address_def Let_def)
qed (simp add: nm_utils_ip6_address_clear_host_address_def assms)

lemma bit_mask_hi:
  assumes "n < 8" "k < 8"
  shows "bit (push_bit (8 - n) (0xFF :: u8)) (7 - k) \<longleftrightarrow> k < n"
proof -
  have ff: "(0xFF :: u8) = mask 8" by (simp add: mask_eq_exp_minus_1)
  show ?thesis
    using assms unfolding ff by (auto simp: bit_push_bit_iff bit_mask_iff)
qed

text \<open>
  Clearing the host part keeps the first \<open>plen\<close> bits of the address and zeroes all the
  others, for every prefix length up to 128; the result is again an address of 16 bytes.
\<close>

theorem clear_host_address_bits:
  assumes "length src = 16" and "plen \<le> 128" and "j < 128"
  shows "length (nm_utils_ip6_address_clear_host_address src plen) = 16
    \<and> addr_bit (nm_utils_ip6_address_clear_host_address src plen) j =
        (j < unat plen \<and> addr_bit src j)"
proof (cases "plen < 128")
  case False
  with assms(2) have "plen = 128" by simp
  then have "unat plen = 128" by simp
  with False assms show ?thesis
    by (simp add: nm_utils_ip6_address_clear_host_address_def)
next
  case True
  define n where "n = unat plen div 8"
  define b where "b = unat plen mod 8"
  have p: "unat plen = 8 * n + b" "b < 8" "n < 16"
    using unat_u8_lt_128 [OF True] by (auto simp: n_def b_def)
  let ?i = "j div 8" and ?k = "j mod 8"
  have j: "j = 8 * ?i + ?k" "?k < 8" "?i < 16" using assms(3) by auto
  let ?r = "nm_utils_ip6_address_clear_host_address src plen"
  have r: "?r = (take n src @ (if b \<noteq> 0 then [src ! n AND push_bit (8 - b) 0xFF] else []))
      @ replicate (16 - (n + (if b \<noteq> 0 then 1 else 0))) 0"
    using True p assms(1)
    by (simp add: nm_utils_ip6_address_clear_host_address_def Let_def n_def [symmetric] b_def [symmetric])
  consider "?i < n" | "?i = n" | "?i > n" by linarith
  then have "addr_bit ?r j = (j < unat plen \<and> addr_bit src j)"
  proof cases
    case 1
    then have "j < unat plen" using p j by linarith
    with 1 p assms(1) show ?thesis unfolding addr_bit_def r by (simp add: nth_append)
  next
    case 2
    have lt: "j < unat plen \<longleftrightarrow> ?k < b" using 2 p j by linarith
    show ?thesis
    proof (cases "b = 0")
      case True
      with 2 p assms(1) lt show ?thesis unfolding addr_bit_def r by (simp add: nth_append)
    next
      case False
      have "bit (src ! n AND push_bit (8 - b) 0xFF) (7 - ?k) = (?k < b \<and> bit (src ! n) (7 - ?k))"
        using bit_mask_hi [OF p(2) j(2)] by (auto simp: bit_and_iff)
      with False 2 p assms(1) lt show ?thesis unfolding addr_bit_def r by (simp add: nth_append)
    qed
  next
    case 3
    then have "\<not> j < unat plen" using p j by linarith
    moreover have "?r ! ?i = 0"
      using 3 j(3) p assms(1) unfolding r by (auto simp: nth_append)
    ultimately show ?thesis unfolding addr_bit_def by simp
  qed
  with length_clear_host [OF assms(1)] show ?thesis by simp
qed

theorem clear_host_address_bits_witness:
  "addr_bit (nm_utils_ip6_address_clear_host_address (replicate 16 0xFF) 60) 59
   \<and> \<not> addr_bit (nm_utils_ip6_address_clear_host_address (replicate 16 0xFF) 60) 60"
proof -
  have l: "length (replicate 16 0xFF :: u8 list) = 16" and p: "(60 :: u8) \<le> 128"
    by (simp_all add: word_le_nat_alt)
  have "bit (mask 8 :: u8) 4" by (simp add: bit_mask_iff)
  moreover have "(mask 8 :: u8) = 0xFF" by (simp add: mask_eq_exp_minus_1)
  ultimately have "addr_bit (replicate 16 0xFF) 59"
    by (simp add: addr_bit_def)
  with clear_host_address_bits [OF l p, of 59] clear_host_address_bits [OF l p, of 60] show ?thesis
    by simp
qed

end
