(* ===== verification/Inet4.thy ===== *)
theory Inet4
  imports Inet
begin

text \<open>
  The other address helpers of \<^verbatim>\<open>nm-shared-utils.c\<close>: IPv4 netmasks, prefixes and classes, and the
  comparison of IPv6 prefixes. An \<^verbatim>\<open>in_addr_t\<close> is a 32-bit word in network byte order, on a
  little-endian machine; \<open>ntohl\<close>, which is also \<^verbatim>\<open>htonl\<close>, reverses its bytes. The theorems relate the
  functions to each other and to the bits of an address.
\<close>

unbundle bit_operations_syntax

section \<open>IPv4\<close>

definition ntohl :: "u32 \<Rightarrow> u32" where
  "ntohl x = push_bit 24 x OR push_bit 16 (take_bit 8 (drop_bit 8 x))
     OR push_bit 8 (take_bit 8 (drop_bit 16 x)) OR drop_bit 24 x"

text \<open>The bytes of an address in memory, and the word that is read from bytes there.\<close>

definition ip_bytes :: "u32 \<Rightarrow> u8 list" where
  "ip_bytes a = [ucast a, ucast (drop_bit 8 a), ucast (drop_bit 16 a), ucast (drop_bit 24 a)]"

definition le_value :: "u8 list \<Rightarrow> u32" where
  "le_value bs = foldr (\<lambda>b v. v * 256 + ucast b) bs 0"

definition nm_utils_ip4_prefix_to_netmask :: "u32 \<Rightarrow> u32" where
  "nm_utils_ip4_prefix_to_netmask prefix =
     (if prefix < 32 then NOT (ntohl (drop_bit (unat prefix) 0xFFFFFFFF)) else 0xFFFFFFFF)"

text \<open>\<^verbatim>\<open>__builtin_ctz\<close>, the number of trailing zeros of a word that is not 0.\<close>

definition builtin_ctz :: "u32 \<Rightarrow> nat" where
  "builtin_ctz x = length (takeWhile (\<lambda>n. \<not> bit x n) [0..<32])"

definition nm_utils_ip4_netmask_to_prefix :: "u32 \<Rightarrow> u32" where
  "nm_utils_ip4_netmask_to_prefix netmask =
     (if netmask \<noteq> 0 then 32 - word_of_nat (builtin_ctz (ntohl netmask)) else 0)"

definition nm_utils_ip4_address_clear_host_address :: "u32 \<Rightarrow> u8 \<Rightarrow> u32" where
  "nm_utils_ip4_address_clear_host_address addr plen =
     addr AND nm_utils_ip4_prefix_to_netmask (ucast plen)"

definition nm_utils_ip4_get_default_prefix :: "u32 \<Rightarrow> u32" where
  "nm_utils_ip4_get_default_prefix ip =
     (if drop_bit 24 (ntohl ip AND 0xFF000000) \<le> 127 then 8
      else if drop_bit 24 (ntohl ip AND 0xFF000000) \<le> 191 then 16
      else 24)"

definition nm_utils_ip4_is_site_local :: "u32 \<Rightarrow> bool" where
  "nm_utils_ip4_is_site_local address =
     (let addr4 = ntohl address
      in addr4 AND 0xff000000 = 0x0a000000
         \<or> addr4 AND 0xfff00000 = 0xac100000
         \<or> addr4 AND 0xffff0000 = 0xc0a80000)"

section \<open>Comparing IPv6 prefixes\<close>

text \<open>The sign of \<^verbatim>\<open>memcmp\<close>, which is all the macro \<^verbatim>\<open>NM_CMP_DIRECT_MEMCMP\<close> returns.\<close>

fun memcmp_sign :: "u8 list \<Rightarrow> u8 list \<Rightarrow> int" where
  "memcmp_sign (a # as) (b # bs) = (if a \<noteq> b then (if a < b then - 1 else 1) else memcmp_sign as bs)"
| "memcmp_sign as bs = 0"

definition nm_utils_ip6_address_same_prefix_cmp :: "u8 list \<Rightarrow> u8 list \<Rightarrow> u8 \<Rightarrow> int" where
  "nm_utils_ip6_address_same_prefix_cmp addr_a addr_b plen =
     (if plen \<ge> 128 then memcmp_sign addr_a addr_b
      else
        (let nbytes = unat plen div 8; nbits = unat plen mod 8;
             c = memcmp_sign (take nbytes addr_a) (take nbytes addr_b)
         in if nbytes \<noteq> 0 \<and> c \<noteq> 0 then c
            else if nbits \<noteq> 0 then
              (let m = NOT (push_bit (8 - nbits) 1 - 1);
                   va = addr_a ! nbytes AND m; vb = addr_b ! nbytes AND m
               in if va \<noteq> vb then (if va < vb then - 1 else 1) else 0)
            else 0))"

section \<open>The bits of an IPv4 address\<close>

text \<open>Bit \<open>j\<close> of an address, counted from the most significant bit of its first byte.\<close>

definition ip4_bit :: "u32 \<Rightarrow> nat \<Rightarrow> bool" where
  "ip4_bit a j = bit (ntohl a) (31 - j)"

lemma bit_ntohl:
  assumes "n < 32"
  shows "bit (ntohl x) n \<longleftrightarrow> bit x (8 * (3 - n div 8) + n mod 8)"
proof -
  consider "n < 8" | "8 \<le> n" "n < 16" | "16 \<le> n" "n < 24" | "24 \<le> n" "n < 32" using assms by linarith
  then show ?thesis
  proof cases
    case 1
    then show ?thesis
      by (auto simp: ntohl_def bit_simps add.commute)
  next
    case 2
    then have d: "n div 8 = 1" by auto
    then have "n mod 8 = n - 8" using div_mult_mod_eq [of n 8] by simp
    with 2 d show ?thesis by (auto simp: ntohl_def bit_simps dest: bit_imp_le_length)
  next
    case 3
    then have d: "n div 8 = 2" by auto
    then have "n mod 8 = n - 16" using div_mult_mod_eq [of n 8] by simp
    with 3 d show ?thesis by (auto simp: ntohl_def bit_simps dest: bit_imp_le_length)
  next
    case 4
    then have d: "n div 8 = 3" by auto
    then have "n mod 8 = n - 24" using div_mult_mod_eq [of n 8] by simp
    with 4 d show ?thesis by (auto simp: ntohl_def bit_simps dest: bit_imp_le_length)
  qed
qed

lemma bit_ntohl_ntohl:
  assumes "n < 32"
  shows "bit (ntohl (NOT (ntohl x))) n \<longleftrightarrow> \<not> bit x n"
proof -
  let ?m = "8 * (3 - n div 8) + n mod 8"
  have m: "?m < 32" using assms by auto
  have "?m div 8 = 3 - n div 8" "?m mod 8 = n mod 8" by auto
  then have "8 * (3 - ?m div 8) + ?m mod 8 = n" using assms by auto
  then show ?thesis using assms m by (simp add: bit_ntohl bit_not_iff)
qed

lemma ntohl_ntohl [simp]: "ntohl (ntohl x) = x"
proof (rule bit_word_eqI)
  fix n assume "n < LENGTH(32)"
  then have n: "n < 32" by simp
  let ?m = "8 * (3 - n div 8) + n mod 8"
  have m: "?m < 32" using n by auto
  have "?m div 8 = 3 - n div 8" "?m mod 8 = n mod 8" by auto
  then have "8 * (3 - ?m div 8) + ?m mod 8 = n" using n by auto
  then show "bit (ntohl (ntohl x)) n = bit x n" using n m by (simp add: bit_ntohl)
qed

lemma unat_byte: "unat (ucast (ucast (drop_bit n a) :: u8) :: u32) = unat (a :: u32) div 2 ^ n mod 256"
proof -
  have "unat (ucast (ucast (drop_bit n a) :: u8) :: u32) = take_bit 8 (unat (drop_bit n a))"
    by (simp add: unsigned_ucast_eq unsigned_take_bit_eq)
  also have "\<dots> = take_bit 8 (drop_bit n (unat a))" by (simp only: unat_drop_bit_eq)
  finally show ?thesis by (simp add: drop_bit_eq_div take_bit_eq_mod)
qed

lemma bytes_sum:
  "(x :: nat) < 2 ^ 32 \<Longrightarrow>
   x mod 256 + 256 * (x div 256 mod 256 + 256 * (x div 65536 mod 256 + 256 * (x div 16777216 mod 256))) = x"
proof -
  assume x: "x < 2 ^ 32"
  define y where "y = x div 256"
  define z where "z = y div 256"
  define w where "w = z div 256"
  have d: "x div 65536 = z" "x div 16777216 = w" by (simp_all add: w_def z_def y_def div_mult2_eq [symmetric])
  have "w < 256" using x by (simp add: d(2) [symmetric] less_mult_imp_div_less)
  then have "w mod 256 = w" by simp
  moreover have "x mod 256 + 256 * y = x" "y mod 256 + 256 * z = y" "z mod 256 + 256 * w = z"
    by (simp_all add: y_def z_def w_def)
  ultimately show ?thesis unfolding d y_def [symmetric] by simp
qed

lemma ip_bytes_roundtrip: "le_value (ip_bytes a) = a"
proof -
  have x: "unat a < 2 ^ 32" using unsigned_less [where 'a = nat, of a] by simp
  have b: "(ucast (ucast (drop_bit n a) :: u8) :: u32) = word_of_nat (unat a div 2 ^ n mod 256)" for n
    unfolding unat_byte [symmetric] by simp
  have "le_value (ip_bytes a) = ucast (ucast (drop_bit 0 a) :: u8) + 256 * (ucast (ucast (drop_bit 8 a) :: u8)
      + 256 * (ucast (ucast (drop_bit 16 a) :: u8) + 256 * ucast (ucast (drop_bit 24 a) :: u8)))"
    by (simp add: le_value_def ip_bytes_def algebra_simps)
  also have "\<dots> = word_of_nat (unat a mod 256 + 256 * (unat a div 256 mod 256 + 256 * (unat a div 65536 mod 256
      + 256 * (unat a div 16777216 mod 256))))"
    unfolding b by simp
  also have "\<dots> = word_of_nat (unat a)" by (simp only: bytes_sum [OF x])
  finally show ?thesis by simp
qed

lemma ip_bytes_zero: "ip_bytes a = [0, 0, 0, 0] \<longleftrightarrow> a = 0"
proof
  assume "ip_bytes a = [0, 0, 0, 0]"
  then have "le_value (ip_bytes a) = 0" by (simp add: le_value_def)
  then show "a = 0" by (simp add: ip_bytes_roundtrip)
qed (simp add: ip_bytes_def)

lemma ip4_bit_and [simp]: "ip4_bit (a AND b) j \<longleftrightarrow> ip4_bit a j \<and> ip4_bit b j"
  by (simp add: ip4_bit_def bit_ntohl bit_and_iff)

lemma ip4_bit_netmask:
  assumes "j < 32" "p \<le> 32"
  shows "ip4_bit (nm_utils_ip4_prefix_to_netmask p) j \<longleftrightarrow> j < unat p"
proof (cases "p < 32")
  case True
  then have p: "unat p < 32" by (simp add: word_less_nat_alt)
  have ff: "(0xFFFFFFFF :: u32) = mask 32" by (simp add: mask_eq_exp_minus_1)
  show ?thesis
    using True assms(1) p unfolding ff
    by (auto simp: nm_utils_ip4_prefix_to_netmask_def ff ip4_bit_def bit_ntohl_ntohl bit_drop_bit_eq bit_mask_iff)
next
  case False
  with assms(2) have p: "p = 32" by simp
  have ff: "(0xFFFFFFFF :: u32) = mask 32" by (simp add: mask_eq_exp_minus_1)
  have "8 * (3 - n div 8) + n mod 8 < 32" for n :: nat
    using mod_less_divisor [of 8 n] by linarith
  then show ?thesis
    using assms(1) p by (simp add: nm_utils_ip4_prefix_to_netmask_def ff ip4_bit_def bit_ntohl bit_mask_iff)
qed

lemma takeWhile_upt:
  assumes "k \<le> n" "\<And>i. i < n \<Longrightarrow> P i \<longleftrightarrow> i < k"
  shows "takeWhile P [0..<n] = [0..<k]"
proof -
  have "[0..<n] = [0..<k] @ [k..<n]" using assms(1) upt_add_eq_append [of 0 k "n - k"] by simp
  moreover have "takeWhile P [k..<n] = []"
    using assms(2) [of k] by (cases "k < n") (auto simp: upt_rec)
  ultimately show ?thesis using assms by (simp add: takeWhile_append)
qed

lemma ctz_netmask:
  assumes "p \<le> 32"
  shows "builtin_ctz (ntohl (nm_utils_ip4_prefix_to_netmask p)) = 32 - unat p"
proof -
  have "\<not> bit (ntohl (nm_utils_ip4_prefix_to_netmask p)) i \<longleftrightarrow> i < 32 - unat p" if "i < 32" for i
    using ip4_bit_netmask [OF _ assms, of "31 - i"] that by (auto simp: ip4_bit_def)
  then show ?thesis by (simp add: builtin_ctz_def takeWhile_upt [where k = "32 - unat p"])
qed

lemma netmask_zero:
  assumes "p \<le> 32"
  shows "nm_utils_ip4_prefix_to_netmask p = 0 \<longleftrightarrow> p = 0"
proof
  assume "nm_utils_ip4_prefix_to_netmask p = 0"
  then have "\<not> ip4_bit (nm_utils_ip4_prefix_to_netmask p) 0" by (simp add: ip4_bit_def ntohl_def)
  then have "unat p = 0" using ip4_bit_netmask [OF _ assms, of 0] by simp
  then show "p = 0" by (simp add: unat_eq_zero)
next
  assume "p = 0"
  then show "nm_utils_ip4_prefix_to_netmask p = 0"
    by (simp add: nm_utils_ip4_prefix_to_netmask_def) (simp add: ntohl_def)
qed

text \<open>
  C22. For every prefix length up to 32, the netmask has exactly the first bits set, the prefix
  length is read back from the netmask, and clearing the host part of an address keeps exactly
  the bits of the prefix.
\<close>

theorem ip4_netmask_correct:
  assumes "p \<le> 32"
  shows "(\<forall>j < 32. ip4_bit (nm_utils_ip4_prefix_to_netmask (ucast p)) j \<longleftrightarrow> j < unat p)
    \<and> nm_utils_ip4_netmask_to_prefix (nm_utils_ip4_prefix_to_netmask (ucast p)) = ucast p
    \<and> (\<forall>j < 32. ip4_bit (nm_utils_ip4_address_clear_host_address addr p) j \<longleftrightarrow> j < unat p \<and> ip4_bit addr j)"
proof -
  have u: "unat (ucast p :: u32) = unat p" by (transfer, simp)
  have p: "(ucast p :: u32) \<le> 32" using assms by (simp add: word_le_nat_alt u)
  have n: "nm_utils_ip4_netmask_to_prefix (nm_utils_ip4_prefix_to_netmask q) = q" if q: "q \<le> 32" for q
  proof (cases "q = 0")
    case True
    then show ?thesis using netmask_zero [OF q] by (simp add: nm_utils_ip4_netmask_to_prefix_def)
  next
    case False
    have "unat q \<le> 32" using q by (simp add: word_le_nat_alt)
    then have "(32 :: u32) - word_of_nat (32 - unat q) = q" by (simp add: of_nat_diff)
    with False show ?thesis
      using netmask_zero [OF q] ctz_netmask [OF q] by (simp add: nm_utils_ip4_netmask_to_prefix_def)
  qed
  show ?thesis
    using p u ip4_bit_netmask [OF _ p] n [OF p]
    by (auto simp: nm_utils_ip4_address_clear_host_address_def)
qed

theorem ip4_netmask_correct_witness:
  "nm_utils_ip4_netmask_to_prefix (nm_utils_ip4_prefix_to_netmask (ucast (24 :: u8))) = ucast (24 :: u8)"
  using ip4_netmask_correct [of 24] by (simp add: word_le_nat_alt)

section \<open>The comparison of prefixes\<close>

lemma memcmp_sign_refl [simp]: "memcmp_sign a a = 0"
  by (induction a) auto

lemma memcmp_sign_zero: "length a = length b \<Longrightarrow> memcmp_sign a b = 0 \<longleftrightarrow> a = b"
  by (induction a b rule: list_induct2) auto

lemma memcmp_sign_append:
  "length a = length b \<Longrightarrow>
   memcmp_sign (a @ c) (b @ d) = (if memcmp_sign a b \<noteq> 0 then memcmp_sign a b else memcmp_sign c d)"
  by (induction a b rule: list_induct2) auto

lemma host_mask:
  assumes "0 < b" "b < 8"
  shows "NOT (push_bit (8 - b) 1 - 1) = push_bit (8 - b) (0xFF :: u8)"
proof (rule bit_eqI)
  fix n assume "possible_bit TYPE(u8) n"
  then have n: "n < 8" by simp
  have ff: "(0xFF :: u8) = mask 8" by (simp add: mask_eq_exp_minus_1)
  have "push_bit (8 - b) 1 - 1 = (mask (8 - b) :: u8)" by (simp add: mask_eq_exp_minus_1 push_bit_eq_mult)
  then show "bit (NOT (push_bit (8 - b) 1 - 1) :: u8) n = bit (push_bit (8 - b) (0xFF :: u8)) n"
    using n assms by (auto simp: ff bit_not_iff bit_mask_iff bit_push_bit_iff)
qed

text \<open>
  Comparing two IPv6 addresses up to a prefix length gives the same result as comparing the
  addresses with their host parts cleared.
\<close>

theorem same_prefix_cmp_clear_host:
  assumes "length a = 16" "length b = 16" "plen \<le> 128"
  shows "nm_utils_ip6_address_same_prefix_cmp a b plen =
    memcmp_sign (nm_utils_ip6_address_clear_host_address a plen)
      (nm_utils_ip6_address_clear_host_address b plen)"
proof (cases "plen < 128")
  case False
  then have "128 \<le> plen" by simp
  with False show ?thesis
    by (simp add: nm_utils_ip6_address_same_prefix_cmp_def nm_utils_ip6_address_clear_host_address_def)
next
  case True
  let ?n = "unat plen div 8" and ?b = "unat plen mod 8"
  have nle: "\<not> 128 \<le> plen" using True by simp
  have n: "?n < 16" using unat_u8_lt_128 [OF True] by simp
  have m: "?b \<noteq> 0 \<Longrightarrow> NOT (push_bit (8 - ?b) 1 - 1) = push_bit (8 - ?b) (0xFF :: u8)"
    by (rule host_mask) auto
  have l: "length (take ?n a) = length (take ?n b)" using assms by simp
  show ?thesis
  proof (cases "?b = 0")
    case b: True
    then show ?thesis
      using True n assms(1,2) l
      by (simp add: nm_utils_ip6_address_same_prefix_cmp_def nm_utils_ip6_address_clear_host_address_def
          Let_def memcmp_sign_append nle)
  next
    case b: False
    then show ?thesis
      using True n assms(1,2) l m [OF b]
      by (simp add: nm_utils_ip6_address_same_prefix_cmp_def nm_utils_ip6_address_clear_host_address_def
          Let_def memcmp_sign_append nle)
  qed
qed

theorem same_prefix_cmp_clear_host_witness:
  "nm_utils_ip6_address_same_prefix_cmp (replicate 16 0xFE) (replicate 16 0xFF) 63 =
    memcmp_sign (nm_utils_ip6_address_clear_host_address (replicate 16 0xFE) 63)
      (nm_utils_ip6_address_clear_host_address (replicate 16 0xFF) 63)"
  by (rule same_prefix_cmp_clear_host) (simp_all add: word_le_nat_alt)

end
