(* ===== verification/Ndisc_Data.thy ===== *)
theory Ndisc_Data
  imports Prelude
begin

unbundle bit_operations_syntax

text \<open>
  The data kept by router discovery (\<^verbatim>\<open>NetworkManager/src/ndisc/nm-ndisc.c\<close>) and the
  operations that merge one advertised item into it: gateways, autoconf addresses, routes,
  DNS servers and DNS domains. Every item has a timestamp and a lifetime in seconds; the
  arrays of \<^verbatim>\<open>NMNDiscDataInternal\<close> are lists. The main results are

  \<^item> the locale \<open>expiring_store\<close>, the contract of an \<^emph>\<open>add\<close> operation seen through the map
    from an item's key to what matters of it, and its interpretation on gateways, routes,
    DNS servers and DNS domains;
  \<^item> the invariant the code asserts of the gateways (\<open>data_gateways_ok\<close>), kept by every add;
  \<^item> the lifetime rule of RFC 4862 section 5.5.3 (e) for autoconf addresses and the bound on
    their number.

  A \<^verbatim>\<open>gint64\<close> expiry is an \<^typ>\<open>int\<close>: it is a sum of two 32-bit values or the constant
  \<open>EXPIRY_INFINITY\<close>, so it never overflows. An IPv6 address is the list of its 16 bytes.
\<close>

section \<open>Types\<close>

type_synonym in6_addr = "u8 list"

datatype NMIcmpv6RouterPref =
    NM_ICMPV6_ROUTER_PREF_MEDIUM
  | NM_ICMPV6_ROUTER_PREF_LOW
  | NM_ICMPV6_ROUTER_PREF_HIGH
  | NM_ICMPV6_ROUTER_PREF_INVALID

datatype NMNDiscDHCPLevel =
    NM_NDISC_DHCP_LEVEL_UNKNOWN
  | NM_NDISC_DHCP_LEVEL_NONE
  | NM_NDISC_DHCP_LEVEL_OTHERCONF
  | NM_NDISC_DHCP_LEVEL_MANAGED

datatype NMSettingIP6ConfigAddrGenMode =
    ADDR_GEN_MODE_EUI64
  | ADDR_GEN_MODE_STABLE_PRIVACY

datatype NMUtilsStableType =
    NM_UTILS_STABLE_TYPE_UUID
  | NM_UTILS_STABLE_TYPE_STABLE_ID
  | NM_UTILS_STABLE_TYPE_GENERATED
  | NM_UTILS_STABLE_TYPE_RANDOM

text \<open>The order the code relies on when it keeps the most managed DHCP level.\<close>

primrec dhcp_level_rank :: "NMNDiscDHCPLevel \<Rightarrow> nat" where
  "dhcp_level_rank NM_NDISC_DHCP_LEVEL_UNKNOWN = 0"
| "dhcp_level_rank NM_NDISC_DHCP_LEVEL_NONE = 1"
| "dhcp_level_rank NM_NDISC_DHCP_LEVEL_OTHERCONF = 2"
| "dhcp_level_rank NM_NDISC_DHCP_LEVEL_MANAGED = 3"

lemma dhcp_level_rank_inj: "dhcp_level_rank a = dhcp_level_rank b \<Longrightarrow> a = b"
  by (cases a; cases b) simp_all

instantiation NMNDiscDHCPLevel :: linorder
begin

definition less_eq_NMNDiscDHCPLevel :: "NMNDiscDHCPLevel \<Rightarrow> NMNDiscDHCPLevel \<Rightarrow> bool" where
  "less_eq_NMNDiscDHCPLevel a b = (dhcp_level_rank a \<le> dhcp_level_rank b)"

definition less_NMNDiscDHCPLevel :: "NMNDiscDHCPLevel \<Rightarrow> NMNDiscDHCPLevel \<Rightarrow> bool" where
  "less_NMNDiscDHCPLevel a b = (dhcp_level_rank a < dhcp_level_rank b)"

instance
  by standard
    (auto simp: less_eq_NMNDiscDHCPLevel_def less_NMNDiscDHCPLevel_def dhcp_level_rank_inj)

end

record NMNDiscGateway =
  gw_address :: in6_addr
  gw_timestamp :: u32
  gw_lifetime :: u32
  gw_preference :: NMIcmpv6RouterPref

record NMNDiscAddress =
  ad_address :: in6_addr
  ad_dad_counter :: u8
  ad_timestamp :: u32
  ad_lifetime :: u32
  ad_preferred :: u32

record NMNDiscRoute =
  rt_network :: in6_addr
  rt_plen :: u8
  rt_gateway :: in6_addr
  rt_timestamp :: u32
  rt_lifetime :: u32
  rt_preference :: NMIcmpv6RouterPref

record NMNDiscDNSServer =
  ds_address :: in6_addr
  ds_timestamp :: u32
  ds_lifetime :: u32

record NMNDiscDNSDomain =
  dd_domain :: string
  dd_timestamp :: u32
  dd_lifetime :: u32

record NMNDiscData =
  dhcp_level :: NMNDiscDHCPLevel
  mtu :: u32
  hop_limit :: int
  reachable_time_ms :: u32
  retrans_timer_ms :: u32
  gateways :: "NMNDiscGateway list"
  addresses :: "NMNDiscAddress list"
  routes :: "NMNDiscRoute list"
  dns_servers :: "NMNDiscDNSServer list"
  dns_domains :: "NMNDiscDNSDomain list"

section \<open>Priorities and expiry times\<close>

definition preference_to_priority :: "NMIcmpv6RouterPref \<Rightarrow> nat" where
  "preference_to_priority pref =
     (case pref of
        NM_ICMPV6_ROUTER_PREF_LOW \<Rightarrow> 1
      | NM_ICMPV6_ROUTER_PREF_MEDIUM \<Rightarrow> 2
      | NM_ICMPV6_ROUTER_PREF_HIGH \<Rightarrow> 3
      | NM_ICMPV6_ROUTER_PREF_INVALID \<Rightarrow> 0)"

definition G_MAXINT32 :: int where
  "G_MAXINT32 = 2147483647"

definition G_MAXUINT32 :: int where
  "G_MAXUINT32 = 4294967295"

definition NM_NDISC_INFINITY :: u32 where
  "NM_NDISC_INFINITY = 4294967295"

definition EXPIRY_INFINITY :: int where
  "EXPIRY_INFINITY = 9223372036854775807"

definition get_expiry_time :: "u32 \<Rightarrow> u32 \<Rightarrow> int" where
  "get_expiry_time timestamp lifetime =
     (if lifetime = NM_NDISC_INFINITY then EXPIRY_INFINITY
      else uint timestamp + uint lifetime)"

definition get_expiry_half_time :: "u32 \<Rightarrow> u32 \<Rightarrow> int" where
  "get_expiry_half_time timestamp lifetime =
     (if lifetime = NM_NDISC_INFINITY then EXPIRY_INFINITY
      else get_expiry_time timestamp (lifetime div 2))"

definition gw_expiry :: "NMNDiscGateway \<Rightarrow> int" where
  "gw_expiry g = get_expiry_time (gw_timestamp g) (gw_lifetime g)"

definition ad_expiry :: "NMNDiscAddress \<Rightarrow> int" where
  "ad_expiry a = get_expiry_time (ad_timestamp a) (ad_lifetime a)"

definition ad_expiry_preferred :: "NMNDiscAddress \<Rightarrow> int" where
  "ad_expiry_preferred a = get_expiry_time (ad_timestamp a) (ad_preferred a)"

definition rt_expiry :: "NMNDiscRoute \<Rightarrow> int" where
  "rt_expiry r = get_expiry_time (rt_timestamp r) (rt_lifetime r)"

definition ds_expiry :: "NMNDiscDNSServer \<Rightarrow> int" where
  "ds_expiry d = get_expiry_time (ds_timestamp d) (ds_lifetime d)"

definition dd_expiry :: "NMNDiscDNSDomain \<Rightarrow> int" where
  "dd_expiry d = get_expiry_time (dd_timestamp d) (dd_lifetime d)"

section \<open>Gateways and routes\<close>

text \<open>
  The loop that \<^verbatim>\<open>nm_ndisc_add_gateway\<close> and \<^verbatim>\<open>nm_ndisc_add_route\<close> both contain. Its
  parameters are the comparisons in which the two differ: \<open>same\<close> (the item has the key of the
  new one), \<open>prefdiff\<close> (its preference differs), \<open>kept\<close> (nothing to update) and \<open>lower\<close> (its
  priority is lower); \<open>dead\<close> says that the new item has lifetime 0. The index \<open>i\<close> walks the
  array; \<open>ins\<close> is \<^verbatim>\<open>insert_idx\<close> with \<^verbatim>\<open>G_MAXUINT\<close> as \<^term>\<open>None\<close>. \<^term>\<open>Inl\<close> is an early
  return of the function (its value and the array), \<^term>\<open>Inr\<close> the end of the loop.
\<close>

function pref_scan ::
  "('i \<Rightarrow> bool) \<Rightarrow> ('i \<Rightarrow> bool) \<Rightarrow> ('i \<Rightarrow> bool) \<Rightarrow> ('i \<Rightarrow> bool) \<Rightarrow> bool \<Rightarrow> 'i \<Rightarrow>
   'i list \<Rightarrow> nat \<Rightarrow> nat option \<Rightarrow> (bool \<times> 'i list) + ('i list \<times> nat option)" where
  "pref_scan same prefdiff kept lower dead new xs i ins =
     (if i < length xs then
        (let item = xs ! i in
         if same item then
           (if dead then Inl (True, remove_index i xs)
            else if prefdiff item then
              pref_scan same prefdiff kept lower dead new (remove_index i xs) i ins
            else if kept item then Inl (False, xs)
            else Inl (True, xs[i := new]))
         else pref_scan same prefdiff kept lower dead new xs (Suc i)
                (if lower item \<and> ins = None then Some i else ins))
      else Inr (xs, ins))"
  by pat_completeness auto
termination
  by (relation "measure (\<lambda>(s, p, k, l, d, n, xs, i, ins). length xs - i)") auto

declare pref_scan.simps [simp del]

definition nm_ndisc_add_gateway ::
  "NMNDiscGateway \<Rightarrow> NMNDiscGateway list \<Rightarrow> bool \<times> NMNDiscGateway list" where
  "nm_ndisc_add_gateway new gws =
     (case pref_scan
             (\<lambda>item. gw_address item = gw_address new)
             (\<lambda>item. gw_preference item \<noteq> gw_preference new)
             (\<lambda>item. gw_expiry item = gw_expiry new)
             (\<lambda>item. preference_to_priority (gw_preference item)
                       < preference_to_priority (gw_preference new))
             (gw_lifetime new = 0) new gws 0 None of
        Inl r \<Rightarrow> r
      | Inr (gws', insert_idx) \<Rightarrow>
          if gw_lifetime new \<noteq> 0 then
            (True, insert_val gws'
                     (case insert_idx of None \<Rightarrow> length gws' | Some j \<Rightarrow> j) new)
          else (False, gws'))"

definition nm_ndisc_add_route ::
  "NMNDiscRoute \<Rightarrow> NMNDiscRoute list \<Rightarrow> bool \<times> NMNDiscRoute list" where
  "nm_ndisc_add_route new rts =
     (if rt_plen new = 0 \<or> rt_plen new > 128 then (False, rts)
      else case pref_scan
             (\<lambda>item. rt_network item = rt_network new \<and> rt_plen item = rt_plen new)
             (\<lambda>item. rt_preference item \<noteq> rt_preference new)
             (\<lambda>item. rt_expiry item = rt_expiry new \<and> rt_gateway item = rt_gateway new)
             (\<lambda>item. preference_to_priority (rt_preference item)
                       < preference_to_priority (rt_preference new))
             (rt_lifetime new = 0) new rts 0 None of
        Inl r \<Rightarrow> r
      | Inr (rts', insert_idx) \<Rightarrow>
          if rt_lifetime new \<noteq> 0 then
            (True, insert_val rts' (case insert_idx of None \<Rightarrow> 0 | Some j \<Rightarrow> j) new)
          else (False, rts'))"

section \<open>DNS servers and domains\<close>

definition nm_ndisc_add_dns_server ::
  "NMNDiscDNSServer \<Rightarrow> NMNDiscDNSServer list \<Rightarrow> bool \<times> NMNDiscDNSServer list" where
  "nm_ndisc_add_dns_server new ds =
     (case first_idx (\<lambda>item. ds_address item = ds_address new) 0 ds of
        Some i \<Rightarrow>
          if ds_lifetime new = 0 then (True, remove_index i ds)
          else if ds_expiry (ds ! i) = ds_expiry new then (False, ds)
          else (True, ds[i := new])
      | None \<Rightarrow>
          if ds_lifetime new \<noteq> 0 then (True, ds @ [new]) else (False, ds))"

definition nm_ndisc_add_dns_domain ::
  "NMNDiscDNSDomain \<Rightarrow> NMNDiscDNSDomain list \<Rightarrow> bool \<times> NMNDiscDNSDomain list" where
  "nm_ndisc_add_dns_domain new dd =
     (case first_idx (\<lambda>item. dd_domain item = dd_domain new) 0 dd of
        Some i \<Rightarrow>
          if dd_lifetime new = 0 then (True, remove_index i dd)
          else if dd_expiry (dd ! i) = dd_expiry new then (False, dd)
          else (True, dd[i := (dd ! i)\<lparr>dd_timestamp := dd_timestamp new,
                                       dd_lifetime := dd_lifetime new\<rparr>])
      | None \<Rightarrow>
          if dd_lifetime new \<noteq> 0 then (True, dd @ [new]) else (False, dd))"

section \<open>The private state\<close>

datatype NMNDiscNodeType =
    NM_NDISC_NODE_TYPE_INVALID
  | NM_NDISC_NODE_TYPE_HOST
  | NM_NDISC_NODE_TYPE_ROUTER

text \<open>The callbacks a pending send timer can have, and the signals the object emits.\<close>

datatype ndisc_callback = Cb_send_rs_timeout | Cb_announce_router

datatype ndisc_signal =
    CONFIG_RECEIVED NMNDiscData u32
  | RA_TIMEOUT_SIGNAL

text \<open>
  The C struct overlays three pairs of fields in unions (those of a host and those of a
  router); each pair is one field here: \<open>sends_left\<close> is \<^verbatim>\<open>solicitations_left\<close> and
  \<^verbatim>\<open>announcements_left\<close>, \<open>send_id\<close> is \<^verbatim>\<open>send_rs_id\<close> and \<^verbatim>\<open>send_ra_id\<close>, \<open>last_send\<close> is
  \<^verbatim>\<open>last_rs\<close> and \<^verbatim>\<open>last_ra\<close>. A source id is \<^term>\<open>None\<close> for 0 and otherwise the delay (in
  milliseconds) the source was armed with, together with its callback where two callbacks share
  the field. \<open>signals\<close> is the sequence of signals emitted so far, oldest first.
\<close>

record NMNDiscPrivate =
  rdata :: NMNDiscData
  sends_left :: int
  send_id :: "(ndisc_callback \<times> int) option"
  last_send :: int
  ra_timeout_id :: "int option"
  timeout_id :: "int option"
  last_error :: "string option"
  iid :: "u8 list"
  ifname :: string
  network_id :: string
  addr_gen_mode :: NMSettingIP6ConfigAddrGenMode
  stable_type :: NMUtilsStableType
  ra_timeout :: int
  max_addresses :: int
  router_solicitations :: int
  router_solicitation_interval :: int
  node_type :: NMNDiscNodeType
  signals :: "ndisc_signal list"

section \<open>Autoconf addresses\<close>

text \<open>
  \<open>idgen\<close> stands for the keyed hash of \<^verbatim>\<open>_set_stable_privacy\<close> (SHA-256 over the stable type, the
  prefix, the interface name, the network id, the DAD counter and the host id, rehashed while
  the result is a reserved identifier): the eight bytes of interface identifier it yields. The
  hash function and the host id come from outside the sources.
\<close>

type_synonym idgen = "NMUtilsStableType \<Rightarrow> u8 list \<Rightarrow> string \<Rightarrow> string \<Rightarrow> u32 \<Rightarrow> u8 list"

definition RFC7217_IDGEN_RETRIES :: u32 where
  "RFC7217_IDGEN_RETRIES = 3"

definition nm_utils_ipv6_addr_set_stable_privacy ::
  "idgen \<Rightarrow> NMUtilsStableType \<Rightarrow> in6_addr \<Rightarrow> string \<Rightarrow> string \<Rightarrow> u32 \<Rightarrow> in6_addr option" where
  "nm_utils_ipv6_addr_set_stable_privacy idgen stype addr ifn netid dad_counter =
     (if dad_counter \<ge> RFC7217_IDGEN_RETRIES then None
      else Some (take 8 addr @ take 8 (idgen stype (take 8 addr) ifn netid dad_counter)))"

definition nm_utils_ipv6_addr_set_interface_identifier :: "in6_addr \<Rightarrow> u8 list \<Rightarrow> in6_addr" where
  "nm_utils_ipv6_addr_set_interface_identifier addr ident = take 8 addr @ take 8 ident"

definition complete_address ::
  "idgen \<Rightarrow> NMNDiscPrivate \<Rightarrow> NMNDiscAddress \<Rightarrow> bool \<times> NMNDiscAddress" where
  "complete_address idgen priv addr =
     (if addr_gen_mode priv = ADDR_GEN_MODE_STABLE_PRIVACY then
        (let addr' = addr\<lparr>ad_dad_counter := ad_dad_counter addr + 1\<rparr> in
         case nm_utils_ipv6_addr_set_stable_privacy idgen (stable_type priv) (ad_address addr)
                (ifname priv) (network_id priv) (ucast (ad_dad_counter addr)) of
           None \<Rightarrow> (False, addr')
         | Some a \<Rightarrow> (True, addr'\<lparr>ad_address := a\<rparr>))
      else if list_all (\<lambda>b. b = 0) (iid priv) then (False, addr)
      else if list_all (\<lambda>b. b = 0) (drop 8 (ad_address addr)) then
        (True, addr\<lparr>ad_address :=
                  nm_utils_ipv6_addr_set_interface_identifier (ad_address addr) (iid priv)\<rparr>)
      else (False, addr))"

definition NM_NDISC_PREFIX_LFT_MIN :: int where
  "NM_NDISC_PREFIX_LFT_MIN = 7200"

text \<open>\<^verbatim>\<open>CLAMP (x, 0, G_MAXUINT32 - 1)\<close>, stored in an unsigned 32-bit field.\<close>

definition clamp_lifetime :: "int \<Rightarrow> u32" where
  "clamp_lifetime x =
     word_of_int (if x > G_MAXUINT32 - 1 then G_MAXUINT32 - 1 else if x < 0 then 0 else x)"

text \<open>The block that a router advertisement runs on an address that is already known.\<close>

definition ra_update_lifetime :: "NMNDiscAddress \<Rightarrow> NMNDiscAddress \<Rightarrow> int \<Rightarrow> NMNDiscAddress" where
  "ra_update_lifetime existing new now_s =
     (if ad_lifetime new = NM_NDISC_INFINITY then existing\<lparr>ad_lifetime := NM_NDISC_INFINITY\<rparr>
      else
        (let remaining_lifetime =
               (if ad_lifetime existing = NM_NDISC_INFINITY then EXPIRY_INFINITY
                else uint (ad_timestamp existing) + uint (ad_lifetime existing) - now_s);
             new_lifetime = uint (ad_timestamp new) + uint (ad_lifetime new) - now_s
         in if new_lifetime > NM_NDISC_PREFIX_LFT_MIN \<or> new_lifetime > remaining_lifetime then
              existing\<lparr>ad_timestamp := word_of_int now_s, ad_lifetime := clamp_lifetime new_lifetime\<rparr>
            else if remaining_lifetime \<le> NM_NDISC_PREFIX_LFT_MIN then existing
            else existing\<lparr>ad_timestamp := word_of_int now_s,
                          ad_lifetime := word_of_int NM_NDISC_PREFIX_LFT_MIN\<rparr>))"

definition ra_update_preferred :: "NMNDiscAddress \<Rightarrow> NMNDiscAddress \<Rightarrow> NMNDiscAddress" where
  "ra_update_preferred existing new =
     (if ad_preferred new = NM_NDISC_INFINITY then existing\<lparr>ad_preferred := ad_preferred new\<rparr>
      else
        (let preferred = clamp_lifetime
               (uint (ad_timestamp new) + uint (ad_preferred new) - uint (ad_timestamp existing))
         in if ad_lifetime existing \<noteq> NM_NDISC_INFINITY
            then existing\<lparr>ad_preferred := min preferred (ad_lifetime existing)\<rparr>
            else existing\<lparr>ad_preferred := preferred\<rparr>))"

definition ra_update_address :: "NMNDiscAddress \<Rightarrow> NMNDiscAddress \<Rightarrow> int \<Rightarrow> NMNDiscAddress" where
  "ra_update_address existing new now_s =
     ra_update_preferred (ra_update_lifetime existing new now_s) new"

definition nm_ndisc_add_address ::
  "idgen \<Rightarrow> NMNDiscPrivate \<Rightarrow> NMNDiscAddress \<Rightarrow> int \<Rightarrow> bool \<Rightarrow> bool \<times> NMNDiscPrivate" where
  "nm_ndisc_add_address idgen priv new now_s from_ra =
     (let addrs = addresses (rdata priv);
          store = (\<lambda>as. priv\<lparr>rdata := (rdata priv)\<lparr>addresses := as\<rparr>\<rparr>) in
      case first_idx
             (\<lambda>item. if from_ra then take 8 (ad_address item) = take 8 (ad_address new)
                     else ad_address item = ad_address new) 0 addrs of
        Some i \<Rightarrow>
          (let existing = addrs ! i in
           if from_ra then
             (let existing' = ra_update_address existing new now_s in
              (ad_expiry existing \<noteq> ad_expiry existing'
                 \<or> ad_expiry_preferred existing \<noteq> ad_expiry_preferred existing',
               store (addrs[i := existing'])))
           else if ad_lifetime new = 0 then (True, store (remove_index i addrs))
           else if ad_expiry existing = ad_expiry new
                \<and> ad_expiry_preferred existing = ad_expiry_preferred new then (False, priv)
           else (True, store (addrs[i := existing\<lparr>ad_timestamp := ad_timestamp new,
                                                  ad_lifetime := ad_lifetime new,
                                                  ad_preferred := ad_preferred new\<rparr>])))
      | None \<Rightarrow>
          if max_addresses priv \<noteq> 0 \<and> int (length addrs) \<ge> max_addresses priv then (False, priv)
          else if ad_lifetime new = 0 then (False, priv)
          else if from_ra then
            (case complete_address idgen priv (new\<lparr>ad_dad_counter := 0\<rparr>) of
               (False, _) \<Rightarrow> (False, priv)
             | (True, new2) \<Rightarrow> (True, store (addrs @ [new2])))
          else (True, store (addrs @ [new])))"

definition nm_ndisc_complete_and_add_address ::
  "idgen \<Rightarrow> NMNDiscPrivate \<Rightarrow> NMNDiscAddress \<Rightarrow> int \<Rightarrow> bool \<times> NMNDiscPrivate" where
  "nm_ndisc_complete_and_add_address idgen priv new now_s =
     nm_ndisc_add_address idgen priv new now_s True"

section \<open>What the scan computes\<close>

lemma pref_scan_skip:
  assumes "\<forall>u\<in>set us. \<not> same u"
  shows "pref_scan same pd kp lower dead new (ps @ us @ vs) (length ps) ins =
         pref_scan same pd kp lower dead new (ps @ us @ vs) (length (ps @ us))
           (case ins of None \<Rightarrow> first_idx lower (length ps) us | Some j \<Rightarrow> Some j)"
  using assms
proof (induction us arbitrary: ps ins)
  case Nil
  then show ?case by (cases ins) simp_all
next
  case (Cons u us)
  let ?ins = "if lower u \<and> ins = None then Some (length ps) else ins"
  have "pref_scan same pd kp lower dead new (ps @ (u # us) @ vs) (length ps) ins =
        pref_scan same pd kp lower dead new ((ps @ [u]) @ us @ vs) (length (ps @ [u])) ?ins"
    using Cons.prems by (subst pref_scan.simps) (simp add: nth_append)
  also have "\<dots> = pref_scan same pd kp lower dead new ((ps @ [u]) @ us @ vs)
      (length ((ps @ [u]) @ us))
      (case ?ins of None \<Rightarrow> first_idx lower (length (ps @ [u])) us | Some j \<Rightarrow> Some j)"
    using Cons.prems by (intro Cons.IH) simp
  finally show ?case by (cases ins) simp_all
qed

lemma pref_scan_end: "pref_scan same pd kp lower dead new xs (length xs) ins = Inr (xs, ins)"
  by (subst pref_scan.simps) simp

text \<open>No item has the key: the scan finds where the items of lower priority begin.\<close>

lemma pref_scan_absent:
  assumes "\<forall>u\<in>set xs. \<not> same u"
  shows "pref_scan same pd kp lower dead new xs 0 None = Inr (xs, first_idx lower 0 xs)"
  using pref_scan_skip [OF assms, of pd kp lower dead new "[]" "[]" None]
  by (simp add: pref_scan_end)

text \<open>Exactly one item \<open>y\<close> has the key.\<close>

lemma pref_scan_present:
  assumes us: "\<forall>u\<in>set us. \<not> same u" and vs: "\<forall>v\<in>set vs. \<not> same v" and y: "same y"
  shows "pref_scan same pd kp lower dead new (us @ y # vs) 0 None =
         (if dead then Inl (True, us @ vs)
          else if pd y then Inr (us @ vs, first_idx lower 0 (us @ vs))
          else if kp y then Inl (False, us @ y # vs)
          else Inl (True, us @ new # vs))"
proof -
  let ?scan = "pref_scan same pd kp lower dead new"
  let ?ins = "first_idx lower 0 us"
  have 1: "?scan (us @ y # vs) 0 None = ?scan (us @ y # vs) (length us) ?ins"
    using pref_scan_skip [OF us, of pd kp lower dead new "[]" "y # vs" None] by simp
  have 2: "?scan (us @ vs) (length us) ?ins = Inr (us @ vs, first_idx lower 0 (us @ vs))"
    using pref_scan_skip [OF vs, of pd kp lower dead new us "[]" ?ins]
      pref_scan_end [of same pd kp lower dead new "us @ vs"]
    by (simp add: first_idx_append split: option.split)
  show ?thesis
    unfolding 1 using 2 by (subst pref_scan.simps) (auto simp: y array_ops)
qed

section \<open>Insert, replace, move or withdraw\<close>

text \<open>
  The outcomes an add operation can have on a list whose keys are distinct: \<open>dead\<close> items
  withdraw their key, an item whose observable part is already present changes nothing, and
  otherwise the item is inserted, replaced in place, or removed and inserted elsewhere.
\<close>

inductive upsert ::
  "('i \<Rightarrow> 'k) \<Rightarrow> ('i \<Rightarrow> 'o) \<Rightarrow> bool \<Rightarrow> 'i \<Rightarrow> 'i list \<Rightarrow> bool \<times> 'i list \<Rightarrow> bool"
  for key obs dead new where
  absent_dead: "key new \<notin> key ` set xs \<Longrightarrow> dead \<Longrightarrow> upsert key obs dead new xs (False, xs)"
| absent_live: "key new \<notin> key ` set xs \<Longrightarrow> \<not> dead \<Longrightarrow>
    upsert key obs dead new xs (True, insert_val xs p new)"
| present_dead: "key y = key new \<Longrightarrow> dead \<Longrightarrow>
    upsert key obs dead new (us @ y # vs) (True, us @ vs)"
| present_same: "key y = key new \<Longrightarrow> \<not> dead \<Longrightarrow> obs y = obs new \<Longrightarrow>
    upsert key obs dead new (us @ y # vs) (False, us @ y # vs)"
| present_move: "key y = key new \<Longrightarrow> \<not> dead \<Longrightarrow> obs y \<noteq> obs new \<Longrightarrow>
    upsert key obs dead new (us @ y # vs) (True, insert_val (us @ vs) p new)"
| present_replace: "key y = key new \<Longrightarrow> \<not> dead \<Longrightarrow> obs y \<noteq> obs new \<Longrightarrow>
    key z = key new \<Longrightarrow> obs z = obs new \<Longrightarrow>
    upsert key obs dead new (us @ y # vs) (True, us @ z # vs)"

lemma distinct_insert_val:
  assumes "key new \<notin> key ` set xs" "distinct (map key xs)"
  shows "distinct (map key (insert_val xs p new))"
proof -
  have "distinct (map key (take p xs) @ map key (drop p xs))"
    using assms(2) by (simp flip: map_append)
  with assms(1) show ?thesis
    by (auto simp: insert_val_def dest: in_set_takeD in_set_dropD)
qed

lemma view_insert_val:
  assumes "key new \<notin> key ` set xs"
  shows "view key obs (insert_val xs p new) = (view key obs xs)(key new \<mapsto> obs new)"
proof -
  have "key new \<notin> key ` set (take p xs)" "key new \<notin> key ` set (drop p xs)"
    using assms by (auto dest: in_set_takeD in_set_dropD)
  from view_insert_distinct [OF this] show ?thesis
    by (simp add: insert_val_def flip: view_append)
qed

lemma upsert_distinct:
  assumes "upsert key obs dead new xs r" "distinct (map key xs)"
  shows "distinct (map key (snd r))"
  using assms by (cases rule: upsert.cases) (auto intro!: distinct_insert_val)

lemma upsert_view:
  assumes "upsert key obs dead new xs r" "distinct (map key xs)"
  shows "view key obs (snd r) =
         (view key obs xs)(key new := (if dead then None else Some (obs new)))"
  using assms
proof (cases rule: upsert.cases)
  case (absent_dead)
  then show ?thesis by (simp add: view_notin fun_upd_idem)
next
  case (absent_live p)
  then show ?thesis by (simp add: view_insert_val)
next
  case (present_dead y us vs)
  with assms(2) show ?thesis
    using view_remove_distinct [of key y us vs obs] by auto
next
  case (present_same y us vs)
  with assms(2) show ?thesis
    using view_insert_distinct [of key y us vs obs] by auto
next
  case (present_move y us vs p)
  with assms(2) show ?thesis
    using view_insert_distinct [of key y us vs obs] view_insert_val [of key new "us @ vs" obs p]
    by auto
next
  case (present_replace y z us vs)
  with assms(2) show ?thesis
    using view_insert_distinct [of key y us vs obs] view_insert_distinct [of key z us vs obs]
    by auto
qed

lemma upsert_changed:
  assumes "upsert key obs dead new xs r" "distinct (map key xs)"
  shows "fst r = (view key obs (snd r) \<noteq> view key obs xs)"
proof -
  have at: "view key obs (us @ y # vs) (key new) = Some (obs y)"
    if "distinct (map key (us @ y # vs))" "key y = key new" for us y vs
    using that view_insert_distinct [of key y us vs obs] by auto
  have "view key obs xs (key new) = (if dead then None else Some (obs new)) \<longleftrightarrow> \<not> fst r"
    using assms by (cases rule: upsert.cases) (simp_all add: view_notin at del: view_append)
  then show ?thesis
    unfolding upsert_view [OF assms] by (simp add: fun_upd_idem_iff)
qed

lemmas upsert_laws = upsert_distinct upsert_view upsert_changed

section \<open>The contract of an add operation\<close>

text \<open>
  An item is identified by its \<open>key\<close>; \<open>obs\<close> is what clients observe of it (its expiry and
  preference, not the pair of timestamp and lifetime that encodes the expiry). Adding an item
  of lifetime 0 withdraws the key, adding any other item makes the store show it under its key,
  and nothing else changes. The operation returns whether what the store shows has changed,
  which is what decides whether a configuration change is signalled.
\<close>

locale expiring_store =
  fixes key :: "'i \<Rightarrow> 'k"
    and obs :: "'i \<Rightarrow> 'o"
    and lifetime :: "'i \<Rightarrow> u32"
    and valid :: "'i \<Rightarrow> bool"
    and add :: "'i \<Rightarrow> 'i list \<Rightarrow> bool \<times> 'i list"
  assumes add_distinct:
      "valid new \<Longrightarrow> distinct (map key xs) \<Longrightarrow> distinct (map key (snd (add new xs)))"
    and add_view:
      "valid new \<Longrightarrow> distinct (map key xs) \<Longrightarrow>
       view key obs (snd (add new xs)) =
         (view key obs xs)(key new := (if lifetime new = 0 then None else Some (obs new)))"
    and add_changed:
      "valid new \<Longrightarrow> distinct (map key xs) \<Longrightarrow>
       fst (add new xs) = (view key obs (snd (add new xs)) \<noteq> view key obs xs)"
begin

definition add_all :: "'i list \<Rightarrow> 'i list \<Rightarrow> 'i list" where
  "add_all news xs = foldl (\<lambda>acc new. snd (add new acc)) xs news"

lemma add_all_simps [simp]:
  "add_all [] xs = xs"
  "add_all (n # ns) xs = add_all ns (snd (add n xs))"
  by (simp_all add: add_all_def)

lemma add_all_distinct:
  "\<forall>n\<in>set news. valid n \<Longrightarrow> distinct (map key xs) \<Longrightarrow> distinct (map key (add_all news xs))"
  by (induction news arbitrary: xs) (simp_all add: add_distinct)

text \<open>After a sequence of adds, the store shows the last advertisement of every key.\<close>

lemma add_all_view:
  "\<forall>n\<in>set news. valid n \<Longrightarrow> distinct (map key xs) \<Longrightarrow>
   view key obs (add_all news xs) k =
     (case find (\<lambda>n. key n = k) (rev news) of
        None \<Rightarrow> view key obs xs k
      | Some n \<Rightarrow> if lifetime n = 0 then None else Some (obs n))"
proof (induction news arbitrary: xs)
  case Nil
  then show ?case by simp
next
  case (Cons n ns)
  have find_app: "find P (as @ bs) = (case find P as of None \<Rightarrow> find P bs | Some a \<Rightarrow> Some a)"
    for P :: "'i \<Rightarrow> bool" and as bs by (induction as) simp_all
  from Cons.prems have n: "valid n" and ns: "\<forall>n\<in>set ns. valid n" by simp_all
  note d = add_distinct [OF n Cons.prems(2)]
  show ?case
    using Cons.IH [OF ns d] add_view [OF n Cons.prems(2)]
    by (simp add: find_app split: option.split)
qed

text \<open>Repeating an advertisement changes nothing and reports no change.\<close>

lemma add_again:
  assumes "valid new" "distinct (map key xs)"
  shows "fst (add new (snd (add new xs))) = False"
    and "view key obs (snd (add new (snd (add new xs)))) = view key obs (snd (add new xs))"
  using assms by (simp_all add: add_changed add_view add_distinct)

end

section \<open>The four stores meet the contract\<close>

abbreviation gw_obs :: "NMNDiscGateway \<Rightarrow> int \<times> NMIcmpv6RouterPref" where
  "gw_obs g \<equiv> (gw_expiry g, gw_preference g)"

abbreviation rt_key :: "NMNDiscRoute \<Rightarrow> in6_addr \<times> u8" where
  "rt_key r \<equiv> (rt_network r, rt_plen r)"

abbreviation rt_obs :: "NMNDiscRoute \<Rightarrow> int \<times> in6_addr \<times> NMIcmpv6RouterPref" where
  "rt_obs r \<equiv> (rt_expiry r, rt_gateway r, rt_preference r)"

abbreviation rt_valid :: "NMNDiscRoute \<Rightarrow> bool" where
  "rt_valid r \<equiv> rt_plen r \<noteq> 0 \<and> rt_plen r \<le> 128"

lemma add_gateway_upsert:
  assumes "distinct (map gw_address gws)"
  shows "upsert gw_address gw_obs (gw_lifetime new = 0) new gws (nm_ndisc_add_gateway new gws)"
proof (cases "gw_address new \<in> gw_address ` set gws")
  case False
  then have "\<forall>u\<in>set gws. \<not> gw_address u = gw_address new" by (auto simp: image_iff)
  note scan = pref_scan_absent [OF this]
  from False show ?thesis
    by (auto simp: nm_ndisc_add_gateway_def scan intro: upsert.intros)
next
  case True
  then obtain us y vs where y: "gws = us @ y # vs" "gw_address y = gw_address new"
    "gw_address new \<notin> gw_address ` set us" "gw_address new \<notin> gw_address ` set vs"
    using split_first_key assms by metis
  then have "\<forall>u\<in>set us. \<not> gw_address u = gw_address new"
    "\<forall>u\<in>set vs. \<not> gw_address u = gw_address new" by (auto simp: image_iff)
  note scan = pref_scan_present [OF this y(2)]
  from y(2) show ?thesis
    unfolding y(1) nm_ndisc_add_gateway_def scan
    by (auto intro: upsert.intros)
qed

lemma add_route_upsert:
  assumes "distinct (map rt_key rts)" "rt_valid new"
  shows "upsert rt_key rt_obs (rt_lifetime new = 0) new rts (nm_ndisc_add_route new rts)"
proof (cases "rt_key new \<in> rt_key ` set rts")
  case False
  then have "\<forall>u\<in>set rts. \<not> (rt_network u = rt_network new \<and> rt_plen u = rt_plen new)"
    by (auto simp: image_iff)
  note scan = pref_scan_absent [OF this]
  from False assms(2) show ?thesis
    by (auto simp: nm_ndisc_add_route_def scan intro: upsert.intros)
next
  case True
  with assms(1) obtain us y vs where y: "rts = us @ y # vs" "rt_key y = rt_key new"
    "rt_key new \<notin> rt_key ` set us" "rt_key new \<notin> rt_key ` set vs"
    by (elim split_first_key) simp
  then have "\<forall>u\<in>set us. \<not> (rt_network u = rt_network new \<and> rt_plen u = rt_plen new)"
    "\<forall>u\<in>set vs. \<not> (rt_network u = rt_network new \<and> rt_plen u = rt_plen new)"
    by (auto simp: image_iff)
  note scan = pref_scan_present [OF this]
  from y(2) have y2: "rt_network y = rt_network new \<and> rt_plen y = rt_plen new" by simp
  from assms(2) have ok: "(rt_plen new = 0 \<or> 128 < rt_plen new) = False" by auto
  from y(2) show ?thesis
    unfolding y(1) nm_ndisc_add_route_def scan [OF y2] ok
    by (simp add: upsert.intros)
qed

lemma add_dns_server_upsert:
  assumes "distinct (map ds_address ds)"
  shows "upsert ds_address ds_expiry (ds_lifetime new = 0) new ds (nm_ndisc_add_dns_server new ds)"
proof (cases "ds_address new \<in> ds_address ` set ds")
  case False
  then have "first_idx (\<lambda>item. ds_address item = ds_address new) 0 ds = None"
    by (auto simp: first_idx_None image_iff)
  with False show ?thesis
    using upsert.absent_live [of ds_address new ds False ds_expiry "length ds"]
    by (auto simp: nm_ndisc_add_dns_server_def insert_val_def intro: upsert.intros)
next
  case True
  then obtain us y vs where y: "ds = us @ y # vs" "ds_address y = ds_address new"
    "ds_address new \<notin> ds_address ` set us"
    using split_first_key assms by metis
  then have "\<forall>u\<in>set us. \<not> ds_address u = ds_address new" by (auto simp: image_iff)
  note hit = first_idx_hit [of us "\<lambda>u. ds_address u = ds_address new", OF this y(2)]
  from y(2) show ?thesis
    unfolding y(1) nm_ndisc_add_dns_server_def hit
    by (auto simp: array_ops intro: upsert.intros)
qed

lemma add_dns_domain_upsert:
  assumes "distinct (map dd_domain dd)"
  shows "upsert dd_domain dd_expiry (dd_lifetime new = 0) new dd (nm_ndisc_add_dns_domain new dd)"
proof (cases "dd_domain new \<in> dd_domain ` set dd")
  case False
  then have "first_idx (\<lambda>item. dd_domain item = dd_domain new) 0 dd = None"
    by (auto simp: first_idx_None image_iff)
  with False show ?thesis
    using upsert.absent_live [of dd_domain new dd False dd_expiry "length dd"]
    by (auto simp: nm_ndisc_add_dns_domain_def insert_val_def intro: upsert.intros)
next
  case True
  then obtain us y vs where y: "dd = us @ y # vs" "dd_domain y = dd_domain new"
    "dd_domain new \<notin> dd_domain ` set us"
    using split_first_key assms by metis
  then have "\<forall>u\<in>set us. \<not> dd_domain u = dd_domain new" by (auto simp: image_iff)
  note hit = first_idx_hit [of us "\<lambda>u. dd_domain u = dd_domain new", OF this y(2)]
  from y(2) show ?thesis
    unfolding y(1) nm_ndisc_add_dns_domain_def hit
    by (simp add: array_ops upsert.intros dd_expiry_def)
qed

interpretation gateway_store:
  expiring_store gw_address gw_obs gw_lifetime "\<lambda>_. True" nm_ndisc_add_gateway
  by unfold_locales (simp_all add: upsert_laws [OF add_gateway_upsert])

interpretation route_store:
  expiring_store rt_key rt_obs rt_lifetime rt_valid nm_ndisc_add_route
  by unfold_locales (simp_all add: upsert_laws [OF add_route_upsert])

interpretation dns_server_store:
  expiring_store ds_address ds_expiry ds_lifetime "\<lambda>_. True" nm_ndisc_add_dns_server
  by unfold_locales (simp_all add: upsert_laws [OF add_dns_server_upsert])

interpretation dns_domain_store:
  expiring_store dd_domain dd_expiry dd_lifetime "\<lambda>_. True" nm_ndisc_add_dns_domain
  by unfold_locales (simp_all add: upsert_laws [OF add_dns_domain_upsert])

section \<open>The invariant of the gateways\<close>

definition IN6_IS_ADDR_UNSPECIFIED :: "in6_addr \<Rightarrow> bool" where
  "IN6_IS_ADDR_UNSPECIFIED a \<longleftrightarrow> list_all (\<lambda>b. b = 0) a"

text \<open>What \<^verbatim>\<open>_ASSERT_data_gateways\<close> checks.\<close>

definition gateway_ok :: "NMNDiscGateway \<Rightarrow> bool" where
  "gateway_ok item \<longleftrightarrow>
     \<not> IN6_IS_ADDR_UNSPECIFIED (gw_address item)
     \<and> gw_timestamp item > 0 \<and> uint (gw_timestamp item) \<le> G_MAXINT32"

definition ASSERT_data_gateways :: "NMNDiscGateway list \<Rightarrow> bool" where
  "ASSERT_data_gateways gws \<longleftrightarrow>
     list_all (\<lambda>item. gateway_ok item \<and> gw_lifetime item > 0) gws
     \<and> distinct (map gw_address gws)
     \<and> sorted_wrt (\<lambda>a b. preference_to_priority (gw_preference a)
                          \<ge> preference_to_priority (gw_preference b)) gws"

abbreviation gw_prio :: "NMNDiscGateway \<Rightarrow> nat" where
  "gw_prio g \<equiv> preference_to_priority (gw_preference g)"

abbreviation prio_sorted :: "NMNDiscGateway list \<Rightarrow> bool" where
  "prio_sorted gws \<equiv> sorted_wrt (\<lambda>a b. gw_prio a \<ge> gw_prio b) gws"

text \<open>Inserting before the first item of lower priority keeps the order.\<close>

lemma prio_sorted_insert:
  assumes "prio_sorted xs"
  shows "prio_sorted (insert_val xs
     (case first_idx (\<lambda>g. gw_prio g < gw_prio new) 0 xs of None \<Rightarrow> length xs | Some j \<Rightarrow> j) new)"
proof -
  let ?t = "takeWhile (\<lambda>g. \<not> gw_prio g < gw_prio new) xs"
  let ?d = "dropWhile (\<lambda>g. \<not> gw_prio g < gw_prio new) xs"
  have s: "prio_sorted (?t @ ?d)" using assms by simp
  have t: "\<forall>g\<in>set ?t. gw_prio new \<le> gw_prio g"
    by (auto dest: set_takeWhileD)
  have "\<forall>g\<in>set ?d. gw_prio g \<le> gw_prio new"
  proof (cases ?d)
    case (Cons g gs)
    then have "gw_prio g < gw_prio new"
      by (metis (no_types, lifting) dropWhile_eq_Cons_conv)
    moreover have "prio_sorted (g # gs)" using s Cons by (simp add: sorted_wrt_append)
    ultimately show ?thesis using Cons by auto
  next
    case Nil
    show ?thesis unfolding Nil by simp
  qed
  with s [unfolded sorted_wrt_append] t show ?thesis
    by (simp add: insert_at_first_idx sorted_wrt_append)
qed

lemma add_gateway_cases:
  assumes d: "distinct (map gw_address gws)" and s: "prio_sorted gws"
  shows "prio_sorted (snd (nm_ndisc_add_gateway new gws))
    \<and> set (snd (nm_ndisc_add_gateway new gws)) \<subseteq>
        set gws \<union> (if gw_lifetime new = 0 then {} else {new})"
proof (cases "gw_address new \<in> gw_address ` set gws")
  case False
  then have "\<forall>u\<in>set gws. \<not> gw_address u = gw_address new" by (auto simp: image_iff)
  note scan = pref_scan_absent [OF this]
  show ?thesis
    using s by (auto simp: nm_ndisc_add_gateway_def scan prio_sorted_insert)
next
  case True
  then obtain us y vs where y: "gws = us @ y # vs" "gw_address y = gw_address new"
    "gw_address new \<notin> gw_address ` set us" "gw_address new \<notin> gw_address ` set vs"
    using split_first_key d by metis
  then have "\<forall>u\<in>set us. \<not> gw_address u = gw_address new"
    "\<forall>u\<in>set vs. \<not> gw_address u = gw_address new" by (auto simp: image_iff)
  note scan = pref_scan_present [OF this y(2)]
  have rest: "prio_sorted (us @ vs)" using s y(1) by (simp add: sorted_wrt_append)
  have same: "prio_sorted (us @ new # vs)" if "gw_preference y = gw_preference new"
    using s y(1) that by (simp add: sorted_wrt_append)
  show ?thesis
    unfolding y(1) nm_ndisc_add_gateway_def scan
    using s y(1) rest same prio_sorted_insert [OF rest, of new] by auto
qed

lemma add_gateway_keeps:
  assumes "ASSERT_data_gateways gws" and "gateway_ok new"
  shows "ASSERT_data_gateways (snd (nm_ndisc_add_gateway new gws))"
proof -
  from assms(1) have d: "distinct (map gw_address gws)" and s: "prio_sorted gws"
    and l: "list_all (\<lambda>item. gateway_ok item \<and> gw_lifetime item > 0) gws"
    by (simp_all add: ASSERT_data_gateways_def)
  from add_gateway_cases [OF d s, of new] l assms(2)
  have "list_all (\<lambda>item. gateway_ok item \<and> gw_lifetime item > 0) (snd (nm_ndisc_add_gateway new gws))"
    by (fastforce simp: list_all_iff word_gt_0 split: if_splits)
  with add_gateway_cases [OF d s, of new] gateway_store.add_distinct [OF _ d, of new] show ?thesis
    by (simp add: ASSERT_data_gateways_def)
qed

text \<open>
  C30. Merging a gateway keeps what the code asserts of the gateway array: addresses set and
  pairwise different, timestamps in range, lifetimes positive, and the gateways sorted by
  router preference, most preferred first. This holds for additions, updates, changes of
  preference and withdrawals (lifetime 0) alike.
\<close>

theorem add_gateway_invariant:
  assumes "ASSERT_data_gateways gws" and "gateway_ok new"
  shows "ASSERT_data_gateways (snd (nm_ndisc_add_gateway new gws))"
  using assms by (rule add_gateway_keeps)

definition example_gw :: "u8 \<Rightarrow> u32 \<Rightarrow> NMIcmpv6RouterPref \<Rightarrow> NMNDiscGateway" where
  "example_gw b life pref =
     \<lparr>gw_address = 0xfe # replicate 14 0 @ [b], gw_timestamp = 10, gw_lifetime = life,
      gw_preference = pref\<rparr>"

theorem add_gateway_invariant_witness:
  "ASSERT_data_gateways (snd (nm_ndisc_add_gateway
     (example_gw 2 600 NM_ICMPV6_ROUTER_PREF_HIGH)
     [example_gw 1 600 NM_ICMPV6_ROUTER_PREF_MEDIUM]))"
proof (rule add_gateway_invariant)
  show "ASSERT_data_gateways [example_gw 1 600 NM_ICMPV6_ROUTER_PREF_MEDIUM]"
    by (simp add: ASSERT_data_gateways_def gateway_ok_def example_gw_def
        IN6_IS_ADDR_UNSPECIFIED_def G_MAXINT32_def)
  show "gateway_ok (example_gw 2 600 NM_ICMPV6_ROUTER_PREF_HIGH)"
    by (simp add: gateway_ok_def example_gw_def IN6_IS_ADDR_UNSPECIFIED_def G_MAXINT32_def)
qed

text \<open>
  C31. Merging any sequence of advertised gateways into the array gives, for every router
  address, exactly the expiry and preference of its last advertisement, nothing where the last
  one had lifetime 0, and the previous entry where there was none; so the array refines a map
  from router addresses updated by each advertisement in turn.
\<close>

theorem add_gateways_refine_map:
  assumes "distinct (map gw_address gws)"
  shows "view gw_address gw_obs (foldl (\<lambda>acc new. snd (nm_ndisc_add_gateway new acc)) gws news) a =
     (case find (\<lambda>n. gw_address n = a) (rev news) of
        None \<Rightarrow> view gw_address gw_obs gws a
      | Some n \<Rightarrow> if gw_lifetime n = 0 then None else Some (gw_expiry n, gw_preference n))"
  using gateway_store.add_all_view [OF _ assms, of news a]
  by (simp add: gateway_store.add_all_def)

theorem add_gateways_refine_map_witness:
  "view gw_address gw_obs (foldl (\<lambda>acc new. snd (nm_ndisc_add_gateway new acc)) []
       [example_gw 1 600 NM_ICMPV6_ROUTER_PREF_LOW, example_gw 1 700 NM_ICMPV6_ROUTER_PREF_HIGH])
     (gw_address (example_gw 1 0 NM_ICMPV6_ROUTER_PREF_LOW)) = Some (710, NM_ICMPV6_ROUTER_PREF_HIGH)"
proof -
  have "distinct (map gw_address ([] :: NMNDiscGateway list))" by simp
  note add_gateways_refine_map [OF this, of
     "[example_gw 1 600 NM_ICMPV6_ROUTER_PREF_LOW, example_gw 1 700 NM_ICMPV6_ROUTER_PREF_HIGH]"
     "gw_address (example_gw 1 0 NM_ICMPV6_ROUTER_PREF_LOW)"]
  then show ?thesis
    by (simp add: example_gw_def gw_expiry_def get_expiry_time_def NM_NDISC_INFINITY_def)
qed

section \<open>Routes, DNS servers and DNS domains\<close>

text \<open>
  C32. Merging a route with a usable prefix length changes what the array shows under that
  network and prefix length, and nothing else, to the advertised expiry, gateway and preference
  (or to nothing, if it is a withdrawal); the keys stay pairwise different, and the operation
  reports a change exactly when what the array shows has changed.
\<close>

theorem add_route_refines:
  assumes "distinct (map (\<lambda>r. (rt_network r, rt_plen r)) rts)"
    and "rt_plen new \<noteq> 0" "rt_plen new \<le> 128"
  defines "res \<equiv> nm_ndisc_add_route new rts"
  shows "distinct (map (\<lambda>r. (rt_network r, rt_plen r)) (snd res))
    \<and> view rt_key rt_obs (snd res) = (view rt_key rt_obs rts)
        ((rt_network new, rt_plen new) :=
          (if rt_lifetime new = 0 then None
           else Some (rt_expiry new, rt_gateway new, rt_preference new)))
    \<and> fst res = (view rt_key rt_obs (snd res) \<noteq> view rt_key rt_obs rts)"
proof -
  from assms(2,3) have v: "rt_valid new" by simp
  show ?thesis
    unfolding res_def
    using route_store.add_distinct [OF v assms(1)] route_store.add_view [OF v assms(1)]
      route_store.add_changed [OF v assms(1)]
    by blast
qed

definition example_rt :: "u8 \<Rightarrow> u32 \<Rightarrow> NMIcmpv6RouterPref \<Rightarrow> NMNDiscRoute" where
  "example_rt b life pref =
     \<lparr>rt_network = 0x20 # b # replicate 14 0, rt_plen = 64, rt_gateway = replicate 16 0,
      rt_timestamp = 10, rt_lifetime = life, rt_preference = pref\<rparr>"

theorem add_route_refines_witness:
  "fst (nm_ndisc_add_route (example_rt 1 0 NM_ICMPV6_ROUTER_PREF_LOW)
     [example_rt 1 600 NM_ICMPV6_ROUTER_PREF_LOW])"
proof -
  let ?rts = "[example_rt 1 600 NM_ICMPV6_ROUTER_PREF_LOW]"
  let ?new = "example_rt 1 0 NM_ICMPV6_ROUTER_PREF_LOW"
  have d: "distinct (map (\<lambda>r. (rt_network r, rt_plen r)) ?rts)" by simp
  have p: "rt_plen ?new \<noteq> 0" "rt_plen ?new \<le> 128"
    by (simp_all add: example_rt_def)
  from add_route_refines [OF d p] show ?thesis
    by (simp add: example_rt_def map_upd_nonempty [THEN not_sym])
qed

text \<open>
  A route whose key is new and which has lower or equal priority than every stored route is
  put in front of all of them: where the loop finds no less preferable route, the insertion
  index defaults to 0. Gateways in the same situation go to the end, which keeps their array
  sorted; the array of routes is not sorted by preference.
\<close>

theorem add_route_least_preferred_first:
  assumes "\<forall>r\<in>set rts. (rt_network r, rt_plen r) \<noteq> (rt_network new, rt_plen new)"
    and "\<forall>r\<in>set rts. preference_to_priority (rt_preference new)
                       \<le> preference_to_priority (rt_preference r)"
    and "rt_plen new \<noteq> 0" "rt_plen new \<le> 128" "rt_lifetime new \<noteq> 0"
  shows "nm_ndisc_add_route new rts = (True, new # rts)"
proof -
  from assms(1) have
    "\<forall>u\<in>set rts. \<not> (rt_network u = rt_network new \<and> rt_plen u = rt_plen new)" by simp
  note scan = pref_scan_absent [OF this]
  from assms(2) have "first_idx (\<lambda>item. preference_to_priority (rt_preference item)
      < preference_to_priority (rt_preference new)) 0 rts = None"
    by (auto simp: first_idx_None not_less)
  with assms(3-5) show ?thesis
    unfolding nm_ndisc_add_route_def scan
    by (simp add: insert_val_def not_less [symmetric] del: not_less)
qed

theorem add_route_least_preferred_first_witness:
  "nm_ndisc_add_route (example_rt 2 600 NM_ICMPV6_ROUTER_PREF_LOW)
     [example_rt 1 600 NM_ICMPV6_ROUTER_PREF_HIGH] =
   (True, [example_rt 2 600 NM_ICMPV6_ROUTER_PREF_LOW, example_rt 1 600 NM_ICMPV6_ROUTER_PREF_HIGH])"
  by (rule add_route_least_preferred_first)
    (simp_all add: example_rt_def preference_to_priority_def)

text \<open>
  Merging a sequence of advertised DNS servers gives, for every server address, the expiry
  of its last advertisement (nothing after a withdrawal), and repeating an advertisement that
  was just merged reports no change.
\<close>

theorem add_dns_servers_refine_map:
  assumes "distinct (map ds_address ds)"
  shows "view ds_address ds_expiry (foldl (\<lambda>acc new. snd (nm_ndisc_add_dns_server new acc)) ds news) a =
     (case find (\<lambda>n. ds_address n = a) (rev news) of
        None \<Rightarrow> view ds_address ds_expiry ds a
      | Some n \<Rightarrow> if ds_lifetime n = 0 then None else Some (ds_expiry n))
    \<and> \<not> fst (nm_ndisc_add_dns_server new (snd (nm_ndisc_add_dns_server new ds)))"
  using dns_server_store.add_all_view [OF _ assms, of news a]
    dns_server_store.add_again(1) [OF _ assms, of new]
  by (simp add: dns_server_store.add_all_def)

definition example_ds :: "u8 \<Rightarrow> u32 \<Rightarrow> u32 \<Rightarrow> NMNDiscDNSServer" where
  "example_ds b ts life = \<lparr>ds_address = 0x20 # replicate 14 0 @ [b], ds_timestamp = ts, ds_lifetime = life\<rparr>"

theorem add_dns_servers_refine_map_witness:
  "\<not> fst (nm_ndisc_add_dns_server (example_ds 1 20 600)
       (snd (nm_ndisc_add_dns_server (example_ds 1 20 600) [example_ds 1 10 600])))"
proof -
  have "distinct (map ds_address [example_ds 1 10 600])" by simp
  from add_dns_servers_refine_map [OF this, of "[]" "[]"] show ?thesis by blast
qed

text \<open>
  Merging a sequence of advertised search domains gives, for every domain, the expiry of its
  last advertisement (nothing after a withdrawal), keeps one entry per domain, and repeating an
  advertisement that was just merged reports no change.
\<close>

theorem add_dns_domains_refine_map:
  assumes "distinct (map dd_domain dd)"
  shows "view dd_domain dd_expiry (foldl (\<lambda>acc new. snd (nm_ndisc_add_dns_domain new acc)) dd news) a =
     (case find (\<lambda>n. dd_domain n = a) (rev news) of
        None \<Rightarrow> view dd_domain dd_expiry dd a
      | Some n \<Rightarrow> if dd_lifetime n = 0 then None else Some (dd_expiry n))
    \<and> distinct (map dd_domain (foldl (\<lambda>acc new. snd (nm_ndisc_add_dns_domain new acc)) dd news))
    \<and> \<not> fst (nm_ndisc_add_dns_domain new (snd (nm_ndisc_add_dns_domain new dd)))"
  using dns_domain_store.add_all_view [OF _ assms, of news a]
    dns_domain_store.add_all_distinct [OF _ assms, of news]
    dns_domain_store.add_again(1) [OF _ assms, of new]
  by (simp add: dns_domain_store.add_all_def)

definition example_dd :: "string \<Rightarrow> u32 \<Rightarrow> u32 \<Rightarrow> NMNDiscDNSDomain" where
  "example_dd d ts life = \<lparr>dd_domain = d, dd_timestamp = ts, dd_lifetime = life\<rparr>"

theorem add_dns_domains_refine_map_witness:
  "\<not> fst (nm_ndisc_add_dns_domain (example_dd ''lan'' 20 600)
       (snd (nm_ndisc_add_dns_domain (example_dd ''lan'' 20 600) [example_dd ''lan'' 10 600])))"
proof -
  have "distinct (map dd_domain [example_dd ''lan'' 10 600])" by simp
  from add_dns_domains_refine_map [OF this, of "[]" "[]"] show ?thesis by blast
qed

end
