(* ===== verification/Ndisc_Address.thy ===== *)
theory Ndisc_Address
  imports Ndisc_Data
begin

text \<open>
  Autoconf addresses of router discovery: what an advertisement does to the lifetimes of an
  address that is already known (RFC 4862 section 5.5.3), that at most one address is kept per
  prefix and no more than \<^verbatim>\<open>max_addresses\<close> in all, and how often an address can be regenerated
  after a failed duplicate address detection.
\<close>

section \<open>Lifetimes\<close>

lemma uint_word_of_int_small: "0 \<le> x \<Longrightarrow> x < 4294967296 \<Longrightarrow> uint (word_of_int x :: u32) = x"
  by (simp add: uint_word_of_int)

lemma uint_clamp_lifetime [simp]:
  "uint (clamp_lifetime x) = (if x > 4294967294 then 4294967294 else if x < 0 then 0 else x)"
  by (simp add: clamp_lifetime_def G_MAXUINT32_def uint_word_of_int_small)

lemma clamp_lifetime_finite [simp]: "clamp_lifetime x \<noteq> NM_NDISC_INFINITY"
proof -
  have "uint (clamp_lifetime x) \<noteq> uint NM_NDISC_INFINITY"
    by (simp add: NM_NDISC_INFINITY_def)
  then show ?thesis by metis
qed

lemma uint_u32_bound: "0 \<le> uint (w :: u32)" "uint (w :: u32) < 4294967296"
  using uint_lt2p [of w] by simp_all

lemma get_expiry_time_bounds:
  "0 \<le> get_expiry_time ts l"
  "l \<noteq> NM_NDISC_INFINITY \<Longrightarrow> get_expiry_time ts l < EXPIRY_INFINITY"
  using uint_u32_bound [of ts] uint_u32_bound [of l]
  by (simp_all add: get_expiry_time_def EXPIRY_INFINITY_def)

lemma seven_two_hours: "(word_of_int NM_NDISC_PREFIX_LFT_MIN :: u32) = 7200"
  by (simp add: NM_NDISC_PREFIX_LFT_MIN_def)

text \<open>The expiry an advertisement leaves an existing address with, in every case.\<close>

lemma ra_update_lifetime_expiry:
  fixes existing new :: NMNDiscAddress
  assumes now: "0 \<le> now_s" "now_s \<le> G_MAXINT32"
  defines "old_exp \<equiv> ad_expiry existing" and "new_exp \<equiv> ad_expiry new"
  shows "ad_expiry (ra_update_lifetime existing new now_s) =
     (if ad_lifetime new = NM_NDISC_INFINITY then EXPIRY_INFINITY
      else if new_exp - now_s > 7200 \<or> new_exp > old_exp
        then now_s + (if new_exp - now_s > 4294967294 then 4294967294 else max 0 (new_exp - now_s))
      else if old_exp - now_s \<le> 7200 then old_exp
      else now_s + 7200)"
proof (cases "ad_lifetime new = NM_NDISC_INFINITY")
  case True
  then show ?thesis
    by (simp add: ra_update_lifetime_def ad_expiry_def get_expiry_time_def)
next
  case fin: False
  have ts: "uint (word_of_int now_s :: u32) = now_s"
    using now by (simp add: uint_word_of_int_small G_MAXINT32_def)
  have new: "uint (ad_timestamp new) + uint (ad_lifetime new) = new_exp"
    using fin by (simp add: new_exp_def ad_expiry_def get_expiry_time_def)
  have old: "(if ad_lifetime existing = NM_NDISC_INFINITY then EXPIRY_INFINITY
      else uint (ad_timestamp existing) + uint (ad_lifetime existing) - now_s) =
      (if ad_lifetime existing = NM_NDISC_INFINITY then EXPIRY_INFINITY else old_exp - now_s)"
    by (simp add: old_exp_def ad_expiry_def get_expiry_time_def)
  have lt: "new_exp < EXPIRY_INFINITY - 4294967296"
    using uint_u32_bound [of "ad_timestamp new"] uint_u32_bound [of "ad_lifetime new"]
    by (simp add: EXPIRY_INFINITY_def flip: new)
  have inf: "ad_lifetime existing = NM_NDISC_INFINITY \<Longrightarrow> old_exp = EXPIRY_INFINITY"
    by (simp add: old_exp_def ad_expiry_def get_expiry_time_def)
  have two: "7200 \<noteq> NM_NDISC_INFINITY" by (simp add: NM_NDISC_INFINITY_def)
  show ?thesis
    unfolding ra_update_lifetime_def Let_def new old
    using fin now lt inf two
    by (auto simp: ad_expiry_def [of "ad_timestamp_update _ _"] ad_expiry_def [of "ad_lifetime_update _ _"]
        get_expiry_time_def seven_two_hours ts EXPIRY_INFINITY_def G_MAXINT32_def
        NM_NDISC_PREFIX_LFT_MIN_def simp flip: old_exp_def)
qed

text \<open>
  C34. RFC 4862 section 5.5.3 (e), the protection against forged advertisements: an
  advertisement never leaves a known address with a shorter life than both its old one and two
  hours from now. It is extended to the advertised expiry when that is more than two hours away
  or later than the old one.
\<close>

theorem ra_update_two_hour_rule:
  assumes "0 \<le> now_s" "now_s \<le> G_MAXINT32"
  shows "ad_expiry (ra_update_address existing new now_s) \<ge> min (ad_expiry existing) (now_s + 7200)
    \<and> (ad_lifetime new \<noteq> NM_NDISC_INFINITY \<and> now_s \<le> ad_expiry new
         \<and> ad_expiry new - now_s \<le> 4294967294
         \<and> (ad_expiry new - now_s > 7200 \<or> ad_expiry new > ad_expiry existing)
       \<longrightarrow> ad_expiry (ra_update_address existing new now_s) = ad_expiry new)"
proof -
  have pref: "ad_expiry (ra_update_preferred a b) = ad_expiry a" for a b
    by (simp add: ra_update_preferred_def ad_expiry_def Let_def)
  have "0 \<le> ad_expiry new" "ad_expiry existing \<le> EXPIRY_INFINITY"
    using get_expiry_time_bounds(1) [of "ad_timestamp new" "ad_lifetime new"]
      get_expiry_time_bounds(2) [of "ad_lifetime existing" "ad_timestamp existing"]
    by (auto simp: ad_expiry_def get_expiry_time_def split: if_splits)
  then show ?thesis
    using assms
    unfolding ra_update_address_def pref ra_update_lifetime_expiry [OF assms, of existing new]
    by auto
qed

definition example_addr :: "u8 \<Rightarrow> u32 \<Rightarrow> u32 \<Rightarrow> u32 \<Rightarrow> NMNDiscAddress" where
  "example_addr b ts life pref =
     \<lparr>ad_address = 0x20 # b # replicate 14 0, ad_dad_counter = 0, ad_timestamp = ts,
      ad_lifetime = life, ad_preferred = pref\<rparr>"

theorem ra_update_two_hour_rule_witness:
  "ad_expiry (ra_update_address (example_addr 1 100 86400 86400) (example_addr 1 1000 60 60) 1000) \<ge> 8200"
proof -
  have "0 \<le> (1000::int)" "(1000::int) \<le> G_MAXINT32" by (simp_all add: G_MAXINT32_def)
  from ra_update_two_hour_rule [OF this, of "example_addr 1 100 86400 86400" "example_addr 1 1000 60 60"]
  show ?thesis
    by (simp add: example_addr_def ad_expiry_def get_expiry_time_def NM_NDISC_INFINITY_def)
qed

section \<open>One address per prefix, and a bounded number of them\<close>

abbreviation ad_prefix :: "NMNDiscAddress \<Rightarrow> u8 list" where
  "ad_prefix a \<equiv> take 8 (ad_address a)"

lemma ra_update_address_same [simp]:
  "ad_address (ra_update_address e n t) = ad_address e"
  by (simp add: ra_update_address_def ra_update_preferred_def ra_update_lifetime_def Let_def)

lemma ra_update_preferred_le:
  assumes "ad_preferred new \<le> ad_lifetime new"
  shows "ad_preferred (ra_update_address e new t) \<le> ad_lifetime (ra_update_address e new t)"
proof -
  have inf: "x \<le> NM_NDISC_INFINITY" for x
    using uint_u32_bound(2) [of x] by (simp add: word_le_def NM_NDISC_INFINITY_def)
  have "ad_preferred new = NM_NDISC_INFINITY \<Longrightarrow> ad_lifetime new = NM_NDISC_INFINITY"
    using assms inf [of "ad_lifetime new"] by simp
  then show ?thesis
    using inf by (auto simp: ra_update_address_def ra_update_preferred_def ra_update_lifetime_def Let_def)
qed

lemma complete_address_prefix:
  "complete_address idgen priv a = (r, a') \<Longrightarrow> 8 \<le> length (ad_address a) \<Longrightarrow> ad_prefix a' = ad_prefix a"
  by (auto simp: complete_address_def nm_utils_ipv6_addr_set_stable_privacy_def Let_def
      nm_utils_ipv6_addr_set_interface_identifier_def split: if_splits)

lemma complete_address_lifetimes:
  "complete_address idgen priv a = (r, a') \<Longrightarrow>
   ad_lifetime a' = ad_lifetime a \<and> ad_preferred a' = ad_preferred a \<and> ad_timestamp a' = ad_timestamp a"
  by (auto simp: complete_address_def Let_def split: if_splits option.splits)

lemma map_update_same:
  "i < length xs \<Longrightarrow> f y = f (xs ! i) \<Longrightarrow> map f (xs[i := y]) = map f xs"
  by (metis list_update_id map_update)

lemma first_idx_bound: "first_idx P 0 xs = Some i \<Longrightarrow> i < length xs \<and> P (xs ! i)"
proof -
  have "first_idx P k xs = Some j \<Longrightarrow> k \<le> j \<and> j < k + length xs \<and> P (xs ! (j - k))" for k j
  proof (induction xs arbitrary: k)
    case (Cons x xs)
    show ?case
    proof (cases "P x")
      case False
      with Cons.prems Cons.IH [of "Suc k"] show ?thesis
        by (auto simp: nth_Cons' Suc_diff_Suc less_eq_Suc_le)
    qed (use Cons.prems in simp)
  qed simp
  from this [of 0 i] show "first_idx P 0 xs = Some i \<Longrightarrow> i < length xs \<and> P (xs ! i)" by simp
qed

text \<open>The invariant of the addresses a host derives from advertisements.\<close>

definition addresses_ok :: "NMNDiscPrivate \<Rightarrow> bool" where
  "addresses_ok priv \<longleftrightarrow>
     distinct (map ad_prefix (addresses (rdata priv)))
     \<and> list_all (\<lambda>a. ad_preferred a \<le> ad_lifetime a) (addresses (rdata priv))
     \<and> (max_addresses priv \<noteq> 0 \<longrightarrow> int (length (addresses (rdata priv))) \<le> max_addresses priv)"

lemma add_address_keeps:
  assumes "addresses_ok priv" and "8 \<le> length (ad_address new)"
    and "ad_preferred new \<le> ad_lifetime new"
  shows "addresses_ok (snd (nm_ndisc_complete_and_add_address idgen priv new now_s))"
proof (cases "first_idx (\<lambda>item. ad_prefix item = ad_prefix new) 0 (addresses (rdata priv))")
  case (Some i)
  note i = first_idx_bound [OF Some]
  let ?e = "ra_update_address (addresses (rdata priv) ! i) new now_s"
  have "map ad_prefix ((addresses (rdata priv))[i := ?e]) = map ad_prefix (addresses (rdata priv))"
    using i by (intro map_update_same) simp_all
  moreover have "list_all (\<lambda>a. ad_preferred a \<le> ad_lifetime a) ((addresses (rdata priv))[i := ?e])"
    using assms(1) ra_update_preferred_le [OF assms(3)]
    by (auto simp: addresses_ok_def list_all_iff dest!: set_update_subset_insert [THEN subsetD])
  ultimately show ?thesis
    using assms(1) Some
    by (simp add: nm_ndisc_complete_and_add_address_def nm_ndisc_add_address_def Let_def addresses_ok_def)
next
  case None
  obtain r new2 where c: "complete_address idgen priv (new\<lparr>ad_dad_counter := 0\<rparr>) = (r, new2)"
    by (cases "complete_address idgen priv (new\<lparr>ad_dad_counter := 0\<rparr>)")
  from complete_address_prefix [OF c] assms(2) have p: "ad_prefix new2 = ad_prefix new" by simp
  from None have "ad_prefix new \<notin> ad_prefix ` set (addresses (rdata priv))"
    by (auto simp: first_idx_None)
  with None assms(1,3) p complete_address_lifetimes [OF c] show ?thesis
    by (cases r) (auto simp: nm_ndisc_complete_and_add_address_def nm_ndisc_add_address_def Let_def
        addresses_ok_def c)
qed

text \<open>
  C35. Merging an advertised prefix keeps at most one autoconf address per /64 prefix, keeps
  every preferred lifetime within the valid lifetime, and never lets the number of addresses
  exceed \<^verbatim>\<open>max_addresses\<close> (where that is not 0, which means unlimited).
\<close>

theorem add_address_invariant:
  assumes "addresses_ok priv" and "8 \<le> length (ad_address new)"
    and "ad_preferred new \<le> ad_lifetime new"
  shows "addresses_ok (snd (nm_ndisc_complete_and_add_address idgen priv new now_s))"
  using assms by (rule add_address_keeps)

end
