(* ===== verification/Ndisc_Timers.thy ===== *)
theory Ndisc_Timers
  imports Ndisc_Address
begin

unbundle bit_operations_syntax

text \<open>
  Expiry of router discovery data: the \<^verbatim>\<open>clean_*\<close> functions, \<^verbatim>\<open>check_timestamps\<close>, which drops
  what has expired, arms the timer for the next expiry and signals the change, and the callers of
  it. The clock (\<^verbatim>\<open>nm_utils_get_monotonic_timestamp_s\<close>) is an argument, \<open>clk\<close>, of every function
  that reads it.
\<close>

section \<open>Flags and signals\<close>

definition NM_NDISC_CONFIG_DHCP_LEVEL :: u32 where "NM_NDISC_CONFIG_DHCP_LEVEL = 1"
definition NM_NDISC_CONFIG_GATEWAYS :: u32 where "NM_NDISC_CONFIG_GATEWAYS = 2"
definition NM_NDISC_CONFIG_ADDRESSES :: u32 where "NM_NDISC_CONFIG_ADDRESSES = 4"
definition NM_NDISC_CONFIG_ROUTES :: u32 where "NM_NDISC_CONFIG_ROUTES = 8"
definition NM_NDISC_CONFIG_DNS_SERVERS :: u32 where "NM_NDISC_CONFIG_DNS_SERVERS = 16"
definition NM_NDISC_CONFIG_DNS_DOMAINS :: u32 where "NM_NDISC_CONFIG_DNS_DOMAINS = 32"
definition NM_NDISC_CONFIG_HOP_LIMIT :: u32 where "NM_NDISC_CONFIG_HOP_LIMIT = 64"
definition NM_NDISC_CONFIG_MTU :: u32 where "NM_NDISC_CONFIG_MTU = 128"
definition NM_NDISC_CONFIG_REACHABLE_TIME :: u32 where "NM_NDISC_CONFIG_REACHABLE_TIME = 256"
definition NM_NDISC_CONFIG_RETRANS_TIMER :: u32 where "NM_NDISC_CONFIG_RETRANS_TIMER = 512"

definition nm_ndisc_emit_config_change :: "NMNDiscPrivate \<Rightarrow> u32 \<Rightarrow> NMNDiscPrivate" where
  "nm_ndisc_emit_config_change priv changed =
     priv\<lparr>signals := signals priv @ [CONFIG_RECEIVED (rdata priv) changed]\<rparr>"

section \<open>Soliciting routers\<close>

definition solicit_routers :: "int \<Rightarrow> NMNDiscPrivate \<Rightarrow> NMNDiscPrivate" where
  "solicit_routers clk priv =
     (case send_id priv of
        Some _ \<Rightarrow> priv
      | None \<Rightarrow>
          (let t = (last_send priv + router_solicitation_interval priv) - clk;
               nxt = (if t > G_MAXINT32 then G_MAXINT32 else if t < 0 then 0 else t)
           in priv\<lparr>sends_left := router_solicitations priv,
                   send_id := Some (Cb_send_rs_timeout, nxt * 1000)\<rparr>))"

section \<open>Dropping expired items\<close>

text \<open>The \<^verbatim>\<open>nextevent\<close> pointer is an option: \<^term>\<open>None\<close> for \<^verbatim>\<open>NULL\<close>.\<close>

definition expiry_next :: "int \<Rightarrow> int \<Rightarrow> int option \<Rightarrow> bool \<times> int option" where
  "expiry_next now_s expiry_timestamp nextevent =
     (if expiry_timestamp = EXPIRY_INFINITY then (True, nextevent)
      else
        (let e = min expiry_timestamp (G_MAXINT32 - 1) in
         if now_s \<ge> e then (False, nextevent)
         else (True, map_option (\<lambda>n. if n > e then e else n) nextevent)))"

text \<open>
  The loop of \<^verbatim>\<open>clean_gateways\<close>, \<^verbatim>\<open>clean_addresses\<close> and \<^verbatim>\<open>clean_routes\<close>: an expired item is
  removed and the flag set, any other item stays and may bring the next event forward.
\<close>

fun clean_items :: "('i \<Rightarrow> int) \<Rightarrow> u32 \<Rightarrow> int \<Rightarrow> 'i list \<Rightarrow> u32 \<Rightarrow> int \<Rightarrow> 'i list \<times> u32 \<times> int" where
  "clean_items expiry flag now [] changed nextevent = ([], changed, nextevent)"
| "clean_items expiry flag now (item # items) changed nextevent =
     (case expiry_next now (expiry item) (Some nextevent) of
        (False, _) \<Rightarrow> clean_items expiry flag now items (changed OR flag) nextevent
      | (True, ne) \<Rightarrow>
          (case clean_items expiry flag now items changed (the ne) of
             (items', changed', ne') \<Rightarrow> (item # items', changed', ne')))"

definition clean_gateways :: "int \<Rightarrow> NMNDiscPrivate \<times> u32 \<times> int \<Rightarrow> NMNDiscPrivate \<times> u32 \<times> int" where
  "clean_gateways now st =
     (case st of (priv, changed, nextevent) \<Rightarrow>
      case clean_items gw_expiry NM_NDISC_CONFIG_GATEWAYS now (gateways (rdata priv)) changed nextevent of
        (items, changed', nextevent') \<Rightarrow>
          (priv\<lparr>rdata := (rdata priv)\<lparr>gateways := items\<rparr>\<rparr>, changed', nextevent'))"

definition clean_addresses :: "int \<Rightarrow> NMNDiscPrivate \<times> u32 \<times> int \<Rightarrow> NMNDiscPrivate \<times> u32 \<times> int" where
  "clean_addresses now st =
     (case st of (priv, changed, nextevent) \<Rightarrow>
      case clean_items ad_expiry NM_NDISC_CONFIG_ADDRESSES now (addresses (rdata priv)) changed nextevent of
        (items, changed', nextevent') \<Rightarrow>
          (priv\<lparr>rdata := (rdata priv)\<lparr>addresses := items\<rparr>\<rparr>, changed', nextevent'))"

definition clean_routes :: "int \<Rightarrow> NMNDiscPrivate \<times> u32 \<times> int \<Rightarrow> NMNDiscPrivate \<times> u32 \<times> int" where
  "clean_routes now st =
     (case st of (priv, changed, nextevent) \<Rightarrow>
      case clean_items rt_expiry NM_NDISC_CONFIG_ROUTES now (routes (rdata priv)) changed nextevent of
        (items, changed', nextevent') \<Rightarrow>
          (priv\<lparr>rdata := (rdata priv)\<lparr>routes := items\<rparr>\<rparr>, changed', nextevent'))"

text \<open>
  The loop of \<^verbatim>\<open>clean_dns_servers\<close> and \<^verbatim>\<open>clean_dns_domains\<close>: besides dropping expired items it
  asks the routers for a refresh once half the lifetime is over. \<open>priv\<close> is threaded through
  because of that request.
\<close>

fun clean_dns_items ::
  "('i \<Rightarrow> int) \<Rightarrow> ('i \<Rightarrow> int) \<Rightarrow> u32 \<Rightarrow> int \<Rightarrow> int \<Rightarrow> 'i list \<Rightarrow> NMNDiscPrivate \<Rightarrow> u32 \<Rightarrow> int \<Rightarrow>
   'i list \<times> NMNDiscPrivate \<times> u32 \<times> int" where
  "clean_dns_items expiry half flag clk now [] priv changed nextevent = ([], priv, changed, nextevent)"
| "clean_dns_items expiry half flag clk now (item # items) priv changed nextevent =
     (let refresh = half item in
      if refresh \<noteq> EXPIRY_INFINITY \<and> \<not> fst (expiry_next now (expiry item) None) then
        clean_dns_items expiry half flag clk now items priv (changed OR flag) nextevent
      else
        (let (priv1, ne) =
               (if refresh \<noteq> EXPIRY_INFINITY then
                  (if now \<ge> refresh then (solicit_routers clk priv, nextevent)
                   else if nextevent > refresh then (priv, refresh)
                   else (priv, nextevent))
                else (priv, nextevent))
         in case clean_dns_items expiry half flag clk now items priv1 changed ne of
              (items', priv', changed', ne') \<Rightarrow> (item # items', priv', changed', ne')))"

definition ds_expiry_half :: "NMNDiscDNSServer \<Rightarrow> int" where
  "ds_expiry_half d = get_expiry_half_time (ds_timestamp d) (ds_lifetime d)"

definition dd_expiry_half :: "NMNDiscDNSDomain \<Rightarrow> int" where
  "dd_expiry_half d = get_expiry_half_time (dd_timestamp d) (dd_lifetime d)"

definition clean_dns_servers ::
  "int \<Rightarrow> int \<Rightarrow> NMNDiscPrivate \<times> u32 \<times> int \<Rightarrow> NMNDiscPrivate \<times> u32 \<times> int" where
  "clean_dns_servers clk now st =
     (case st of (priv, changed, nextevent) \<Rightarrow>
      case clean_dns_items ds_expiry ds_expiry_half NM_NDISC_CONFIG_DNS_SERVERS clk now
             (dns_servers (rdata priv)) priv changed nextevent of
        (items, priv', changed', nextevent') \<Rightarrow>
          (priv'\<lparr>rdata := (rdata priv')\<lparr>dns_servers := items\<rparr>\<rparr>, changed', nextevent'))"

definition clean_dns_domains ::
  "int \<Rightarrow> int \<Rightarrow> NMNDiscPrivate \<times> u32 \<times> int \<Rightarrow> NMNDiscPrivate \<times> u32 \<times> int" where
  "clean_dns_domains clk now st =
     (case st of (priv, changed, nextevent) \<Rightarrow>
      case clean_dns_items dd_expiry dd_expiry_half NM_NDISC_CONFIG_DNS_DOMAINS clk now
             (dns_domains (rdata priv)) priv changed nextevent of
        (items, priv', changed', nextevent') \<Rightarrow>
          (priv'\<lparr>rdata := (rdata priv')\<lparr>dns_domains := items\<rparr>\<rparr>, changed', nextevent'))"

section \<open>The check and its callers\<close>

definition check_timestamps :: "int \<Rightarrow> NMNDiscPrivate \<Rightarrow> int \<Rightarrow> u32 \<Rightarrow> NMNDiscPrivate" where
  "check_timestamps clk priv now changed =
     (case clean_dns_domains clk now (clean_dns_servers clk now (clean_routes now
             (clean_addresses now (clean_gateways now
                (priv\<lparr>timeout_id := None\<rparr>, changed, G_MAXINT32))))) of
        (priv1, changed1, nextevent) \<Rightarrow>
          if nextevent \<noteq> G_MAXINT32 \<and> nextevent \<le> now then priv1
          else
            (let priv2 = (if nextevent \<noteq> G_MAXINT32
                          then priv1\<lparr>timeout_id := Some ((nextevent - now) * 1000)\<rparr>
                          else priv1)
             in if changed1 \<noteq> 0 then nm_ndisc_emit_config_change priv2 changed1 else priv2))"

definition timeout_cb :: "int \<Rightarrow> NMNDiscPrivate \<Rightarrow> NMNDiscPrivate" where
  "timeout_cb clk priv = check_timestamps clk (priv\<lparr>timeout_id := None\<rparr>) clk 0"

definition nm_ndisc_ra_received :: "int \<Rightarrow> NMNDiscPrivate \<Rightarrow> int \<Rightarrow> u32 \<Rightarrow> NMNDiscPrivate" where
  "nm_ndisc_ra_received clk priv now changed =
     check_timestamps clk
       (priv\<lparr>ra_timeout_id := None, send_id := None, last_error := None\<rparr>) now changed"

section \<open>What the loops compute\<close>

definition unexpired :: "int \<Rightarrow> int \<Rightarrow> bool" where
  "unexpired now e \<longleftrightarrow> e = EXPIRY_INFINITY \<or> now < min e (G_MAXINT32 - 1)"

text \<open>The next event after taking a list of expiry times into account.\<close>

definition next_of :: "int \<Rightarrow> int list \<Rightarrow> int" where
  "next_of n es = fold (\<lambda>e n. min n (min e (G_MAXINT32 - 1))) (filter (\<lambda>e. e \<noteq> EXPIRY_INFINITY) es) n"

lemma next_of_simps [simp]:
  "next_of n [] = n"
  "next_of n (e # es) =
     next_of (if e = EXPIRY_INFINITY then n else min n (min e (G_MAXINT32 - 1))) es"
  by (simp_all add: next_of_def)

lemma next_of_le: "next_of n es \<le> n"
proof (induction es arbitrary: n)
  case (Cons e es)
  from Cons [of "min n (min e (G_MAXINT32 - 1))"] Cons [of n] show ?case by simp
qed simp

lemma next_of_le_elem:
  "e \<in> set es \<Longrightarrow> e \<noteq> EXPIRY_INFINITY \<Longrightarrow> next_of n es \<le> min e (G_MAXINT32 - 1)"
proof (induction es arbitrary: n)
  case (Cons a es)
  show ?case
  proof (cases "e = a")
    case True
    with Cons.prems next_of_le [of "min n (min e (G_MAXINT32 - 1))" es] show ?thesis by auto
  qed (use Cons in auto)
qed simp

lemma next_of_gt: "\<forall>e\<in>set es. unexpired now e \<Longrightarrow> now < n \<Longrightarrow> now < next_of n es"
  by (induction es arbitrary: n) (auto simp: unexpired_def)

lemma or_or_self: "(a OR b) OR b = a OR (b :: u32)"
  by (simp add: or.assoc)

text \<open>The flags after a list went from \<open>old\<close> to \<open>kept\<close>.\<close>

definition flag_changed :: "'i list \<Rightarrow> 'i list \<Rightarrow> u32 \<Rightarrow> u32 \<Rightarrow> u32" where
  "flag_changed kept old flag changed = (if kept = old then changed else changed OR flag)"

lemma clean_items_eq:
  "clean_items expiry flag now items changed n =
     (let kept = filter (\<lambda>i. unexpired now (expiry i)) items in
      (kept, flag_changed kept items flag changed, next_of n (map expiry kept)))"
proof (induction items arbitrary: changed n)
  case Nil
  then show ?case by (simp add: flag_changed_def)
next
  case (Cons i items)
  have len: "filter (\<lambda>i. unexpired now (expiry i)) items \<noteq> i # items"
    using length_filter_le [of "\<lambda>i. unexpired now (expiry i)" items] by (metis impossible_Cons)
  show ?case
  proof (cases "unexpired now (expiry i)")
    case True
    have arith: "(if n > m then m else n) = min n m" for n m :: int by simp
    from True Cons.IH show ?thesis
      by (auto simp: expiry_next_def unexpired_def Let_def arith flag_changed_def)
  next
    case False
    with len Cons.IH [of "changed OR flag" n] show ?thesis
      by (auto simp: expiry_next_def unexpired_def Let_def or_or_self flag_changed_def)
  qed
qed

lemma solicit_routers_frame [simp]:
  "rdata (solicit_routers clk priv) = rdata priv"
  "timeout_id (solicit_routers clk priv) = timeout_id priv"
  "ra_timeout_id (solicit_routers clk priv) = ra_timeout_id priv"
  "signals (solicit_routers clk priv) = signals priv"
  "max_addresses (solicit_routers clk priv) = max_addresses priv"
  "router_solicitations (solicit_routers clk priv) = router_solicitations priv"
  "node_type (solicit_routers clk priv) = node_type priv"
  by (simp_all add: solicit_routers_def Let_def split: option.split)

lemma solicit_routers_idem [simp]:
  "solicit_routers clk (solicit_routers clk priv) = solicit_routers clk priv"
  by (simp add: solicit_routers_def Let_def split: option.split)

lemma solicit_routers_rdata_update [simp]:
  "solicit_routers clk (priv\<lparr>rdata := r\<rparr>) = (solicit_routers clk priv)\<lparr>rdata := r\<rparr>"
  by (simp add: solicit_routers_def Let_def split: option.split)

lemma fst_expiry_next [simp]: "fst (expiry_next now e ne) = unexpired now e"
  by (auto simp: expiry_next_def unexpired_def Let_def)

text \<open>
  What the DNS loop computes. \<open>half_ok\<close> says that an item has a refresh time exactly when it has
  a finite expiry.
\<close>

definition half_next :: "int \<Rightarrow> int \<Rightarrow> int list \<Rightarrow> int" where
  "half_next now n hs = fold (\<lambda>h n. min n h) (filter (\<lambda>h. h \<noteq> EXPIRY_INFINITY \<and> now < h) hs) n"

lemma half_next_simps [simp]:
  "half_next now n [] = n"
  "half_next now n (h # hs) = half_next now (if h \<noteq> EXPIRY_INFINITY \<and> now < h then min n h else n) hs"
  by (simp_all add: half_next_def)

lemma half_next_le: "half_next now n hs \<le> n"
proof (induction hs arbitrary: n)
  case (Cons h hs)
  from Cons [of "min n h"] Cons [of n] show ?case by simp
qed simp

lemma half_next_gt: "now < n \<Longrightarrow> now < half_next now n hs"
  by (induction hs arbitrary: n) auto

definition any_due :: "int \<Rightarrow> int list \<Rightarrow> bool" where
  "any_due now hs = list_ex (\<lambda>h. h \<noteq> EXPIRY_INFINITY \<and> h \<le> now) hs"

lemma any_due_simps [simp]:
  "any_due now [] = False"
  "any_due now (h # hs) = (h \<noteq> EXPIRY_INFINITY \<and> h \<le> now \<or> any_due now hs)"
  by (simp_all add: any_due_def)

lemma clean_dns_items_eq:
  assumes "\<And>i. (half i = EXPIRY_INFINITY) = (expiry i = EXPIRY_INFINITY)"
  shows "clean_dns_items expiry half flag clk now items priv changed n =
     (let kept = filter (\<lambda>i. unexpired now (expiry i)) items in
      (kept, if any_due now (map half kept) then solicit_routers clk priv else priv,
       flag_changed kept items flag changed, half_next now n (map half kept)))"
proof (induction items arbitrary: priv changed n)
  case Nil
  then show ?case by (simp add: flag_changed_def)
next
  case (Cons i items)
  let ?P = "\<lambda>i. unexpired now (expiry i)"
  have len: "filter ?P items \<noteq> i # items"
    using length_filter_le [of ?P items] by (metis impossible_Cons)
  show ?case
  proof (cases "unexpired now (expiry i)")
    case True
    have arith: "(if n > m then m else n) = min n m" for n m :: int by simp
    from True Cons.IH show ?thesis
      by (auto simp: Let_def not_le min_def flag_changed_def split: if_splits)
  next
    case False
    then have "half i \<noteq> EXPIRY_INFINITY" by (auto simp: assms unexpired_def)
    with False len Cons.IH [of priv "changed OR flag" n] show ?thesis
      by (auto simp: Let_def or_or_self flag_changed_def)
  qed
qed

lemma half_time_infinity:
  "(get_expiry_half_time ts l = EXPIRY_INFINITY) = (get_expiry_time ts l = EXPIRY_INFINITY)"
proof (cases "l = NM_NDISC_INFINITY")
  case False
  have "uint (l div 2) \<le> 2147483647"
    using uint_u32_bound [of l] by (simp add: uint_div)
  then have "l div 2 \<noteq> NM_NDISC_INFINITY" by (auto simp: NM_NDISC_INFINITY_def)
  with False show ?thesis
    using get_expiry_time_bounds(2) [of l ts] get_expiry_time_bounds(2) [of "l div 2" ts]
    by (simp add: get_expiry_half_time_def)
qed (simp add: get_expiry_half_time_def get_expiry_time_def)

lemma ds_half: "(ds_expiry_half d = EXPIRY_INFINITY) = (ds_expiry d = EXPIRY_INFINITY)"
  by (simp add: ds_expiry_half_def ds_expiry_def half_time_infinity)

lemma dd_half: "(dd_expiry_half d = EXPIRY_INFINITY) = (dd_expiry d = EXPIRY_INFINITY)"
  by (simp add: dd_expiry_half_def dd_expiry_def half_time_infinity)

section \<open>The specification of the check\<close>

text \<open>What is left of the data at time \<open>now\<close>: the items that have not expired, in their order.\<close>

definition expire :: "int \<Rightarrow> NMNDiscData \<Rightarrow> NMNDiscData" where
  "expire now rd =
     rd\<lparr>gateways := filter (\<lambda>i. unexpired now (gw_expiry i)) (gateways rd),
        addresses := filter (\<lambda>i. unexpired now (ad_expiry i)) (addresses rd),
        routes := filter (\<lambda>i. unexpired now (rt_expiry i)) (routes rd),
        dns_servers := filter (\<lambda>i. unexpired now (ds_expiry i)) (dns_servers rd),
        dns_domains := filter (\<lambda>i. unexpired now (dd_expiry i)) (dns_domains rd)\<rparr>"

definition expire_flags :: "int \<Rightarrow> NMNDiscData \<Rightarrow> u32 \<Rightarrow> u32" where
  "expire_flags now rd changed =
     (let rd' = expire now rd in
      flag_changed (dns_domains rd') (dns_domains rd) NM_NDISC_CONFIG_DNS_DOMAINS
       (flag_changed (dns_servers rd') (dns_servers rd) NM_NDISC_CONFIG_DNS_SERVERS
         (flag_changed (routes rd') (routes rd) NM_NDISC_CONFIG_ROUTES
           (flag_changed (addresses rd') (addresses rd) NM_NDISC_CONFIG_ADDRESSES
             (flag_changed (gateways rd') (gateways rd) NM_NDISC_CONFIG_GATEWAYS changed)))))"

definition next_check :: "int \<Rightarrow> NMNDiscData \<Rightarrow> int" where
  "next_check now rd =
     half_next now
       (half_next now
          (next_of (next_of (next_of G_MAXINT32 (map gw_expiry (gateways rd)))
             (map ad_expiry (addresses rd))) (map rt_expiry (routes rd)))
          (map ds_expiry_half (dns_servers rd)))
       (map dd_expiry_half (dns_domains rd))"

definition refresh_due :: "int \<Rightarrow> NMNDiscData \<Rightarrow> bool" where
  "refresh_due now rd \<longleftrightarrow>
     any_due now (map ds_expiry_half (dns_servers rd)) \<or> any_due now (map dd_expiry_half (dns_domains rd))"

lemmas clean_defs = clean_gateways_def clean_addresses_def clean_routes_def
  clean_dns_servers_def clean_dns_domains_def

lemma clean_all_eq:
  "clean_dns_domains clk now (clean_dns_servers clk now (clean_routes now
      (clean_addresses now (clean_gateways now (priv, changed, G_MAXINT32))))) =
   ((if refresh_due now (expire now (rdata priv)) then solicit_routers clk priv else priv)
      \<lparr>rdata := expire now (rdata priv)\<rparr>,
    expire_flags now (rdata priv) changed, next_check now (expire now (rdata priv)))"
  by (simp add: clean_defs clean_items_eq clean_dns_items_eq [OF ds_half] clean_dns_items_eq [OF dd_half]
      expire_def expire_flags_def next_check_def refresh_due_def Let_def)

lemma unexpired_after: "gateways (expire now rd) = gs \<Longrightarrow> g \<in> set gs \<Longrightarrow> unexpired now (gw_expiry g)"
  by (auto simp: expire_def)

lemma next_check_future:
  assumes "now < G_MAXINT32"
  shows "now < next_check now (expire now rd)"
  unfolding next_check_def using assms
  by (intro half_next_gt next_of_gt) (auto simp: expire_def)

lemma next_check_le:
  "next_check now rd \<le>
   next_of (next_of (next_of G_MAXINT32 (map gw_expiry (gateways rd)))
             (map ad_expiry (addresses rd))) (map rt_expiry (routes rd))"
  unfolding next_check_def using half_next_le order_trans by blast

lemma check_timestamps_eq:
  assumes "now < G_MAXINT32"
  shows "check_timestamps clk priv now changed =
    (let rd = expire now (rdata priv); ne = next_check now rd;
         flags = expire_flags now (rdata priv) changed;
         priv1 = (if refresh_due now rd then solicit_routers clk (priv\<lparr>timeout_id := None\<rparr>)
                  else priv\<lparr>timeout_id := None\<rparr>)\<lparr>rdata := rd\<rparr>;
         priv2 = (if ne \<noteq> G_MAXINT32 then priv1\<lparr>timeout_id := Some ((ne - now) * 1000)\<rparr> else priv1)
     in if flags \<noteq> 0 then nm_ndisc_emit_config_change priv2 flags else priv2)"
  using next_check_future [OF assms, of "rdata priv"]
  by (simp add: check_timestamps_def clean_all_eq Let_def)

section \<open>Properties of the check\<close>

lemma flag_changed_nonzero:
  "flag \<noteq> 0 \<Longrightarrow> (flag_changed kept old flag c \<noteq> 0) = (kept \<noteq> old \<or> c \<noteq> 0)"
  by (auto simp: flag_changed_def or_eq_0_iff)

lemma expire_flags_nonzero: "(expire_flags now rd c \<noteq> 0) = (expire now rd \<noteq> rd \<or> c \<noteq> 0)"
proof -
  have "(expire now rd = rd) = (gateways (expire now rd) = gateways rd
      \<and> addresses (expire now rd) = addresses rd \<and> routes (expire now rd) = routes rd
      \<and> dns_servers (expire now rd) = dns_servers rd \<and> dns_domains (expire now rd) = dns_domains rd)"
    by (cases rd) (simp add: expire_def)
  then show ?thesis
    unfolding expire_flags_def Let_def
    by (simp add: flag_changed_nonzero NM_NDISC_CONFIG_GATEWAYS_def NM_NDISC_CONFIG_ADDRESSES_def
        NM_NDISC_CONFIG_ROUTES_def NM_NDISC_CONFIG_DNS_SERVERS_def NM_NDISC_CONFIG_DNS_DOMAINS_def) blast
qed

lemma check_timestamps_fields:
  fixes priv :: NMNDiscPrivate
  assumes "now < G_MAXINT32"
  defines "rd \<equiv> expire now (rdata priv)"
  shows "rdata (check_timestamps clk priv now changed) = rd"
    and "signals (check_timestamps clk priv now changed) = signals priv @
       (if expire_flags now (rdata priv) changed = 0 then []
        else [CONFIG_RECEIVED rd (expire_flags now (rdata priv) changed)])"
    and "timeout_id (check_timestamps clk priv now changed) =
       (if next_check now rd = G_MAXINT32 then None else Some ((next_check now rd - now) * 1000))"
    and "max_addresses (check_timestamps clk priv now changed) = max_addresses priv"
    and "node_type (check_timestamps clk priv now changed) = node_type priv"
    and "send_id (check_timestamps clk priv now changed) =
       (if refresh_due now rd then send_id (solicit_routers clk (priv\<lparr>timeout_id := None\<rparr>)) else send_id priv)"
    and "ra_timeout_id (check_timestamps clk priv now changed) = ra_timeout_id priv"
  by (simp_all add: check_timestamps_eq [OF assms(1)] rd_def Let_def nm_ndisc_emit_config_change_def)

text \<open>
  C12. A check at time \<open>now\<close> leaves exactly the unexpired gateways, addresses, routes, DNS servers
  and domains, in their order, and emits one configuration signal carrying them if and only if
  something was dropped or the caller already had a change to report; the early exit for a next
  event that is not in the future is never taken.
\<close>

theorem check_timestamps_refines_expire:
  assumes "now < G_MAXINT32"
  shows "rdata (check_timestamps clk priv now changed) = expire now (rdata priv)
    \<and> ((expire now (rdata priv) \<noteq> rdata priv \<or> changed \<noteq> 0) \<longrightarrow>
         (\<exists>flags. flags \<noteq> 0 \<and> signals (check_timestamps clk priv now changed) =
            signals priv @ [CONFIG_RECEIVED (expire now (rdata priv)) flags]))
    \<and> (expire now (rdata priv) = rdata priv \<and> changed = 0 \<longrightarrow>
         signals (check_timestamps clk priv now changed) = signals priv)"
  using check_timestamps_fields(1,2) [OF assms, of clk priv changed]
    expire_flags_nonzero [of now "rdata priv" changed]
  by auto

text \<open>
  C36. After a check the lifetime timer, if armed, fires strictly later than now, and it is armed
  no later than the expiry of every gateway, address and route that is left and does expire; so
  none of them outlives its lifetime unnoticed.
\<close>

theorem check_timestamps_timer:
  fixes priv :: NMNDiscPrivate and clk :: int and changed :: u32
  assumes "now < G_MAXINT32"
  defines "res \<equiv> check_timestamps clk priv now changed"
  shows "(\<forall>d. timeout_id res = Some d \<longrightarrow> 0 < d)
    \<and> (\<forall>e \<in> gw_expiry ` set (gateways (rdata res)) \<union> ad_expiry ` set (addresses (rdata res))
           \<union> rt_expiry ` set (routes (rdata res)).
         e \<noteq> EXPIRY_INFINITY \<longrightarrow> (\<exists>d. timeout_id res = Some d \<and> now * 1000 + d \<le> e * 1000))"
proof -
  let ?rd = "expire now (rdata priv)"
  let ?ne = "next_check now ?rd"
  note f = check_timestamps_fields [OF assms(1), of clk priv changed, folded res_def]
  have pos: "now < ?ne" by (rule next_check_future [OF assms(1)])
  have le: "?ne \<le> e" "?ne \<noteq> G_MAXINT32"
    if e: "e \<in> gw_expiry ` set (gateways ?rd) \<union> ad_expiry ` set (addresses ?rd)
           \<union> rt_expiry ` set (routes ?rd)" "e \<noteq> EXPIRY_INFINITY" for e
  proof -
    let ?n1 = "next_of G_MAXINT32 (map gw_expiry (gateways ?rd))"
    let ?n2 = "next_of ?n1 (map ad_expiry (addresses ?rd))"
    have ne: "?ne \<le> next_of ?n2 (map rt_expiry (routes ?rd))" by (rule next_check_le)
    have gen: "m \<le> min e (G_MAXINT32 - 1)" if "m \<le> next_of n es" "e \<in> set es" for m n es
      using that next_of_le_elem [OF _ e(2)] order_trans by blast
    have "?ne \<le> min e (G_MAXINT32 - 1)"
      using e(1) gen [of ?ne G_MAXINT32 "map gw_expiry (gateways ?rd)"]
        gen [of ?ne ?n1 "map ad_expiry (addresses ?rd)"]
        gen [of ?ne ?n2 "map rt_expiry (routes ?rd)"]
        ne next_of_le [of ?n2 "map rt_expiry (routes ?rd)"]
        next_of_le [of ?n1 "map ad_expiry (addresses ?rd)"]
      by fastforce
    then show "?ne \<le> e" "?ne \<noteq> G_MAXINT32" by simp_all
  qed
  show ?thesis
    using pos le by (auto simp: f split: if_splits)
qed

text \<open>
  A DNS server that is past half of its lifetime but not expired does not get a timer for
  its expiry: with nothing else that expires, the check asks the routers for a refresh and leaves
  the lifetime timer unarmed, so the server stays in the configuration beyond its lifetime unless
  a router answers.
\<close>

theorem dns_server_expiry_not_scheduled:
  assumes "now < G_MAXINT32" and "dns_servers (rdata priv) = [d]"
    and "gateways (rdata priv) = []" "addresses (rdata priv) = []" "routes (rdata priv) = []"
      "dns_domains (rdata priv) = []"
    and "ds_expiry d \<noteq> EXPIRY_INFINITY" "unexpired now (ds_expiry d)" "ds_expiry_half d \<le> now"
  shows "timeout_id (check_timestamps clk priv now 0) = None
    \<and> dns_servers (rdata (check_timestamps clk priv now 0)) = [d]
    \<and> send_id (check_timestamps clk priv now 0) \<noteq> None"
proof -
  have "ds_expiry_half d \<noteq> EXPIRY_INFINITY" using assms(7) by (simp add: ds_half)
  with assms show ?thesis
    by (simp add: check_timestamps_fields [OF assms(1)] expire_def next_check_def refresh_due_def
        solicit_routers_def Let_def split: option.split)
qed

section \<open>Creating the object\<close>

definition G_MININT32 :: int where
  "G_MININT32 = -2147483648"

definition nm_ndisc_init ::
  "string \<Rightarrow> string \<Rightarrow> NMUtilsStableType \<Rightarrow> NMSettingIP6ConfigAddrGenMode \<Rightarrow> int \<Rightarrow> int \<Rightarrow> int \<Rightarrow> int \<Rightarrow>
   NMNDiscNodeType \<Rightarrow> NMNDiscPrivate" where
  "nm_ndisc_init ifn netid stype mode max_addr ra_tmo rs rs_interval ntype =
     \<lparr>rdata = \<lparr>dhcp_level = NM_NDISC_DHCP_LEVEL_UNKNOWN, mtu = 0, hop_limit = 64,
               reachable_time_ms = 0, retrans_timer_ms = 0, gateways = [], addresses = [],
               routes = [], dns_servers = [], dns_domains = []\<rparr>,
      sends_left = 0, send_id = None, last_send = G_MININT32, ra_timeout_id = None,
      timeout_id = None, last_error = None, iid = replicate 8 0, ifname = ifn,
      network_id = netid, addr_gen_mode = mode, stable_type = stype, ra_timeout = ra_tmo,
      max_addresses = max_addr, router_solicitations = rs,
      router_solicitation_interval = rs_interval, node_type = ntype, signals = []\<rparr>"

definition example_host :: "NMNDiscPrivate" where
  "example_host = nm_ndisc_init ''eth0'' ''net'' NM_UTILS_STABLE_TYPE_UUID ADDR_GEN_MODE_STABLE_PRIVACY
     16 0 3 4 NM_NDISC_NODE_TYPE_HOST"

definition example_dns_host :: "NMNDiscPrivate" where
  "example_dns_host =
     example_host\<lparr>rdata := (rdata example_host)\<lparr>dns_servers := [example_ds 1 1000 7200]\<rparr>\<rparr>"

definition example_gw_host :: "NMNDiscPrivate" where
  "example_gw_host = example_host\<lparr>rdata := (rdata example_host)
     \<lparr>gateways := [example_gw 1 100 NM_ICMPV6_ROUTER_PREF_HIGH, example_gw 2 5 NM_ICMPV6_ROUTER_PREF_LOW]\<rparr>\<rparr>"

lemmas example_defs = example_dns_host_def example_gw_host_def example_host_def nm_ndisc_init_def
  example_ds_def example_gw_def

lemmas expiry_defs = gw_expiry_def ad_expiry_def rt_expiry_def ds_expiry_def dd_expiry_def
  ds_expiry_half_def dd_expiry_half_def get_expiry_time_def get_expiry_half_time_def
  NM_NDISC_INFINITY_def EXPIRY_INFINITY_def

theorem check_timestamps_refines_expire_witness:
  "gateways (rdata (check_timestamps 20 example_gw_host 20 0)) =
   [example_gw 1 100 NM_ICMPV6_ROUTER_PREF_HIGH]"
proof -
  have "(20::int) < G_MAXINT32" by (simp add: G_MAXINT32_def)
  from check_timestamps_refines_expire [OF this, of 20 example_gw_host 0] show ?thesis
    by (simp add: expire_def unexpired_def example_defs expiry_defs G_MAXINT32_def)
qed

theorem check_timestamps_timer_witness:
  "\<exists>d. timeout_id (check_timestamps 20 example_gw_host 20 0) = Some d \<and> 20000 + d \<le> 110000"
proof -
  let ?res = "check_timestamps 20 example_gw_host 20 0"
  have now: "(20::int) < G_MAXINT32" by (simp add: G_MAXINT32_def)
  have g: "gateways (rdata ?res) = [example_gw 1 100 NM_ICMPV6_ROUTER_PREF_HIGH]"
    by (simp add: check_timestamps_fields [OF now] expire_def unexpired_def example_defs
        expiry_defs G_MAXINT32_def)
  have e: "gw_expiry (example_gw 1 100 NM_ICMPV6_ROUTER_PREF_HIGH) = 110"
    by (simp add: example_defs expiry_defs)
  from check_timestamps_timer [OF now, of 20 example_gw_host 0] g e show ?thesis
    by (simp add: EXPIRY_INFINITY_def)
qed

theorem dns_server_expiry_not_scheduled_witness:
  "timeout_id (check_timestamps 5000 example_dns_host 5000 0) = None
   \<and> dns_servers (rdata (check_timestamps 5000 example_dns_host 5000 0)) = [example_ds 1 1000 7200]
   \<and> send_id (check_timestamps 5000 example_dns_host 5000 0) \<noteq> None"
  by (rule dns_server_expiry_not_scheduled)
    (simp_all add: example_defs expiry_defs unexpired_def G_MAXINT32_def)

theorem add_address_invariant_witness:
  "addresses_ok (snd (nm_ndisc_complete_and_add_address (\<lambda>_ _ _ _ _. replicate 8 7)
     example_host (example_addr 1 100 86400 600) 100))"
  by (rule add_address_invariant)
    (simp_all add: addresses_ok_def example_defs example_addr_def word_le_def)

end
