(* ===== verification/Ndisc_Machine.thy ===== *)
theory Ndisc_Machine
  imports Ndisc_Timers Inet "HOL-Library.Sublist"
begin

unbundle bit_operations_syntax

text \<open>
  The router discovery object as a state machine: the solicitation and announcement timers, the
  start, changes of the interface identifier, failed duplicate address detection, and the
  processing of a received router advertisement (\<^verbatim>\<open>receive_ra\<close> of
  \<^verbatim>\<open>NetworkManager/src/ndisc/nm-lndp-ndisc.c\<close>). What comes from outside is an argument of the
  operations: the clock \<open>clk\<close>, whether the network namespace could be entered (\<open>netns_ok\<close>),
  the outcome of sending a packet (\<^term>\<open>None\<close>, or the error message), random delays (\<open>rnd\<close>) and
  the message, as the values the accessors of libndp return for it.

  \<open>host_step\<close> is the step relation of a host; the invariant \<open>host_ok\<close> holds in every reachable
  state.
\<close>

section \<open>32-bit signed arithmetic\<close>

text \<open>Conversion to \<^verbatim>\<open>gint32\<close> as two's complement and to \<^verbatim>\<open>guint\<close>.\<close>

definition gint32 :: "int \<Rightarrow> int" where
  "gint32 x = (x + 2147483648) mod 4294967296 - 2147483648"

definition guint :: "int \<Rightarrow> int" where
  "guint x = x mod 4294967296"

section \<open>Router solicitations\<close>

definition send_rs_timeout ::
  "bool \<Rightarrow> string option \<Rightarrow> int \<Rightarrow> NMNDiscPrivate \<Rightarrow> NMNDiscPrivate" where
  "send_rs_timeout netns_ok send_rs clk priv =
     (let priv0 = priv\<lparr>send_id := None\<rparr> in
      if \<not> netns_ok then priv0
      else
        (let priv1 = (case send_rs of
                        None \<Rightarrow> priv0\<lparr>sends_left := sends_left priv0 - 1, last_error := None\<rparr>
                      | Some msg \<Rightarrow> priv0\<lparr>last_error := Some msg\<rparr>);
             priv2 = priv1\<lparr>last_send := clk\<rparr>
         in if sends_left priv2 > 0
            then priv2\<lparr>send_id := Some (Cb_send_rs_timeout, router_solicitation_interval priv2 * 1000)\<rparr>
            else priv2))"

section \<open>Router announcements\<close>

definition NM_NDISC_ROUTER_ADVERTISEMENTS_DEFAULT :: int where
  "NM_NDISC_ROUTER_ADVERTISEMENTS_DEFAULT = 3"

definition NM_NDISC_ROUTER_ADVERT_DELAY :: int where
  "NM_NDISC_ROUTER_ADVERT_DELAY = 3"

definition NM_NDISC_ROUTER_ADVERT_MAX_INTERVAL :: int where
  "NM_NDISC_ROUTER_ADVERT_MAX_INTERVAL = 600"

text \<open>\<open>rnd\<close> is the value of \<^verbatim>\<open>g_random_int_range (3, 16)\<close>, in seconds.\<close>

definition announce_router ::
  "bool \<Rightarrow> string option \<Rightarrow> int \<Rightarrow> int \<Rightarrow> NMNDiscPrivate \<Rightarrow> NMNDiscPrivate" where
  "announce_router netns_ok send_ra clk rnd priv =
     (if \<not> netns_ok then priv
      else
        (let priv1 = priv\<lparr>last_send := clk, last_error := send_ra\<rparr>;
             priv2 = priv1\<lparr>sends_left := sends_left priv1 - 1\<rparr>
         in if sends_left priv2 \<noteq> 0
            then priv2\<lparr>send_id := Some (Cb_announce_router, rnd * 1000)\<rparr>
            else priv2\<lparr>sends_left := 1,
                       send_id := Some (Cb_announce_router, NM_NDISC_ROUTER_ADVERT_MAX_INTERVAL * 1000)\<rparr>))"

text \<open>\<open>rnd\<close> is the value of \<^verbatim>\<open>g_random_int_range (0, 3)\<close>, in seconds.\<close>

definition announce_router_initial :: "int \<Rightarrow> int \<Rightarrow> NMNDiscPrivate \<Rightarrow> NMNDiscPrivate" where
  "announce_router_initial clk rnd priv =
     (let priv1 = priv\<lparr>sends_left := NM_NDISC_ROUTER_ADVERTISEMENTS_DEFAULT\<rparr>;
          priv2 = (if gint32 (clk - last_send priv1) > NM_NDISC_ROUTER_ADVERT_DELAY
                   then priv1\<lparr>send_id := None\<rparr> else priv1)
      in if send_id priv2 = None then priv2\<lparr>send_id := Some (Cb_announce_router, rnd * 1000)\<rparr>
         else priv2)"

text \<open>\<open>rnd\<close> is the value of \<^verbatim>\<open>g_random_int_range (0, 500)\<close>, in milliseconds.\<close>

definition announce_router_solicited :: "int \<Rightarrow> int \<Rightarrow> NMNDiscPrivate \<Rightarrow> NMNDiscPrivate" where
  "announce_router_solicited clk rnd priv =
     (let priv1 = (if gint32 (clk - last_send priv) > NM_NDISC_ROUTER_ADVERT_DELAY
                   then priv\<lparr>send_id := None\<rparr> else priv)
      in if send_id priv1 = None then priv1\<lparr>send_id := Some (Cb_announce_router, rnd)\<rparr>
         else priv1)"

definition nm_ndisc_rs_received :: "int \<Rightarrow> int \<Rightarrow> NMNDiscPrivate \<Rightarrow> NMNDiscPrivate" where
  "nm_ndisc_rs_received clk rnd priv =
     announce_router_solicited clk rnd (priv\<lparr>last_error := None\<rparr>)"

section \<open>Configuration\<close>

text \<open>Folding an add operation over an array, remembering whether any call reported a change.\<close>

fun add_each :: "('i \<Rightarrow> 's \<Rightarrow> bool \<times> 's) \<Rightarrow> 'i list \<Rightarrow> bool \<times> 's \<Rightarrow> bool \<times> 's" where
  "add_each f [] acc = acc"
| "add_each f (x # xs) (changed, s) =
     (case f x s of (r, s') \<Rightarrow> add_each f xs (changed \<or> r, s'))"

definition add_gateway_priv :: "NMNDiscGateway \<Rightarrow> NMNDiscPrivate \<Rightarrow> bool \<times> NMNDiscPrivate" where
  "add_gateway_priv new priv =
     (case nm_ndisc_add_gateway new (gateways (rdata priv)) of
        (r, xs) \<Rightarrow> (r, priv\<lparr>rdata := (rdata priv)\<lparr>gateways := xs\<rparr>\<rparr>))"

definition add_route_priv :: "NMNDiscRoute \<Rightarrow> NMNDiscPrivate \<Rightarrow> bool \<times> NMNDiscPrivate" where
  "add_route_priv new priv =
     (case nm_ndisc_add_route new (routes (rdata priv)) of
        (r, xs) \<Rightarrow> (r, priv\<lparr>rdata := (rdata priv)\<lparr>routes := xs\<rparr>\<rparr>))"

definition add_dns_server_priv :: "NMNDiscDNSServer \<Rightarrow> NMNDiscPrivate \<Rightarrow> bool \<times> NMNDiscPrivate" where
  "add_dns_server_priv new priv =
     (case nm_ndisc_add_dns_server new (dns_servers (rdata priv)) of
        (r, xs) \<Rightarrow> (r, priv\<lparr>rdata := (rdata priv)\<lparr>dns_servers := xs\<rparr>\<rparr>))"

definition add_dns_domain_priv :: "NMNDiscDNSDomain \<Rightarrow> NMNDiscPrivate \<Rightarrow> bool \<times> NMNDiscPrivate" where
  "add_dns_domain_priv new priv =
     (case nm_ndisc_add_dns_domain new (dns_domains (rdata priv)) of
        (r, xs) \<Rightarrow> (r, priv\<lparr>rdata := (rdata priv)\<lparr>dns_domains := xs\<rparr>\<rparr>))"

definition nm_ndisc_set_config ::
  "idgen \<Rightarrow> int \<Rightarrow> int \<Rightarrow> NMNDiscAddress list \<Rightarrow> NMNDiscDNSServer list \<Rightarrow> NMNDiscDNSDomain list \<Rightarrow>
   NMNDiscPrivate \<Rightarrow> NMNDiscPrivate" where
  "nm_ndisc_set_config idgen clk rnd as ds dd priv =
     (case add_each add_dns_domain_priv dd
             (add_each add_dns_server_priv ds
                (add_each (\<lambda>a p. nm_ndisc_add_address idgen p a 0 False) as (False, priv))) of
        (changed, priv') \<Rightarrow>
          if changed then announce_router_initial clk rnd priv' else priv')"

definition nm_ndisc_set_iid :: "int \<Rightarrow> u8 list \<Rightarrow> NMNDiscPrivate \<Rightarrow> bool \<times> NMNDiscPrivate" where
  "nm_ndisc_set_iid clk ident priv =
     (if iid priv \<noteq> ident then
        (let priv1 = priv\<lparr>iid := ident\<rparr> in
         if addr_gen_mode priv1 = ADDR_GEN_MODE_STABLE_PRIVACY then (False, priv1)
         else if addresses (rdata priv1) \<noteq> [] then
           (True, solicit_routers clk
                    (nm_ndisc_emit_config_change
                       (priv1\<lparr>rdata := (rdata priv1)\<lparr>addresses := []\<rparr>\<rparr>) NM_NDISC_CONFIG_ADDRESSES))
         else (True, priv1))
      else (False, priv))"

section \<open>Start and first-advertisement timeout\<close>

definition NM_RA_TIMEOUT_DEFAULT :: int where
  "NM_RA_TIMEOUT_DEFAULT = 0"

definition NM_RA_TIMEOUT_INFINITY :: int where
  "NM_RA_TIMEOUT_INFINITY = 2147483647"

definition ndisc_ra_timeout_cb :: "NMNDiscPrivate \<Rightarrow> NMNDiscPrivate" where
  "ndisc_ra_timeout_cb priv =
     priv\<lparr>ra_timeout_id := None, signals := signals priv @ [RA_TIMEOUT_SIGNAL]\<rparr>"

definition nm_ndisc_start :: "bool \<Rightarrow> int \<Rightarrow> int \<Rightarrow> NMNDiscPrivate \<Rightarrow> NMNDiscPrivate" where
  "nm_ndisc_start netns_ok clk rnd priv =
     (if \<not> netns_ok then priv
      else if node_type priv = NM_NDISC_NODE_TYPE_HOST then
        (let priv1 =
           (if ra_timeout priv \<noteq> NM_RA_TIMEOUT_INFINITY then
              (let tmo = (if ra_timeout priv = NM_RA_TIMEOUT_DEFAULT
                          then gint32 (max (router_solicitations priv * router_solicitation_interval priv + 1) 30)
                          else ra_timeout priv)
               in priv\<lparr>ra_timeout_id := Some (guint tmo * 1000)\<rparr>)
            else priv)
         in solicit_routers clk priv1)
      else announce_router_initial clk rnd priv)"

section \<open>Failed duplicate address detection\<close>

fun dad_failed_loop ::
  "idgen \<Rightarrow> NMNDiscPrivate \<Rightarrow> in6_addr \<Rightarrow> NMNDiscAddress list \<Rightarrow> bool \<times> NMNDiscAddress list" where
  "dad_failed_loop idgen priv address [] = (False, [])"
| "dad_failed_loop idgen priv address (item # items) =
     (case dad_failed_loop idgen priv address items of
        (changed, items') \<Rightarrow>
          if ad_address item = address then
            (case complete_address idgen priv item of
               (False, _) \<Rightarrow> (True, items')
             | (True, item') \<Rightarrow> (True, item' # items'))
          else (changed, item # items'))"

definition nm_ndisc_dad_failed ::
  "idgen \<Rightarrow> in6_addr \<Rightarrow> bool \<Rightarrow> NMNDiscPrivate \<Rightarrow> u32 \<times> NMNDiscPrivate" where
  "nm_ndisc_dad_failed idgen address emit_changed_signal priv =
     (case dad_failed_loop idgen priv address (addresses (rdata priv)) of
        (changed, as) \<Rightarrow>
          (let priv1 = priv\<lparr>rdata := (rdata priv)\<lparr>addresses := as\<rparr>\<rparr>;
               priv2 = (if emit_changed_signal \<and> changed
                        then nm_ndisc_emit_config_change priv1 NM_NDISC_CONFIG_ADDRESSES else priv1)
           in (if changed then NM_NDISC_CONFIG_ADDRESSES else 0, priv2)))"

section \<open>Receiving a router advertisement\<close>

text \<open>A router advertisement as the accessors of libndp present it.\<close>

datatype ndp_route_preference = NDP_ROUTE_PREF_LOW | NDP_ROUTE_PREF_MEDIUM | NDP_ROUTE_PREF_HIGH
  | NDP_ROUTE_PREF_OTHER

record ndp_opt_prefix =
  pi_len :: u8
  pi_prefix :: in6_addr
  pi_on_link :: bool
  pi_auto_addr_conf :: bool
  pi_valid_time :: u32
  pi_preferred_time :: u32

record ndp_opt_route =
  ro_prefix_len :: u8
  ro_prefix :: in6_addr
  ro_lifetime :: u32
  ro_preference :: ndp_route_preference

record ndp_msgra =
  ra_from :: in6_addr
  ra_managed :: bool
  ra_other :: bool
  ra_router_lifetime :: u16
  ra_preference :: ndp_route_preference
  ra_prefixes :: "ndp_opt_prefix list"
  ra_routes :: "ndp_opt_route list"
  ra_rdnss :: "(in6_addr list \<times> u32) list"
  ra_dnssl :: "(string list \<times> u32) list"
  ra_hop_limit :: u8
  ra_reachable_time :: u32
  ra_retransmit_time :: u32
  ra_mtu :: "u32 list"

definition route_preference_coerce :: "ndp_route_preference \<Rightarrow> NMIcmpv6RouterPref" where
  "route_preference_coerce pref =
     (case pref of
        NDP_ROUTE_PREF_LOW \<Rightarrow> NM_ICMPV6_ROUTER_PREF_LOW
      | NDP_ROUTE_PREF_MEDIUM \<Rightarrow> NM_ICMPV6_ROUTER_PREF_MEDIUM
      | NDP_ROUTE_PREF_HIGH \<Rightarrow> NM_ICMPV6_ROUTER_PREF_HIGH
      | NDP_ROUTE_PREF_OTHER \<Rightarrow> NM_ICMPV6_ROUTER_PREF_MEDIUM)"

definition set_flag :: "bool \<Rightarrow> u32 \<Rightarrow> u32 \<Rightarrow> u32" where
  "set_flag c flag changed = (if c then changed OR flag else changed)"

definition receive_ra_dhcp_level :: "ndp_msgra \<Rightarrow> u32 \<times> NMNDiscPrivate \<Rightarrow> u32 \<times> NMNDiscPrivate" where
  "receive_ra_dhcp_level msg st =
     (case st of (changed, priv) \<Rightarrow>
      (let level0 = (if ra_managed msg then NM_NDISC_DHCP_LEVEL_MANAGED
                     else if ra_other msg then NM_NDISC_DHCP_LEVEL_OTHERCONF
                     else NM_NDISC_DHCP_LEVEL_NONE);
           level = max level0 (dhcp_level (rdata priv))
       in if level \<noteq> dhcp_level (rdata priv)
          then (changed OR NM_NDISC_CONFIG_DHCP_LEVEL,
                priv\<lparr>rdata := (rdata priv)\<lparr>dhcp_level := level\<rparr>\<rparr>)
          else (changed, priv)))"

definition receive_ra_gateway :: "ndp_msgra \<Rightarrow> int \<Rightarrow> u32 \<times> NMNDiscPrivate \<Rightarrow> u32 \<times> NMNDiscPrivate" where
  "receive_ra_gateway msg now st =
     (case st of (changed, priv) \<Rightarrow>
      case add_gateway_priv
             \<lparr>gw_address = ra_from msg, gw_timestamp = word_of_int now,
              gw_lifetime = ucast (ra_router_lifetime msg),
              gw_preference = route_preference_coerce (ra_preference msg)\<rparr> priv of
        (r, priv') \<Rightarrow> (set_flag r NM_NDISC_CONFIG_GATEWAYS changed, priv'))"

definition receive_ra_prefix ::
  "idgen \<Rightarrow> int \<Rightarrow> ndp_opt_prefix \<Rightarrow> u32 \<times> NMNDiscPrivate \<Rightarrow> u32 \<times> NMNDiscPrivate" where
  "receive_ra_prefix idgen now opt st =
     (if pi_len opt = 0 \<or> pi_len opt > 128 then st
      else
        (let r_network = nm_utils_ip6_address_clear_host_address (pi_prefix opt) (pi_len opt) in
         if IN6_IS_ADDR_UNSPECIFIED r_network \<or> IN6_IS_ADDR_LINKLOCAL r_network then st
         else
           (let st1 =
              (if pi_on_link opt then
                 (case add_route_priv
                        \<lparr>rt_network = r_network, rt_plen = pi_len opt, rt_gateway = replicate 16 0,
                         rt_timestamp = word_of_int now, rt_lifetime = pi_valid_time opt,
                         rt_preference = NM_ICMPV6_ROUTER_PREF_MEDIUM\<rparr> (snd st) of
                    (r, priv') \<Rightarrow> (set_flag r NM_NDISC_CONFIG_ROUTES (fst st), priv'))
               else st)
            in if pi_len opt = 64 \<and> pi_auto_addr_conf opt
                  \<and> pi_preferred_time opt \<le> pi_valid_time opt then
                 (case nm_ndisc_complete_and_add_address idgen (snd st1)
                        \<lparr>ad_address = r_network, ad_dad_counter = 0, ad_timestamp = word_of_int now,
                         ad_lifetime = pi_valid_time opt, ad_preferred = pi_preferred_time opt\<rparr> now of
                    (r, priv') \<Rightarrow> (set_flag r NM_NDISC_CONFIG_ADDRESSES (fst st1), priv'))
               else st1)))"

definition receive_ra_route ::
  "ndp_msgra \<Rightarrow> int \<Rightarrow> ndp_opt_route \<Rightarrow> u32 \<times> NMNDiscPrivate \<Rightarrow> u32 \<times> NMNDiscPrivate" where
  "receive_ra_route msg now opt st =
     (if ro_prefix_len opt = 0 \<or> ro_prefix_len opt > 128 then st
      else
        (case add_route_priv
               \<lparr>rt_network = nm_utils_ip6_address_clear_host_address (ro_prefix opt) (ro_prefix_len opt),
                rt_plen = ro_prefix_len opt, rt_gateway = ra_from msg,
                rt_timestamp = word_of_int now, rt_lifetime = ro_lifetime opt,
                rt_preference = route_preference_coerce (ro_preference opt)\<rparr> (snd st) of
           (r, priv') \<Rightarrow> (set_flag r NM_NDISC_CONFIG_ROUTES (fst st), priv')))"

text \<open>DNS lifetimes are padded to two hours, except 0, which withdraws.\<close>

definition pad_lifetime :: "u32 \<Rightarrow> u32" where
  "pad_lifetime l = (if l \<noteq> 0 \<and> l < 7200 then 7200 else l)"

definition receive_ra_rdnss ::
  "int \<Rightarrow> in6_addr list \<times> u32 \<Rightarrow> u32 \<times> NMNDiscPrivate \<Rightarrow> u32 \<times> NMNDiscPrivate" where
  "receive_ra_rdnss now opt st =
     (case add_each add_dns_server_priv
             (map (\<lambda>a. \<lparr>ds_address = a, ds_timestamp = word_of_int now,
                        ds_lifetime = pad_lifetime (snd opt)\<rparr>) (fst opt)) (False, snd st) of
        (r, priv') \<Rightarrow> (set_flag r NM_NDISC_CONFIG_DNS_SERVERS (fst st), priv'))"

definition receive_ra_dnssl ::
  "int \<Rightarrow> string list \<times> u32 \<Rightarrow> u32 \<times> NMNDiscPrivate \<Rightarrow> u32 \<times> NMNDiscPrivate" where
  "receive_ra_dnssl now opt st =
     (case add_each add_dns_domain_priv
             (map (\<lambda>d. \<lparr>dd_domain = d, dd_timestamp = word_of_int now,
                        dd_lifetime = pad_lifetime (snd opt)\<rparr>) (fst opt)) (False, snd st) of
        (r, priv') \<Rightarrow> (set_flag r NM_NDISC_CONFIG_DNS_DOMAINS (fst st), priv'))"

definition receive_ra_params :: "ndp_msgra \<Rightarrow> u32 \<times> NMNDiscPrivate \<Rightarrow> u32 \<times> NMNDiscPrivate" where
  "receive_ra_params msg st =
     (case st of (changed, priv) \<Rightarrow>
      (let rd = rdata priv;
           hl = uint (ra_hop_limit msg);
           c1 = set_flag (hop_limit rd \<noteq> hl) NM_NDISC_CONFIG_HOP_LIMIT changed;
           rd1 = rd\<lparr>hop_limit := hl\<rparr>;
           v = ra_reachable_time msg;
           b2 = (v \<noteq> 0 \<and> reachable_time_ms rd1 \<noteq> v);
           c2 = set_flag b2 NM_NDISC_CONFIG_REACHABLE_TIME c1;
           rd2 = (if b2 then rd1\<lparr>reachable_time_ms := v\<rparr> else rd1);
           w = ra_retransmit_time msg;
           b3 = (w \<noteq> 0 \<and> retrans_timer_ms rd2 \<noteq> w);
           c3 = set_flag b3 NM_NDISC_CONFIG_RETRANS_TIMER c2;
           rd3 = (if b3 then rd2\<lparr>retrans_timer_ms := w\<rparr> else rd2)
       in (c3, priv\<lparr>rdata := rd3\<rparr>)))"

definition receive_ra_mtu :: "u32 \<Rightarrow> u32 \<times> NMNDiscPrivate \<Rightarrow> u32 \<times> NMNDiscPrivate" where
  "receive_ra_mtu m st =
     (case st of (changed, priv) \<Rightarrow>
      if m \<ge> 1280 \<and> mtu (rdata priv) \<noteq> m
      then (changed OR NM_NDISC_CONFIG_MTU, priv\<lparr>rdata := (rdata priv)\<lparr>mtu := m\<rparr>\<rparr>)
      else (changed, priv))"

definition receive_ra :: "idgen \<Rightarrow> int \<Rightarrow> int \<Rightarrow> ndp_msgra \<Rightarrow> NMNDiscPrivate \<Rightarrow> NMNDiscPrivate" where
  "receive_ra idgen clk now msg priv =
     (if IN6_IS_ADDR_UNSPECIFIED (ra_from msg) then priv
      else
        (case fold receive_ra_mtu (ra_mtu msg)
               (receive_ra_params msg
                 (fold (receive_ra_dnssl now) (ra_dnssl msg)
                   (fold (receive_ra_rdnss now) (ra_rdnss msg)
                     (fold (receive_ra_route msg now) (ra_routes msg)
                       (fold (receive_ra_prefix idgen now) (ra_prefixes msg)
                         (receive_ra_gateway msg now
                           (receive_ra_dhcp_level msg (0, priv)))))))) of
           (changed, priv') \<Rightarrow> nm_ndisc_ra_received clk priv' now changed))"

section \<open>The invariant of a host\<close>

definition data_ok :: "NMNDiscData \<Rightarrow> bool" where
  "data_ok rd \<longleftrightarrow>
     ASSERT_data_gateways (gateways rd)
     \<and> distinct (map rt_key (routes rd)) \<and> list_all rt_valid (routes rd)
     \<and> distinct (map ds_address (dns_servers rd))
     \<and> distinct (map dd_domain (dns_domains rd))
     \<and> list_all (\<lambda>a. 8 \<le> length (ad_address a)) (addresses rd)"

definition timers_ok :: "NMNDiscPrivate \<Rightarrow> bool" where
  "timers_ok priv \<longleftrightarrow>
     0 < router_solicitations priv
     \<and> (\<forall>cb d. send_id priv = Some (cb, d) \<longrightarrow>
          cb = Cb_send_rs_timeout \<and> 0 < sends_left priv \<and> sends_left priv \<le> router_solicitations priv)
     \<and> (\<forall>d. timeout_id priv = Some d \<longrightarrow> 0 < d)"

definition host_ok :: "NMNDiscPrivate \<Rightarrow> bool" where
  "host_ok priv \<longleftrightarrow>
     node_type priv = NM_NDISC_NODE_TYPE_HOST
     \<and> data_ok (rdata priv) \<and> addresses_ok priv \<and> timers_ok priv"

text \<open>What the invariant says of everything but the data.\<close>

definition ra_wf :: "ndp_msgra \<Rightarrow> bool" where
  "ra_wf msg \<longleftrightarrow> list_all (\<lambda>p. length (pi_prefix p) = 16) (ra_prefixes msg)"

inductive host_step :: "idgen \<Rightarrow> NMNDiscPrivate \<Rightarrow> NMNDiscPrivate \<Rightarrow> bool" for idgen where
  step_start: "host_step idgen priv (nm_ndisc_start netns_ok clk rnd priv)"
| step_receive_ra: "0 < now \<Longrightarrow> now < G_MAXINT32 \<Longrightarrow> ra_wf msg \<Longrightarrow>
    host_step idgen priv (receive_ra idgen clk now msg priv)"
| step_timeout: "timeout_id priv = Some d \<Longrightarrow> 0 < clk \<Longrightarrow> clk < G_MAXINT32 \<Longrightarrow>
    host_step idgen priv (timeout_cb clk priv)"
| step_send_rs: "send_id priv = Some (Cb_send_rs_timeout, d) \<Longrightarrow>
    host_step idgen priv (send_rs_timeout netns_ok send_rs clk priv)"
| step_ra_timeout: "ra_timeout_id priv = Some d \<Longrightarrow>
    host_step idgen priv (ndisc_ra_timeout_cb priv)"
| step_dad_failed: "host_step idgen priv (snd (nm_ndisc_dad_failed idgen a emit priv))"
| step_set_iid: "host_step idgen priv (snd (nm_ndisc_set_iid clk ident priv))"

inductive host_reachable :: "idgen \<Rightarrow> NMNDiscPrivate \<Rightarrow> bool" for idgen where
  reach_init: "0 < rs \<Longrightarrow> 0 \<le> max_addr \<Longrightarrow>
    host_reachable idgen (nm_ndisc_init ifn netid stype mode max_addr tmo rs interval NM_NDISC_NODE_TYPE_HOST)"
| reach_step: "host_reachable idgen s \<Longrightarrow> host_step idgen s t \<Longrightarrow> host_reachable idgen t"

lemma host_okI:
  "node_type p = NM_NDISC_NODE_TYPE_HOST \<Longrightarrow> data_ok (rdata p) \<Longrightarrow> addresses_ok p \<Longrightarrow> timers_ok p \<Longrightarrow> host_ok p"
  by (simp add: host_ok_def)

text \<open>Operations that only touch the send timer.\<close>

lemma timers_ok_solicit: "timers_ok priv \<Longrightarrow> timers_ok (solicit_routers clk priv)"
  by (auto simp: timers_ok_def solicit_routers_def Let_def split: option.split)

lemma addresses_ok_frame:
  "addresses (rdata p) = addresses (rdata q) \<Longrightarrow> max_addresses p = max_addresses q \<Longrightarrow>
   addresses_ok p = addresses_ok q"
  by (simp add: addresses_ok_def)

lemma host_ok_solicit: "host_ok priv \<Longrightarrow> host_ok (solicit_routers clk priv)"
  by (simp add: host_ok_def timers_ok_solicit addresses_ok_frame [of "solicit_routers clk priv" priv])

lemma host_ok_frame:
  assumes "host_ok p" "rdata q = rdata p" "node_type q = node_type p" "max_addresses q = max_addresses p"
    "timers_ok q"
  shows "host_ok q"
  using assms addresses_ok_frame [of q p] by (simp add: host_ok_def)

section \<open>Every step keeps the invariant\<close>

lemma distinct_map_filter: "distinct (map f xs) \<Longrightarrow> distinct (map f (filter P xs))"
  by (induction xs) auto

lemma data_ok_expire: "data_ok rd \<Longrightarrow> data_ok (expire now rd)"
  by (auto simp: data_ok_def expire_def ASSERT_data_gateways_def distinct_map_filter
      sorted_wrt_filter list_all_iff)

lemma host_ok_check:
  assumes "host_ok priv" "now < G_MAXINT32"
  shows "host_ok (check_timestamps clk priv now changed)"
proof -
  let ?r = "check_timestamps clk priv now changed"
  note f = check_timestamps_fields [OF assms(2), of clk priv changed]
  have d: "data_ok (rdata ?r)" using assms(1) by (simp add: f data_ok_expire host_ok_def)
  have len: "int (length (filter P as)) \<le> m" if "int (length as) \<le> m"
    for P and as :: "NMNDiscAddress list" and m
    using length_filter_le [of P as] that by linarith
  have a: "addresses_ok ?r"
    using assms(1) len
    by (auto simp: addresses_ok_def host_ok_def f expire_def distinct_map_filter list_all_iff)
  have nc: "now < next_check now (expire now (rdata priv))" by (rule next_check_future [OF assms(2)])
  let ?q = "if refresh_due now (expire now (rdata priv)) then solicit_routers clk (priv\<lparr>timeout_id := None\<rparr>)
            else priv\<lparr>timeout_id := None\<rparr>"
  have "timers_ok (priv\<lparr>timeout_id := None\<rparr>)" using assms(1) by (simp add: host_ok_def timers_ok_def)
  then have q: "timers_ok ?q" by (simp add: timers_ok_solicit)
  have "send_id ?r = send_id ?q" "sends_left ?r = sends_left ?q"
    "router_solicitations ?r = router_solicitations ?q"
    by (simp_all add: check_timestamps_eq [OF assms(2)] Let_def nm_ndisc_emit_config_change_def)
  with q have t: "timers_ok ?r"
    using nc by (auto simp: timers_ok_def f split: if_splits)
  show ?thesis using assms(1) d a t by (auto intro!: host_okI simp: f host_ok_def)
qed

lemma upsert_keys:
  "upsert key obs dead new xs r \<Longrightarrow> key ` set (snd r) \<subseteq> insert (key new) (key ` set xs)"
  by (erule upsert.cases) auto

lemma host_ok_add_gateway:
  assumes "host_ok priv" "gateway_ok g"
  shows "host_ok (snd (add_gateway_priv g priv))"
  using assms add_gateway_keeps [OF _ assms(2), of "gateways (rdata priv)"]
  by (simp add: add_gateway_priv_def case_prod_beta host_ok_def data_ok_def timers_ok_def addresses_ok_def)

lemma host_ok_add_route:
  assumes "host_ok priv"
  shows "host_ok (snd (add_route_priv new priv))"
proof (cases "rt_valid new")
  case False
  then have "nm_ndisc_add_route new (routes (rdata priv)) = (False, routes (rdata priv))"
    by (auto simp: nm_ndisc_add_route_def)
  with assms show ?thesis by (simp add: add_route_priv_def)
next
  case True
  from assms have d: "distinct (map rt_key (routes (rdata priv)))" and
    v: "list_all rt_valid (routes (rdata priv))"
    by (simp_all add: host_ok_def data_ok_def)
  note u = add_route_upsert [OF d True]
  from upsert_keys [OF u] v True have "list_all rt_valid (snd (nm_ndisc_add_route new (routes (rdata priv))))"
    by (fastforce simp: list_all_iff)
  with assms upsert_distinct [OF u d] show ?thesis
    by (simp add: add_route_priv_def case_prod_beta host_ok_def data_ok_def timers_ok_def addresses_ok_def)
qed

lemma host_ok_add_dns_server: "host_ok priv \<Longrightarrow> host_ok (snd (add_dns_server_priv d priv))"
  using dns_server_store.add_distinct [OF TrueI, of "dns_servers (rdata priv)" d]
  by (simp add: add_dns_server_priv_def case_prod_beta host_ok_def data_ok_def timers_ok_def addresses_ok_def)

lemma host_ok_add_dns_domain: "host_ok priv \<Longrightarrow> host_ok (snd (add_dns_domain_priv d priv))"
  using dns_domain_store.add_distinct [OF TrueI, of "dns_domains (rdata priv)" d]
  by (simp add: add_dns_domain_priv_def case_prod_beta host_ok_def data_ok_def timers_ok_def addresses_ok_def)

lemma add_each_invariant:
  assumes "\<And>x s. P s \<Longrightarrow> P (snd (f x s))" "P (snd acc)"
  shows "P (snd (add_each f xs acc))"
  using assms(2)
proof (induction xs arbitrary: acc)
  case (Cons x xs)
  obtain changed s where acc: "acc = (changed, s)" by fastforce
  obtain r s' where fx: "f x s = (r, s')" by fastforce
  from Cons.IH [of "(changed \<or> r, s')"] Cons.prems assms(1) [of s x] show ?case
    by (simp add: acc fx)
qed simp

lemma complete_address_length:
  "complete_address idgen priv a = (r, a') \<Longrightarrow> 8 \<le> length (ad_address a) \<Longrightarrow> 8 \<le> length (ad_address a')"
  by (auto simp: complete_address_def nm_utils_ipv6_addr_set_stable_privacy_def Let_def
      nm_utils_ipv6_addr_set_interface_identifier_def split: if_splits)

lemma complete_and_add_address_shape:
  assumes "list_all (\<lambda>a. 8 \<le> length (ad_address a)) (addresses (rdata priv))" "8 \<le> length (ad_address new)"
  shows "\<exists>as. snd (nm_ndisc_complete_and_add_address idgen priv new now_s) =
            priv\<lparr>rdata := (rdata priv)\<lparr>addresses := as\<rparr>\<rparr>
          \<and> list_all (\<lambda>a. 8 \<le> length (ad_address a)) as"
proof (cases "first_idx (\<lambda>item. ad_prefix item = ad_prefix new) 0 (addresses (rdata priv))")
  case (Some i)
  let ?as = "(addresses (rdata priv))[i := ra_update_address (addresses (rdata priv) ! i) new now_s]"
  have "list_all (\<lambda>a. 8 \<le> length (ad_address a)) ?as"
    using assms(1) first_idx_bound [OF Some]
    by (auto simp: list_all_iff dest!: set_update_subset_insert [THEN subsetD])
  with Some show ?thesis
    by (auto simp: nm_ndisc_complete_and_add_address_def nm_ndisc_add_address_def Let_def)
next
  case None
  obtain r new2 where c: "complete_address idgen priv (new\<lparr>ad_dad_counter := 0\<rparr>) = (r, new2)"
    by (cases "complete_address idgen priv (new\<lparr>ad_dad_counter := 0\<rparr>)")
  let ?s = "snd (nm_ndisc_complete_and_add_address idgen priv new now_s)"
  let ?as = "addresses (rdata priv)"
  have "?s = priv\<lparr>rdata := (rdata priv)\<lparr>addresses := ?as\<rparr>\<rparr>
      \<or> ?s = priv\<lparr>rdata := (rdata priv)\<lparr>addresses := ?as @ [new2]\<rparr>\<rparr>"
    using None by (cases r) (simp_all add: nm_ndisc_complete_and_add_address_def
        nm_ndisc_add_address_def Let_def c)
  with assms complete_address_length [OF c] show ?thesis by fastforce
qed

lemma host_ok_add_address:
  assumes "host_ok priv" "8 \<le> length (ad_address new)" "ad_preferred new \<le> ad_lifetime new"
  shows "host_ok (snd (nm_ndisc_complete_and_add_address idgen priv new now_s))"
proof -
  from assms(1) have l: "list_all (\<lambda>a. 8 \<le> length (ad_address a)) (addresses (rdata priv))"
    and ok: "addresses_ok priv" by (simp_all add: host_ok_def data_ok_def)
  obtain as where s: "snd (nm_ndisc_complete_and_add_address idgen priv new now_s) =
      priv\<lparr>rdata := (rdata priv)\<lparr>addresses := as\<rparr>\<rparr>" "list_all (\<lambda>a. 8 \<le> length (ad_address a)) as"
    using complete_and_add_address_shape [OF l assms(2)] by blast
  have "addresses_ok (priv\<lparr>rdata := (rdata priv)\<lparr>addresses := as\<rparr>\<rparr>)"
    using add_address_keeps [OF ok assms(2,3), of idgen now_s] by (simp add: s)
  with assms(1) s(2) show ?thesis
    by (simp add: s(1) host_ok_def data_ok_def timers_ok_def)
qed

lemma fold_host_ok:
  assumes "\<And>x s. x \<in> set xs \<Longrightarrow> host_ok (snd s) \<Longrightarrow> host_ok (snd (f x s))" "host_ok (snd s)"
  shows "host_ok (snd (fold f xs s))"
  using assms by (induction xs arbitrary: s) simp_all

lemma host_ok_dhcp_level: "host_ok (snd st) \<Longrightarrow> host_ok (snd (receive_ra_dhcp_level msg st))"
  by (simp add: receive_ra_dhcp_level_def Let_def case_prod_beta host_ok_def data_ok_def timers_ok_def
      addresses_ok_def)

lemma host_ok_ra_gateway:
  assumes "host_ok (snd st)" "0 < now" "now < G_MAXINT32" "\<not> IN6_IS_ADDR_UNSPECIFIED (ra_from msg)"
  shows "host_ok (snd (receive_ra_gateway msg now st))"
proof -
  have "uint (word_of_int now :: u32) = now"
    using assms(2,3) by (simp add: uint_word_of_int_small G_MAXINT32_def)
  then have "gateway_ok \<lparr>gw_address = ra_from msg, gw_timestamp = word_of_int now,
      gw_lifetime = ucast (ra_router_lifetime msg),
      gw_preference = route_preference_coerce (ra_preference msg)\<rparr>"
    using assms(2-4) by (simp add: gateway_ok_def word_less_def)
  from host_ok_add_gateway [OF assms(1) this] show ?thesis
    by (simp add: receive_ra_gateway_def case_prod_beta)
qed

lemma host_ok_ra_prefix:
  assumes "host_ok (snd st)" "length (pi_prefix opt) = 16"
  shows "host_ok (snd (receive_ra_prefix idgen now opt st))"
  using assms
  by (simp add: receive_ra_prefix_def Let_def case_prod_beta host_ok_add_address host_ok_add_route
      length_clear_host)

lemma host_ok_ra_route:
  "host_ok (snd st) \<Longrightarrow> host_ok (snd (receive_ra_route msg now opt st))"
  by (simp add: receive_ra_route_def case_prod_beta host_ok_add_route)

lemma host_ok_ra_rdnss: "host_ok (snd st) \<Longrightarrow> host_ok (snd (receive_ra_rdnss now opt st))"
  by (simp add: receive_ra_rdnss_def case_prod_beta add_each_invariant [of host_ok] host_ok_add_dns_server)

lemma host_ok_ra_dnssl: "host_ok (snd st) \<Longrightarrow> host_ok (snd (receive_ra_dnssl now opt st))"
  by (simp add: receive_ra_dnssl_def case_prod_beta add_each_invariant [of host_ok] host_ok_add_dns_domain)

lemma host_ok_rdata:
  assumes "host_ok p" "gateways rd = gateways (rdata p)" "addresses rd = addresses (rdata p)"
    "routes rd = routes (rdata p)" "dns_servers rd = dns_servers (rdata p)"
    "dns_domains rd = dns_domains (rdata p)"
  shows "host_ok (p\<lparr>rdata := rd\<rparr>)"
  using assms by (simp add: host_ok_def data_ok_def timers_ok_def addresses_ok_def)

lemma host_ok_ra_params: "host_ok (snd st) \<Longrightarrow> host_ok (snd (receive_ra_params msg st))"
  by (simp add: receive_ra_params_def Let_def case_prod_beta host_ok_rdata)

lemma host_ok_ra_mtu: "host_ok (snd st) \<Longrightarrow> host_ok (snd (receive_ra_mtu m st))"
  by (simp add: receive_ra_mtu_def case_prod_beta host_ok_def data_ok_def timers_ok_def addresses_ok_def)

lemma host_ok_receive_ra:
  assumes "host_ok priv" "0 < now" "now < G_MAXINT32" "ra_wf msg"
  shows "host_ok (receive_ra idgen clk now msg priv)"
proof (cases "IN6_IS_ADDR_UNSPECIFIED (ra_from msg)")
  case True
  with assms(1) show ?thesis by (simp add: receive_ra_def)
next
  case False
  define s1 where "s1 = receive_ra_gateway msg now (receive_ra_dhcp_level msg (0, priv))"
  define s2 where "s2 = fold (receive_ra_prefix idgen now) (ra_prefixes msg) s1"
  define s3 where "s3 = fold (receive_ra_route msg now) (ra_routes msg) s2"
  define s4 where "s4 = fold (receive_ra_rdnss now) (ra_rdnss msg) s3"
  define s5 where "s5 = fold (receive_ra_dnssl now) (ra_dnssl msg) s4"
  define s6 where "s6 = fold receive_ra_mtu (ra_mtu msg) (receive_ra_params msg s5)"
  note s_defs = s6_def s5_def s4_def s3_def s2_def s1_def
  have "host_ok (snd s1)"
    unfolding s1_def using assms(1-3) False by (intro host_ok_ra_gateway host_ok_dhcp_level) simp_all
  then have "host_ok (snd s2)"
    unfolding s2_def using assms(4)
    by (intro fold_host_ok host_ok_ra_prefix) (simp_all add: ra_wf_def list_all_iff)
  then have "host_ok (snd s3)" unfolding s3_def by (intro fold_host_ok host_ok_ra_route)
  then have "host_ok (snd s4)" unfolding s4_def by (intro fold_host_ok host_ok_ra_rdnss)
  then have "host_ok (snd s5)" unfolding s5_def by (intro fold_host_ok host_ok_ra_dnssl)
  then have "host_ok (snd s6)"
    unfolding s6_def by (intro fold_host_ok host_ok_ra_mtu host_ok_ra_params)
  then have "host_ok ((snd s6)\<lparr>ra_timeout_id := None, send_id := None, last_error := None\<rparr>)"
    by (simp add: host_ok_def timers_ok_def addresses_ok_def)
  from host_ok_check [OF this assms(3)] show ?thesis
    using False by (simp add: receive_ra_def nm_ndisc_ra_received_def case_prod_beta flip: s_defs)
qed

lemma host_ok_start: "host_ok priv \<Longrightarrow> host_ok (nm_ndisc_start netns_ok clk rnd priv)"
  by (auto simp: nm_ndisc_start_def Let_def intro!: host_ok_solicit)
    (auto simp: host_ok_def timers_ok_def addresses_ok_def)

lemma host_ok_timeout_cb:
  assumes "host_ok priv" "clk < G_MAXINT32"
  shows "host_ok (timeout_cb clk priv)"
proof -
  from assms(1) have "host_ok (priv\<lparr>timeout_id := None\<rparr>)"
    by (simp add: host_ok_def timers_ok_def addresses_ok_def)
  from host_ok_check [OF this assms(2)] show ?thesis by (simp add: timeout_cb_def)
qed

lemma host_ok_send_rs:
  assumes "host_ok priv" "send_id priv = Some (Cb_send_rs_timeout, d)"
  shows "host_ok (send_rs_timeout netns_ok send_rs clk priv)"
  using assms
  by (auto simp: send_rs_timeout_def Let_def host_ok_def timers_ok_def addresses_ok_def split: option.split)

lemma host_ok_ra_timeout: "host_ok priv \<Longrightarrow> host_ok (ndisc_ra_timeout_cb priv)"
  by (simp add: ndisc_ra_timeout_cb_def host_ok_def timers_ok_def addresses_ok_def)

lemma host_ok_emit: "host_ok (nm_ndisc_emit_config_change priv c) = host_ok priv"
  by (simp add: nm_ndisc_emit_config_change_def host_ok_def timers_ok_def addresses_ok_def)

lemma host_ok_set_iid: "host_ok priv \<Longrightarrow> host_ok (snd (nm_ndisc_set_iid clk ident priv))"
  by (auto simp: nm_ndisc_set_iid_def Let_def host_ok_emit intro!: host_ok_solicit)
    (auto simp: host_ok_def timers_ok_def addresses_ok_def data_ok_def)

text \<open>
  After a failed duplicate address detection every address that stays keeps its prefix and its
  lifetimes, so the list of prefixes is a subsequence of the old one.
\<close>

lemma dad_failed_loop_props:
  assumes "list_all (\<lambda>a. 8 \<le> length (ad_address a)) as"
    and "list_all (\<lambda>a. ad_preferred a \<le> ad_lifetime a) as"
  shows "subseq (map ad_prefix (snd (dad_failed_loop idgen priv address as))) (map ad_prefix as)
    \<and> list_all (\<lambda>a. 8 \<le> length (ad_address a)) (snd (dad_failed_loop idgen priv address as))
    \<and> list_all (\<lambda>a. ad_preferred a \<le> ad_lifetime a) (snd (dad_failed_loop idgen priv address as))"
  using assms
proof (induction as)
  case (Cons a as)
  obtain r a' where c: "complete_address idgen priv a = (r, a')" by fastforce
  obtain ch as' where l: "dad_failed_loop idgen priv address as = (ch, as')" by fastforce
  from Cons.prems have a: "8 \<le> length (ad_address a)" "ad_preferred a \<le> ad_lifetime a" by simp_all
  note ca = complete_address_prefix [OF c a(1)] complete_address_length [OF c a(1)]
    complete_address_lifetimes [OF c]
  from Cons ca a show ?case
    by (cases r) (auto simp: l c)
qed simp

lemma subseq_distinct: "subseq xs ys \<Longrightarrow> distinct ys \<Longrightarrow> distinct xs"
  by (induction rule: list_emb.induct) (auto elim: list_emb_set)

lemma host_ok_dad_failed:
  assumes "host_ok priv"
  shows "host_ok (snd (nm_ndisc_dad_failed idgen a emit priv))"
proof -
  obtain ch as where l: "dad_failed_loop idgen priv a (addresses (rdata priv)) = (ch, as)" by fastforce
  from assms have p: "list_all (\<lambda>a. 8 \<le> length (ad_address a)) (addresses (rdata priv))"
    "list_all (\<lambda>a. ad_preferred a \<le> ad_lifetime a) (addresses (rdata priv))"
    by (simp_all add: host_ok_def data_ok_def addresses_ok_def)
  note props = dad_failed_loop_props [OF p, of idgen priv a, unfolded l snd_conv]
  have "distinct (map ad_prefix as)"
    using props assms subseq_distinct [of "map ad_prefix as"] by (auto simp: host_ok_def addresses_ok_def)
  moreover have "length as \<le> length (addresses (rdata priv))"
    using props list_emb_length [of "(=)" "map ad_prefix as"] by force
  ultimately have "host_ok (priv\<lparr>rdata := (rdata priv)\<lparr>addresses := as\<rparr>\<rparr>)"
    using assms props
    by (auto simp: host_ok_def data_ok_def addresses_ok_def timers_ok_def)
  then show ?thesis
    by (simp add: nm_ndisc_dad_failed_def l Let_def host_ok_emit)
qed

lemma host_step_ok: "host_step idgen s t \<Longrightarrow> host_ok s \<Longrightarrow> host_ok t"
  by (induction rule: host_step.induct)
    (simp_all add: host_ok_start host_ok_receive_ra host_ok_timeout_cb host_ok_send_rs
      host_ok_ra_timeout host_ok_dad_failed host_ok_set_iid)

lemma host_ok_init:
  assumes "0 < rs" "0 \<le> max_addr"
  shows "host_ok (nm_ndisc_init ifn netid stype mode max_addr tmo rs interval NM_NDISC_NODE_TYPE_HOST)"
  using assms
  by (simp add: host_ok_def data_ok_def addresses_ok_def timers_ok_def nm_ndisc_init_def ASSERT_data_gateways_def)

text \<open>
  C1. In every state a host can reach from its creation, by starting, receiving any router
  advertisements, letting any of its timers fire, changing the interface identifier or reporting
  failed duplicate address detections, in any order: the gateways are sorted by preference and
  unexpired entries with distinct addresses, routes, DNS servers and domains have distinct keys,
  there is at most one autoconf address per prefix and at most \<^verbatim>\<open>max_addresses\<close> of them, an armed
  solicitation timer has between one and \<^verbatim>\<open>router_solicitations\<close> sends left, and an armed lifetime
  timer has a positive delay.
\<close>

theorem host_reachable_invariant:
  assumes "host_reachable idgen priv"
  shows "host_ok priv"
  using assms
proof (induction rule: host_reachable.induct)
  case (reach_init rs max_addr ifn netid stype mode tmo interval)
  then show ?case by (rule host_ok_init)
next
  case (reach_step s t)
  from host_step_ok [OF reach_step.hyps(2) reach_step.IH] show ?case .
qed

theorem host_reachable_invariant_witness:
  "host_ok (send_rs_timeout True None 5 (nm_ndisc_start True 1 0 example_host))"
proof -
  have 0: "host_reachable (\<lambda>_ _ _ _ _. []) example_host"
    unfolding example_host_def by (rule host_reachable.reach_init) simp_all
  note 1 = host_reachable.reach_step [OF 0 host_step.step_start [of _ example_host True 1 0]]
  have "send_id (nm_ndisc_start True 1 0 example_host) = Some (Cb_send_rs_timeout, 0)"
    by (simp add: example_defs nm_ndisc_start_def solicit_routers_def NM_RA_TIMEOUT_INFINITY_def
        NM_RA_TIMEOUT_DEFAULT_def Let_def G_MININT32_def G_MAXINT32_def)
  note 2 = host_reachable.reach_step [OF 1 host_step.step_send_rs [OF this]]
  show ?thesis by (rule host_reachable_invariant [OF 2])
qed

text \<open>
  Soliciting, driven by the main loop from the time \<open>now\<close> on, while no advertisement arrives: each
  element of the list is one firing of the send timer, with the outcome of the sending and the
  seconds by which the main loop is late. The result has the times at which packets were sent.
\<close>

fun rs_run :: "(string option \<times> int) list \<Rightarrow> int \<Rightarrow> NMNDiscPrivate \<Rightarrow> int list \<times> NMNDiscPrivate" where
  "rs_run [] now priv = ([], priv)"
| "rs_run ((send_rs, late) # es) now priv =
     (case send_id priv of
        Some (Cb_send_rs_timeout, d) \<Rightarrow>
          (let clk = now + d div 1000 + late;
               (ts, priv') = rs_run es clk (send_rs_timeout True send_rs clk priv)
           in (if send_rs = None then clk # ts else ts, priv'))
      | _ \<Rightarrow> ([], priv))"

lemma rs_run_sends:
  assumes "0 \<le> i" "0 \<le> d" "rs_run es now priv = (ts, priv')" "\<forall>e\<in>set es. 0 \<le> snd e"
    "router_solicitation_interval priv = i" "sends_left priv = int n"
    "send_id priv = (if n = 0 then None else Some (Cb_send_rs_timeout, d))"
  shows "length ts = min n (length (filter (\<lambda>e. fst e = None) es)) \<and> (\<forall>t\<in>set ts. now + d div 1000 \<le> t)
    \<and> sorted_wrt (\<lambda>s t. s + i \<le> t) ts \<and> sends_left priv' = int (n - length ts)
    \<and> (send_id priv' = None \<longleftrightarrow> length ts = n)"
  using assms(2-)
proof (induction es arbitrary: now priv n d ts)
  case (Cons e es)
  obtain r late where e: "e = (r, late)" "0 \<le> late" using Cons.prems(3) by (cases e) auto
  show ?case
  proof (cases n)
    case 0
    then show ?thesis using Cons.prems(2,5,6) e(1) by simp
  next
    case (Suc k)
    let ?c = "now + d div 1000 + late" and ?n = "if r = None then k else n"
    obtain us where us: "rs_run es ?c (send_rs_timeout True r ?c priv) = (us, priv')"
      "ts = (if r = None then ?c # us else us)"
      using Cons.prems(2,6) Suc e(1) by (auto simp: Let_def split: prod.splits)
    have "length us = min ?n (length (filter (\<lambda>e. fst e = None) es))
        \<and> (\<forall>t\<in>set us. ?c + (i * 1000) div 1000 \<le> t)
        \<and> sorted_wrt (\<lambda>s t. s + i \<le> t) us \<and> sends_left priv' = int (?n - length us)
        \<and> (send_id priv' = None \<longleftrightarrow> length us = ?n)"
      by (rule Cons.IH [OF _ us(1)])
        (use assms(1) Cons.prems(3-6) Suc e in \<open>auto simp: send_rs_timeout_def Let_def split: option.splits\<close>)
    moreover have "now + d div 1000 \<le> t" if "?c + i \<le> t" for t using that e(2) assms(1) by linarith
    ultimately show ?thesis using us(2) Suc e by (cases r) auto
  qed
qed auto

text \<open>
  C37. Soliciting stops. With a solicitation scheduled, \<open>n\<close> of them left, no advertisement and a
  network namespace that can be entered, whatever sends fail and however late the main loop is,
  no more than \<open>n\<close> packets are sent, any two of them at least one interval apart and the first not
  before the time it was scheduled for; a failed send is repeated and not counted. As soon as \<open>n\<close>
  sends succeeded, exactly \<open>n\<close> packets were sent and the timer is off; before that it is set.
\<close>

theorem solicitation_terminates:
  assumes "sends_left priv = int n" "0 < n" "send_id priv = Some (Cb_send_rs_timeout, d)" "0 \<le> d"
    and "0 \<le> router_solicitation_interval priv" "\<forall>e\<in>set es. 0 \<le> snd e"
    and "rs_run es now priv = (ts, priv')"
  shows "length ts = min n (length (filter (\<lambda>e. fst e = None) es))
    \<and> sorted_wrt (\<lambda>s t. s + router_solicitation_interval priv \<le> t) ts
    \<and> (\<forall>t\<in>set ts. now + d div 1000 \<le> t)
    \<and> sends_left priv' = int (n - length ts)
    \<and> (send_id priv' = None \<longleftrightarrow> n \<le> length (filter (\<lambda>e. fst e = None) es))"
  using rs_run_sends [OF assms(5,4,7,6) refl assms(1)] assms(2,3) by (auto simp: min_def)

text \<open>Three solicitations, four seconds apart; the second send fails, and the main loop is late once.\<close>

theorem solicitation_terminates_witness:
  "\<exists>ts priv'. rs_run [(None, 0), (Some ''error'', 0), (None, 2), (None, 0), (None, 0)] 1 (solicit_routers 1 example_host) = (ts, priv')
     \<and> length ts = 3 \<and> send_id priv' = None"
proof -
  let ?es = "[(None, 0), (Some ''error'', 0), (None, 2), (None, 0), (None, 0)] :: (string option \<times> int) list"
  have s: "sends_left (solicit_routers 1 example_host) = int 3"
    "send_id (solicit_routers 1 example_host) = Some (Cb_send_rs_timeout, 0)"
    "0 \<le> router_solicitation_interval (solicit_routers 1 example_host)" "\<forall>e\<in>set ?es. 0 \<le> snd e"
    by (simp_all add: solicit_routers_def example_defs Let_def G_MININT32_def G_MAXINT32_def)
  obtain ts priv' where r: "rs_run ?es 1 (solicit_routers 1 example_host) = (ts, priv')" by fastforce
  from solicitation_terminates [OF s(1) _ s(2) _ s(3,4) r] r show ?thesis by simp
qed

text \<open>
  Before the first announcement the time of the last one is \<^verbatim>\<open>G_MININT32\<close>, and the 32-bit
  subtraction of it from the clock overflows to a negative number: a solicitation that arrives
  then finds the pending announcement timer kept, instead of answering within half a second.
\<close>

theorem first_solicitation_not_expedited:
  assumes "0 \<le> clk" "clk \<le> G_MAXINT32" and "last_send priv = G_MININT32" and "send_id priv = Some t"
  shows "send_id (nm_ndisc_rs_received clk rnd priv) = Some t"
proof -
  have "gint32 (clk - G_MININT32) = clk - 2147483648"
    using assms(1,2) by (simp add: gint32_def G_MININT32_def G_MAXINT32_def)
  then show ?thesis
    using assms by (simp add: nm_ndisc_rs_received_def announce_router_solicited_def Let_def
        NM_NDISC_ROUTER_ADVERT_DELAY_def G_MAXINT32_def)
qed

definition example_router :: NMNDiscPrivate where
  "example_router = announce_router_initial 50 2
     (nm_ndisc_init ''eth0'' ''net'' NM_UTILS_STABLE_TYPE_UUID ADDR_GEN_MODE_EUI64 16 0 3 4
        NM_NDISC_NODE_TYPE_ROUTER)"

theorem first_solicitation_not_expedited_witness:
  "send_id (nm_ndisc_rs_received 51 100 example_router) = Some (Cb_announce_router, 2000)"
  by (rule first_solicitation_not_expedited)
    (simp_all add: example_router_def announce_router_initial_def nm_ndisc_init_def Let_def
      gint32_def G_MININT32_def G_MAXINT32_def NM_NDISC_ROUTER_ADVERT_DELAY_def)

end
