(* ===== verification/Acd_Filter.thy ===== *)
theory Acd_Filter
  imports Inet4
begin

text \<open>
  The packets of IPv4 address conflict detection and their two filters:
  \<^verbatim>\<open>n_acd_packet_is_valid\<close> of \<^verbatim>\<open>shared/n-acd/src/n-acd.c\<close> and the eBPF program of
  \<^verbatim>\<open>shared/n-acd/src/n-acd-bpf.c\<close>, which runs in the kernel on every packet of the socket.

  The program is the list of the instructions the code assembles; the second slot of the
  two-slot instruction is part of it, so that jumps count as in the kernel. The interpreter gives
  the instructions in use their documented meaning: registers hold 64-bit scalars or pointers,
  immediate operands of jumps are sign-extended, a load from the packet is in network byte order
  and ends the program with 0 beyond the end of the packet. A run that does something the kernel
  would refuse is a fault. The theorems: the program never faults, ends, and accepts exactly the
  packets \<open>acd_relevant\<close> describes; what it accepts passes the check in user space unless it is a
  packet of this host whose hardware address starts with a set bit, which the sign extension
  lets through.
\<close>

unbundle bit_operations_syntax

section \<open>ARP packets\<close>

text \<open>A \<^verbatim>\<open>struct ether_arp\<close> is the list of its 28 bytes.\<close>

abbreviation (input) ETHER_ARP_SIZE :: nat where "ETHER_ARP_SIZE \<equiv> 28"

abbreviation (input) ARPHRD_ETHER :: u16 where "ARPHRD_ETHER \<equiv> 1"
abbreviation (input) ETHERTYPE_IP :: u16 where "ETHERTYPE_IP \<equiv> 0x0800"
abbreviation (input) ARPOP_REQUEST :: u16 where "ARPOP_REQUEST \<equiv> 1"
abbreviation (input) ARPOP_REPLY :: u16 where "ARPOP_REPLY \<equiv> 2"

definition bytes_at :: "nat \<Rightarrow> nat \<Rightarrow> u8 list \<Rightarrow> u8 list" where
  "bytes_at k n p = take n (drop k p)"

abbreviation arp_hrd :: "u8 list \<Rightarrow> u8 list" where "arp_hrd \<equiv> bytes_at 0 2"
abbreviation arp_pro :: "u8 list \<Rightarrow> u8 list" where "arp_pro \<equiv> bytes_at 2 2"
abbreviation arp_hln :: "u8 list \<Rightarrow> u8 list" where "arp_hln \<equiv> bytes_at 4 1"
abbreviation arp_pln :: "u8 list \<Rightarrow> u8 list" where "arp_pln \<equiv> bytes_at 5 1"
abbreviation arp_op :: "u8 list \<Rightarrow> u8 list" where "arp_op \<equiv> bytes_at 6 2"
abbreviation arp_sha :: "u8 list \<Rightarrow> u8 list" where "arp_sha \<equiv> bytes_at 8 6"
abbreviation arp_spa :: "u8 list \<Rightarrow> u8 list" where "arp_spa \<equiv> bytes_at 14 4"
abbreviation arp_tpa :: "u8 list \<Rightarrow> u8 list" where "arp_tpa \<equiv> bytes_at 24 4"

text \<open>The bytes in memory of \<^verbatim>\<open>htobe16 (v)\<close>, and the value of bytes in network order.\<close>

definition htobe16 :: "u16 \<Rightarrow> u8 list" where
  "htobe16 v = [ucast (drop_bit 8 v), ucast v]"

definition be_value :: "u8 list \<Rightarrow> u64" where
  "be_value bs = fold (\<lambda>b v. v * 256 + ucast b) bs 0"

text \<open>The check in user space.\<close>

definition n_acd_packet_is_valid :: "u8 list \<Rightarrow> u8 list \<Rightarrow> bool" where
  "n_acd_packet_is_valid mac packet =
     (if length packet \<noteq> ETHER_ARP_SIZE then False
      else if arp_hrd packet \<noteq> htobe16 ARPHRD_ETHER then False
      else if arp_pro packet \<noteq> htobe16 ETHERTYPE_IP then False
      else if arp_hln packet \<noteq> [6] then False
      else if arp_pln packet \<noteq> [4] then False
      else if arp_sha packet = mac then False
      else if arp_spa packet \<noteq> [0, 0, 0, 0] then
        arp_op packet = htobe16 ARPOP_REQUEST \<or> arp_op packet = htobe16 ARPOP_REPLY
      else arp_op packet = htobe16 ARPOP_REQUEST)"

section \<open>eBPF\<close>

datatype bpf_size = BPF_B | BPF_H | BPF_W

datatype bpf_jmp = BPF_JA | BPF_JEQ | BPF_JNE | BPF_JGE

datatype bpf_insn =
    BPF_LD_ABS bpf_size nat
  | BPF_LDX_MEM bpf_size nat nat int
  | BPF_LD_MAP_FD nat
  | BPF_RESERVED
  | BPF_ALU_ADD_IMM nat int
  | BPF_MOV_REG nat nat
  | BPF_MOV_IMM nat int
  | BPF_STX_MEM bpf_size nat nat int
  | BPF_JMP_IMM bpf_jmp nat u32 nat
  | BPF_CALL_map_lookup_elem
  | BPF_EXIT_INSN

text \<open>
  Values of registers: numbers, the context (the \<^verbatim>\<open>struct __sk_buff\<close>), the stack with an offset
  from the frame pointer, the map and a pointer to one of its elements, which is never 0.
\<close>

datatype bpf_val = Scalar u64 | Ctx | Fp int | Map_ptr | Map_value | Uninit

record bpf_state =
  pc :: nat
  regs :: "nat \<Rightarrow> bpf_val"
  stack :: "int \<Rightarrow> u32 option"

datatype bpf_next = Next bpf_state | Return u64 | Fault

definition bpf_bytes :: "bpf_size \<Rightarrow> nat" where
  "bpf_bytes sz = (case sz of BPF_B \<Rightarrow> 1 | BPF_H \<Rightarrow> 2 | BPF_W \<Rightarrow> 4)"

text \<open>The sign-extended immediate operand.\<close>

definition imm64 :: "u32 \<Rightarrow> u64" where "imm64 i = scast i"

definition bpf_compare :: "bpf_jmp \<Rightarrow> bpf_val \<Rightarrow> u32 \<Rightarrow> bool option" where
  "bpf_compare op v imm =
     (case op of
        BPF_JA \<Rightarrow> Some True
      | BPF_JEQ \<Rightarrow>
          (case v of Scalar x \<Rightarrow> Some (x = imm64 imm) | Map_value \<Rightarrow> if imm = 0 then Some False else None | _ \<Rightarrow> None)
      | BPF_JNE \<Rightarrow>
          (case v of Scalar x \<Rightarrow> Some (x \<noteq> imm64 imm) | Map_value \<Rightarrow> if imm = 0 then Some True else None | _ \<Rightarrow> None)
      | BPF_JGE \<Rightarrow> (case v of Scalar x \<Rightarrow> Some (x \<ge> imm64 imm) | _ \<Rightarrow> None))"

text \<open>Loads from the packet and calls destroy the registers 1 to 5.\<close>

definition clobber :: "(nat \<Rightarrow> bpf_val) \<Rightarrow> nat \<Rightarrow> bpf_val" where
  "clobber r = r(1 := Uninit, 2 := Uninit, 3 := Uninit, 4 := Uninit, 5 := Uninit)"

definition bpf_step :: "u32 set \<Rightarrow> u8 list \<Rightarrow> bpf_insn \<Rightarrow> bpf_state \<Rightarrow> bpf_next" where
  "bpf_step m p insn s =
     (let r = regs s; go = (\<lambda>r'. Next (s\<lparr>pc := pc s + 1, regs := r'\<rparr>))
      in case insn of
          BPF_LD_ABS sz off \<Rightarrow>
            (if r 6 \<noteq> Ctx then Fault
             else if off + bpf_bytes sz \<le> length p
             then go ((clobber r)(0 := Scalar (be_value (bytes_at off (bpf_bytes sz) p))))
             else Return 0)
        | BPF_LDX_MEM sz d src off \<Rightarrow>
            (if r src = Ctx \<and> sz = BPF_W \<and> off = 0 then go (r(d := Scalar (word_of_nat (length p))))
             else Fault)
        | BPF_LD_MAP_FD d \<Rightarrow> Next (s\<lparr>pc := pc s + 2, regs := r(d := Map_ptr)\<rparr>)
        | BPF_RESERVED \<Rightarrow> Fault
        | BPF_ALU_ADD_IMM d i \<Rightarrow>
            (case r d of
               Scalar x \<Rightarrow> go (r(d := Scalar (x + word_of_int i)))
             | Fp off \<Rightarrow> go (r(d := Fp (off + i)))
             | _ \<Rightarrow> Fault)
        | BPF_MOV_REG d src \<Rightarrow> (if r src = Uninit then Fault else go (r(d := r src)))
        | BPF_MOV_IMM d i \<Rightarrow> go (r(d := Scalar (word_of_int i)))
        | BPF_STX_MEM sz d src off \<Rightarrow>
            (case (r d, r src) of
               (Fp base, Scalar x) \<Rightarrow>
                 if sz = BPF_W \<and> - 512 \<le> base + off \<and> base + off \<le> - 4
                 then Next (s\<lparr>pc := pc s + 1, stack := (stack s)(base + off := Some (ucast x))\<rparr>)
                 else Fault
             | _ \<Rightarrow> Fault)
        | BPF_JMP_IMM op d imm off \<Rightarrow>
            (case bpf_compare op (r d) imm of
               None \<Rightarrow> Fault
             | Some taken \<Rightarrow> Next (s\<lparr>pc := pc s + 1 + (if taken then off else 0)\<rparr>))
        | BPF_CALL_map_lookup_elem \<Rightarrow>
            (case (r 1, r 2) of
               (Map_ptr, Fp off) \<Rightarrow>
                 (case stack s off of
                    None \<Rightarrow> Fault
                  | Some key \<Rightarrow> go ((clobber r)(0 := if key \<in> m then Map_value else Scalar 0)))
             | _ \<Rightarrow> Fault)
        | BPF_EXIT_INSN \<Rightarrow> (case r 0 of Scalar x \<Rightarrow> Return x | _ \<Rightarrow> Fault))"

text \<open>A run of at most \<open>n\<close> instructions.\<close>

fun bpf_run :: "bpf_insn list \<Rightarrow> u32 set \<Rightarrow> u8 list \<Rightarrow> nat \<Rightarrow> bpf_state \<Rightarrow> u64 option" where
  "bpf_run prog m p 0 s = None"
| "bpf_run prog m p (Suc n) s =
     (if pc s < length prog then
        (case bpf_step m p (prog ! pc s) s of
           Next s' \<Rightarrow> bpf_run prog m p n s'
         | Return x \<Rightarrow> Some x
         | Fault \<Rightarrow> None)
      else None)"

definition bpf_init :: bpf_state where
  "bpf_init = \<lparr>pc = 0, regs = (\<lambda>_. Uninit)(1 := Ctx, 10 := Fp 0), stack = (\<lambda>_. None)\<rparr>"

section \<open>The program\<close>

definition bpf_drop :: "bpf_insn list" where
  "bpf_drop = [BPF_MOV_IMM 0 0, BPF_EXIT_INSN]"

definition n_acd_bpf_prog :: "u8 list \<Rightarrow> bpf_insn list" where
  "n_acd_bpf_prog mac =
     [BPF_MOV_REG 6 1,
      BPF_LDX_MEM BPF_W 0 6 0,
      BPF_JMP_IMM BPF_JGE 0 28 2] @ bpf_drop @
     [BPF_LD_ABS BPF_H 0,
      BPF_JMP_IMM BPF_JEQ 0 1 2] @ bpf_drop @
     [BPF_LD_ABS BPF_H 2,
      BPF_JMP_IMM BPF_JEQ 0 0x0800 2] @ bpf_drop @
     [BPF_LD_ABS BPF_B 4,
      BPF_JMP_IMM BPF_JEQ 0 6 2] @ bpf_drop @
     [BPF_LD_ABS BPF_B 5,
      BPF_JMP_IMM BPF_JEQ 0 4 2] @ bpf_drop @
     [BPF_LD_ABS BPF_W 8,
      BPF_JMP_IMM BPF_JNE 0 (ucast (be_value (bytes_at 0 4 mac))) 4,
      BPF_LD_ABS BPF_H 12,
      BPF_JMP_IMM BPF_JNE 0 (ucast (be_value (bytes_at 4 2 mac))) 2] @ bpf_drop @
     [BPF_LD_ABS BPF_W 14,
      BPF_JMP_IMM BPF_JEQ 0 0 7,
      BPF_MOV_REG 7 0,
      BPF_LD_ABS BPF_H 6,
      BPF_JMP_IMM BPF_JEQ 0 1 3,
      BPF_JMP_IMM BPF_JEQ 0 2 2] @ bpf_drop @
     [BPF_JMP_IMM BPF_JA 0 0 6,
      BPF_LD_ABS BPF_W 24,
      BPF_MOV_REG 7 0,
      BPF_LD_ABS BPF_H 6,
      BPF_JMP_IMM BPF_JEQ 0 1 2] @ bpf_drop @
     [BPF_STX_MEM BPF_W 10 7 (- 4),
      BPF_MOV_REG 2 10,
      BPF_ALU_ADD_IMM 2 (- 4),
      BPF_LD_MAP_FD 1,
      BPF_RESERVED,
      BPF_CALL_map_lookup_elem,
      BPF_JMP_IMM BPF_JNE 0 0 2] @ bpf_drop @
     [BPF_MOV_IMM 0 28,
      BPF_EXIT_INSN]"


section \<open>Values in network order\<close>

fun nat_value :: "nat \<Rightarrow> u8 list \<Rightarrow> nat" where
  "nat_value v [] = v"
| "nat_value v (b # bs) = nat_value (v * 256 + unat b) bs"

lemma be_value_nat: "fold (\<lambda>b v. v * 256 + ucast b) bs (word_of_nat v) = (word_of_nat (nat_value v bs) :: u64)"
proof (induction bs arbitrary: v)
  case (Cons b bs)
  have "word_of_nat v * 256 + ucast b = (word_of_nat (v * 256 + unat b) :: u64)"
    by simp
  then show ?case by (simp only: fold_simps nat_value.simps Cons.IH)
qed simp

lemma nat_value_bound: "nat_value v bs < (v + 1) * 256 ^ length bs"
proof (induction bs arbitrary: v)
  case (Cons b bs)
  have "unat b < 256" using unsigned_less [of b, where 'a = nat] by simp
  then have "(v * 256 + unat b + 1) * 256 ^ length bs \<le> (v + 1) * 256 * 256 ^ length bs"
    by (intro mult_right_mono) auto
  also have "\<dots> = (v + 1) * 256 ^ length (b # bs)" by (simp add: algebra_simps)
  finally show ?case using Cons.IH [of "v * 256 + unat b"] by (simp only: nat_value.simps)
qed simp

lemma nat_value_inj:
  "length as = length bs \<Longrightarrow> nat_value v as = nat_value w bs \<longleftrightarrow> v = w \<and> as = bs"
proof (induction as bs arbitrary: v w rule: list_induct2)
  case (Cons a as b bs)
  have "unat a < 256" "unat b < 256"
    using unsigned_less [where 'a = nat, of a] unsigned_less [where 'a = nat, of b] by auto
  then have "(v * 256 + unat a) div 256 = v" "(w * 256 + unat b) div 256 = w" by simp_all
  then have "v * 256 + unat a = w * 256 + unat b \<longleftrightarrow> v = w \<and> unat a = unat b" by fastforce
  with Cons.IH show ?case by (auto simp: word_unat_eq_iff)
qed simp

lemma be_value_eq_iff:
  assumes "length as = length bs" "length bs \<le> 8"
  shows "be_value as = be_value bs \<longleftrightarrow> as = bs"
proof -
  have "nat_value 0 cs < 2 ^ 64" if "length cs \<le> 8" for cs
  proof -
    have "nat_value 0 cs < 256 ^ length cs" using nat_value_bound [of 0 cs] by simp
    also have "\<dots> \<le> 256 ^ 8" using that by (intro power_increasing) auto
    finally show ?thesis by simp
  qed
  moreover have "be_value cs = word_of_nat (nat_value 0 cs)" for cs
    using be_value_nat [of cs 0] by (simp add: be_value_def)
  ultimately show ?thesis using assms nat_value_inj [OF assms(1), of 0 0]
    by (simp add: word_of_nat_eq_iff take_bit_eq_mod)
qed

lemma be_value_consts:
  "length bs = 1 \<Longrightarrow> be_value bs = 6 \<longleftrightarrow> bs = [6]"
  "length bs = 1 \<Longrightarrow> be_value bs = 4 \<longleftrightarrow> bs = [4]"
  "length bs = 2 \<Longrightarrow> be_value bs = 1 \<longleftrightarrow> bs = htobe16 1"
  "length bs = 2 \<Longrightarrow> be_value bs = 2 \<longleftrightarrow> bs = htobe16 2"
  "length bs = 2 \<Longrightarrow> be_value bs = 0x800 \<longleftrightarrow> bs = htobe16 0x800"
  "length bs = 4 \<Longrightarrow> be_value bs = 0 \<longleftrightarrow> bs = [0, 0, 0, 0]"
  using be_value_eq_iff [of bs "[6]"] be_value_eq_iff [of bs "[4]"] be_value_eq_iff [of bs "htobe16 1"]
    be_value_eq_iff [of bs "htobe16 2"] be_value_eq_iff [of bs "htobe16 0x800"]
    be_value_eq_iff [of bs "[0, 0, 0, 0]"]
  by (simp_all add: be_value_def htobe16_def)


text \<open>Sign extension: a hardware address that starts with a set bit equals no loaded value.\<close>

lemma be_value_less:
  assumes "length bs = n" "n \<le> 7"
  shows "be_value bs = word_of_nat (nat_value 0 bs)" "nat_value 0 bs < 256 ^ n"
  using be_value_nat [of bs 0] nat_value_bound [of 0 bs] assms by (simp_all add: be_value_def)

lemma imm64_msb: "bit (imm64 x) 63 = bit x 31"
  by (simp add: imm64_def bit_simps)

lemma imm64_nonneg: "\<not> bit x 31 \<Longrightarrow> imm64 x = ucast x"
proof (rule bit_word_eqI)
  fix n assume x: "\<not> bit x 31" and "n < LENGTH(64)"
  have "n < 31" if "bit x n" using that x bit_imp_le_length [OF that] by (cases "n = 31") auto
  then show "bit (imm64 x) n = bit (ucast x :: u64) n"
    using x \<open>n < LENGTH(64)\<close> by (auto simp: imm64_def bit_simps min_def)
qed

lemma be_value_high:
  assumes "length bs \<le> 4" "32 \<le> k"
  shows "\<not> bit (be_value bs) k"
proof -
  have "nat_value 0 bs < 256 ^ length bs" using be_value_less(2) [of bs] assms(1) by simp
  also have "\<dots> \<le> 256 ^ 4" using assms(1) by (intro power_increasing) auto
  finally have n: "nat_value 0 bs < 2 ^ 32" by simp
  have "nat_value 0 bs < 2 ^ k" using assms(2) by (intro less_le_trans [OF n] power_increasing) auto
  then have "\<not> bit (nat_value 0 bs) k" by (simp add: bit_nat_iff bit_iff_odd)
  then show ?thesis using be_value_less(1) [of bs] assms(1) by (simp add: bit_simps)
qed

lemma be_value_top:
  assumes "length bs = 4"
  shows "bit (be_value bs) 31 \<longleftrightarrow> 0x80 \<le> hd bs"
proof -
  obtain a r where bs: "bs = a # r" "length r = 3" using assms by (cases bs) auto
  obtain b c d where r: "r = [b, c, d]" using bs(2) by (auto simp: length_Suc_conv numeral_eq_Suc)
  have l: "unat a < 256" "unat b < 256" "unat c < 256" "unat d < 256"
    using unsigned_less [where 'a = nat, of a] unsigned_less [where 'a = nat, of b]
      unsigned_less [where 'a = nat, of c] unsigned_less [where 'a = nat, of d] by auto
  have v: "nat_value 0 bs = unat a * 2 ^ 24 + (unat b * 65536 + unat c * 256 + unat d)"
    by (simp add: bs r)
  have n: "nat_value 0 bs < 2 ^ 32" using be_value_less(2) [OF assms] by simp
  have "bit (nat_value 0 bs) 31 \<longleftrightarrow> odd (nat_value 0 bs div 2 ^ 31)" by (simp add: bit_iff_odd)
  also have "\<dots> \<longleftrightarrow> 2 ^ 31 \<le> nat_value 0 bs"
  proof -
    have "nat_value 0 bs div 2 ^ 31 < 2" using n by (simp add: less_mult_imp_div_less)
    then have "nat_value 0 bs div 2 ^ 31 = 0 \<or> nat_value 0 bs div 2 ^ 31 = 1" by linarith
    moreover have "nat_value 0 bs div 2 ^ 31 = 0 \<longleftrightarrow> nat_value 0 bs < 2 ^ 31" by (simp add: div_eq_0_iff)
    ultimately show ?thesis by auto
  qed
  also have "\<dots> \<longleftrightarrow> 128 \<le> unat a" unfolding v using l by auto
  also have "\<dots> \<longleftrightarrow> 0x80 \<le> a" by (simp add: word_le_nat_alt)
  finally show ?thesis using be_value_less(1) [OF assms] by (simp add: bs bit_simps)
qed

lemma ucast_be_value:
  assumes "length bs \<le> 4"
  shows "ucast (ucast (be_value bs) :: u32) = be_value bs"
  using be_value_high [OF assms] by (intro bit_word_eqI) (auto simp: bit_simps intro: ccontr)

lemma imm64_be4:
  assumes "length bs = 4" "length mac = 4"
  shows "be_value bs = imm64 (ucast (be_value mac)) \<longleftrightarrow> hd mac < 0x80 \<and> bs = mac"
proof (cases "0x80 \<le> hd mac")
  case True
  then have "bit (imm64 (ucast (be_value mac))) 63"
    using be_value_top [OF assms(2)] by (simp add: imm64_msb bit_simps)
  moreover have "\<not> bit (be_value bs) 63" using be_value_high [of bs] assms(1) by simp
  ultimately show ?thesis using True by auto
next
  case False
  then have "imm64 (ucast (be_value mac)) = be_value mac"
    using be_value_top [OF assms(2)] ucast_be_value [of mac] assms(2) by (simp add: imm64_nonneg bit_simps)
  moreover have "hd mac < 0x80" using False by simp
  ultimately show ?thesis using be_value_eq_iff [of bs mac] assms by simp
qed

lemma imm64_be2:
  assumes "length bs = 2" "length mac = 2"
  shows "be_value bs = imm64 (ucast (be_value mac)) \<longleftrightarrow> bs = mac"
proof -
  have "nat_value 0 mac < 2 ^ 16" using be_value_less(2) [OF assms(2)] by simp
  then have "nat_value 0 mac < 2 ^ 31" by simp
  then have "\<not> bit (nat_value 0 mac) 31" by (simp add: bit_iff_odd)
  then have "\<not> bit (ucast (be_value mac) :: u32) 31"
    using be_value_less(1) [OF assms(2)] by (simp add: bit_simps)
  then have "imm64 (ucast (be_value mac)) = be_value mac"
    using ucast_be_value [of mac] assms(2) by (simp add: imm64_nonneg)
  then show ?thesis using be_value_eq_iff [of bs mac] assms by simp
qed

lemma imm64_consts [simp]: "imm64 0 = 0" "imm64 1 = 1" "imm64 2 = 2" "imm64 4 = 4" "imm64 6 = 6"
  "imm64 28 = 28" "imm64 0x800 = 0x800"
  by (simp_all add: imm64_def)

section \<open>The verdict\<close>

definition acd_key :: "u8 list \<Rightarrow> u32" where
  "acd_key p = ucast (be_value (if arp_spa p \<noteq> [0, 0, 0, 0] then arp_spa p else arp_tpa p))"

lemma bpf_run_numeral:
  "bpf_run prog m p (numeral k) s =
     (if pc s < length prog then
        (case bpf_step m p (prog ! pc s) s of
           Next s' \<Rightarrow> bpf_run prog m p (pred_numeral k) s'
         | Return x \<Rightarrow> Some x
         | Fault \<Rightarrow> None)
      else None)"
  by (simp add: numeral_eq_Suc)

lemma length_bytes_at [simp]: "k + n \<le> length p \<Longrightarrow> length (bytes_at k n p) = n"
  by (simp add: bytes_at_def)

lemma program_length: "length (n_acd_bpf_prog mac) = 53"
  by (simp add: n_acd_bpf_prog_def bpf_drop_def)

lemma program_at:
  "n_acd_bpf_prog mac ! 0 = BPF_MOV_REG 6 1"
  "n_acd_bpf_prog mac ! Suc 0 = BPF_LDX_MEM BPF_W 0 6 0"
  "n_acd_bpf_prog mac ! 2 = BPF_JMP_IMM BPF_JGE 0 28 2"
  "n_acd_bpf_prog mac ! 3 = BPF_MOV_IMM 0 0"
  "n_acd_bpf_prog mac ! 4 = BPF_EXIT_INSN"
  "n_acd_bpf_prog mac ! 5 = BPF_LD_ABS BPF_H 0"
  "n_acd_bpf_prog mac ! 6 = BPF_JMP_IMM BPF_JEQ 0 1 2"
  "n_acd_bpf_prog mac ! 7 = BPF_MOV_IMM 0 0"
  "n_acd_bpf_prog mac ! 8 = BPF_EXIT_INSN"
  "n_acd_bpf_prog mac ! 9 = BPF_LD_ABS BPF_H 2"
  "n_acd_bpf_prog mac ! 10 = BPF_JMP_IMM BPF_JEQ 0 0x0800 2"
  "n_acd_bpf_prog mac ! 11 = BPF_MOV_IMM 0 0"
  "n_acd_bpf_prog mac ! 12 = BPF_EXIT_INSN"
  "n_acd_bpf_prog mac ! 13 = BPF_LD_ABS BPF_B 4"
  "n_acd_bpf_prog mac ! 14 = BPF_JMP_IMM BPF_JEQ 0 6 2"
  "n_acd_bpf_prog mac ! 15 = BPF_MOV_IMM 0 0"
  "n_acd_bpf_prog mac ! 16 = BPF_EXIT_INSN"
  "n_acd_bpf_prog mac ! 17 = BPF_LD_ABS BPF_B 5"
  "n_acd_bpf_prog mac ! 18 = BPF_JMP_IMM BPF_JEQ 0 4 2"
  "n_acd_bpf_prog mac ! 19 = BPF_MOV_IMM 0 0"
  "n_acd_bpf_prog mac ! 20 = BPF_EXIT_INSN"
  "n_acd_bpf_prog mac ! 21 = BPF_LD_ABS BPF_W 8"
  "n_acd_bpf_prog mac ! 22 = BPF_JMP_IMM BPF_JNE 0 (ucast (be_value (bytes_at 0 4 mac))) 4"
  "n_acd_bpf_prog mac ! 23 = BPF_LD_ABS BPF_H 12"
  "n_acd_bpf_prog mac ! 24 = BPF_JMP_IMM BPF_JNE 0 (ucast (be_value (bytes_at 4 2 mac))) 2"
  "n_acd_bpf_prog mac ! 25 = BPF_MOV_IMM 0 0"
  "n_acd_bpf_prog mac ! 26 = BPF_EXIT_INSN"
  "n_acd_bpf_prog mac ! 27 = BPF_LD_ABS BPF_W 14"
  "n_acd_bpf_prog mac ! 28 = BPF_JMP_IMM BPF_JEQ 0 0 7"
  "n_acd_bpf_prog mac ! 29 = BPF_MOV_REG 7 0"
  "n_acd_bpf_prog mac ! 30 = BPF_LD_ABS BPF_H 6"
  "n_acd_bpf_prog mac ! 31 = BPF_JMP_IMM BPF_JEQ 0 1 3"
  "n_acd_bpf_prog mac ! 32 = BPF_JMP_IMM BPF_JEQ 0 2 2"
  "n_acd_bpf_prog mac ! 33 = BPF_MOV_IMM 0 0"
  "n_acd_bpf_prog mac ! 34 = BPF_EXIT_INSN"
  "n_acd_bpf_prog mac ! 35 = BPF_JMP_IMM BPF_JA 0 0 6"
  "n_acd_bpf_prog mac ! 36 = BPF_LD_ABS BPF_W 24"
  "n_acd_bpf_prog mac ! 37 = BPF_MOV_REG 7 0"
  "n_acd_bpf_prog mac ! 38 = BPF_LD_ABS BPF_H 6"
  "n_acd_bpf_prog mac ! 39 = BPF_JMP_IMM BPF_JEQ 0 1 2"
  "n_acd_bpf_prog mac ! 40 = BPF_MOV_IMM 0 0"
  "n_acd_bpf_prog mac ! 41 = BPF_EXIT_INSN"
  "n_acd_bpf_prog mac ! 42 = BPF_STX_MEM BPF_W 10 7 (- 4)"
  "n_acd_bpf_prog mac ! 43 = BPF_MOV_REG 2 10"
  "n_acd_bpf_prog mac ! 44 = BPF_ALU_ADD_IMM 2 (- 4)"
  "n_acd_bpf_prog mac ! 45 = BPF_LD_MAP_FD 1"
  "n_acd_bpf_prog mac ! 46 = BPF_RESERVED"
  "n_acd_bpf_prog mac ! 47 = BPF_CALL_map_lookup_elem"
  "n_acd_bpf_prog mac ! 48 = BPF_JMP_IMM BPF_JNE 0 0 2"
  "n_acd_bpf_prog mac ! 49 = BPF_MOV_IMM 0 0"
  "n_acd_bpf_prog mac ! 50 = BPF_EXIT_INSN"
  "n_acd_bpf_prog mac ! 51 = BPF_MOV_IMM 0 28"
  "n_acd_bpf_prog mac ! 52 = BPF_EXIT_INSN"
  by (simp_all add: n_acd_bpf_prog_def bpf_drop_def)

lemmas bpf_exec = bpf_run_numeral program_length program_at bpf_step_def bpf_compare_def bpf_bytes_def
  clobber_def Let_def numeral_2_eq_2 [symmetric]

lemma bytes_at_append: "a + b = c \<Longrightarrow> bytes_at k c p = bytes_at k a p @ bytes_at (k + a) b p"
  by (simp add: bytes_at_def take_add [symmetric] add.commute flip: drop_drop)

lemma mac_halves:
  assumes "length mac = 6" "28 \<le> length p"
  shows "arp_sha p = mac \<longleftrightarrow> bytes_at 8 4 p = bytes_at 0 4 mac \<and> bytes_at 12 2 p = bytes_at 4 2 mac"
proof -
  have m: "bytes_at 0 4 mac @ bytes_at 4 2 mac = mac"
    using assms(1) bytes_at_append [of 4 2 6 0 mac] by (simp add: bytes_at_def)
  have p: "arp_sha p = bytes_at 8 4 p @ bytes_at 12 2 p" using bytes_at_append [of 4 2 6 8 p] by simp
  have "length (bytes_at 8 4 p) = length (bytes_at 0 4 mac)" using assms by simp
  then have "bytes_at 8 4 p @ bytes_at 12 2 p = bytes_at 0 4 mac @ bytes_at 4 2 mac
      \<longleftrightarrow> bytes_at 8 4 p = bytes_at 0 4 mac \<and> bytes_at 12 2 p = bytes_at 4 2 mac"
    by (rule append_eq_append_conv [OF disjI1])
  then show ?thesis by (simp only: m p)
qed

lemma htobe16_neq [simp]: "htobe16 1 \<noteq> htobe16 2" "htobe16 2 \<noteq> htobe16 1"
  by (simp_all add: htobe16_def)

lemma be_value_htobe16 [simp]:
  "be_value (htobe16 1) = 1" "be_value (htobe16 2) = 2" "be_value (htobe16 0x800) = 0x800"
  "be_value [4] = 4" "be_value [6] = 6" "be_value [0, 0, 0, 0] = 0"
  by (simp_all add: be_value_def htobe16_def)

lemma run_short:
  assumes "length p < 28"
  shows "bpf_run (n_acd_bpf_prog mac) m p 53 bpf_init = Some 0"
proof -
  have "\<not> (28 :: u64) \<le> word_of_nat (length p)" using assms by (simp add: word_le_nat_alt unat_of_nat)
  then show ?thesis by (simp add: bpf_exec bpf_init_def)
qed

lemma bytes_at_take: "k + n \<le> l \<Longrightarrow> bytes_at k n (take l p) = bytes_at k n p"
  by (simp add: bytes_at_def drop_take min_def)

lemma valid_take:
  assumes "28 \<le> length p"
  shows "n_acd_packet_is_valid mac (take 28 p) \<longleftrightarrow>
    arp_hrd p = htobe16 1 \<and> arp_pro p = htobe16 0x800 \<and> arp_hln p = [6] \<and> arp_pln p = [4]
    \<and> arp_sha p \<noteq> mac \<and> (arp_op p = htobe16 1 \<or> arp_op p = htobe16 2 \<and> arp_spa p \<noteq> [0, 0, 0, 0])"
  using assms by (auto simp: n_acd_packet_is_valid_def bytes_at_take)

text \<open>
  C5. For every packet the eBPF program ends without a fault. It accepts the first 28 bytes of
  exactly the packets that concern an address of the map and that the check in user space
  accepts, except that packets of this host are recognised only when the first bit of its
  hardware address is 0.
\<close>

theorem filter_exact:
  assumes "length mac = 6" "length p < 2 ^ 32"
  shows "bpf_run (n_acd_bpf_prog mac) m p 53 bpf_init =
    Some (if 28 \<le> length p \<and> acd_key p \<in> m
             \<and> n_acd_packet_is_valid (if hd mac < 0x80 then mac else []) (take 28 p) then 28 else 0)"
proof (cases "28 \<le> length p")
  case False
  then show ?thesis using run_short [of p mac m] by simp
next
  case True
  have ge: "(28 :: u64) \<le> word_of_nat (length p)"
    using True assms(2) by (simp add: word_le_nat_alt unat_of_nat)
  have hd: "hd (bytes_at 0 4 mac) = hd mac" using assms(1) by (cases mac) (simp_all add: bytes_at_def)
  have sha: "arp_sha p \<noteq> []" using True by (simp add: bytes_at_def)
  note run = bpf_exec bpf_init_def ge assms(1) be_value_consts imm64_be4 imm64_be2 hd acd_key_def
  note valid = valid_take [OF True] mac_halves [OF assms(1) True] sha
  let ?h = "hd mac < 0x80 \<and> bytes_at 8 4 p = bytes_at 0 4 mac"
  consider "arp_hrd p \<noteq> htobe16 1"
    | "arp_hrd p = htobe16 1" "arp_pro p \<noteq> htobe16 0x800"
    | "arp_hrd p = htobe16 1" "arp_pro p = htobe16 0x800" "arp_hln p \<noteq> [6]"
    | "arp_hrd p = htobe16 1" "arp_pro p = htobe16 0x800" "arp_hln p = [6]" "arp_pln p \<noteq> [4]"
    | "arp_hrd p = htobe16 1" "arp_pro p = htobe16 0x800" "arp_hln p = [6]" "arp_pln p = [4]"
      "?h" "bytes_at 12 2 p = bytes_at 4 2 mac"
    | "arp_hrd p = htobe16 1" "arp_pro p = htobe16 0x800" "arp_hln p = [6]" "arp_pln p = [4]"
      "?h" "bytes_at 12 2 p \<noteq> bytes_at 4 2 mac"
    | "arp_hrd p = htobe16 1" "arp_pro p = htobe16 0x800" "arp_hln p = [6]" "arp_pln p = [4]" "\<not> ?h"
    by argo
  from this True show ?thesis by cases (auto simp: run valid)
qed

theorem filter_exact_witness:
  "bpf_run (n_acd_bpf_prog [0x82, 0, 0, 0, 0, 1]) {0xC0A80101}
     ([0, 1, 8, 0, 6, 4, 0, 1] @ [0x82, 0, 0, 0, 0, 1] @ [192, 168, 1, 1] @ replicate 6 0 @ [192, 168, 1, 1])
     53 bpf_init = Some 28"
proof -
  let ?p = "[0, 1, 8, 0, 6, 4, 0, 1] @ [0x82, 0, 0, 0, 0, 1] @ [192, 168, 1, 1] @ replicate 6 0 @ [192, 168, 1, 1]"
  have "acd_key ?p = 0xC0A80101" "n_acd_packet_is_valid [] (take 28 ?p)"
    by (simp_all add: acd_key_def n_acd_packet_is_valid_def bytes_at_def be_value_def htobe16_def)
  then show ?thesis using filter_exact [of "[0x82, 0, 0, 0, 0, 1]" ?p "{0xC0A80101}"] by simp
qed

end
