(* ===== verification/Acd_Engine.thy ===== *)
theory Acd_Engine
  imports Acd_Filter "HOL-Library.Tree" "HOL-Library.Monad_Syntax"
begin

text \<open>
  The engine of IPv4 address conflict detection, \<^verbatim>\<open>shared/n-acd/src\<close>: the context
  (\<^verbatim>\<open>n-acd.c\<close>), the state machine of a probe (\<^verbatim>\<open>n-acd-probe.c\<close>), its timers (\<^verbatim>\<open>util/timer.c\<close>) and the
  map shared with the packet filter (\<^verbatim>\<open>n-acd-bpf.c\<close>).

  Probes are objects with a number for a pointer. A failed assertion, a use of a freed probe and
  a loop that does not end are the result \<open>None\<close>. The answers of the operating system are a
  record of functions of the number of calls made so far; every sequence of answers is one of
  them. Of the red-black trees (\<^verbatim>\<open>c-rbtree\<close>) the tree of timeouts is its elements in order, since
  the code uses only its order; the tree of addresses is a binary tree, since the search depends
  on its shape, and the rebalancing of the library is an argument. Times are 64-bit words.
\<close>

unbundle bit_operations_syntax

section \<open>Types\<close>

datatype probe_state =
    N_ACD_PROBE_STATE_PROBING | N_ACD_PROBE_STATE_CONFIGURING
  | N_ACD_PROBE_STATE_ANNOUNCING | N_ACD_PROBE_STATE_FAILED

datatype n_acd_event =
    N_ACD_EVENT_READY | N_ACD_EVENT_USED | N_ACD_EVENT_DEFENDED | N_ACD_EVENT_CONFLICT | N_ACD_EVENT_DOWN

abbreviation (input) N_ACD_DEFEND_NEVER :: nat where "N_ACD_DEFEND_NEVER \<equiv> 0"
abbreviation (input) N_ACD_DEFEND_ONCE :: nat where "N_ACD_DEFEND_ONCE \<equiv> 1"
abbreviation (input) N_ACD_DEFEND_ALWAYS :: nat where "N_ACD_DEFEND_ALWAYS \<equiv> 2"
abbreviation (input) N_ACD_DEFEND_N :: nat where "N_ACD_DEFEND_N \<equiv> 3"

abbreviation (input) N_ACD_E_PREEMPTED :: int where "N_ACD_E_PREEMPTED \<equiv> 1"
abbreviation (input) N_ACD_E_INVALID_ARGUMENT :: int where "N_ACD_E_INVALID_ARGUMENT \<equiv> 2"
definition N_ACD_E_DROPPED :: int where "N_ACD_E_DROPPED = 4"

abbreviation (input) ENOENT :: int where "ENOENT \<equiv> 2"
abbreviation (input) EIO :: int where "EIO \<equiv> 5"
abbreviation (input) ENXIO :: int where "ENXIO \<equiv> 6"
abbreviation (input) E2BIG :: int where "E2BIG \<equiv> 7"
abbreviation (input) EAGAIN :: int where "EAGAIN \<equiv> 11"
abbreviation (input) ENOMEM :: int where "ENOMEM \<equiv> 12"
abbreviation (input) EEXIST :: int where "EEXIST \<equiv> 17"
abbreviation (input) ENETDOWN :: int where "ENETDOWN \<equiv> 100"
abbreviation (input) ENOBUFS :: int where "ENOBUFS \<equiv> 105"

abbreviation (input) N_ACD_TIMEOUT_RFC5227 :: u64 where "N_ACD_TIMEOUT_RFC5227 \<equiv> 9000"
abbreviation (input) N_ACD_RFC_PROBE_NUM :: u32 where "N_ACD_RFC_PROBE_NUM \<equiv> 3"
abbreviation (input) N_ACD_RFC_PROBE_WAIT_NSEC :: u64 where "N_ACD_RFC_PROBE_WAIT_NSEC \<equiv> 111111"
abbreviation (input) N_ACD_RFC_PROBE_MIN_NSEC :: u64 where "N_ACD_RFC_PROBE_MIN_NSEC \<equiv> 111111"
abbreviation (input) N_ACD_RFC_PROBE_MAX_NSEC :: u64 where "N_ACD_RFC_PROBE_MAX_NSEC \<equiv> 333333"
abbreviation (input) N_ACD_RFC_ANNOUNCE_NUM :: u32 where "N_ACD_RFC_ANNOUNCE_NUM \<equiv> 3"
abbreviation (input) N_ACD_RFC_ANNOUNCE_WAIT_NSEC :: u64 where "N_ACD_RFC_ANNOUNCE_WAIT_NSEC \<equiv> 222222"
abbreviation (input) N_ACD_RFC_ANNOUNCE_INTERVAL_NSEC :: u64 where "N_ACD_RFC_ANNOUNCE_INTERVAL_NSEC \<equiv> 222222"
abbreviation (input) N_ACD_RFC_DEFEND_INTERVAL_NSEC :: u64 where "N_ACD_RFC_DEFEND_INTERVAL_NSEC \<equiv> 10000000000"

text \<open>
  \<open>p_linked\<close> says whether the node of the probe is in the tree of addresses, \<open>p_timer_set\<close> whether
  the pointer of its timeout to the timer is set. \<open>p_userdata\<close> is what the client stored.
\<close>

record NAcdProbe =
  p_ip :: u32
  p_timeout_multiplier :: u64
  p_userdata :: "u32 option"
  p_state :: probe_state
  p_n_iteration :: u32
  p_defend :: nat
  p_last_defend :: u64
  p_timeout :: u64
  p_timer_set :: bool
  p_linked :: bool

record NAcdEventNode =
  ev_event :: n_acd_event
  ev_probe :: "nat option"
  ev_sender :: "u8 list"
  is_public :: bool

text \<open>
  \<open>a_armed\<close> is the time the kernel's timer is set to, 0 when it is not running, \<open>a_bpf_map\<close> the map
  in the kernel, \<open>a_sent\<close> the packets the kernel accepted.
\<close>

record NAcd =
  a_n_refs :: nat
  a_mac :: "u8 list"
  a_probes :: "nat \<Rightarrow> NAcdProbe option"
  a_next_id :: nat
  a_ip_tree :: "nat tree"
  a_event_list :: "NAcdEventNode list"
  a_timer_tree :: "(u64 \<times> nat) list"
  a_scheduled_timeout :: u64
  a_armed :: u64
  a_bpf_map :: "u32 list"
  a_n_bpf_map :: nat
  a_max_bpf_map :: nat
  a_preempted :: bool
  a_sent :: "u8 list list"
  a_calls :: nat

text \<open>
  \<open>os_send\<close> answers the sending of a packet, \<open>os_bpf\<close> the creation and filling of maps and the loading
  of programs, \<open>os_bpf_delete\<close> the removal of a map entry (0 or the error number), \<open>os_gettime\<close> and
  \<open>os_settime\<close> are the results of \<^verbatim>\<open>clock_gettime\<close> and \<^verbatim>\<open>timerfd_settime\<close>, negative when they fail.
\<close>

datatype send_answer = Send_len nat | Send_errno int

record acd_os =
  os_now :: "nat \<Rightarrow> u64"
  os_rand :: "nat \<Rightarrow> u64"
  os_alloc :: "nat \<Rightarrow> bool"
  os_send :: "nat \<Rightarrow> send_answer"
  os_bpf :: "nat \<Rightarrow> int"
  os_bpf_delete :: "nat \<Rightarrow> int"
  os_gettime :: "nat \<Rightarrow> int"
  os_settime :: "nat \<Rightarrow> int"
  rb_balance :: "nat tree \<Rightarrow> nat tree"
  rb_unlink :: "nat \<Rightarrow> nat tree \<Rightarrow> nat tree"

definition tick :: "NAcd \<Rightarrow> NAcd" where
  "tick acd = acd\<lparr>a_calls := a_calls acd + 1\<rparr>"

definition upd_probe :: "nat \<Rightarrow> (NAcdProbe \<Rightarrow> NAcdProbe) \<Rightarrow> NAcd \<Rightarrow> NAcd" where
  "upd_probe p f acd = acd\<lparr>a_probes := (a_probes acd)(p := map_option f (a_probes acd p))\<rparr>"

section \<open>Timers\<close>

definition timer_now :: "acd_os \<Rightarrow> NAcd \<Rightarrow> (u64 \<times> NAcd) option" where
  "timer_now os acd =
     (if os_gettime os (a_calls acd) < 0 then None else Some (os_now os (a_calls acd), tick acd))"

definition timer_rearm :: "acd_os \<Rightarrow> NAcd \<Rightarrow> NAcd option" where
  "timer_rearm os acd =
     (let time = (case a_timer_tree acd of [] \<Rightarrow> 0 | (t, _) # _ \<Rightarrow> t)
      in if a_timer_tree acd \<noteq> [] \<and> time = 0 then None
         else if time \<noteq> a_scheduled_timeout acd
         then
           (if os_settime os (a_calls acd) < 0 then None
            else Some ((tick acd)\<lparr>a_armed := time, a_scheduled_timeout := time\<rparr>))
         else Some acd)"

text \<open>The first element that is due is removed; its probe is the result.\<close>

definition timer_pop_timeout :: "NAcd \<Rightarrow> u64 \<Rightarrow> nat option \<times> NAcd" where
  "timer_pop_timeout acd until =
     (case a_timer_tree acd of
        [] \<Rightarrow> (None, acd)
      | (t, p) # rest \<Rightarrow>
          if t \<le> until
          then (Some p, upd_probe p (p_timeout_update (\<lambda>_. 0)) (acd\<lparr>a_timer_tree := rest\<rparr>))
          else (None, acd))"

definition timer_insert :: "u64 \<Rightarrow> nat \<Rightarrow> (u64 \<times> nat) list \<Rightarrow> (u64 \<times> nat) list" where
  "timer_insert time p xs =
     takeWhile (\<lambda>(t, _). t \<le> time) xs @ (time, p) # dropWhile (\<lambda>(t, _). t \<le> time) xs"

definition timer_remove :: "nat \<Rightarrow> (u64 \<times> nat) list \<Rightarrow> (u64 \<times> nat) list" where
  "timer_remove p xs = filter (\<lambda>(_, q). q \<noteq> p) xs"

definition timeout_schedule :: "acd_os \<Rightarrow> NAcd \<Rightarrow> nat \<Rightarrow> u64 \<Rightarrow> NAcd option" where
  "timeout_schedule os acd p time =
     (if time = 0 then None
      else do {
        pr \<leftarrow> a_probes acd p;
        let xs = (if p_timer_set pr then timer_remove p (a_timer_tree acd) else a_timer_tree acd);
        timer_rearm os (upd_probe p (\<lambda>pr. pr\<lparr>p_timeout := time, p_timer_set := True\<rparr>)
          (acd\<lparr>a_timer_tree := timer_insert time p xs\<rparr>)) })"

definition timeout_unschedule :: "acd_os \<Rightarrow> NAcd \<Rightarrow> nat \<Rightarrow> NAcd option" where
  "timeout_unschedule os acd p = do {
     pr \<leftarrow> a_probes acd p;
     if \<not> p_timer_set pr then Some acd
     else timer_rearm os (upd_probe p (\<lambda>pr. pr\<lparr>p_timeout := 0, p_timer_set := False\<rparr>)
            (acd\<lparr>a_timer_tree := timer_remove p (a_timer_tree acd)\<rparr>)) }"

definition n_acd_probe_schedule :: "acd_os \<Rightarrow> NAcd \<Rightarrow> nat \<Rightarrow> u64 \<Rightarrow> u32 \<Rightarrow> NAcd option" where
  "n_acd_probe_schedule os acd p n_timeout n_jitter =
     do {
       (now, acd1) \<leftarrow> timer_now os acd;
       let n_time = now + n_timeout;
       let (n_time, acd2) =
         (if n_jitter \<noteq> 0
          then (n_time + os_rand os (a_calls acd1) mod ucast n_jitter, tick acd1)
          else (n_time, acd1));
       timeout_schedule os acd2 p n_time }"

section \<open>Events and packets\<close>

definition n_acd_raise :: "acd_os \<Rightarrow> NAcd \<Rightarrow> n_acd_event \<Rightarrow> int \<times> NAcd" where
  "n_acd_raise os acd event =
     (let acd1 = tick acd
      in if \<not> os_alloc os (a_calls acd) then (- ENOMEM, acd1)
         else (0, acd1\<lparr>a_event_list :=
           a_event_list acd1 @ [\<lparr>ev_event = event, ev_probe = None, ev_sender = [], is_public = False\<rparr>]\<rparr>))"

definition upd_last :: "(NAcdEventNode \<Rightarrow> NAcdEventNode) \<Rightarrow> NAcd \<Rightarrow> NAcd" where
  "upd_last f acd =
     acd\<lparr>a_event_list := butlast (a_event_list acd) @ [f (last (a_event_list acd))]\<rparr>"

definition n_acd_probe_raise :: "acd_os \<Rightarrow> NAcd \<Rightarrow> nat \<Rightarrow> n_acd_event \<Rightarrow> (int \<times> NAcd) option" where
  "n_acd_probe_raise os acd p event =
     (case n_acd_raise os acd event of
        (r, acd1) \<Rightarrow>
          if r \<noteq> 0 then Some (r, acd1)
          else if event = N_ACD_EVENT_DOWN then None
          else Some (0, upd_last (\<lambda>node. node\<lparr>ev_probe := Some p\<rparr>) acd1))"

definition arp_packet :: "u8 list \<Rightarrow> u32 \<Rightarrow> u32 option \<Rightarrow> u8 list" where
  "arp_packet mac tpa spa =
     htobe16 ARPHRD_ETHER @ htobe16 ETHERTYPE_IP @ [6, 4] @ htobe16 ARPOP_REQUEST @ mac
     @ (case spa of None \<Rightarrow> [0, 0, 0, 0] | Some a \<Rightarrow> ip_bytes a)
     @ [0, 0, 0, 0, 0, 0] @ ip_bytes tpa"

definition n_acd_send :: "acd_os \<Rightarrow> NAcd \<Rightarrow> u32 \<Rightarrow> u32 option \<Rightarrow> int \<times> NAcd" where
  "n_acd_send os acd tpa spa =
     (let acd1 = tick acd
      in case os_send os (a_calls acd) of
          Send_errno e \<Rightarrow>
            if e = EAGAIN \<or> e = ENOBUFS then (N_ACD_E_DROPPED, acd1)
            else if e = ENETDOWN \<or> e = ENXIO then
              (case n_acd_raise os acd1 N_ACD_EVENT_DOWN of
                 (r, acd2) \<Rightarrow> if r \<noteq> 0 then (r, acd2) else (N_ACD_E_DROPPED, acd2))
            else (- e, acd1)
        | Send_len l \<Rightarrow>
            if l \<noteq> ETHER_ARP_SIZE then (N_ACD_E_DROPPED, acd1)
            else (0, acd1\<lparr>a_sent := a_sent acd1 @ [arp_packet (a_mac acd) tpa spa]\<rparr>))"

section \<open>The tree of addresses and the map of the filter\<close>

text \<open>The next element of a linked probe in the order of the tree; the previous one is the next of the reverse.\<close>

definition rb_next :: "nat \<Rightarrow> nat list \<Rightarrow> nat option" where
  "rb_next p xs = (case dropWhile (\<lambda>q. q \<noteq> p) xs of _ # q # _ \<Rightarrow> Some q | _ \<Rightarrow> None)"

definition same_ip :: "NAcd \<Rightarrow> nat option \<Rightarrow> u32 \<Rightarrow> bool option" where
  "same_ip acd sibling a =
     (case sibling of
        None \<Rightarrow> Some False
      | Some q \<Rightarrow> map_option (\<lambda>pr. p_ip pr = a) (a_probes acd q))"

definition n_acd_probe_is_unique :: "NAcd \<Rightarrow> nat \<Rightarrow> bool option" where
  "n_acd_probe_is_unique acd p = do {
     pr \<leftarrow> a_probes acd p;
     if \<not> p_linked pr then Some False
     else do {
       n \<leftarrow> same_ip acd (rb_next p (inorder (a_ip_tree acd))) (p_ip pr);
       if n then Some False
       else do {
         b \<leftarrow> same_ip acd (rb_next p (rev (inorder (a_ip_tree acd)))) (p_ip pr);
         Some (\<not> b) } } }"

definition n_acd_bpf_map_add :: "acd_os \<Rightarrow> nat \<Rightarrow> u32 list \<Rightarrow> nat \<Rightarrow> u32 \<Rightarrow> int \<times> u32 list" where
  "n_acd_bpf_map_add os call m max_entries a =
     (if os_bpf os call \<noteq> 0 then (- os_bpf os call, m)
      else if ntohl a \<in> set m then (- EEXIST, m)
      else if length m \<ge> max_entries then (- E2BIG, m)
      else (0, ntohl a # m))"

definition n_acd_bpf_map_remove :: "acd_os \<Rightarrow> nat \<Rightarrow> u32 list \<Rightarrow> u32 \<Rightarrow> int \<times> u32 list" where
  "n_acd_bpf_map_remove os call m a =
     (if os_bpf_delete os call \<noteq> 0 then (- os_bpf_delete os call, m)
      else if ntohl a \<in> set m then (0, removeAll (ntohl a) m) else (- ENOENT, m))"

fun bpf_map_fill :: "acd_os \<Rightarrow> NAcd \<Rightarrow> nat \<Rightarrow> nat list \<Rightarrow> u32 list \<Rightarrow> (int \<times> NAcd \<times> u32 list) option" where
  "bpf_map_fill os acd max_map [] m = Some (0, acd, m)"
| "bpf_map_fill os acd max_map (q # qs) m = do {
     pr \<leftarrow> a_probes acd q;
     case n_acd_bpf_map_add os (a_calls acd) m max_map (p_ip pr) of
       (r, m') \<Rightarrow>
         if r \<noteq> 0 then Some (r, tick acd, m')
         else bpf_map_fill os (tick acd) max_map qs m' }"

text \<open>
  The map is created anew with twice the room, filled, and the program compiled for it attached
  to the socket; each of these calls of the kernel may fail.
\<close>

definition n_acd_ensure_bpf_map_space :: "acd_os \<Rightarrow> NAcd \<Rightarrow> (int \<times> NAcd) option" where
  "n_acd_ensure_bpf_map_space os acd =
     (if a_n_bpf_map acd < a_max_bpf_map acd then Some (0, acd)
      else
        (let max_map = 2 * a_max_bpf_map acd
         in if os_bpf os (a_calls acd) \<noteq> 0 then Some (- os_bpf os (a_calls acd), tick acd)
            else do {
              (r, acd1, m) \<leftarrow> bpf_map_fill os (tick acd) max_map (inorder (a_ip_tree acd)) [];
              if r \<noteq> 0 then Some (r, acd1)
              else if os_bpf os (a_calls acd1) \<noteq> 0 then Some (- os_bpf os (a_calls acd1), tick acd1)
              else if os_bpf os (a_calls acd1 + 1) \<noteq> 0
              then Some (- os_bpf os (a_calls acd1 + 1), tick (tick acd1))
              else Some (0, tick (tick acd1)\<lparr>a_bpf_map := m, a_max_bpf_map := max_map\<rparr>) }))"

text \<open>Descending to the place of a new node; duplicates go to the right.\<close>

fun tree_link :: "(nat \<Rightarrow> u32) \<Rightarrow> nat \<Rightarrow> nat tree \<Rightarrow> nat tree" where
  "tree_link k p Leaf = Node Leaf p Leaf"
| "tree_link k p (Node l q r) =
     (if k p < k q then Node (tree_link k p l) q r else Node l q (tree_link k p r))"

definition ip_of :: "NAcd \<Rightarrow> nat \<Rightarrow> u32" where
  "ip_of acd q = (case a_probes acd q of Some pr \<Rightarrow> p_ip pr | None \<Rightarrow> 0)"

definition tree_unlink :: "acd_os \<Rightarrow> nat \<Rightarrow> NAcd \<Rightarrow> NAcd" where
  "tree_unlink os p acd =
     upd_probe p (p_linked_update (\<lambda>_. False)) (acd\<lparr>a_ip_tree := rb_unlink os p (a_ip_tree acd)\<rparr>)"

definition n_acd_probe_link :: "acd_os \<Rightarrow> NAcd \<Rightarrow> nat \<Rightarrow> (int \<times> NAcd) option" where
  "n_acd_probe_link os acd p = do {
     (r, acd1) \<leftarrow> n_acd_ensure_bpf_map_space os acd;
     if r \<noteq> 0 then Some (r, acd1)
     else do {
       pr \<leftarrow> a_probes acd1 p;
       let acd2 = upd_probe p (p_linked_update (\<lambda>_. True))
             (acd1\<lparr>a_ip_tree := rb_balance os (tree_link (ip_of acd1) p (a_ip_tree acd1))\<rparr>);
       u \<leftarrow> n_acd_probe_is_unique acd2 p;
       if \<not> u then Some (0, acd2)
       else case n_acd_bpf_map_add os (a_calls acd2) (a_bpf_map acd2) (a_max_bpf_map acd2) (p_ip pr) of
           (r, m) \<Rightarrow>
             if r \<noteq> 0 then Some (r, tree_unlink os p (tick acd2))
             else Some (0, (tick acd2)\<lparr>a_bpf_map := m, a_n_bpf_map := a_n_bpf_map acd2 + 1\<rparr>) } }"

definition n_acd_probe_unlink :: "acd_os \<Rightarrow> NAcd \<Rightarrow> nat \<Rightarrow> NAcd option" where
  "n_acd_probe_unlink os acd p = do {
     pr \<leftarrow> a_probes acd p;
     u \<leftarrow> n_acd_probe_is_unique acd p;
     acd1 \<leftarrow> (if u then
                (case n_acd_bpf_map_remove os (a_calls acd) (a_bpf_map acd) (p_ip pr) of
                   (r, m) \<Rightarrow>
                     if r < 0 then None
                     else Some ((tick acd)\<lparr>a_bpf_map := m, a_n_bpf_map := a_n_bpf_map acd - 1\<rparr>))
              else Some acd);
     Some (if p_linked pr then tree_unlink os p acd1 else acd1) }"

section \<open>Probes\<close>

definition n_acd_probe_free :: "acd_os \<Rightarrow> NAcd \<Rightarrow> nat \<Rightarrow> NAcd option" where
  "n_acd_probe_free os acd p = do {
     acd1 \<leftarrow> timeout_unschedule os
       (acd\<lparr>a_event_list := filter (\<lambda>node. ev_probe node \<noteq> Some p) (a_event_list acd)\<rparr>) p;
     acd2 \<leftarrow> n_acd_probe_unlink os acd1 p;
     Some (acd2\<lparr>a_n_refs := a_n_refs acd2 - 1, a_probes := (a_probes acd2)(p := None)\<rparr>) }"

definition N_ACD_PROBE_NULL :: NAcdProbe where
  "N_ACD_PROBE_NULL =
     \<lparr>p_ip = 0, p_timeout_multiplier = 0, p_userdata = None, p_state = N_ACD_PROBE_STATE_PROBING,
      p_n_iteration = 0, p_defend = N_ACD_DEFEND_NEVER, p_last_defend = 0, p_timeout = 0,
      p_timer_set = False, p_linked = False\<rparr>"

definition n_acd_probe_new ::
  "acd_os \<Rightarrow> NAcd \<Rightarrow> u32 \<Rightarrow> u64 \<Rightarrow> (int \<times> nat option \<times> NAcd) option" where
  "n_acd_probe_new os acd config_ip config_timeout_msecs =
     (if config_ip = 0 then Some (N_ACD_E_INVALID_ARGUMENT, None, acd)
      else if \<not> os_alloc os (a_calls acd) then Some (- ENOMEM, None, tick acd)
      else
        (let p = a_next_id acd;
             acd1 = (tick acd)\<lparr>a_next_id := p + 1, a_n_refs := a_n_refs acd + 1,
               a_probes := (a_probes acd)(p \<mapsto>
                 N_ACD_PROBE_NULL\<lparr>p_ip := config_ip, p_timeout_multiplier := config_timeout_msecs\<rparr>)\<rparr>
         in do {
           (r, acd2) \<leftarrow> n_acd_probe_link os acd1 p;
           if r \<noteq> 0 then do { acd3 \<leftarrow> n_acd_probe_free os acd2 p; Some (r, None, acd3) }
           else do {
             acd3 \<leftarrow>
               (if config_timeout_msecs \<noteq> 0
                then n_acd_probe_schedule os (upd_probe p (p_n_iteration_update (\<lambda>_. 0)) acd2) p 0
                       (ucast (config_timeout_msecs * N_ACD_RFC_PROBE_WAIT_NSEC))
                else n_acd_probe_schedule os
                       (upd_probe p (p_n_iteration_update (\<lambda>_. N_ACD_RFC_PROBE_NUM)) acd2) p 0 0);
             Some (0, Some p, acd3) } }))"

definition n_acd_probe_announce :: "acd_os \<Rightarrow> NAcd \<Rightarrow> nat \<Rightarrow> nat \<Rightarrow> (int \<times> NAcd) option" where
  "n_acd_probe_announce os acd p defend =
     (if defend \<ge> N_ACD_DEFEND_N then Some (N_ACD_E_INVALID_ARGUMENT, acd)
      else do {
        acd1 \<leftarrow> n_acd_probe_schedule os
          (upd_probe p (\<lambda>pr. pr\<lparr>p_state := N_ACD_PROBE_STATE_ANNOUNCING, p_defend := defend,
             p_n_iteration := 0\<rparr>) acd) p 0 0;
        Some (0, acd1) })"

definition n_acd_probe_set_userdata :: "NAcd \<Rightarrow> nat \<Rightarrow> u32 \<Rightarrow> NAcd" where
  "n_acd_probe_set_userdata acd p userdata = upd_probe p (p_userdata_update (\<lambda>_. Some userdata)) acd"

definition n_acd_probe_handle_timeout :: "acd_os \<Rightarrow> NAcd \<Rightarrow> nat \<Rightarrow> (int \<times> NAcd) option" where
  "n_acd_probe_handle_timeout os acd p = do {
     pr \<leftarrow> a_probes acd p;
     case p_state pr of
       N_ACD_PROBE_STATE_PROBING \<Rightarrow>
         if p_n_iteration pr < N_ACD_RFC_PROBE_NUM then
           (case n_acd_send os acd (p_ip pr) None of
              (r, acd1) \<Rightarrow>
                if r \<noteq> 0 \<and> r \<noteq> - N_ACD_E_DROPPED then Some (r, acd1)
                else
                  (let n = (if r = 0 then p_n_iteration pr + 1 else p_n_iteration pr);
                       acd2 = upd_probe p (p_n_iteration_update (\<lambda>_. n)) acd1;
                       m = p_timeout_multiplier pr
                   in do {
                     acd3 \<leftarrow>
                       (if n < N_ACD_RFC_PROBE_NUM
                        then n_acd_probe_schedule os acd2 p (m * N_ACD_RFC_PROBE_MIN_NSEC)
                               (ucast (m * (N_ACD_RFC_PROBE_MAX_NSEC - N_ACD_RFC_PROBE_MIN_NSEC)))
                        else n_acd_probe_schedule os acd2 p (m * N_ACD_RFC_ANNOUNCE_WAIT_NSEC) 0);
                     Some (0, acd3) }))
         else do {
           (r, acd1) \<leftarrow> n_acd_probe_raise os acd p N_ACD_EVENT_READY;
           if r \<noteq> 0 then Some (r, acd1)
           else Some (0, upd_probe p (p_state_update (\<lambda>_. N_ACD_PROBE_STATE_CONFIGURING)) acd1) }
     | N_ACD_PROBE_STATE_ANNOUNCING \<Rightarrow>
         (case n_acd_send os acd (p_ip pr) (Some (p_ip pr)) of
            (r, acd1) \<Rightarrow>
              if r \<noteq> 0 \<and> r \<noteq> - N_ACD_E_DROPPED then Some (r, acd1)
              else
                (let n = (if r = 0 then p_n_iteration pr + 1 else p_n_iteration pr);
                     acd2 = upd_probe p (p_n_iteration_update (\<lambda>_. n)) acd1
                 in if n < N_ACD_RFC_ANNOUNCE_NUM then do {
                      acd3 \<leftarrow> n_acd_probe_schedule os acd2 p
                        (N_ACD_TIMEOUT_RFC5227 * N_ACD_RFC_ANNOUNCE_INTERVAL_NSEC) 0;
                      Some (0, acd3) }
                    else Some (0, acd2)))
     | _ \<Rightarrow> None }"

text \<open>
  The end of a probe that lost its address: the event carries the sender, the timeout and the
  address are given up.
\<close>

definition probe_fail :: "acd_os \<Rightarrow> NAcd \<Rightarrow> nat \<Rightarrow> n_acd_event \<Rightarrow> u8 list \<Rightarrow> (int \<times> NAcd) option" where
  "probe_fail os acd p event sender = do {
     (r, acd1) \<leftarrow> n_acd_probe_raise os acd p event;
     if r \<noteq> 0 then Some (r, acd1)
     else do {
       acd2 \<leftarrow> timeout_unschedule os (upd_last (ev_sender_update (\<lambda>_. sender)) acd1) p;
       acd3 \<leftarrow> n_acd_probe_unlink os acd2 p;
       Some (0, upd_probe p (p_state_update (\<lambda>_. N_ACD_PROBE_STATE_FAILED)) acd3) } }"

text \<open>The reaction to a hard conflict of a probe that defends its address.\<close>

definition probe_defended :: "acd_os \<Rightarrow> NAcd \<Rightarrow> nat \<Rightarrow> u8 list \<Rightarrow> (int \<times> NAcd) option" where
  "probe_defended os acd p sender = do {
     (r, acd1) \<leftarrow> n_acd_probe_raise os acd p N_ACD_EVENT_DEFENDED;
     if r \<noteq> 0 then Some (r, acd1)
     else Some (0, upd_last (ev_sender_update (\<lambda>_. sender)) acd1) }"

definition probe_defend ::
  "acd_os \<Rightarrow> NAcd \<Rightarrow> nat \<Rightarrow> NAcdProbe \<Rightarrow> u64 \<Rightarrow> u8 list \<Rightarrow> (int \<times> NAcd) option" where
  "probe_defend os acd p pr now sender =
     (let rate_limited = now < p_last_defend pr + N_ACD_RFC_DEFEND_INTERVAL_NSEC
      in if p_defend pr = N_ACD_DEFEND_NEVER \<or> p_defend pr = N_ACD_DEFEND_ONCE \<and> rate_limited
         then probe_fail os acd p N_ACD_EVENT_CONFLICT sender
         else if p_defend pr = N_ACD_DEFEND_ONCE \<or> p_defend pr = N_ACD_DEFEND_ALWAYS then
           (if rate_limited then probe_defended os acd p sender
            else
              (case n_acd_send os acd (p_ip pr) (Some (p_ip pr)) of
                 (r, acd1) \<Rightarrow>
                   if r \<noteq> 0 \<and> r \<noteq> - N_ACD_E_DROPPED then Some (r, acd1)
                   else if r \<noteq> 0 \<and> p_defend pr = N_ACD_DEFEND_ONCE
                   then probe_fail os acd1 p N_ACD_EVENT_CONFLICT sender
                   else probe_defended os
                     (if r \<noteq> - N_ACD_E_DROPPED then upd_probe p (p_last_defend_update (\<lambda>_. now)) acd1 else acd1)
                     p sender))
         else Some (0, acd))"

definition n_acd_probe_handle_packet ::
  "acd_os \<Rightarrow> NAcd \<Rightarrow> nat \<Rightarrow> u8 list \<Rightarrow> bool \<Rightarrow> (int \<times> NAcd) option" where
  "n_acd_probe_handle_packet os acd p packet hard_conflict = do {
     pr \<leftarrow> a_probes acd p;
     (now, acd1) \<leftarrow> timer_now os acd;
     case p_state pr of
       N_ACD_PROBE_STATE_PROBING \<Rightarrow> probe_fail os acd1 p N_ACD_EVENT_USED (arp_sha packet)
     | N_ACD_PROBE_STATE_CONFIGURING \<Rightarrow> Some (0, acd1)
     | N_ACD_PROBE_STATE_ANNOUNCING \<Rightarrow>
         if \<not> hard_conflict then Some (0, acd1)
         else probe_defend os acd1 p pr now (arp_sha packet)
     | N_ACD_PROBE_STATE_FAILED \<Rightarrow> None }"

section \<open>The context\<close>

definition n_acd_new_ok :: "int \<Rightarrow> bool \<Rightarrow> u8 list \<Rightarrow> nat \<Rightarrow> bool" where
  "n_acd_new_ok ifindex ethernet mac n_mac \<longleftrightarrow>
     \<not> (ifindex \<le> 0 \<or> \<not> ethernet \<or> n_mac \<noteq> 6 \<or> take 6 mac = [0xff, 0xff, 0xff, 0xff, 0xff, 0xff])"

text \<open>
  A new context. \<open>errors\<close> are the results of the calls of the system made one after the other
  (the random seed, epoll, the timer, map, program, socket and the two registrations); the first
  that is not 0 is returned.
\<close>

definition n_acd_new ::
  "int \<Rightarrow> bool \<Rightarrow> u8 list \<Rightarrow> nat \<Rightarrow> bool \<Rightarrow> int list \<Rightarrow> int \<times> NAcd option" where
  "n_acd_new ifindex ethernet mac n_mac alloc errors =
     (if \<not> n_acd_new_ok ifindex ethernet mac n_mac then (N_ACD_E_INVALID_ARGUMENT, None)
      else if \<not> alloc then (- ENOMEM, None)
      else case filter (\<lambda>r. r \<noteq> 0) errors of
          r # _ \<Rightarrow> (r, None)
        | [] \<Rightarrow>
            (0, Some \<lparr>a_n_refs = 1, a_mac = take 6 mac, a_probes = (\<lambda>_. None), a_next_id = 0,
                a_ip_tree = Leaf, a_event_list = [], a_timer_tree = [], a_scheduled_timeout = 0,
                a_armed = 0, a_bpf_map = [], a_n_bpf_map = 0, a_max_bpf_map = 8,
                a_preempted = False, a_sent = [], a_calls = 0\<rparr>))"

text \<open>
  Releasing a reference; \<open>Some None\<close> is the context torn down, whose assertions are that both
  trees are empty.
\<close>

definition n_acd_unref :: "NAcd \<Rightarrow> NAcd option option" where
  "n_acd_unref acd =
     (if a_n_refs acd - 1 \<noteq> 0 then Some (Some (acd\<lparr>a_n_refs := a_n_refs acd - 1\<rparr>))
      else if a_ip_tree acd = Leaf \<and> a_timer_tree acd = [] then Some None
      else None)"

partial_function (option) timeout_loop :: "acd_os \<Rightarrow> u64 \<Rightarrow> NAcd \<Rightarrow> (int \<times> NAcd) option" where
  "timeout_loop os now acd =
     (case timer_pop_timeout acd now of
        (None, acd1) \<Rightarrow> do { acd2 \<leftarrow> timer_rearm os acd1; Some (0, acd2) }
      | (Some p, acd1) \<Rightarrow> do {
          (r, acd2) \<leftarrow> n_acd_probe_handle_timeout os acd1 p;
          if r \<noteq> 0 then Some (r, acd2) else timeout_loop os now acd2 })"

declare timeout_loop.simps [code]

definition n_acd_handle_timeout :: "acd_os \<Rightarrow> NAcd \<Rightarrow> (int \<times> NAcd) option" where
  "n_acd_handle_timeout os acd = do { (now, acd1) \<leftarrow> timer_now os acd; timeout_loop os now acd1 }"

text \<open>
  The search for a packet's address: the top-most node that matches, then as far to the left as
  the children match. The result is the rest of the tree in order from that node on.
\<close>

fun find_top :: "(nat \<Rightarrow> u32) \<Rightarrow> u32 \<Rightarrow> nat tree \<Rightarrow> nat tree" where
  "find_top k a Leaf = Leaf"
| "find_top k a (Node l q r) =
     (if a < k q then find_top k a l else if a > k q then find_top k a r else Node l q r)"

fun left_most :: "(nat \<Rightarrow> u32) \<Rightarrow> u32 \<Rightarrow> nat tree \<Rightarrow> nat option" where
  "left_most k a Leaf = None"
| "left_most k a (Node l q r) =
     (case l of
        Leaf \<Rightarrow> Some q
      | Node _ q' _ \<Rightarrow> if k q' = a then left_most k a l else Some q)"

text \<open>
  The matching nodes one after the other. A node that the handling took out of the tree has no
  next one; otherwise the tree has not changed.
\<close>

fun packet_loop ::
  "acd_os \<Rightarrow> NAcd \<Rightarrow> u8 list \<Rightarrow> bool \<Rightarrow> u32 \<Rightarrow> nat list \<Rightarrow> (int \<times> NAcd) option" where
  "packet_loop os acd packet hard_conflict a [] = Some (0, acd)"
| "packet_loop os acd packet hard_conflict a (p # qs) = do {
     (r, acd1) \<leftarrow> n_acd_probe_handle_packet os acd p packet hard_conflict;
     if r \<noteq> 0 then Some (r, acd1)
     else do {
       pr \<leftarrow> a_probes acd1 p;
       if p_linked pr \<and> qs \<noteq> [] \<and> ip_of acd1 (hd qs) = a
       then packet_loop os acd1 packet hard_conflict a qs
       else Some (0, acd1) } }"

definition n_acd_handle_packet :: "acd_os \<Rightarrow> NAcd \<Rightarrow> u8 list \<Rightarrow> (int \<times> NAcd) option" where
  "n_acd_handle_packet os acd packet =
     (let hard = arp_spa packet \<noteq> [0, 0, 0, 0]
      in if \<not> hard \<and> arp_op packet \<noteq> htobe16 ARPOP_REQUEST then Some (- EIO, acd)
         else
           (let a = le_value (if hard then arp_spa packet else arp_tpa packet);
                t = a_ip_tree acd
            in case left_most (ip_of acd) a (find_top (ip_of acd) a t) of
                None \<Rightarrow> Some (0, acd)
              | Some p \<Rightarrow> packet_loop os acd packet hard a (dropWhile (\<lambda>q. q \<noteq> p) (inorder t))))"

text \<open>What the kernel reports to \<^verbatim>\<open>n_acd_dispatch\<close> (an error of \<^verbatim>\<open>epoll_wait\<close> or the events), with the answers to the reads that follow.\<close>

datatype timer_answer = Timer_none | Timer_errno int | Timer_triggered

datatype recv_answer = Recv_errno int | Recv_packets "u8 list list"

datatype acd_epoll = Epoll_timer bool bool timer_answer | Epoll_socket bool recv_answer

definition timer_read :: "timer_answer \<Rightarrow> NAcd \<Rightarrow> int \<times> NAcd" where
  "timer_read ans acd =
     (case ans of
        Timer_none \<Rightarrow> (0, acd)
      | Timer_errno e \<Rightarrow> (- e, acd)
      | Timer_triggered \<Rightarrow> (1, acd\<lparr>a_armed := 0\<rparr>))"

definition n_acd_dispatch_timer :: "acd_os \<Rightarrow> NAcd \<Rightarrow> bool \<Rightarrow> bool \<Rightarrow> timer_answer \<Rightarrow> (int \<times> NAcd) option" where
  "n_acd_dispatch_timer os acd hup_or_err inp ans =
     (if hup_or_err then Some (- EIO, acd)
      else if inp then
        (case timer_read ans acd of
           (r, acd1) \<Rightarrow> if r \<le> 0 then Some (r, acd1) else n_acd_handle_timeout os acd1)
      else Some (0, acd))"

fun handle_packets :: "acd_os \<Rightarrow> NAcd \<Rightarrow> u8 list list \<Rightarrow> (int \<times> NAcd) option" where
  "handle_packets os acd [] = Some (0, acd)"
| "handle_packets os acd (p # ps) =
     (if \<not> n_acd_packet_is_valid (a_mac acd) p then handle_packets os acd ps
      else do {
        (r, acd1) \<leftarrow> n_acd_handle_packet os acd p;
        if r \<noteq> 0 then Some (r, acd1) else handle_packets os acd1 ps })"

definition n_acd_dispatch_socket :: "acd_os \<Rightarrow> NAcd \<Rightarrow> bool \<Rightarrow> recv_answer \<Rightarrow> (int \<times> NAcd) option" where
  "n_acd_dispatch_socket os acd hup_or_err ans =
     (case ans of
        Recv_errno e \<Rightarrow>
          if e = ENETDOWN then Some (n_acd_raise os acd N_ACD_EVENT_DOWN)
          else if e = EAGAIN then Some (if hup_or_err then - EIO else 0, acd)
          else Some (- e, acd)
      | Recv_packets ps \<Rightarrow>
          handle_packets os (if length ps \<ge> 8 then acd\<lparr>a_preempted := True\<rparr> else acd) ps)"

fun dispatch_events :: "acd_os \<Rightarrow> NAcd \<Rightarrow> acd_epoll list \<Rightarrow> (int \<times> NAcd) option" where
  "dispatch_events os acd [] = Some (0, acd)"
| "dispatch_events os acd (e # es) = do {
     (r, acd1) \<leftarrow>
       (case e of
          Epoll_timer hup inp ans \<Rightarrow> n_acd_dispatch_timer os acd hup inp ans
        | Epoll_socket hup ans \<Rightarrow> n_acd_dispatch_socket os acd hup ans);
     if r \<noteq> 0 then Some (r, acd1) else dispatch_events os acd1 es }"

definition n_acd_dispatch :: "acd_os \<Rightarrow> NAcd \<Rightarrow> int + acd_epoll list \<Rightarrow> (int \<times> NAcd) option" where
  "n_acd_dispatch os acd wait =
     (case wait of
        Inl e \<Rightarrow> Some (- e, acd)
      | Inr events \<Rightarrow> do {
          (r, acd1) \<leftarrow> dispatch_events os (acd\<lparr>a_preempted := False\<rparr>) events;
          Some (if r \<noteq> 0 then r else if a_preempted acd1 then N_ACD_E_PREEMPTED else 0, acd1) })"

fun pop_event :: "NAcdEventNode list \<Rightarrow> NAcdEventNode option \<times> NAcdEventNode list" where
  "pop_event [] = (None, [])"
| "pop_event (node # nodes) =
     (if is_public node then pop_event nodes
      else (Some (node\<lparr>is_public := True\<rparr>), node\<lparr>is_public := True\<rparr> # nodes))"

definition n_acd_pop_event :: "NAcd \<Rightarrow> NAcdEventNode option \<times> NAcd" where
  "n_acd_pop_event acd =
     (case pop_event (a_event_list acd) of (e, es) \<Rightarrow> (e, acd\<lparr>a_event_list := es\<rparr>))"

end
