(* ===== verification/Acd_Inv.thy ===== *)
theory Acd_Inv
  imports Acd_Engine
begin

text \<open>
  The invariant of the engine, and that every operation of its interface ends, violates no
  assertion, uses no freed probe and keeps the invariant.
\<close>

section \<open>Computations that succeed\<close>

definition wp :: "'a option \<Rightarrow> ('a \<Rightarrow> bool) \<Rightarrow> bool" where
  "wp x Q = (case x of None \<Rightarrow> False | Some y \<Rightarrow> Q y)"

lemma wp_simps [simp]:
  "wp None Q = False"
  "wp (Some y) Q = Q y"
  "wp (if b then x else z) Q = (if b then wp x Q else wp z Q)"
  by (simp_all add: wp_def)

lemma wp_bind [simp]: "wp (Option.bind x f) Q = wp x (\<lambda>y. wp (f y) Q)"
  by (cases x) simp_all

lemma wp_case_prod [simp]: "wp (case y of (a, b) \<Rightarrow> f a b) Q = (case y of (a, b) \<Rightarrow> wp (f a b) Q)"
  by (cases y) simp

lemma wp_mono: "wp x P \<Longrightarrow> (\<And>y. P y \<Longrightarrow> Q y) \<Longrightarrow> wp x Q"
  by (cases x) simp_all

lemma wp_Some_iff: "wp x Q \<longleftrightarrow> (\<exists>y. x = Some y \<and> Q y)"
  by (cases x) simp_all

section \<open>The invariant\<close>

definition ipf :: "(nat \<Rightarrow> NAcdProbe option) \<Rightarrow> nat \<Rightarrow> u32" where
  "ipf probes q = (case probes q of Some pr \<Rightarrow> p_ip pr | None \<Rightarrow> 0)"

lemma ip_of_ipf: "ip_of acd = ipf (a_probes acd)"
  by (rule ext) (simp add: ip_of_def ipf_def)

text \<open>The probes that may have a timeout; without a waiting time all packets count as sent.\<close>

definition timed :: "NAcdProbe \<Rightarrow> bool" where
  "timed pr \<longleftrightarrow>
     p_state pr = N_ACD_PROBE_STATE_PROBING \<and> (p_timeout_multiplier pr = 0 \<longrightarrow> p_n_iteration pr = 3)
     \<or> p_state pr = N_ACD_PROBE_STATE_ANNOUNCING"

lemma timed_upd [simp]:
  "timed (pr\<lparr>p_timeout := x1\<rparr>) = timed pr"
  "timed (pr\<lparr>p_timer_set := x2\<rparr>) = timed pr"
  "timed (pr\<lparr>p_linked := x3\<rparr>) = timed pr"
  "timed (pr\<lparr>p_userdata := x4\<rparr>) = timed pr"
  "timed (pr\<lparr>p_last_defend := x5\<rparr>) = timed pr"
  by (simp_all add: timed_def)

definition timers_ok :: "(nat \<Rightarrow> NAcdProbe option) \<Rightarrow> (u64 \<times> nat) list \<Rightarrow> bool" where
  "timers_ok probes xs \<longleftrightarrow>
     sorted (map fst xs) \<and> distinct (map snd xs)
     \<and> (\<forall>(t, p) \<in> set xs. t \<noteq> 0 \<and> (\<exists>pr. probes p = Some pr \<and> p_timer_set pr \<and> timed pr))"

definition tree_ok :: "(nat \<Rightarrow> NAcdProbe option) \<Rightarrow> nat tree \<Rightarrow> bool" where
  "tree_ok probes t \<longleftrightarrow>
     distinct (inorder t) \<and> sorted (map (ipf probes) (inorder t))
     \<and> set (inorder t) = {p. \<exists>pr. probes p = Some pr \<and> p_linked pr}"

definition bpf_ok :: "(nat \<Rightarrow> NAcdProbe option) \<Rightarrow> nat tree \<Rightarrow> u32 list \<Rightarrow> nat \<Rightarrow> nat \<Rightarrow> bool" where
  "bpf_ok probes t m n mx \<longleftrightarrow>
     distinct m \<and> set m = (\<lambda>q. ntohl (ipf probes q)) ` set (inorder t) \<and> n = length m \<and> n \<le> mx \<and> 0 < mx"

definition probe_ok :: "NAcdProbe \<Rightarrow> bool" where
  "probe_ok pr \<longleftrightarrow>
     (p_state pr = N_ACD_PROBE_STATE_FAILED \<longrightarrow> \<not> p_linked pr)
     \<and> p_timeout_multiplier pr < 2 ^ 32
     \<and> (p_state pr = N_ACD_PROBE_STATE_PROBING \<longrightarrow>
          p_n_iteration pr \<le> 3)"

definition events_ok :: "(nat \<Rightarrow> NAcdProbe option) \<Rightarrow> NAcdEventNode list \<Rightarrow> bool" where
  "events_ok probes es \<longleftrightarrow> (\<forall>node\<in>set es. \<forall>p. ev_probe node = Some p \<longrightarrow> p \<in> dom probes)"

definition acd_inv :: "NAcd \<Rightarrow> bool" where
  "acd_inv acd \<longleftrightarrow>
     timers_ok (a_probes acd) (a_timer_tree acd)
     \<and> tree_ok (a_probes acd) (a_ip_tree acd)
     \<and> bpf_ok (a_probes acd) (a_ip_tree acd) (a_bpf_map acd) (a_n_bpf_map acd) (a_max_bpf_map acd)
     \<and> (\<forall>p pr. a_probes acd p = Some pr \<longrightarrow> probe_ok pr \<and> p < a_next_id acd)
     \<and> events_ok (a_probes acd) (a_event_list acd)
     \<and> a_n_refs acd = card (dom (a_probes acd)) + 1"

text \<open>
  What the engine needs of its environment: the trees keep their elements in order, errors of
  the kernel are positive, the clock, in nanoseconds, is positive, does not run backwards and is
  far from overflow, and the three calls whose success the code asserts do not fail: removing an
  entry of the map, reading the clock and setting the timer.
\<close>

definition good_os :: "acd_os \<Rightarrow> bool" where
  "good_os os \<longleftrightarrow>
     (\<forall>t. inorder (rb_balance os t) = inorder t)
     \<and> (\<forall>p t. inorder (rb_unlink os p t) = filter (\<lambda>q. q \<noteq> p) (inorder t))
     \<and> (\<forall>i. 0 \<le> os_bpf os i)
     \<and> (\<forall>i. os_bpf_delete os i = 0 \<and> 0 \<le> os_gettime os i \<and> 0 \<le> os_settime os i)
     \<and> (\<forall>i. 0 < os_now os i \<and> os_now os i < 2 ^ 62)
     \<and> (\<forall>i j. i \<le> j \<longrightarrow> os_now os i \<le> os_now os j)"


lemma inv_irrelevant [simp]:
  "acd_inv (acd\<lparr>a_armed := x1\<rparr>) = acd_inv acd"
  "acd_inv (acd\<lparr>a_scheduled_timeout := x2\<rparr>) = acd_inv acd"
  "acd_inv (acd\<lparr>a_preempted := x3\<rparr>) = acd_inv acd"
  "acd_inv (acd\<lparr>a_sent := x4\<rparr>) = acd_inv acd"
  "acd_inv (acd\<lparr>a_calls := x5\<rparr>) = acd_inv acd"
  "acd_inv (tick acd) = acd_inv acd"
  by (simp_all add: acd_inv_def tick_def)

text \<open>What operations on a context keep: the probes with their addresses and the numbers of calls grow.\<close>

definition frame :: "NAcd \<Rightarrow> NAcd \<Rightarrow> bool" where
  "frame acd acd' \<longleftrightarrow>
     a_calls acd \<le> a_calls acd' \<and> dom (a_probes acd') = dom (a_probes acd)
     \<and> ipf (a_probes acd') = ipf (a_probes acd) \<and> a_mac acd' = a_mac acd"

lemma frame_refl [simp]: "frame acd acd"
  by (simp add: frame_def)

lemma frame_trans: "frame a b \<Longrightarrow> frame b c \<Longrightarrow> frame a c"
  by (auto simp: frame_def)

lemma frame_irrelevant [simp]:
  "frame a (acd\<lparr>a_armed := x1\<rparr>) = frame a acd"
  "frame a (acd\<lparr>a_scheduled_timeout := x2\<rparr>) = frame a acd"
  "frame a (acd\<lparr>a_preempted := x3\<rparr>) = frame a acd"
  "frame a (acd\<lparr>a_sent := x4\<rparr>) = frame a acd"
  "frame a (acd\<lparr>a_timer_tree := x5\<rparr>) = frame a acd"
  "frame a (acd\<lparr>a_event_list := x6\<rparr>) = frame a acd"
  "frame a (acd\<lparr>a_ip_tree := x7\<rparr>) = frame a acd"
  "frame a (acd\<lparr>a_bpf_map := x8\<rparr>) = frame a acd"
  "frame a (acd\<lparr>a_n_bpf_map := x9\<rparr>) = frame a acd"
  "frame a (acd\<lparr>a_max_bpf_map := x10\<rparr>) = frame a acd"
  by (simp_all add: frame_def)

lemma frame_tick [simp]: "frame a acd \<Longrightarrow> frame a (tick acd)"
  by (simp add: frame_def tick_def)

lemma ipf_upd: "(\<And>pr. p_ip (f pr) = p_ip pr) \<Longrightarrow> ipf (probes(p := map_option f (probes p))) = ipf probes"
  by (rule ext) (simp add: ipf_def split: option.split)

lemma dom_upd [simp]: "dom (probes(p := map_option f (probes p))) = dom probes"
  by (auto simp: dom_def split: if_splits)

lemma frame_upd_probe [simp]:
  "(\<And>pr. p_ip (f pr) = p_ip pr) \<Longrightarrow> frame a (upd_probe p f acd) = frame a acd"
  by (simp add: frame_def upd_probe_def ipf_upd del: dom_fun_upd)

lemma upd_probe_simps [simp]:
  "a_timer_tree (upd_probe p f acd) = a_timer_tree acd"
  "a_ip_tree (upd_probe p f acd) = a_ip_tree acd"
  "a_event_list (upd_probe p f acd) = a_event_list acd"
  "a_calls (upd_probe p f acd) = a_calls acd"
  "a_mac (upd_probe p f acd) = a_mac acd"
  "a_armed (upd_probe p f acd) = a_armed acd"
  "a_scheduled_timeout (upd_probe p f acd) = a_scheduled_timeout acd"
  "a_bpf_map (upd_probe p f acd) = a_bpf_map acd"
  "a_n_bpf_map (upd_probe p f acd) = a_n_bpf_map acd"
  "a_max_bpf_map (upd_probe p f acd) = a_max_bpf_map acd"
  "a_sent (upd_probe p f acd) = a_sent acd"
  "a_n_refs (upd_probe p f acd) = a_n_refs acd"
  "a_next_id (upd_probe p f acd) = a_next_id acd"
  "a_preempted (upd_probe p f acd) = a_preempted acd"
  "a_probes (upd_probe p f acd) q = (if q = p then map_option f (a_probes acd p) else a_probes acd q)"
  by (simp_all add: upd_probe_def)

lemma dom_upd_probe [simp]: "dom (a_probes (upd_probe p f acd)) = dom (a_probes acd)"
  by (auto simp: upd_probe_def dom_def split: if_splits)

lemma ipf_upd_probe [simp]:
  "(\<And>pr. p_ip (f pr) = p_ip pr) \<Longrightarrow> ipf (a_probes (upd_probe p f acd)) = ipf (a_probes acd)"
  by (simp add: upd_probe_def ipf_upd)

lemma tick_simps [simp]:
  "a_timer_tree (tick acd) = a_timer_tree acd"
  "a_ip_tree (tick acd) = a_ip_tree acd"
  "a_event_list (tick acd) = a_event_list acd"
  "a_calls (tick acd) = a_calls acd + 1"
  "a_mac (tick acd) = a_mac acd"
  "a_armed (tick acd) = a_armed acd"
  "a_scheduled_timeout (tick acd) = a_scheduled_timeout acd"
  "a_bpf_map (tick acd) = a_bpf_map acd"
  "a_n_bpf_map (tick acd) = a_n_bpf_map acd"
  "a_max_bpf_map (tick acd) = a_max_bpf_map acd"
  "a_sent (tick acd) = a_sent acd"
  "a_n_refs (tick acd) = a_n_refs acd"
  "a_next_id (tick acd) = a_next_id acd"
  "a_preempted (tick acd) = a_preempted acd"
  "a_probes (tick acd) = a_probes acd"
  by (simp_all add: tick_def)

text \<open>A change of a probe that keeps its address and its place in the trees.\<close>

lemma inv_upd_probe:
  assumes "acd_inv acd" "a_probes acd p = Some pr" "\<And>pr. p_ip (f pr) = p_ip pr"
    "p_linked (f pr) = p_linked pr" "probe_ok (f pr)"
    "p \<in> snd ` set (a_timer_tree acd) \<Longrightarrow> p_timer_set (f pr) \<and> timed (f pr)"
  shows "acd_inv (upd_probe p f acd)"
proof -
  let ?p = "(a_probes acd)(p \<mapsto> f pr)"
  have u: "a_probes (upd_probe p f acd) = ?p" by (rule ext) (simp add: assms(2))
  have i: "ipf ?p = ipf (a_probes acd)" by (rule ext) (simp add: ipf_def assms(2,3))
  have l: "{q. \<exists>pr. ?p q = Some pr \<and> p_linked pr} = {q. \<exists>pr. a_probes acd q = Some pr \<and> p_linked pr}"
    using assms(2,4) by auto
  have t: "timers_ok ?p (a_timer_tree acd)"
    using assms(1,2,6) by (force simp: acd_inv_def timers_ok_def)
  have d: "dom ?p = dom (a_probes acd)" using assms(2) by auto
  have ok: "\<forall>q r. ?p q = Some r \<longrightarrow> probe_ok r \<and> q < a_next_id acd"
    using assms(1,2,5) by (auto simp: acd_inv_def)
  show ?thesis
    using assms(1) t ok
    by (simp only: acd_inv_def u upd_probe_simps tree_ok_def bpf_ok_def events_ok_def i l d) simp
qed

section \<open>Timers\<close>

lemma set_timer_insert [simp]: "set (timer_insert t p xs) = insert (t, p) (set xs)"
proof -
  let ?P = "\<lambda>(s :: u64, _ :: nat). s \<le> t"
  have "set (takeWhile ?P xs) \<union> set (dropWhile ?P xs) = set xs"
    by (simp only: set_append [symmetric] takeWhile_dropWhile_id)
  then show ?thesis by (auto simp: timer_insert_def)
qed

lemma timer_insert_Cons:
  "timer_insert t p (x # xs) = (if fst x \<le> t then x # timer_insert t p xs else (t, p) # x # xs)"
  by (cases x) (simp add: timer_insert_def)

lemma sorted_timer_insert: "sorted (map fst xs) \<Longrightarrow> sorted (map fst (timer_insert t p xs))"
proof (induction xs)
  case (Cons x xs)
  then show ?case by (auto simp: timer_insert_Cons intro: order.trans)
qed (simp add: timer_insert_def)

lemma distinct_timer_insert:
  "distinct (map snd xs) \<Longrightarrow> p \<notin> snd ` set xs \<Longrightarrow> distinct (map snd (timer_insert t p xs))"
  by (induction xs) (auto simp: timer_insert_def dest: set_takeWhileD set_dropWhileD)

lemma set_timer_remove [simp]: "set (timer_remove p xs) = {(t, q) \<in> set xs. q \<noteq> p}"
  by (auto simp: timer_remove_def)

lemma timers_ok_remove: "timers_ok probes xs \<Longrightarrow> timers_ok probes (timer_remove p xs)"
  by (auto simp: timers_ok_def timer_remove_def distinct_map_filter sorted_filter)

lemma timer_remove_idle: "p \<notin> snd ` set xs \<Longrightarrow> timer_remove p xs = xs"
  by (induction xs) (auto simp: timer_remove_def)

text \<open>The three calls that must not fail.\<close>

lemma timer_now_ok: "good_os os \<Longrightarrow> timer_now os acd = Some (os_now os (a_calls acd), tick acd)"
  by (simp add: timer_now_def good_os_def linorder_not_less)

lemma settime_ok: "good_os os \<Longrightarrow> \<not> os_settime os n < 0"
  by (simp add: good_os_def linorder_not_less)

lemma bpf_map_remove_ok:
  "good_os os \<Longrightarrow> ntohl a \<in> set m \<Longrightarrow> n_acd_bpf_map_remove os call m a = (0, removeAll (ntohl a) m)"
  by (simp add: n_acd_bpf_map_remove_def good_os_def)

lemma wp_rearm:
  assumes "good_os os" "timers_ok probes (a_timer_tree acd)" "Q acd"
    "\<And>a s. Q ((tick acd)\<lparr>a_armed := a, a_scheduled_timeout := s\<rparr>)"
  shows "wp (timer_rearm os acd) Q"
  using assms by (auto simp: timer_rearm_def timers_ok_def Let_def settime_ok split: list.splits)


lemma inv_timers: "acd_inv acd \<Longrightarrow> timers_ok (a_probes acd) (a_timer_tree acd)"
  by (simp add: acd_inv_def)

lemma inv_remove_timer: "acd_inv acd \<Longrightarrow> acd_inv (acd\<lparr>a_timer_tree := timer_remove p (a_timer_tree acd)\<rparr>)"
  by (simp add: acd_inv_def timers_ok_remove)

lemma inv_probe: "acd_inv acd \<Longrightarrow> a_probes acd p = Some pr \<Longrightarrow> probe_ok pr"
  by (auto simp: acd_inv_def)

lemma inv_insert_timer:
  assumes "acd_inv acd" "a_probes acd p = Some pr" "p_timer_set pr" "timed pr" "t \<noteq> 0"
    "p \<notin> snd ` set (a_timer_tree acd)"
  shows "acd_inv (acd\<lparr>a_timer_tree := timer_insert t p (a_timer_tree acd)\<rparr>)"
  using assms by (auto simp: acd_inv_def timers_ok_def sorted_timer_insert distinct_timer_insert)

lemma inv_set_timer:
  assumes "acd_inv acd" "a_probes acd p = Some pr" "timed pr" "t \<noteq> 0"
  shows "acd_inv (upd_probe p (\<lambda>pr. pr\<lparr>p_timeout := t, p_timer_set := True\<rparr>)
    (acd\<lparr>a_timer_tree := timer_insert t p (timer_remove p (a_timer_tree acd))\<rparr>))" (is "acd_inv ?r")
proof -
  let ?f = "\<lambda>pr. pr\<lparr>p_timeout := t, p_timer_set := True\<rparr>"
  let ?a = "acd\<lparr>a_timer_tree := timer_remove p (a_timer_tree acd)\<rparr>"
  have "acd_inv (upd_probe p ?f ?a)"
    using inv_remove_timer [OF assms(1), of p] assms(2,3) inv_probe [OF assms(1,2)]
    by (intro inv_upd_probe [where pr = pr]) (auto simp: probe_ok_def)
  then have "acd_inv ((upd_probe p ?f ?a)\<lparr>a_timer_tree := timer_insert t p (a_timer_tree (upd_probe p ?f ?a))\<rparr>)"
    by (rule inv_insert_timer [where pr = "?f pr"]) (use assms in \<open>auto simp: image_iff\<close>)
  then show ?thesis by (simp add: upd_probe_def acd_inv_def)
qed

lemma wp_timeout_schedule:
  assumes "good_os os" "acd_inv acd" "a_probes acd p = Some pr" "timed pr" "t \<noteq> 0"
    "\<And>acd'. acd_inv acd' \<Longrightarrow> frame acd acd' \<Longrightarrow>
       a_timer_tree acd' = timer_insert t p (timer_remove p (a_timer_tree acd)) \<Longrightarrow> Q acd'"
  shows "wp (timeout_schedule os acd p t) Q"
proof -
  let ?r = "upd_probe p (\<lambda>pr. pr\<lparr>p_timeout := t, p_timer_set := True\<rparr>)
    (acd\<lparr>a_timer_tree := timer_insert t p (timer_remove p (a_timer_tree acd))\<rparr>)"
  have i: "acd_inv ?r" by (rule inv_set_timer [OF assms(2-5)])
  have x: "(if p_timer_set pr then timer_remove p (a_timer_tree acd) else a_timer_tree acd)
      = timer_remove p (a_timer_tree acd)"
    using inv_timers [OF assms(2)] assms(3)
    by (fastforce simp: timers_ok_def intro!: timer_remove_idle [symmetric])
  have "wp (timer_rearm os ?r) Q"
    by (rule wp_rearm [OF assms(1) inv_timers [OF i]]) (use i in \<open>auto intro!: assms(6)\<close>)
  then show ?thesis using assms(3,5) by (simp add: timeout_schedule_def x)
qed

text \<open>A time in the near future does not overflow.\<close>

lemma near_future:
  assumes "0 < now" "now < 2 ^ 62" "d < 2 ^ 62" "j < (2 ^ 32 :: u64)"
  shows "now + d + j \<noteq> 0" "now + d \<noteq> 0" "0 < d \<Longrightarrow> now < now + d + j" "0 < d \<Longrightarrow> now < now + d"
proof -
  have n: "unat now < 2 ^ 62" "unat d < 2 ^ 62" "unat j < 2 ^ 32" "0 < unat now"
    using assms by (simp_all add: word_less_nat_alt)
  then have s: "unat (now + d) = unat now + unat d" "unat (now + d + j) = unat now + unat d + unat j"
    by (simp_all add: unat_word_ariths)
  show "now + d + j \<noteq> 0" "now + d \<noteq> 0"
    using s n by (auto simp: word_unat_eq_iff)
  show "0 < d \<Longrightarrow> now < now + d + j" "0 < d \<Longrightarrow> now < now + d"
    using s n by (auto simp: word_less_nat_alt)
qed

lemma jitter_small: "x mod ucast (n :: u32) < (2 ^ 32 :: u64)" if "n \<noteq> 0"
proof -
  have u: "unat (ucast n :: u64) = unat n" by transfer simp
  have "unat n \<noteq> 0" using that by (simp add: unat_eq_zero)
  then have "x mod ucast n < (ucast n :: u64)"
    by (intro word_mod_less_divisor) (simp add: word_less_nat_alt u)
  also have "\<dots> < 2 ^ 32"
    using unsigned_less [where 'a = nat, of n] by (simp add: word_less_nat_alt u)
  finally show ?thesis .
qed

lemma wp_probe_schedule:
  assumes "good_os os" "acd_inv acd" "a_probes acd p = Some pr" "timed pr" "d < 2 ^ 62"
    "\<And>acd' t. acd_inv acd' \<Longrightarrow> frame acd acd' \<Longrightarrow>
       a_timer_tree acd' = timer_insert t p (timer_remove p (a_timer_tree acd)) \<Longrightarrow>
       (0 < d \<Longrightarrow> os_now os (a_calls acd) < t) \<Longrightarrow> Q acd'"
  shows "wp (n_acd_probe_schedule os acd p d j) Q"
proof -
  let ?now = "os_now os (a_calls acd)"
  let ?r = "os_rand os (a_calls acd + 1) mod ucast j"
  have n: "0 < ?now" "?now < 2 ^ 62" using assms(1) by (auto simp: good_os_def)
  show ?thesis
  proof (cases "j = 0")
    case True
    have "wp (timeout_schedule os (tick acd) p (?now + d)) Q"
    proof (rule wp_timeout_schedule [OF assms(1), where pr = pr])
      fix acd'
      assume a: "acd_inv acd'" "frame (tick acd) acd'"
        "a_timer_tree acd' = timer_insert (?now + d) p (timer_remove p (a_timer_tree (tick acd)))"
      then have "frame acd acd'" by (auto simp: frame_def)
      with a show "Q acd'" using near_future(4) [OF n assms(5), of 0] by (intro assms(6)) auto
    qed (use assms near_future(2) [OF n assms(5), of 0] in auto)
    with True show ?thesis by (simp add: n_acd_probe_schedule_def timer_now_ok [OF assms(1)])
  next
    case False
    note j = jitter_small [OF False, of "os_rand os (a_calls acd + 1)"]
    have "wp (timeout_schedule os (tick (tick acd)) p (?now + d + ?r)) Q"
    proof (rule wp_timeout_schedule [OF assms(1), where pr = pr])
      fix acd'
      assume a: "acd_inv acd'" "frame (tick (tick acd)) acd'"
        "a_timer_tree acd' = timer_insert (?now + d + ?r) p (timer_remove p (a_timer_tree (tick (tick acd))))"
      then have "frame acd acd'" by (auto simp: frame_def)
      with a show "Q acd'" using near_future(3) [OF n assms(5) j] by (intro assms(6)) auto
    qed (use assms near_future(1) [OF n assms(5) j] in auto)
    with False show ?thesis by (simp add: n_acd_probe_schedule_def timer_now_ok [OF assms(1)])
  qed
qed


lemma wp_unschedule:
  assumes "good_os os" "acd_inv acd" "a_probes acd p = Some pr"
    "\<And>acd' pr'. acd_inv acd' \<Longrightarrow> frame acd acd' \<Longrightarrow> a_timer_tree acd' = timer_remove p (a_timer_tree acd) \<Longrightarrow>
       a_probes acd' p = Some pr' \<Longrightarrow> p_linked pr' = p_linked pr \<Longrightarrow> p_state pr' = p_state pr \<Longrightarrow>
       (\<And>q. q \<noteq> p \<Longrightarrow> a_probes acd' q = a_probes acd q) \<Longrightarrow> a_event_list acd' = a_event_list acd \<Longrightarrow>
       p_timeout_multiplier pr' = p_timeout_multiplier pr \<Longrightarrow> Q acd'"
  shows "wp (timeout_unschedule os acd p) Q"
proof (cases "p_timer_set pr")
  case False
  then have "p \<notin> snd ` set (a_timer_tree acd)"
    using inv_timers [OF assms(2)] assms(3) by (fastforce simp: timers_ok_def)
  then have "Q acd" using assms(2,3) by (intro assms(4)) (auto simp: timer_remove_idle)
  with False assms(3) show ?thesis by (simp add: timeout_unschedule_def)
next
  case True
  let ?r = "upd_probe p (\<lambda>pr. pr\<lparr>p_timeout := 0, p_timer_set := False\<rparr>)
    (acd\<lparr>a_timer_tree := timer_remove p (a_timer_tree acd)\<rparr>)"
  have i: "acd_inv ?r"
    using inv_remove_timer [OF assms(2)] inv_probe [OF assms(2,3)] assms(3)
    by (intro inv_upd_probe [where pr = pr]) (auto simp: probe_ok_def image_iff)
  have "wp (timer_rearm os ?r) Q"
    by (rule wp_rearm [OF assms(1) inv_timers [OF i]]) (use i assms(3) in \<open>auto intro!: assms(4)\<close>)
  with True assms(3) show ?thesis by (simp add: timeout_unschedule_def)
qed

section \<open>Events and packets\<close>

text \<open>Only the list of events, the packets sent and the number of calls change.\<close>

definition quiet :: "NAcd \<Rightarrow> NAcd \<Rightarrow> bool" where
  "quiet acd acd' \<longleftrightarrow>
     a_n_refs acd' = a_n_refs acd \<and> a_mac acd' = a_mac acd \<and> a_probes acd' = a_probes acd
     \<and> a_next_id acd' = a_next_id acd \<and> a_ip_tree acd' = a_ip_tree acd
     \<and> a_timer_tree acd' = a_timer_tree acd \<and> a_scheduled_timeout acd' = a_scheduled_timeout acd
     \<and> a_armed acd' = a_armed acd \<and> a_bpf_map acd' = a_bpf_map acd
     \<and> a_n_bpf_map acd' = a_n_bpf_map acd \<and> a_max_bpf_map acd' = a_max_bpf_map acd
     \<and> a_preempted acd' = a_preempted acd \<and> a_calls acd \<le> a_calls acd'
     \<and> (events_ok (a_probes acd) (a_event_list acd) \<longrightarrow> events_ok (a_probes acd) (a_event_list acd'))"

lemma quietD:
  assumes "quiet acd acd'"
  shows "a_probes acd' = a_probes acd" "a_timer_tree acd' = a_timer_tree acd" "a_ip_tree acd' = a_ip_tree acd"
    "a_mac acd' = a_mac acd" "a_calls acd \<le> a_calls acd'" "acd_inv acd \<Longrightarrow> acd_inv acd'"
    "a_armed acd' = a_armed acd" "a_scheduled_timeout acd' = a_scheduled_timeout acd" "frame acd acd'"
  using assms by (simp_all add: quiet_def acd_inv_def frame_def)

lemma quiet_refl [simp]: "quiet acd acd"
  by (simp add: quiet_def)

lemma quiet_trans: "quiet a b \<Longrightarrow> quiet b c \<Longrightarrow> quiet a c"
  by (simp add: quiet_def)

lemma quiet_tick [simp]: "quiet acd (tick acd)"
  by (simp add: quiet_def)

lemma quiet_raise: "n_acd_raise os acd e = (r, acd') \<Longrightarrow> quiet acd acd'"
  by (auto simp: n_acd_raise_def Let_def quiet_def events_ok_def split: if_splits)

lemma quiet_sent: "quiet acd ((tick acd)\<lparr>a_sent := x\<rparr>)"
  by (simp add: quiet_def)

lemma quiet_send: "n_acd_send os acd tpa spa = (r, acd') \<Longrightarrow> quiet acd acd'"
  by (auto simp: n_acd_send_def Let_def quiet_sent split: send_answer.splits if_splits prod.splits
      intro: quiet_trans [OF quiet_tick quiet_raise])

lemma raise_events:
  "n_acd_raise os acd e = (0, acd') \<Longrightarrow>
   a_event_list acd' = a_event_list acd @ [\<lparr>ev_event = e, ev_probe = None, ev_sender = [], is_public = False\<rparr>]"
  by (auto simp: n_acd_raise_def Let_def split: if_splits)

lemma quiet_upd_last:
  assumes "a_event_list acd \<noteq> []" "p \<in> dom (a_probes acd)" "\<And>node. ev_probe (f node) = Some p \<or> ev_probe (f node) = ev_probe node"
  shows "quiet acd (upd_last f acd)"
proof -
  let ?es = "butlast (a_event_list acd) @ [f (last (a_event_list acd))]"
  have "events_ok (a_probes acd) (a_event_list acd) \<longrightarrow> events_ok (a_probes acd) ?es"
  proof
    assume e: "events_ok (a_probes acd) (a_event_list acd)"
    have "last (a_event_list acd) \<in> set (a_event_list acd)" using assms(1) by simp
    then show "events_ok (a_probes acd) ?es"
      using e assms(2) assms(3) [of "last (a_event_list acd)"]
      by (auto simp: events_ok_def dest: in_set_butlastD) (metis domD)
  qed
  then show ?thesis by (simp add: quiet_def upd_last_def)
qed

lemma wp_probe_raise:
  assumes "p \<in> dom (a_probes acd)" "e \<noteq> N_ACD_EVENT_DOWN"
    "\<And>r acd'. quiet acd acd' \<Longrightarrow> (r = 0 \<Longrightarrow> a_event_list acd' \<noteq> []) \<Longrightarrow> Q (r, acd')"
  shows "wp (n_acd_probe_raise os acd p e) Q"
proof -
  obtain r acd1 where r: "n_acd_raise os acd e = (r, acd1)" by fastforce
  show ?thesis
  proof (cases "r = 0")
    case False
    with quiet_raise [OF r] show ?thesis by (simp add: n_acd_probe_raise_def r assms(3))
  next
    case True
    have "quiet acd1 (upd_last (\<lambda>node. node\<lparr>ev_probe := Some p\<rparr>) acd1)"
      using assms(1) raise_events [OF r [unfolded True]] quietD(1) [OF quiet_raise [OF r]]
      by (intro quiet_upd_last) auto
    then have "quiet acd (upd_last (\<lambda>node. node\<lparr>ev_probe := Some p\<rparr>) acd1)"
      by (rule quiet_trans [OF quiet_raise [OF r]])
    with True assms(2) show ?thesis
      by (auto simp: n_acd_probe_raise_def r upd_last_def intro: assms(3))
  qed
qed


section \<open>The tree of addresses\<close>

lemma rb_next_split: "p \<notin> set ys \<Longrightarrow> rb_next p (ys @ p # zs) = (case zs of [] \<Rightarrow> None | z # _ \<Rightarrow> Some z)"
  by (simp add: rb_next_def dropWhile_append split: list.split)

lemma rb_next_rev_split:
  "p \<notin> set zs \<Longrightarrow> rb_next p (rev (ys @ p # zs)) = (if ys = [] then None else Some (last ys))"
  by (cases ys rule: rev_cases) (simp_all add: rb_next_split)

lemma sorted_neighbour:
  assumes "sorted (map f (p # zs))" "q \<in> set zs" "f q = f p"
  shows "f (hd zs) = (f p :: 'b :: linorder)"
proof (cases zs)
  case (Cons z zs')
  then have "f p \<le> f z" "f z \<le> f q" using assms by auto
  with assms(3) Cons show ?thesis by simp
qed (use assms in simp)

lemma sorted_neighbour_rev:
  assumes "sorted (map f (ys @ [p]))" "q \<in> set ys" "f q = f p"
  shows "f (last ys) = (f p :: 'b :: linorder)"
proof (cases ys rule: rev_cases)
  case (snoc ys' y)
  then have "f y \<le> f p" "f q \<le> f y" using assms by (auto simp: sorted_append)
  with assms(3) snoc show ?thesis by simp
qed (use assms in simp)

text \<open>The neighbours in the tree decide whether another probe has the same address.\<close>

lemma is_unique_correct:
  assumes "tree_ok (a_probes acd) (a_ip_tree acd)" "a_probes acd p = Some pr" "p_linked pr"
  shows "n_acd_probe_is_unique acd p =
    Some (\<forall>q\<in>set (inorder (a_ip_tree acd)). q \<noteq> p \<longrightarrow> ipf (a_probes acd) q \<noteq> p_ip pr)"
proof -
  let ?f = "ipf (a_probes acd)" and ?xs = "inorder (a_ip_tree acd)"
  have "p \<in> set ?xs" using assms by (auto simp: tree_ok_def)
  then obtain ys zs where xs: "?xs = ys @ p # zs" by (meson split_list)
  have d: "p \<notin> set ys" "p \<notin> set zs" and so: "sorted (map ?f (ys @ p # zs))"
    using assms(1) by (auto simp: tree_ok_def xs)
  have fp: "?f p = p_ip pr" using assms(2) by (simp add: ipf_def)
  have ex: "\<exists>pr. a_probes acd q = Some pr \<and> ?f q = p_ip pr" if "q \<in> set ?xs" for q
    using assms(1) that by (auto simp: tree_ok_def ipf_def)
  have n: "same_ip acd (rb_next p ?xs) (p_ip pr) = Some (zs \<noteq> [] \<and> ?f (hd zs) = p_ip pr)"
    using ex [of "hd zs"] by (cases zs) (auto simp: xs rb_next_split [OF d(1)] same_ip_def)
  have b: "same_ip acd (rb_next p (rev ?xs)) (p_ip pr) = Some (ys \<noteq> [] \<and> ?f (last ys) = p_ip pr)"
    using ex [of "last ys"] rb_next_rev_split [OF d(2), of ys] by (cases "ys = []") (auto simp: xs same_ip_def)
  have z: "\<exists>q\<in>set zs. ?f q = ?f p \<Longrightarrow> zs \<noteq> [] \<and> ?f (hd zs) = ?f p"
    using so sorted_neighbour [of ?f p zs] by (auto simp: sorted_append)
  have y: "\<exists>q\<in>set ys. ?f q = ?f p \<Longrightarrow> ys \<noteq> [] \<and> ?f (last ys) = ?f p"
    using so sorted_neighbour_rev [of ?f ys p] by (auto simp: sorted_append)
  have u: "(\<forall>q\<in>set ?xs. q \<noteq> p \<longrightarrow> ?f q \<noteq> p_ip pr) \<longleftrightarrow>
      \<not> (zs \<noteq> [] \<and> ?f (hd zs) = p_ip pr) \<and> \<not> (ys \<noteq> [] \<and> ?f (last ys) = p_ip pr)"
  proof -
    have "zs \<noteq> [] \<Longrightarrow> hd zs \<in> set zs \<and> hd zs \<noteq> p" "ys \<noteq> [] \<Longrightarrow> last ys \<in> set ys \<and> last ys \<noteq> p"
      using d hd_in_set [of zs] last_in_set [of ys] by auto
    with z y fp d show ?thesis unfolding xs by (simp only: set_append list.set) blast
  qed
  show ?thesis unfolding u using assms(2,3) by (simp add: n_acd_probe_is_unique_def n b)
qed

lemma is_unique_unlinked:
  "a_probes acd p = Some pr \<Longrightarrow> \<not> p_linked pr \<Longrightarrow> n_acd_probe_is_unique acd p = Some False"
  by (simp add: n_acd_probe_is_unique_def)

lemma ntohl_eq [simp]: "ntohl x = ntohl y \<longleftrightarrow> x = y"
  by (metis ntohl_ntohl)


lemma inv_tree_unlink:
  assumes "good_os os" "acd_inv acd" "a_probes acd p = Some pr"
    "bpf_ok (a_probes acd) (rb_unlink os p (a_ip_tree acd)) m n (a_max_bpf_map acd)"
  shows "acd_inv (tree_unlink os p (acd\<lparr>a_bpf_map := m, a_n_bpf_map := n\<rparr>))"
proof -
  let ?p = "(a_probes acd)(p \<mapsto> pr\<lparr>p_linked := False\<rparr>)" and ?t = "rb_unlink os p (a_ip_tree acd)"
  have io: "inorder ?t = filter (\<lambda>q. q \<noteq> p) (inorder (a_ip_tree acd))" using assms(1) by (simp add: good_os_def)
  have i: "ipf ?p = ipf (a_probes acd)" by (rule ext) (simp add: ipf_def assms(3))
  have tree: "tree_ok ?p ?t"
    using assms(2,3) unfolding tree_ok_def io i by (auto simp: acd_inv_def tree_ok_def sorted_filter)
  have timers: "timers_ok ?p (a_timer_tree acd)"
    using assms(2,3) by (force simp: acd_inv_def timers_ok_def)
  have bpf: "bpf_ok ?p ?t m n (a_max_bpf_map acd)" using assms(4) by (simp add: bpf_ok_def i)
  have d: "dom ?p = dom (a_probes acd)" using assms(3) by auto
  have ok: "\<forall>q r. ?p q = Some r \<longrightarrow> probe_ok r \<and> q < a_next_id acd"
    using assms(2,3) by (auto simp: acd_inv_def probe_ok_def)
  let ?r = "tree_unlink os p (acd\<lparr>a_bpf_map := m, a_n_bpf_map := n\<rparr>)"
  have u: "a_probes ?r = ?p" by (rule ext) (simp add: tree_unlink_def assms(3))
  show ?thesis
    using assms(2) tree timers bpf ok
    by (simp only: acd_inv_def u events_ok_def d) (simp add: tree_unlink_def)
qed

lemma length_removeAll_distinct: "distinct m \<Longrightarrow> x \<in> set m \<Longrightarrow> length (removeAll x m) = length m - 1"
  by (simp add: distinct_remove1_removeAll [symmetric] length_remove1)

lemma wp_probe_unlink:
  assumes "good_os os" "acd_inv acd" "a_probes acd p = Some pr"
    "\<And>acd'. acd_inv acd' \<Longrightarrow> frame acd acd' \<Longrightarrow> a_timer_tree acd' = a_timer_tree acd \<Longrightarrow>
       a_event_list acd' = a_event_list acd \<Longrightarrow> a_probes acd' = (a_probes acd)(p \<mapsto> pr\<lparr>p_linked := False\<rparr>) \<Longrightarrow> Q acd'"
  shows "wp (n_acd_probe_unlink os acd p) Q"
proof (cases "p_linked pr")
  case False
  then have "(a_probes acd)(p \<mapsto> pr\<lparr>p_linked := False\<rparr>) = a_probes acd" using assms(3) by auto
  then have "Q acd" using assms(2) by (intro assms(4)) simp_all
  with False assms(3) show ?thesis
    by (simp add: n_acd_probe_unlink_def is_unique_unlinked [OF assms(3) False])
next
  case True
  let ?f = "\<lambda>q. ntohl (ipf (a_probes acd) q)" and ?S = "set (inorder (a_ip_tree acd))"
  let ?u = "\<forall>q\<in>?S. q \<noteq> p \<longrightarrow> ipf (a_probes acd) q \<noteq> p_ip pr"
  have tr: "tree_ok (a_probes acd) (a_ip_tree acd)"
    and b: "bpf_ok (a_probes acd) (a_ip_tree acd) (a_bpf_map acd) (a_n_bpf_map acd) (a_max_bpf_map acd)"
    using assms(2) by (simp_all add: acd_inv_def)
  have io: "set (inorder (rb_unlink os p (a_ip_tree acd))) = ?S - {p}"
    using assms(1) by (auto simp: good_os_def)
  have p: "p \<in> ?S" "?f p = ntohl (p_ip pr)" using tr assms(3) True by (auto simp: tree_ok_def ipf_def)
  have frame: "frame acd (tree_unlink os p (acd\<lparr>a_bpf_map := m, a_n_bpf_map := n\<rparr>))" for m n
    by (simp add: tree_unlink_def)
  have fields: "a_timer_tree (tree_unlink os p (acd\<lparr>a_bpf_map := m, a_n_bpf_map := n\<rparr>)) = a_timer_tree acd"
    "a_event_list (tree_unlink os p (acd\<lparr>a_bpf_map := m, a_n_bpf_map := n\<rparr>)) = a_event_list acd"
    "a_probes (tree_unlink os p (acd\<lparr>a_bpf_map := m, a_n_bpf_map := n\<rparr>)) = (a_probes acd)(p \<mapsto> pr\<lparr>p_linked := False\<rparr>)"
    for m n using assms(3) by (auto simp: tree_unlink_def fun_eq_iff)
  show ?thesis
  proof (cases ?u)
    case u: True
    let ?m = "removeAll (ntohl (p_ip pr)) (a_bpf_map acd)"
    have "?f p \<in> ?f ` ?S" using p by (intro imageI)
    then have in_m: "ntohl (p_ip pr) \<in> set (a_bpf_map acd)" using b p by (simp add: bpf_ok_def)
    have "set ?m = ?f ` (?S - {p})" using b u p by (auto simp: bpf_ok_def)
    then have "bpf_ok (a_probes acd) (rb_unlink os p (a_ip_tree acd)) ?m (a_n_bpf_map acd - 1) (a_max_bpf_map acd)"
      using b in_m io by (auto simp: bpf_ok_def length_removeAll_distinct distinct_removeAll)
    then have inv: "acd_inv (tree_unlink os p ((tick acd)\<lparr>a_bpf_map := ?m, a_n_bpf_map := a_n_bpf_map acd - 1\<rparr>))"
      using inv_tree_unlink [OF assms(1), of "tick acd" p pr] assms(2,3) by simp
    have "Q (tree_unlink os p ((tick acd)\<lparr>a_bpf_map := ?m, a_n_bpf_map := a_n_bpf_map acd - 1\<rparr>))"
      by (rule assms(4) [OF inv]) (use assms(3) in \<open>auto simp: tree_unlink_def fun_eq_iff\<close>)
    with in_m u True assms(3) show ?thesis
      by (simp add: n_acd_probe_unlink_def is_unique_correct [OF tr assms(3) True] bpf_map_remove_ok [OF assms(1)])
  next
    case u: False
    then obtain q where q: "q \<in> ?S" "q \<noteq> p" "ipf (a_probes acd) q = p_ip pr" by auto
    then have "?f p \<in> ?f ` (?S - {p})" using p(2) by (intro image_eqI [of _ _ q]) auto
    moreover have "?f ` ?S = insert (?f p) (?f ` (?S - {p}))" using p(1) by blast
    ultimately have "?f ` (?S - {p}) = ?f ` ?S" by (simp add: insert_absorb)
    then have "bpf_ok (a_probes acd) (rb_unlink os p (a_ip_tree acd)) (a_bpf_map acd) (a_n_bpf_map acd) (a_max_bpf_map acd)"
      using b io by (simp add: bpf_ok_def)
    then have "Q (tree_unlink os p (acd\<lparr>a_bpf_map := a_bpf_map acd, a_n_bpf_map := a_n_bpf_map acd\<rparr>))"
      by (intro assms(4) inv_tree_unlink [OF assms(1-3)] frame fields)
    moreover have "n_acd_probe_is_unique acd p = Some False"
      unfolding is_unique_correct [OF tr assms(3) True] using u by blast
    ultimately show ?thesis using True assms(3) by (simp add: n_acd_probe_unlink_def)
  qed
qed


lemma wp_bpf_map_fill:
  assumes "\<forall>q\<in>set qs. a_probes acd q \<noteq> None"
    "\<And>r k m'. a_calls acd \<le> k \<Longrightarrow>
       (r = 0 \<Longrightarrow> set m' = (\<lambda>q. ntohl (ipf (a_probes acd) q)) ` set qs \<union> set m \<and> (distinct m \<longrightarrow> distinct m')) \<Longrightarrow>
       Q (r, acd\<lparr>a_calls := k\<rparr>, m')"
  shows "wp (bpf_map_fill os acd mx qs m) Q"
  using assms
proof (induction os acd mx qs m rule: bpf_map_fill.induct)
  case (1 os acd mx m)
  from "1.prems"(2) [of "a_calls acd" 0 m] show ?case by simp
next
  case (2 os acd mx q qs m)
  obtain pr where pr: "a_probes acd q = Some pr" using "2.prems"(1) by auto
  obtain r m' where a: "n_acd_bpf_map_add os (a_calls acd) m mx (p_ip pr) = (r, m')" by fastforce
  show ?case
  proof (cases "r = 0")
    case False
    have "Q (r, tick acd, m')" unfolding tick_def using False by (intro "2.prems"(2)) simp_all
    with False show ?thesis by (simp add: pr a)
  next
    case True
    then have m': "m' = ntohl (p_ip pr) # m" "ntohl (p_ip pr) \<notin> set m" "length m < mx"
      using a by (auto simp: n_acd_bpf_map_add_def split: if_splits)
    have "wp (bpf_map_fill os (tick acd) mx qs m') Q"
    proof (rule "2.IH" [OF pr a [symmetric]])
      fix k m'' and r'' :: int
      assume k: "a_calls (tick acd) \<le> k"
        and r: "r'' = 0 \<Longrightarrow> set m'' = (\<lambda>q. ntohl (ipf (a_probes (tick acd)) q)) ` set qs \<union> set m'
             \<and> (distinct m' \<longrightarrow> distinct m'')"
      have t: "(tick acd)\<lparr>a_calls := k\<rparr> = acd\<lparr>a_calls := k\<rparr>" by (simp add: tick_def)
      show "Q (r'', (tick acd)\<lparr>a_calls := k\<rparr>, m'')"
        unfolding t using k r m' pr by (intro "2.prems"(2)) (auto simp: ipf_def)
    qed (use True "2.prems"(1) in auto)
    with True show ?thesis by (simp add: pr a)
  qed
qed

lemma bpf_ok_room:
  assumes "acd_inv acd" "set m = (\<lambda>q. ntohl (ipf (a_probes acd) q)) ` set (inorder (a_ip_tree acd))" "distinct m"
  shows "acd_inv (acd\<lparr>a_bpf_map := m, a_max_bpf_map := 2 * a_max_bpf_map acd\<rparr>)"
proof -
  have "distinct (a_bpf_map acd)" "set m = set (a_bpf_map acd)"
    using assms by (simp_all add: acd_inv_def bpf_ok_def)
  then have "length m = length (a_bpf_map acd)" using assms(3) by (metis distinct_card)
  then show ?thesis using assms by (auto simp: acd_inv_def bpf_ok_def)
qed

text \<open>What the operations on the filter keep.\<close>

definition same_probes :: "NAcd \<Rightarrow> NAcd \<Rightarrow> bool" where
  "same_probes acd acd' \<longleftrightarrow>
     a_probes acd' = a_probes acd \<and> a_timer_tree acd' = a_timer_tree acd \<and> a_event_list acd' = a_event_list acd
     \<and> a_ip_tree acd' = a_ip_tree acd \<and> a_next_id acd' = a_next_id acd \<and> a_n_refs acd' = a_n_refs acd
     \<and> a_mac acd' = a_mac acd \<and> a_calls acd \<le> a_calls acd' \<and> a_armed acd' = a_armed acd
     \<and> a_scheduled_timeout acd' = a_scheduled_timeout acd"


lemma same_probes_calls: "a_calls acd \<le> k \<Longrightarrow> same_probes acd (acd\<lparr>a_calls := k\<rparr>)"
  by (simp add: same_probes_def)

lemma wp_ensure_space:
  assumes "acd_inv acd"
    "\<And>r acd'. acd_inv acd' \<Longrightarrow> same_probes acd acd' \<Longrightarrow>
       (r = 0 \<Longrightarrow> a_n_bpf_map acd' < a_max_bpf_map acd') \<Longrightarrow> Q (r, acd')"
  shows "wp (n_acd_ensure_bpf_map_space os acd) Q"
proof (cases "a_n_bpf_map acd < a_max_bpf_map acd")
  case True
  then have "Q (0, acd)" using assms by (intro assms(2)) (simp_all add: same_probes_def)
  with True show ?thesis by (simp add: n_acd_ensure_bpf_map_space_def)
next
  case False
  let ?k = "a_calls acd" and ?mx = "2 * a_max_bpf_map acd"
  have fail: "Q (r, acd\<lparr>a_calls := k\<rparr>)" if "r \<noteq> 0" "?k \<le> k" for r k
    using that assms(1) by (intro assms(2)) (simp_all add: same_probes_calls)
  have b: "a_n_bpf_map acd < ?mx" using assms(1) by (auto simp: acd_inv_def bpf_ok_def)
  have live: "\<forall>q\<in>set (inorder (a_ip_tree acd)). a_probes (tick acd) q \<noteq> None"
    using assms(1) by (auto simp: acd_inv_def tree_ok_def)
  have "wp (bpf_map_fill os (tick acd) ?mx (inorder (a_ip_tree acd)) []) (\<lambda>(r, acd1, m).
      if r \<noteq> 0 then Q (r, acd1)
      else if os_bpf os (a_calls acd1) \<noteq> 0 then Q (- os_bpf os (a_calls acd1), tick acd1)
      else if os_bpf os (a_calls acd1 + 1) \<noteq> 0 then Q (- os_bpf os (a_calls acd1 + 1), tick (tick acd1))
      else Q (0, (tick (tick acd1))\<lparr>a_bpf_map := m, a_max_bpf_map := ?mx\<rparr>))"
  proof (rule wp_bpf_map_fill [OF live])
    fix k m and r :: int
    assume k: "a_calls (tick acd) \<le> k"
      and m: "r = 0 \<Longrightarrow> set m = (\<lambda>q. ntohl (ipf (a_probes (tick acd)) q)) ` set (inorder (a_ip_tree acd)) \<union> set []
           \<and> (distinct ([] :: u32 list) \<longrightarrow> distinct m)"
    have "Q (0, acd\<lparr>a_calls := k + 2, a_bpf_map := m, a_max_bpf_map := ?mx\<rparr>)" if "r = 0"
    proof -
      have "acd_inv (acd\<lparr>a_calls := k + 2, a_bpf_map := m, a_max_bpf_map := ?mx\<rparr>)"
        using bpf_ok_room [of "acd\<lparr>a_calls := k + 2\<rparr>" m] m [OF that] assms(1) by simp
      then show ?thesis using b k by (intro assms(2)) (simp_all add: same_probes_def)
    qed
    with fail k show "case (r, (tick acd)\<lparr>a_calls := k\<rparr>, m) of (r, acd1, m) \<Rightarrow>
      if r \<noteq> 0 then Q (r, acd1)
      else if os_bpf os (a_calls acd1) \<noteq> 0 then Q (- os_bpf os (a_calls acd1), tick acd1)
      else if os_bpf os (a_calls acd1 + 1) \<noteq> 0 then Q (- os_bpf os (a_calls acd1 + 1), tick (tick acd1))
      else Q (0, (tick (tick acd1))\<lparr>a_bpf_map := m, a_max_bpf_map := ?mx\<rparr>)"
      by (simp add: tick_def)
  qed
  note w = this
  show ?thesis
  proof (cases "os_bpf os ?k = 0")
    case True
    with False show ?thesis
      unfolding n_acd_ensure_bpf_map_space_def Let_def
      by (simp split del: if_split) (rule wp_mono [OF w], auto split: if_splits)
  next
    case e: False
    have "Q (- os_bpf os ?k, tick acd)" unfolding tick_def by (rule fail) (use e in simp_all)
    with e False show ?thesis by (simp add: n_acd_ensure_bpf_map_space_def Let_def)
  qed
qed

lemma inorder_tree_link:
  "sorted (map k (inorder t)) \<Longrightarrow>
   \<exists>ys zs. inorder t = ys @ zs \<and> inorder (tree_link k p t) = ys @ p # zs
     \<and> (\<forall>y\<in>set ys. k y \<le> k p) \<and> (\<forall>z\<in>set zs. k p < k z)"
proof (induction t)
  case (Node l q r)
  show ?case
  proof (cases "k p < k q")
    case True
    obtain ys zs where "inorder l = ys @ zs" "inorder (tree_link k p l) = ys @ p # zs"
      "\<forall>y\<in>set ys. k y \<le> k p" "\<forall>z\<in>set zs. k p < k z"
      using Node by (auto simp: sorted_append)
    with True Node.prems show ?thesis
      by (intro exI [of _ ys] exI [of _ "zs @ q # inorder r"]) (auto simp: sorted_append)
  next
    case False
    obtain ys zs where "inorder r = ys @ zs" "inorder (tree_link k p r) = ys @ p # zs"
      "\<forall>y\<in>set ys. k y \<le> k p" "\<forall>z\<in>set zs. k p < k z"
      using Node by (auto simp: sorted_append)
    with False Node.prems show ?thesis
      by (intro exI [of _ "inorder l @ q # ys"] exI [of _ zs]) (auto simp: sorted_append)
  qed
qed simp


lemma same_probesD:
  assumes "same_probes acd acd'"
  shows "a_probes acd' = a_probes acd" "a_timer_tree acd' = a_timer_tree acd" "a_event_list acd' = a_event_list acd"
    "a_ip_tree acd' = a_ip_tree acd" "a_next_id acd' = a_next_id acd" "frame acd acd'"
  using assms by (simp_all add: same_probes_def frame_def)

lemma inv_same_inorder:
  "acd_inv acd \<Longrightarrow> inorder t = inorder (a_ip_tree acd) \<Longrightarrow> acd_inv (acd\<lparr>a_ip_tree := t\<rparr>)"
  by (simp only: acd_inv_def tree_ok_def bpf_ok_def) simp

text \<open>A probe put into the tree of addresses; the map of the filter follows below.\<close>

lemma tree_ok_link:
  assumes "good_os os" "acd_inv acd" "a_probes acd p = Some pr" "\<not> p_linked pr" "p_state pr \<noteq> N_ACD_PROBE_STATE_FAILED"
    and t: "t = rb_balance os (tree_link (ipf (a_probes acd)) p (a_ip_tree acd))"
    and P: "P = (a_probes acd)(p \<mapsto> pr\<lparr>p_linked := True\<rparr>)"
  shows "tree_ok P t" "set (inorder t) = insert p (set (inorder (a_ip_tree acd)))" "p \<notin> set (inorder (a_ip_tree acd))"
    "ipf P = ipf (a_probes acd)" "filter (\<lambda>q. q \<noteq> p) (inorder t) = inorder (a_ip_tree acd)"
    "timers_ok P (a_timer_tree acd)" "dom P = dom (a_probes acd)"
    "\<forall>q r. P q = Some r \<longrightarrow> probe_ok r \<and> q < a_next_id acd"
proof -
  let ?f = "ipf (a_probes acd)"
  have tr: "tree_ok (a_probes acd) (a_ip_tree acd)" using assms(2) by (simp add: acd_inv_def)
  then obtain ys zs where yz: "inorder (a_ip_tree acd) = ys @ zs" "inorder t = ys @ p # zs"
    "\<forall>y\<in>set ys. ?f y \<le> ?f p" "\<forall>z\<in>set zs. ?f p < ?f z"
    using inorder_tree_link [of ?f "a_ip_tree acd" p] assms(1) by (auto simp: tree_ok_def t good_os_def)
  show p: "p \<notin> set (inorder (a_ip_tree acd))" using tr assms(3,4) by (auto simp: tree_ok_def)
  show i: "ipf P = ?f" by (rule ext) (simp add: P ipf_def assms(3))
  show s: "set (inorder t) = insert p (set (inorder (a_ip_tree acd)))" using yz by auto
  have "set (inorder (a_ip_tree acd)) = {q. \<exists>r. a_probes acd q = Some r \<and> p_linked r}"
    using tr by (simp only: tree_ok_def)
  then have "set (inorder t) = {q. \<exists>r. P q = Some r \<and> p_linked r}" unfolding s P by auto
  moreover have "distinct (inorder t)" "sorted (map ?f (inorder t))"
    using tr p yz unfolding tree_ok_def yz by (auto simp: sorted_append intro: less_imp_le)
  ultimately show "tree_ok P t" by (simp only: tree_ok_def i simp_thms)
  show "filter (\<lambda>q. q \<noteq> p) (inorder t) = inorder (a_ip_tree acd)"
  proof -
    have "filter (\<lambda>q. q \<noteq> p) ys = ys" "filter (\<lambda>q. q \<noteq> p) zs = zs" using p yz(1) by (auto simp: filter_id_conv)
    then show ?thesis by (simp add: yz)
  qed
  show "timers_ok P (a_timer_tree acd)" using assms(2,3) by (force simp: acd_inv_def timers_ok_def P)
  show "dom P = dom (a_probes acd)" using assms(3) by (auto simp: P)
  show "\<forall>q r. P q = Some r \<longrightarrow> probe_ok r \<and> q < a_next_id acd"
    using assms(2,3,5) by (auto simp: acd_inv_def P probe_ok_def)
qed

lemma wp_probe_link:
  assumes "good_os os" "acd_inv acd" "a_probes acd p = Some pr" "\<not> p_linked pr"
    "p_state pr \<noteq> N_ACD_PROBE_STATE_FAILED"
    "\<And>r acd'. acd_inv acd' \<Longrightarrow> frame acd acd' \<Longrightarrow> a_timer_tree acd' = a_timer_tree acd \<Longrightarrow>
       a_event_list acd' = a_event_list acd \<Longrightarrow>
       a_probes acd' = (if r = 0 then (a_probes acd)(p \<mapsto> pr\<lparr>p_linked := True\<rparr>) else a_probes acd) \<Longrightarrow> Q (r, acd')"
  shows "wp (n_acd_probe_link os acd p) Q"
  unfolding n_acd_probe_link_def wp_bind
proof (rule wp_ensure_space [OF assms(2)], goal_cases)
  case (1 r acd1)
  note sp = same_probesD [OF 1(2)]
  show ?case
  proof (cases "r = 0")
    case False
    then have "Q (r, acd1)" using 1 sp by (intro assms(6)) simp_all
    with False show ?thesis by simp
  next
    case True
    let ?t = "rb_balance os (tree_link (ipf (a_probes acd1)) p (a_ip_tree acd1))"
    let ?P = "(a_probes acd1)(p \<mapsto> pr\<lparr>p_linked := True\<rparr>)"
    let ?a = "upd_probe p (p_linked_update (\<lambda>_. True)) (acd1\<lparr>a_ip_tree := ?t\<rparr>)"
    have p1: "a_probes acd1 p = Some pr" using assms(3) sp by simp
    have P: "a_probes ?a = ?P" by (rule ext) (simp add: p1)
    note tl = tree_ok_link [OF assms(1) 1(1) p1 assms(4,5) refl refl]
    let ?u = "\<forall>q\<in>set (inorder ?t). q \<noteq> p \<longrightarrow> ipf ?P q \<noteq> p_ip pr"
    have u: "n_acd_probe_is_unique ?a p = Some ?u"
      using is_unique_correct [of ?a p "pr\<lparr>p_linked := True\<rparr>"] tl(1) unfolding P by (simp add: p1)
    have b: "bpf_ok (a_probes acd1) (a_ip_tree acd1) (a_bpf_map acd1) (a_n_bpf_map acd1) (a_max_bpf_map acd1)"
      using 1(1) by (simp add: acd_inv_def)
    have fp: "ipf (a_probes acd1) p = p_ip pr" by (simp add: ipf_def p1)
    have inv: "acd_inv (?a\<lparr>a_bpf_map := m, a_n_bpf_map := n\<rparr>)"
      if "bpf_ok ?P ?t m n (a_max_bpf_map acd1)" for m n
    proof -
      have "a_probes (?a\<lparr>a_bpf_map := m, a_n_bpf_map := n\<rparr>) = ?P" using P by simp
      then show ?thesis
        using 1(1) tl that by (simp only: acd_inv_def events_ok_def tl(7)) simp
    qed
    have fr: "frame acd ?a" using sp(6) by simp
    show ?thesis
    proof (cases ?u)
      case nu: False
      then obtain q where "q \<in> set (inorder (a_ip_tree acd1))" "ipf (a_probes acd1) q = p_ip pr"
        using tl(2,4) by auto
      then have "ntohl (p_ip pr) \<in> (\<lambda>q. ntohl (ipf (a_probes acd1) q)) ` set (inorder (a_ip_tree acd1))"
        by (intro image_eqI [of _ _ q]) simp_all
      then have "bpf_ok ?P ?t (a_bpf_map acd1) (a_n_bpf_map acd1) (a_max_bpf_map acd1)"
        using b unfolding bpf_ok_def tl(2,4) by (simp add: fp insert_absorb)
      then have "acd_inv (?a\<lparr>a_bpf_map := a_bpf_map acd1, a_n_bpf_map := a_n_bpf_map acd1\<rparr>)" by (rule inv)
      moreover have "?a\<lparr>a_bpf_map := a_bpf_map acd1, a_n_bpf_map := a_n_bpf_map acd1\<rparr> = ?a"
        by (simp add: upd_probe_def)
      ultimately have "acd_inv ?a" by simp
      then have "Q (0, ?a)" using sp fr P by (intro assms(6)) simp_all
      moreover from nu u have "n_acd_probe_is_unique ?a p = Some False" by presburger
      ultimately show ?thesis using True p1 by (simp add: ip_of_ipf)
    next
      case nu: True
      have un: "n_acd_probe_is_unique ?a p = Some True" using nu u by presburger
      have nin: "ntohl (p_ip pr) \<notin> set (a_bpf_map acd1)"
        using nu b tl(2,3,4) by (auto simp: bpf_ok_def)
      have room: "\<not> a_max_bpf_map acd1 \<le> length (a_bpf_map acd1)" using 1(3) True b by (simp add: bpf_ok_def)
      show ?thesis
      proof (cases "os_bpf os (a_calls acd1) = 0")
        case True
        have "bpf_ok ?P ?t (ntohl (p_ip pr) # a_bpf_map acd1) (a_n_bpf_map acd1 + 1) (a_max_bpf_map acd1)"
          using b nin room unfolding bpf_ok_def tl(2,4) by (simp add: fp)
        then have "acd_inv (tick (?a\<lparr>a_bpf_map := ntohl (p_ip pr) # a_bpf_map acd1, a_n_bpf_map := a_n_bpf_map acd1 + 1\<rparr>))"
          unfolding inv_irrelevant by (rule inv)
        moreover have t: "tick (?a\<lparr>a_bpf_map := m, a_n_bpf_map := n\<rparr>) = (tick ?a)\<lparr>a_bpf_map := m, a_n_bpf_map := n\<rparr>" for m n
          by (simp add: tick_def)
        ultimately have "Q (0, (tick ?a)\<lparr>a_bpf_map := ntohl (p_ip pr) # a_bpf_map acd1, a_n_bpf_map := a_n_bpf_map acd1 + 1\<rparr>)"
          using sp fr P by (intro assms(6)) (simp_all only: t frame_irrelevant frame_tick, simp_all)
        with True un nin room \<open>r = 0\<close> p1 show ?thesis by (simp add: ip_of_ipf n_acd_bpf_map_add_def)
      next
        case False
        let ?r = "tree_unlink os p (tick ?a)"
        have "a_probes ?r = a_probes acd1" using assms(4) p1 by (auto simp: tree_unlink_def fun_eq_iff)
        moreover have "?r = (tick acd1)\<lparr>a_ip_tree := rb_unlink os p ?t\<rparr>"
          using calculation by (simp add: tree_unlink_def upd_probe_def tick_def)
        moreover have "inorder (rb_unlink os p ?t) = inorder (a_ip_tree (tick acd1))"
          using assms(1) tl(5) by (simp add: good_os_def)
        ultimately have "acd_inv ?r" using 1(1) by (simp add: inv_same_inorder)
        then have "Q (- os_bpf os (a_calls acd1), ?r)"
          using sp fr False \<open>a_probes ?r = a_probes acd1\<close> by (intro assms(6)) (simp_all add: tree_unlink_def)
        with False un \<open>r = 0\<close> p1 show ?thesis by (simp add: ip_of_ipf n_acd_bpf_map_add_def)
      qed
    qed
  qed
qed

end
