(* ===== verification/Acd_Safe.thy ===== *)
theory Acd_Safe
  imports Acd_Inv
begin

text \<open>
  Every operation of the interface of the engine keeps the invariant, and the states a client
  can reach.
\<close>

section \<open>Creating and freeing probes\<close>

lemma finite_probes: "acd_inv acd \<Longrightarrow> finite (dom (a_probes acd))"
  by (rule finite_subset [of _ "{..<a_next_id acd}"]) (auto simp: acd_inv_def)

lemma inv_bpf:
  "acd_inv acd \<Longrightarrow> bpf_ok (a_probes acd) (a_ip_tree acd) (a_bpf_map acd) (a_n_bpf_map acd) (a_max_bpf_map acd)"
  by (simp add: acd_inv_def)

lemma ipf_other: "q \<noteq> p \<Longrightarrow> ipf (P(p := x)) q = ipf P q"
  by (simp add: ipf_def)

lemma timers_ok_other:
  assumes "timers_ok P xs" "p \<notin> snd ` set xs"
  shows "timers_ok (P(p := x)) xs"
proof -
  have "q \<noteq> p" if "(t, q) \<in> set xs" for t q using assms(2) that by force
  then show ?thesis using assms(1) by (auto simp: timers_ok_def)
qed

lemma inv_delete_probe:
  assumes "acd_inv acd" "a_probes acd p = Some pr" "\<not> p_linked pr" "p \<notin> snd ` set (a_timer_tree acd)"
    "\<forall>node\<in>set (a_event_list acd). ev_probe node \<noteq> Some p"
  shows "acd_inv (acd\<lparr>a_n_refs := a_n_refs acd - 1, a_probes := (a_probes acd)(p := None)\<rparr>)"
proof -
  let ?P = "(a_probes acd)(p := None)" and ?xs = "inorder (a_ip_tree acd)"
  have s: "set ?xs = {q. \<exists>pr. a_probes acd q = Some pr \<and> p_linked pr}"
    using assms(1) by (simp only: acd_inv_def tree_ok_def)
  then have p: "p \<notin> set ?xs" using assms(2,3) by auto
  then have m: "map (ipf ?P) ?xs = map (ipf (a_probes acd)) ?xs" by (intro map_cong refl ipf_other) auto
  have i: "(\<lambda>q. ntohl (ipf ?P q)) ` set ?xs = (\<lambda>q. ntohl (ipf (a_probes acd) q)) ` set ?xs"
    using p by (intro image_cong refl arg_cong [where f = ntohl] ipf_other) auto
  have "{q. \<exists>pr. ?P q = Some pr \<and> p_linked pr} = set ?xs" unfolding s using assms(2,3) by auto
  then have "tree_ok ?P (a_ip_tree acd)" using assms(1) by (simp only: acd_inv_def tree_ok_def m simp_thms)
  moreover have "bpf_ok ?P (a_ip_tree acd) (a_bpf_map acd) (a_n_bpf_map acd) (a_max_bpf_map acd)"
    using inv_bpf [OF assms(1)] unfolding bpf_ok_def i .
  moreover have "timers_ok ?P (a_timer_tree acd)" by (rule timers_ok_other [OF inv_timers [OF assms(1)] assms(4)])
  moreover have "card (dom ?P) + 1 = a_n_refs acd - 1"
  proof -
    have "card (dom ?P) = card (dom (a_probes acd)) - 1"
      using assms(2) finite_probes [OF assms(1)] by (simp add: card_Diff_singleton domI)
    moreover have "0 < card (dom (a_probes acd))"
      using finite_probes [OF assms(1)] assms(2) by (auto simp: card_gt_0_iff)
    ultimately show ?thesis using assms(1) by (simp add: acd_inv_def)
  qed
  ultimately show ?thesis
    using assms(1,5) unfolding acd_inv_def by (simp add: events_ok_def) auto
qed

lemma inv_events: "acd_inv acd \<Longrightarrow> events_ok (a_probes acd) es \<Longrightarrow> acd_inv (acd\<lparr>a_event_list := es\<rparr>)"
  by (simp add: acd_inv_def)

lemma events_ok_filter: "events_ok P es \<Longrightarrow> events_ok P (filter f es)"
  by (auto simp: events_ok_def)

lemma wp_probe_free:
  assumes "good_os os" "acd_inv acd" "p \<in> dom (a_probes acd)"
    "\<And>acd'. acd_inv acd' \<Longrightarrow> dom (a_probes acd') = dom (a_probes acd) - {p} \<Longrightarrow> Q acd'"
  shows "wp (n_acd_probe_free os acd p) Q"
proof -
  obtain pr where pr: "a_probes acd p = Some pr" using assms(3) by auto
  let ?es = "filter (\<lambda>node. ev_probe node \<noteq> Some p) (a_event_list acd)"
  let ?a = "acd\<lparr>a_event_list := ?es\<rparr>"
  have i: "acd_inv ?a" using assms(2) by (intro inv_events events_ok_filter) (simp_all add: acd_inv_def)
  have pa: "a_probes ?a p = Some pr" using pr by simp
  show ?thesis
    unfolding n_acd_probe_free_def wp_bind
  proof (rule wp_unschedule [OF assms(1) i pa], goal_cases)
    case (1 acd1 pr1)
    show ?case
    proof (rule wp_probe_unlink [OF assms(1) 1(1,4)], goal_cases)
      case (1 acd2)
      have "acd_inv (acd2\<lparr>a_n_refs := a_n_refs acd2 - 1, a_probes := (a_probes acd2)(p := None)\<rparr>)"
        using 1 \<open>a_timer_tree acd1 = _\<close> \<open>a_event_list acd1 = _\<close>
        by (intro inv_delete_probe [where pr = "pr1\<lparr>p_linked := False\<rparr>"]) auto
      moreover have "dom (a_probes acd2) = dom (a_probes acd)"
        using 1(2) \<open>frame ?a acd1\<close> by (simp add: frame_def)
      ultimately show ?case by (simp add: assms(4))
    qed
  qed
qed

lemma inv_new_probe:
  assumes "acd_inv acd" "probe_ok pr" "\<not> p_linked pr" "p = a_next_id acd"
  shows "acd_inv (acd\<lparr>a_calls := k, a_next_id := p + 1, a_n_refs := a_n_refs acd + 1,
    a_probes := (a_probes acd)(p \<mapsto> pr)\<rparr>)"
proof -
  let ?P = "(a_probes acd)(p \<mapsto> pr)" and ?xs = "inorder (a_ip_tree acd)"
  have none: "a_probes acd p = None" using assms(1,4) by (cases "a_probes acd p") (auto simp: acd_inv_def)
  have s: "set ?xs = {q. \<exists>pr. a_probes acd q = Some pr \<and> p_linked pr}"
    using assms(1) by (simp only: acd_inv_def tree_ok_def)
  then have p: "p \<notin> set ?xs" using none by auto
  then have m: "map (ipf ?P) ?xs = map (ipf (a_probes acd)) ?xs" by (intro map_cong refl ipf_other) auto
  have i: "(\<lambda>q. ntohl (ipf ?P q)) ` set ?xs = (\<lambda>q. ntohl (ipf (a_probes acd) q)) ` set ?xs"
    using p by (intro image_cong refl arg_cong [where f = ntohl] ipf_other) auto
  have "{q. \<exists>pr. ?P q = Some pr \<and> p_linked pr} = set ?xs" unfolding s using none assms(3) by auto
  then have "tree_ok ?P (a_ip_tree acd)" using assms(1) by (simp only: acd_inv_def tree_ok_def m simp_thms)
  moreover have "bpf_ok ?P (a_ip_tree acd) (a_bpf_map acd) (a_n_bpf_map acd) (a_max_bpf_map acd)"
    using inv_bpf [OF assms(1)] unfolding bpf_ok_def i .
  moreover have "timers_ok ?P (a_timer_tree acd)"
    using inv_timers [OF assms(1)] none by (intro timers_ok_other) (auto simp: timers_ok_def)
  moreover have "card (dom ?P) + 1 = a_n_refs acd + 1"
    using assms(1) none finite_probes [OF assms(1)] by (simp add: acd_inv_def domIff)
  ultimately show ?thesis
    using assms unfolding acd_inv_def by (auto simp: events_ok_def less_Suc_eq)
qed

lemma mult_bound:
  assumes "m < 2 ^ 32" "unat k < 2 ^ 30"
  shows "m * k < (2 ^ 62 :: u64)" "0 < m \<Longrightarrow> 0 < k \<Longrightarrow> 0 < m * k"
proof -
  have m: "unat m < 2 ^ 32" using assms(1) by (simp add: word_less_nat_alt)
  have "unat m * unat k < 2 ^ 32 * 2 ^ 30" using m assms(2) by (intro mult_strict_mono) simp_all
  then have u: "unat (m * k) = unat m * unat k" "unat m * unat k < 2 ^ 62" by (simp_all add: unat_word_ariths)
  then show "m * k < 2 ^ 62" by (simp add: word_less_nat_alt)
  show "0 < m \<Longrightarrow> 0 < k \<Longrightarrow> 0 < m * k" using u by (simp add: word_less_nat_alt)
qed

lemma wp_probe_new:
  assumes "good_os os" "acd_inv acd" "T < 2 ^ 32"
    "\<And>r po acd'. acd_inv acd' \<Longrightarrow>
       (case po of None \<Rightarrow> r \<noteq> 0 \<and> dom (a_probes acd') = dom (a_probes acd)
        | Some p \<Rightarrow> r = 0 \<and> p \<notin> dom (a_probes acd) \<and> dom (a_probes acd') = insert p (dom (a_probes acd)))
       \<Longrightarrow> Q (r, po, acd')"
  shows "wp (n_acd_probe_new os acd a T) Q"
proof -
  let ?p = "a_next_id acd"
  let ?pr = "N_ACD_PROBE_NULL\<lparr>p_ip := a, p_timeout_multiplier := T\<rparr>"
  let ?a = "acd\<lparr>a_calls := a_calls acd + 1, a_next_id := ?p + 1, a_n_refs := a_n_refs acd + 1,
    a_probes := (a_probes acd)(?p \<mapsto> ?pr)\<rparr>"
  have none: "?p \<notin> dom (a_probes acd)" using assms(2) by (auto simp: acd_inv_def)
  have e: "Q (N_ACD_E_INVALID_ARGUMENT, None, acd)" "Q (- ENOMEM, None, tick acd)"
    using assms(2) by (auto intro: assms(4))
  have ok: "probe_ok ?pr" using assms(3) by (simp add: probe_ok_def N_ACD_PROBE_NULL_def)
  have i: "acd_inv ?a" using assms(2) ok by (intro inv_new_probe) (simp_all add: N_ACD_PROBE_NULL_def)
  have da: "dom (a_probes ?a) = insert ?p (dom (a_probes acd))" by simp
  have "wp (Option.bind (n_acd_probe_link os ?a ?p) (\<lambda>(r, acd2).
      if r \<noteq> 0 then do { acd3 \<leftarrow> n_acd_probe_free os acd2 ?p; Some (r, None, acd3) }
      else do {
        acd3 \<leftarrow> (if T \<noteq> 0 then n_acd_probe_schedule os (upd_probe ?p (p_n_iteration_update (\<lambda>_. 0)) acd2) ?p 0
                       (ucast (T * N_ACD_RFC_PROBE_WAIT_NSEC))
                else n_acd_probe_schedule os (upd_probe ?p (p_n_iteration_update (\<lambda>_. N_ACD_RFC_PROBE_NUM)) acd2) ?p 0 0);
        Some (0, Some ?p, acd3) })) Q"
    unfolding wp_bind
  proof (rule wp_probe_link [OF assms(1) i, of ?p ?pr], goal_cases)
    case (4 r acd2)
    then have d2: "dom (a_probes acd2) = insert ?p (dom (a_probes acd))" by (simp add: frame_def)
    show ?case
    proof (cases "r = 0")
      case False
      have "wp (n_acd_probe_free os acd2 ?p) (\<lambda>acd3. Q (r, None, acd3))"
        using d2 none by (intro wp_probe_free [OF assms(1) 4(1)] assms(4)) (auto simp: False)
      with False show ?thesis by simp
    next
      case True
      let ?n = "if T \<noteq> 0 then 0 else 3 :: u32"
      let ?pr2 = "?pr\<lparr>p_linked := True\<rparr>"
      let ?b = "upd_probe ?p (p_n_iteration_update (\<lambda>_. ?n)) acd2"
      have p2: "a_probes acd2 ?p = Some ?pr2" using 4 True by simp
      have "acd_inv ?b"
        using 4(1) p2 inv_probe [OF 4(1) p2] inv_timers [OF 4(1)] 
        by (intro inv_upd_probe [OF 4(1) p2]) (auto simp: probe_ok_def timed_def timers_ok_def N_ACD_PROBE_NULL_def)
      moreover have "wp (n_acd_probe_schedule os ?b ?p 0 j) (\<lambda>acd3. Q (0, Some ?p, acd3))" if "acd_inv ?b" for j
      proof (rule wp_probe_schedule [OF assms(1) that, of ?p "?pr2\<lparr>p_n_iteration := ?n\<rparr>"], goal_cases)
        case (4 acd3 t)
        then have "dom (a_probes acd3) = insert ?p (dom (a_probes acd))" using d2 by (simp add: frame_def)
        with 4 none show ?case by (intro assms(4)) auto
      qed (use p2 in \<open>auto simp: timed_def N_ACD_PROBE_NULL_def\<close>)
      ultimately show ?thesis using True by (cases "T = 0") simp_all
    qed
  qed (simp_all add: N_ACD_PROBE_NULL_def)
  then show ?thesis using e by (simp add: n_acd_probe_new_def Let_def tick_def)
qed


section \<open>Timeouts\<close>

text \<open>The number of timeouts that are due.\<close>

definition due :: "u64 \<Rightarrow> (u64 \<times> nat) list \<Rightarrow> nat" where
  "due now xs = length (filter (\<lambda>(t, _). t \<le> now) xs)"

lemma due_insert_later: "now < t \<Longrightarrow> due now (timer_insert t p xs) = due now xs"
  by (induction xs) (auto simp: due_def timer_insert_Cons timer_insert_def)

lemma due_remove: "due now (timer_remove p xs) \<le> due now xs"
  by (induction xs) (auto simp: due_def timer_remove_def)

lemma later:
  assumes "good_os os" "\<forall>n\<ge>a_calls acd. now \<le> os_now os n" "a_calls acd \<le> k" "os_now os k < t"
  shows "now < t"
  using assms by (meson le_less_trans)

lemma wp_announce:
  assumes "good_os os" "acd_inv acd" "p \<in> dom (a_probes acd)"
    "\<And>r acd'. acd_inv acd' \<Longrightarrow> frame acd acd' \<Longrightarrow> Q (r, acd')"
  shows "wp (n_acd_probe_announce os acd p d) Q"
proof -
  obtain pr where pr: "a_probes acd p = Some pr" using assms(3) by auto
  let ?f = "\<lambda>pr. pr\<lparr>p_state := N_ACD_PROBE_STATE_ANNOUNCING, p_defend := d, p_n_iteration := 0\<rparr>"
  let ?a = "upd_probe p ?f acd"
  have i: "acd_inv ?a"
    using inv_probe [OF assms(2) pr] inv_timers [OF assms(2)] pr
    by (intro inv_upd_probe [OF assms(2) pr]) (auto simp: probe_ok_def timed_def timers_ok_def)
  have "wp (n_acd_probe_schedule os ?a p 0 0) (\<lambda>acd'. Q (0, acd'))"
    by (rule wp_probe_schedule [OF assms(1) i, of p "?f pr"])
       (use pr in \<open>auto simp: timed_def frame_def intro!: assms(4)\<close>)
  moreover have "Q (N_ACD_E_INVALID_ARGUMENT, acd)" using assms(2) by (intro assms(4)) simp_all
  ultimately show ?thesis by (simp add: n_acd_probe_announce_def)
qed

lemma n_iteration_le: "(n :: u32) < 3 \<Longrightarrow> n + 1 \<le> 3"
proof -
  assume "n < 3"
  then have "unat n < 3" by (simp add: word_less_nat_alt)
  then have "unat (n + 1) \<le> 3" by (simp add: unat_word_ariths)
  then show "n + 1 \<le> 3" by (simp add: word_le_nat_alt)
qed

text \<open>
  The timeout of a probe whose entry was just taken from the tree: no new entry is due at once.
\<close>

lemma wp_handle_timeout:
  assumes "good_os os" "acd_inv acd" "a_probes acd p = Some pr" "timed pr"
    "\<forall>n\<ge>a_calls acd. now \<le> os_now os n" "p \<notin> snd ` set (a_timer_tree acd)"
    "\<And>r acd'. acd_inv acd' \<Longrightarrow> frame acd acd' \<Longrightarrow> due now (a_timer_tree acd') \<le> due now (a_timer_tree acd) \<Longrightarrow>
       Q (r, acd')"
  shows "wp (n_acd_probe_handle_timeout os acd p) Q"
proof -
  have quiet: "Q (r, acd')" if "quiet acd acd'" for r acd'
    using assms(2) quietD [OF that] by (intro assms(7)) simp_all
  have sched: "wp (n_acd_probe_schedule os (upd_probe p (p_n_iteration_update (\<lambda>_. n)) acd1) p d j) (\<lambda>acd3. Q (0, acd3))"
    if q: "quiet acd acd1" and t: "timed (pr\<lparr>p_n_iteration := n\<rparr>)" "probe_ok (pr\<lparr>p_n_iteration := n\<rparr>)"
      and d: "0 < d" "d < 2 ^ 62" for acd1 n d j
  proof -
    have i1: "acd_inv acd1" and p1: "a_probes acd1 p = Some pr" using quietD [OF q] assms(2,3) by simp_all
    let ?a = "upd_probe p (p_n_iteration_update (\<lambda>_. n)) acd1"
    have i: "acd_inv ?a" using t assms(6) quietD(2) [OF q] by (intro inv_upd_probe [OF i1 p1]) simp_all
    show ?thesis
    proof (rule wp_probe_schedule [OF assms(1) i, of p "pr\<lparr>p_n_iteration := n\<rparr>"], goal_cases)
      case (4 acd3 t)
      have "a_calls acd \<le> a_calls ?a" using quietD(5) [OF q] by simp
      then have "now < t" using 4(4) d(1) assms(1,5) by (intro later [of os acd now "a_calls ?a"]) simp_all
      then have "due now (a_timer_tree acd3) \<le> due now (a_timer_tree acd)"
        using 4(3) due_remove [of now p "a_timer_tree acd"] quietD(2) [OF q] by (simp add: due_insert_later)
      moreover have "frame acd acd3" using 4(2) quietD(9) [OF q] by (simp add: frame_def)
      ultimately show ?case using 4(1) by (intro assms(7))
    qed (use p1 t d in auto)
  qed
  have ok: "probe_ok pr" by (rule inv_probe [OF assms(2,3)])
  then have m: "p_timeout_multiplier pr < 2 ^ 32" by (simp add: probe_ok_def)
  obtain r1 a1 where s1: "n_acd_send os acd (p_ip pr) None = (r1, a1)" by fastforce
  obtain r2 a2 where s2: "n_acd_send os acd (p_ip pr) (Some (p_ip pr)) = (r2, a2)" by fastforce
  note q1 = quiet_send [OF s1] and q2 = quiet_send [OF s2]
  consider "p_state pr = N_ACD_PROBE_STATE_PROBING" "p_n_iteration pr < 3"
    | "p_state pr = N_ACD_PROBE_STATE_PROBING" "\<not> p_n_iteration pr < 3"
    | "p_state pr = N_ACD_PROBE_STATE_ANNOUNCING"
    using assms(4) by (auto simp: timed_def)
  then show ?thesis
  proof cases
    case 1
    then have mz: "p_timeout_multiplier pr \<noteq> 0" using assms(4) by (auto simp: timed_def)
    then have pos: "0 < p_timeout_multiplier pr" by (simp add: word_gt_0)
    let ?n = "if r1 = 0 then p_n_iteration pr + 1 else p_n_iteration pr"
    have "timed (pr\<lparr>p_n_iteration := ?n\<rparr>)" "probe_ok (pr\<lparr>p_n_iteration := ?n\<rparr>)"
      using ok 1 mz n_iteration_le [OF 1(2)] by (auto simp: timed_def probe_ok_def)
    note sch = sched [OF q1 this]
    have "wp (n_acd_probe_schedule os (upd_probe p (p_n_iteration_update (\<lambda>_. ?n)) a1) p
        (p_timeout_multiplier pr * k) j) (\<lambda>acd3. Q (0, acd3))" if "k = 111111 \<or> k = 222222" for k j
      using that mult_bound [OF m, of k] pos by (intro sch) auto
    then show ?thesis
      using 1 assms(3) quiet [OF q1]
      by (cases "r1 = 0") (simp_all add: n_acd_probe_handle_timeout_def s1 Let_def)
  next
    case 2
    have "wp (n_acd_probe_raise os acd p N_ACD_EVENT_READY) (\<lambda>(r, acd1).
      wp (if r \<noteq> 0 then Some (r, acd1)
         else Some (0, upd_probe p (p_state_update (\<lambda>_. N_ACD_PROBE_STATE_CONFIGURING)) acd1)) Q)"
    proof (rule wp_probe_raise, goal_cases)
      case (3 r acd1)
      let ?f = "p_state_update (\<lambda>_. N_ACD_PROBE_STATE_CONFIGURING)"
      have "acd_inv (upd_probe p ?f acd1)"
        using quietD [OF 3(1)] assms(2,3,6) ok
        by (intro inv_upd_probe [where pr = pr]) (auto simp: probe_ok_def)
      then have "Q (0, upd_probe p ?f acd1)" using quietD [OF 3(1)] by (intro assms(7)) simp_all
      with quiet [OF 3(1)] show ?case by simp
    qed (use assms(3) in auto)
    with 2 assms(3) show ?thesis by (simp add: n_acd_probe_handle_timeout_def)
  next
    case 3
    let ?n = "if r2 = 0 then p_n_iteration pr + 1 else p_n_iteration pr"
    have "timed (pr\<lparr>p_n_iteration := ?n\<rparr>)" "probe_ok (pr\<lparr>p_n_iteration := ?n\<rparr>)"
      using ok 3 by (auto simp: timed_def probe_ok_def)
    note sch = sched [OF q2 this]
    have "acd_inv (upd_probe p (p_n_iteration_update (\<lambda>_. ?n)) a2)"
      using quietD [OF q2] assms(2,3,6) ok 3
      by (intro inv_upd_probe [where pr = pr]) (auto simp: probe_ok_def)
    then have "Q (0, upd_probe p (p_n_iteration_update (\<lambda>_. ?n)) a2)"
      using quietD [OF q2] by (intro assms(7)) simp_all
    moreover have "wp (n_acd_probe_schedule os (upd_probe p (p_n_iteration_update (\<lambda>_. ?n)) a2) p 1999998000 0)
        (\<lambda>acd3. Q (0, acd3))"
      by (rule sch) simp_all
    ultimately show ?thesis
      using 3 assms(3) quiet [OF q2]
      by (cases "r2 = 0") (simp_all add: n_acd_probe_handle_timeout_def s2 Let_def)
  qed
qed


text \<open>
  The loop over the timeouts ends: every round takes away one that is due.
\<close>

lemma wp_timeout_loop:
  assumes "good_os os"
    "\<And>r acd'. acd_inv acd' \<Longrightarrow> frame acd0 acd' \<Longrightarrow> Q (r, acd')"
  shows "acd_inv acd \<Longrightarrow> frame acd0 acd \<Longrightarrow> \<forall>n\<ge>a_calls acd. now \<le> os_now os n \<Longrightarrow> wp (timeout_loop os now acd) Q"
proof (induction "due now (a_timer_tree acd)" arbitrary: acd rule: less_induct)
  case less
  show ?case
  proof (cases "a_timer_tree acd = [] \<or> \<not> fst (hd (a_timer_tree acd)) \<le> now")
    case True
    then have "timer_pop_timeout acd now = (None, acd)"
      by (cases "a_timer_tree acd") (auto simp: timer_pop_timeout_def)
    moreover have "wp (timer_rearm os acd) (\<lambda>acd2. Q (0, acd2))"
      using less.prems by (intro wp_rearm [OF assms(1) inv_timers [OF less.prems(1)]] assms(2)) simp_all
    ultimately show ?thesis by (subst timeout_loop.simps) simp
  next
    case False
    then obtain t p rest where tr: "a_timer_tree acd = (t, p) # rest" "t \<le> now"
      by (cases "a_timer_tree acd") auto
    obtain pr where pr: "a_probes acd p = Some pr" "timed pr" and np: "p \<notin> snd ` set rest"
      using inv_timers [OF less.prems(1)] tr by (auto simp: timers_ok_def)
    let ?a = "upd_probe p (p_timeout_update (\<lambda>_. 0)) (acd\<lparr>a_timer_tree := rest\<rparr>)"
    have pop: "timer_pop_timeout acd now = (Some p, ?a)" by (simp add: timer_pop_timeout_def tr)
    have "acd_inv (acd\<lparr>a_timer_tree := rest\<rparr>)"
      using less.prems(1) by (simp add: acd_inv_def timers_ok_def tr)
    then have i: "acd_inv ?a"
      using inv_probe [OF less.prems(1) pr(1)] np pr
      by (intro inv_upd_probe [where pr = pr]) (simp_all add: probe_ok_def)
    have d: "due now (a_timer_tree ?a) < due now (a_timer_tree acd)" by (simp add: tr due_def)
    have "wp (n_acd_probe_handle_timeout os ?a p)
        (\<lambda>(r, acd2). wp (if r \<noteq> 0 then Some (r, acd2) else timeout_loop os now acd2) Q)"
    proof (rule wp_handle_timeout [OF assms(1) i, of p "pr\<lparr>p_timeout := 0\<rparr>" now], goal_cases)
      case (5 r acd2)
      have f: "frame acd0 acd2" using less.prems(2) 5(2) by (simp add: frame_def)
      have "wp (timeout_loop os now acd2) Q"
        using less.prems(3) 5 d f by (intro less.hyps) (simp_all add: frame_def)
      with assms(2) [OF 5(1) f] show ?case by simp
    qed (use pr np less.prems(3) in simp_all)
    then show ?thesis by (subst timeout_loop.simps) (simp add: pop)
  qed
qed

lemma wp_handle_timeouts:
  assumes "good_os os" "acd_inv acd" "\<And>r acd'. acd_inv acd' \<Longrightarrow> frame acd acd' \<Longrightarrow> Q (r, acd')"
  shows "wp (n_acd_handle_timeout os acd) Q"
proof -
  have "\<forall>n\<ge>a_calls (tick acd). os_now os (a_calls acd) \<le> os_now os n"
    using assms(1) by (simp add: good_os_def)
  then have "wp (timeout_loop os (os_now os (a_calls acd)) (tick acd)) Q"
    using assms(2,3) by (intro wp_timeout_loop [OF assms(1), of acd]) simp_all
  then show ?thesis by (simp add: n_acd_handle_timeout_def timer_now_ok [OF assms(1)])
qed

section \<open>Packets\<close>

lemma wp_probe_fail:
  assumes "good_os os" "acd_inv acd" "a_probes acd p = Some pr" "e \<noteq> N_ACD_EVENT_DOWN"
    "\<And>r acd'. acd_inv acd' \<Longrightarrow> frame acd acd' \<Longrightarrow> Q (r, acd')"
  shows "wp (probe_fail os acd p e sender) Q"
  unfolding probe_fail_def wp_bind
proof (rule wp_probe_raise, goal_cases)
  case (3 r acd1)
  note q = quietD [OF 3(1)]
  show ?case
  proof (cases "r = 0")
    case False
    with q assms(2) show ?thesis by (simp add: assms(5))
  next
    case True
    let ?a = "upd_last (ev_sender_update (\<lambda>_. sender)) acd1"
    have "quiet acd1 ?a" using 3(2) True q assms(3) by (intro quiet_upd_last [of _ p]) auto
    then have qa: "quiet acd ?a" by (rule quiet_trans [OF 3(1)])
    have ia: "acd_inv ?a" and pa: "a_probes ?a p = Some pr" using quietD [OF qa] assms(2,3) by simp_all
    have "wp (timeout_unschedule os ?a p) (\<lambda>acd2. wp (n_acd_probe_unlink os acd2 p)
        (\<lambda>acd3. Q (0, upd_probe p (p_state_update (\<lambda>_. N_ACD_PROBE_STATE_FAILED)) acd3)))"
    proof (rule wp_unschedule [OF assms(1) ia pa], goal_cases)
      case (1 acd2 pr2)
      show ?case
      proof (rule wp_probe_unlink [OF assms(1) 1(1,4)], goal_cases)
        case (1 acd3)
        let ?f = "p_state_update (\<lambda>_. N_ACD_PROBE_STATE_FAILED)"
        have np: "p \<notin> snd ` set (a_timer_tree acd3)" using 1(3) \<open>a_timer_tree acd2 = _\<close> by auto
        have "acd_inv (upd_probe p ?f acd3)"
          using 1(5) np inv_probe [OF 1(1), of p]
          by (intro inv_upd_probe [OF 1(1), of p "pr2\<lparr>p_linked := False\<rparr>"]) (auto simp: probe_ok_def)
        moreover have "frame acd (upd_probe p ?f acd3)"
          using quietD(9) [OF qa] \<open>frame ?a acd2\<close> 1(2) by (simp add: frame_def)
        ultimately show ?case by (rule assms(5))
      qed
    qed
    with True show ?thesis by simp
  qed
qed (use assms in auto)

lemma wp_probe_defended:
  assumes "acd_inv acd" "p \<in> dom (a_probes acd)" "\<And>r acd'. acd_inv acd' \<Longrightarrow> frame acd acd' \<Longrightarrow> Q (r, acd')"
  shows "wp (probe_defended os acd p sender) Q"
  unfolding probe_defended_def wp_bind
proof (rule wp_probe_raise, goal_cases)
  case (3 r acd1)
  note q = quietD [OF 3(1)]
  show ?case
  proof (cases "r = 0")
    case False
    with q assms(1) show ?thesis by (simp add: assms(3))
  next
    case True
    have "quiet acd1 (upd_last (ev_sender_update (\<lambda>_. sender)) acd1)"
      using 3(2) True q assms(2) by (intro quiet_upd_last [of _ p]) auto
    from quietD [OF quiet_trans [OF 3(1) this]] True assms(1) show ?thesis by (simp add: assms(3))
  qed
qed (use assms in auto)

lemma wp_probe_defend:
  assumes "good_os os" "acd_inv acd" "a_probes acd p = Some pr"
    "\<And>r acd'. acd_inv acd' \<Longrightarrow> frame acd acd' \<Longrightarrow> Q (r, acd')"
  shows "wp (probe_defend os acd p pr now sender) Q"
proof -
  obtain r a where s: "n_acd_send os acd (p_ip pr) (Some (p_ip pr)) = (r, a)" by fastforce
  note q = quietD [OF quiet_send [OF s]]
  have Qa: "Q (x, a)" for x using q assms(2) by (intro assms(4)) simp_all
  have tr: "Q (x, acd')" if "acd_inv acd'" "frame a acd'" for x acd'
    using that q(9) by (intro assms(4)) (auto simp: frame_def)
  have ia: "acd_inv a" and pa: "a_probes a p = Some pr" using q assms(2,3) by simp_all
  let ?f = "p_last_defend_update (\<lambda>_. now)"
  have iu: "acd_inv (upd_probe p ?f a)"
    using inv_probe [OF ia pa] inv_timers [OF ia] pa
    by (intro inv_upd_probe [OF ia pa]) (auto simp: probe_ok_def timers_ok_def)
  have f1: "wp (probe_fail os acd p N_ACD_EVENT_CONFLICT sender) Q"
    by (rule wp_probe_fail [OF assms(1-3)]) (use assms(4) in auto)
  have f2: "wp (probe_fail os a p N_ACD_EVENT_CONFLICT sender) Q"
    by (rule wp_probe_fail [OF assms(1) ia pa]) (use tr in auto)
  have d1: "wp (probe_defended os acd p sender) Q"
    by (rule wp_probe_defended [OF assms(2)]) (use assms(3,4) in auto)
  have d2: "wp (probe_defended os a p sender) Q"
    by (rule wp_probe_defended [OF ia]) (use pa tr in auto)
  have d3: "wp (probe_defended os (upd_probe p ?f a) p sender) Q"
    by (rule wp_probe_defended [OF iu]) (use pa in \<open>auto intro!: tr simp: frame_def\<close>)
  have z: "Q (0, acd)" using assms(2) by (intro assms(4)) simp_all
  show ?thesis using f1 f2 d1 d2 d3 Qa z by (simp add: probe_defend_def s Let_def)
qed

lemma wp_probe_handle_packet:
  assumes "good_os os" "acd_inv acd" "a_probes acd p = Some pr" "p_linked pr"
    "\<And>r acd'. acd_inv acd' \<Longrightarrow> frame acd acd' \<Longrightarrow> Q (r, acd')"
  shows "wp (n_acd_probe_handle_packet os acd p packet hard) Q"
proof -
  have it: "acd_inv (tick acd)" and pt: "a_probes (tick acd) p = Some pr" using assms(2,3) by simp_all
  have tr: "Q (x, acd')" if "acd_inv acd'" "frame (tick acd) acd'" for x acd'
    using that by (intro assms(5)) (auto simp: frame_def)
  have "wp (probe_fail os (tick acd) p N_ACD_EVENT_USED (arp_sha packet)) Q"
    by (rule wp_probe_fail [OF assms(1) it pt]) (use tr in auto)
  moreover have "wp (probe_defend os (tick acd) p pr now (arp_sha packet)) Q" for now
    by (rule wp_probe_defend [OF assms(1) it pt]) (use tr in auto)
  moreover have "Q (0, tick acd)" using it by (intro tr) simp_all
  moreover have "p_state pr \<noteq> N_ACD_PROBE_STATE_FAILED"
    using inv_probe [OF assms(2,3)] assms(4) by (auto simp: probe_ok_def)
  ultimately show ?thesis
    using assms(3) by (cases "p_state pr") (simp_all add: n_acd_probe_handle_packet_def timer_now_ok [OF assms(1)])
qed


text \<open>A packet changes only the probe that handles it.\<close>

lemma rearm_probes: "timer_rearm os acd = Some acd' \<Longrightarrow> a_probes acd' = a_probes acd"
  by (auto simp: timer_rearm_def Let_def split: if_splits)

lemma unschedule_others: "timeout_unschedule os acd p = Some acd' \<Longrightarrow> q \<noteq> p \<Longrightarrow> a_probes acd' q = a_probes acd q"
  by (auto simp: timeout_unschedule_def bind_eq_Some_conv dest: rearm_probes split: if_splits)

lemma unlink_others: "n_acd_probe_unlink os acd p = Some acd' \<Longrightarrow> q \<noteq> p \<Longrightarrow> a_probes acd' q = a_probes acd q"
  by (auto simp: n_acd_probe_unlink_def bind_eq_Some_conv tree_unlink_def split: if_splits prod.splits)

lemma probe_raise_probes: "n_acd_probe_raise os acd p e = Some (r, acd') \<Longrightarrow> a_probes acd' = a_probes acd"
  by (auto simp: n_acd_probe_raise_def upd_last_def split: prod.splits if_splits dest!: quiet_raise quietD(1))

lemma probe_fail_others:
  "probe_fail os acd p e sender = Some (r, acd') \<Longrightarrow> q \<noteq> p \<Longrightarrow> a_probes acd' q = a_probes acd q"
  by (auto simp: probe_fail_def bind_eq_Some_conv upd_last_def split: if_splits
      dest!: probe_raise_probes unschedule_others [of _ _ p] unlink_others [of _ _ p])

lemma probe_defended_probes: "probe_defended os acd p sender = Some (r, acd') \<Longrightarrow> a_probes acd' = a_probes acd"
  by (auto simp: probe_defended_def bind_eq_Some_conv upd_last_def split: if_splits dest!: probe_raise_probes)

lemma probe_defend_others:
  "probe_defend os acd p pr now sender = Some (r, acd') \<Longrightarrow> q \<noteq> p \<Longrightarrow> a_probes acd' q = a_probes acd q"
  by (auto simp: probe_defend_def Let_def split: if_splits prod.splits
      dest!: probe_fail_others [of _ _ p] probe_defended_probes quiet_send quietD(1))

lemma handle_packet_others:
  "n_acd_probe_handle_packet os acd p packet hard = Some (r, acd') \<Longrightarrow> q \<noteq> p \<Longrightarrow> a_probes acd' q = a_probes acd q"
  by (auto simp: n_acd_probe_handle_packet_def timer_now_def bind_eq_Some_conv
      split: if_splits prod.splits probe_state.splits dest!: probe_fail_others [of _ _ p] probe_defend_others [of _ _ p])

lemma wp_packet_loop:
  assumes "good_os os" "\<And>r acd'. acd_inv acd' \<Longrightarrow> frame acd0 acd' \<Longrightarrow> Q (r, acd')"
  shows "acd_inv acd \<Longrightarrow> frame acd0 acd \<Longrightarrow> distinct qs \<Longrightarrow>
    \<forall>q\<in>set qs. \<exists>pr. a_probes acd q = Some pr \<and> p_linked pr \<Longrightarrow> wp (packet_loop os acd packet hard a qs) Q"
proof (induction qs arbitrary: acd)
  case (Cons p qs)
  obtain pr where pr: "a_probes acd p = Some pr" "p_linked pr" using Cons.prems(4) by auto
  have "wp (n_acd_probe_handle_packet os acd p packet hard) (\<lambda>(r, acd1). acd_inv acd1 \<and> frame acd acd1)"
    by (rule wp_probe_handle_packet [OF assms(1) Cons.prems(1) pr]) simp
  then obtain r acd1 where h: "n_acd_probe_handle_packet os acd p packet hard = Some (r, acd1)"
    and i: "acd_inv acd1" and f: "frame acd acd1"
    by (auto simp: wp_Some_iff)
  have f0: "frame acd0 acd1" using Cons.prems(2) f by (rule frame_trans)
  have "p \<in> dom (a_probes acd1)" using f pr(1) by (auto simp: frame_def)
  then obtain pr1 where p1: "a_probes acd1 p = Some pr1" by auto
  have "wp (packet_loop os acd1 packet hard a qs) Q"
  proof (rule Cons.IH [OF i f0])
    show "\<forall>q\<in>set qs. \<exists>pr. a_probes acd1 q = Some pr \<and> p_linked pr"
    proof
      fix q assume q: "q \<in> set qs"
      then have "a_probes acd1 q = a_probes acd q" using Cons.prems(3) by (intro handle_packet_others [OF h]) auto
      with q Cons.prems(4) show "\<exists>pr. a_probes acd1 q = Some pr \<and> p_linked pr" by simp
    qed
  qed (use Cons.prems(3) in simp)
  with assms(2) [OF i f0] p1 show ?case by (simp add: h)
qed (use assms(2) in simp)

lemma wp_handle_packet:
  assumes "good_os os" "acd_inv acd" "\<And>r acd'. acd_inv acd' \<Longrightarrow> frame acd acd' \<Longrightarrow> Q (r, acd')"
  shows "wp (n_acd_handle_packet os acd packet) Q"
proof -
  let ?xs = "inorder (a_ip_tree acd)"
  have d: "distinct ?xs" and l: "\<forall>q\<in>set ?xs. \<exists>pr. a_probes acd q = Some pr \<and> p_linked pr"
    using assms(2) by (auto simp: acd_inv_def tree_ok_def)
  have "wp (packet_loop os acd packet hard a (dropWhile (\<lambda>q. q \<noteq> p) ?xs)) Q" for hard a p
    using d l assms(2,3) by (intro wp_packet_loop [OF assms(1)]) (auto dest: set_dropWhileD)
  moreover have "Q (r, acd)" for r using assms(2) by (intro assms(3)) simp_all
  ultimately show ?thesis
    unfolding n_acd_handle_packet_def Let_def by (simp split: option.split)
qed

lemma wp_handle_packets:
  assumes "good_os os" "\<And>r acd'. acd_inv acd' \<Longrightarrow> frame acd0 acd' \<Longrightarrow> Q (r, acd')"
  shows "acd_inv acd \<Longrightarrow> frame acd0 acd \<Longrightarrow> wp (handle_packets os acd ps) Q"
proof (induction ps arbitrary: acd)
  case (Cons p ps)
  have "wp (n_acd_handle_packet os acd p) (\<lambda>(r, acd1). wp (if r \<noteq> 0 then Some (r, acd1) else handle_packets os acd1 ps) Q)"
    using Cons by (intro wp_handle_packet [OF assms(1)]) (auto intro: assms(2) frame_trans)
  with Cons show ?case by simp
qed (use assms(2) in simp)

section \<open>Dispatching\<close>

lemma wp_dispatch_events:
  assumes "good_os os" "\<And>r acd'. acd_inv acd' \<Longrightarrow> frame acd0 acd' \<Longrightarrow> Q (r, acd')"
  shows "acd_inv acd \<Longrightarrow> frame acd0 acd \<Longrightarrow> wp (dispatch_events os acd es) Q"
proof (induction es arbitrary: acd)
  case (Cons e es)
  define P where "P = (\<lambda>(r, acd1). wp (if r \<noteq> 0 then Some (r, acd1) else dispatch_events os acd1 es) Q)"
  have P: "P (r, acd1)" if "acd_inv acd1" "frame acd acd1" for r acd1
    using that Cons by (auto simp: P_def intro: assms(2) frame_trans)
  have timer: "wp (n_acd_dispatch_timer os acd hup inp ans) P" for hup inp ans
  proof -
    have "wp (n_acd_handle_timeout os (acd\<lparr>a_armed := 0\<rparr>)) P" "wp (n_acd_handle_timeout os acd) P"
      using Cons.prems by (intro wp_handle_timeouts [OF assms(1)] P; simp add: frame_def)+
    with P [OF Cons.prems(1)] show ?thesis
      by (cases ans) (simp_all add: n_acd_dispatch_timer_def timer_read_def)
  qed
  have socket: "wp (n_acd_dispatch_socket os acd hup ans) P" for hup ans
  proof (cases ans)
    case (Recv_errno e)
    obtain r acd1 where r: "n_acd_raise os acd N_ACD_EVENT_DOWN = (r, acd1)" by fastforce
    from quietD [OF quiet_raise [OF r]] Cons.prems(1) P [OF Cons.prems(1)] P [of acd1 r] r Recv_errno show ?thesis
      by (simp add: n_acd_dispatch_socket_def)
  next
    case (Recv_packets ps)
    have "wp (handle_packets os (if length ps \<ge> 8 then acd\<lparr>a_preempted := True\<rparr> else acd) ps) P"
      using Cons.prems P by (intro wp_handle_packets [OF assms(1), of acd]) simp_all
    with Recv_packets show ?thesis by (simp add: n_acd_dispatch_socket_def)
  qed
  from timer socket have "wp (case e of Epoll_timer hup inp ans \<Rightarrow> n_acd_dispatch_timer os acd hup inp ans
      | Epoll_socket hup ans \<Rightarrow> n_acd_dispatch_socket os acd hup ans) P"
    by (simp split: acd_epoll.split)
  then show ?case by (simp only: dispatch_events.simps wp_bind P_def wp_case_prod)
qed (use assms(2) in simp)

lemma wp_dispatch:
  assumes "good_os os" "acd_inv acd" "\<And>r acd'. acd_inv acd' \<Longrightarrow> frame acd acd' \<Longrightarrow> Q (r, acd')"
  shows "wp (n_acd_dispatch os acd wait) Q"
proof (cases wait)
  case (Inl e)
  then show ?thesis using assms(2,3) by (simp add: n_acd_dispatch_def)
next
  case (Inr es)
  have "wp (dispatch_events os (acd\<lparr>a_preempted := False\<rparr>) es)
    (\<lambda>(r, acd1). Q (if r \<noteq> 0 then r else if a_preempted acd1 then N_ACD_E_PREEMPTED else 0, acd1))"
    using assms(2,3) by (intro wp_dispatch_events [OF assms(1), of acd]) simp_all
  with Inr show ?thesis by (simp add: n_acd_dispatch_def)
qed

lemma events_ok_pop: "events_ok P es \<Longrightarrow> pop_event es = (e, es') \<Longrightarrow> events_ok P es'"
  by (induction es) (auto simp: events_ok_def split: if_splits)

lemma inv_pop_event: "acd_inv acd \<Longrightarrow> n_acd_pop_event acd = (e, acd') \<Longrightarrow> acd_inv acd'"
  by (auto simp: n_acd_pop_event_def acd_inv_def split: prod.splits dest: events_ok_pop)

section \<open>Reachable contexts\<close>

text \<open>
  A client creates a context and calls the operations of its interface in any order, with
  pointers to probes that exist and waiting times of 32 bits.
\<close>

inductive acd_reachable :: "acd_os \<Rightarrow> NAcd \<Rightarrow> bool" for os where
  new: "n_acd_new ifindex ethernet mac n_mac alloc errors = (0, Some acd) \<Longrightarrow> acd_reachable os acd"
| probe: "acd_reachable os acd \<Longrightarrow> T < 2 ^ 32 \<Longrightarrow> n_acd_probe_new os acd a T = Some (r, po, acd') \<Longrightarrow> acd_reachable os acd'"
| userdata: "acd_reachable os acd \<Longrightarrow> acd_reachable os (n_acd_probe_set_userdata acd p u)"
| announce: "acd_reachable os acd \<Longrightarrow> p \<in> dom (a_probes acd) \<Longrightarrow>
    n_acd_probe_announce os acd p d = Some (r, acd') \<Longrightarrow> acd_reachable os acd'"
| free: "acd_reachable os acd \<Longrightarrow> p \<in> dom (a_probes acd) \<Longrightarrow> n_acd_probe_free os acd p = Some acd' \<Longrightarrow>
    acd_reachable os acd'"
| dispatch: "acd_reachable os acd \<Longrightarrow> n_acd_dispatch os acd wait = Some (r, acd') \<Longrightarrow> acd_reachable os acd'"
| pop: "acd_reachable os acd \<Longrightarrow> n_acd_pop_event acd = (e, acd') \<Longrightarrow> acd_reachable os acd'"

lemma inv_new: "n_acd_new ifindex ethernet mac n_mac alloc errors = (r, Some acd) \<Longrightarrow> acd_inv acd"
  by (auto simp: n_acd_new_def acd_inv_def timers_ok_def tree_ok_def bpf_ok_def events_ok_def
      split: if_splits list.splits)

lemma inv_userdata: "acd_inv acd \<Longrightarrow> acd_inv (n_acd_probe_set_userdata acd p u)"
proof (cases "a_probes acd p")
  case None
  then have "n_acd_probe_set_userdata acd p u = acd" by (simp add: n_acd_probe_set_userdata_def upd_probe_def fun_upd_idem)
  then show "acd_inv acd \<Longrightarrow> ?thesis" by simp
next
  case (Some pr)
  then show "acd_inv acd \<Longrightarrow> ?thesis"
    using inv_probe [of acd p pr] inv_timers [of acd] unfolding n_acd_probe_set_userdata_def
    by (intro inv_upd_probe [where pr = pr]) (auto simp: probe_ok_def timers_ok_def)
qed

lemma reachable_inv:
  assumes "good_os os"
  shows "acd_reachable os acd \<Longrightarrow> acd_inv acd"
proof (induction rule: acd_reachable.induct)
  case (probe acd T a r po acd')
  have "wp (n_acd_probe_new os acd a T) (\<lambda>(r, po, acd'). acd_inv acd')"
    by (rule wp_probe_new [OF assms probe.IH probe.hyps(2)]) simp
  with probe show ?case by simp
next
  case (announce acd p d r acd')
  have "wp (n_acd_probe_announce os acd p d) (\<lambda>(r, acd'). acd_inv acd')"
    by (rule wp_announce [OF assms announce.IH announce.hyps(2)]) simp
  with announce show ?case by simp
next
  case (free acd p acd')
  have "wp (n_acd_probe_free os acd p) acd_inv"
    by (rule wp_probe_free [OF assms free.IH free.hyps(2)])
  with free show ?case by simp
next
  case (dispatch acd wait r acd')
  have "wp (n_acd_dispatch os acd wait) (\<lambda>(r, acd'). acd_inv acd')"
    by (rule wp_dispatch [OF assms dispatch.IH]) simp
  with dispatch show ?case by simp
qed (auto intro: inv_new inv_userdata inv_pop_event)


text \<open>An environment in which everything succeeds.\<close>

fun list_tree :: "nat list \<Rightarrow> nat tree" where
  "list_tree [] = Leaf"
| "list_tree (q # qs) = Node Leaf q (list_tree qs)"

lemma inorder_list_tree [simp]: "inorder (list_tree qs) = qs"
  by (induction qs) simp_all

definition os_example :: acd_os where
  "os_example = \<lparr>os_now = (\<lambda>i. 20000000000), os_rand = (\<lambda>i. 7), os_alloc = (\<lambda>i. True),
     os_send = (\<lambda>i. Send_len 28), os_bpf = (\<lambda>i. 0), os_bpf_delete = (\<lambda>i. 0),
     os_gettime = (\<lambda>i. 0), os_settime = (\<lambda>i. 0), rb_balance = (\<lambda>t. t),
     rb_unlink = (\<lambda>p t. list_tree (filter (\<lambda>q. q \<noteq> p) (inorder t)))\<rparr>"

lemma good_os_example: "good_os os_example"
  by (simp add: good_os_def os_example_def word_less_nat_alt)

text \<open>
  C3. In every context a client can reach, the timers, the tree of addresses and the map of the
  packet filter agree with the probes, a probe that waits or failed has no timeout, and a failed
  one is in no tree. Every operation a client calls next (with a timeout below 2^32 milliseconds
  for a new probe) ends, violates no assertion and uses no freed probe, whatever packets arrive and
  whatever the kernel answers, as long as the clock is positive, below 2^62 nanoseconds and does
  not run backwards, and the three calls whose success the code asserts succeed: removing an entry
  of the map, reading the clock and setting the timer.
\<close>

theorem acd_safe:
  assumes "good_os os" and "acd_reachable os acd"
  shows "acd_inv acd
    \<and> (\<forall>a T. T < 2 ^ 32 \<longrightarrow> n_acd_probe_new os acd a T \<noteq> None)
    \<and> (\<forall>p \<in> dom (a_probes acd). n_acd_probe_free os acd p \<noteq> None \<and> (\<forall>d. n_acd_probe_announce os acd p d \<noteq> None))
    \<and> (\<forall>wait. n_acd_dispatch os acd wait \<noteq> None)"
proof -
  have i: "acd_inv acd" by (rule reachable_inv [OF assms])
  have "wp (n_acd_probe_new os acd a T) (\<lambda>_. True)" if "T < 2 ^ 32" for a T
    by (rule wp_probe_new [OF assms(1) i that]) simp
  moreover have "wp (n_acd_probe_free os acd p) (\<lambda>_. True)" if "p \<in> dom (a_probes acd)" for p
    by (rule wp_probe_free [OF assms(1) i that]) simp
  moreover have "wp (n_acd_probe_announce os acd p d) (\<lambda>_. True)" if "p \<in> dom (a_probes acd)" for p d
    by (rule wp_announce [OF assms(1) i that]) simp
  moreover have "wp (n_acd_dispatch os acd wait) (\<lambda>_. True)" for wait
    by (rule wp_dispatch [OF assms(1) i]) simp
  ultimately show ?thesis using i by (auto simp: wp_Some_iff)
qed

theorem acd_safe_witness:
  "\<exists>acd. n_acd_new 2 True [0, 1, 2, 3, 4, 5] 6 True [] = (0, Some acd)
     \<and> n_acd_probe_new os_example acd 0x0100000A 200 \<noteq> None"
proof -
  obtain acd where a: "n_acd_new 2 True [0, 1, 2, 3, 4, 5] 6 True [] = (0, Some acd)"
    by (simp add: n_acd_new_def n_acd_new_ok_def)
  then have "acd_reachable os_example acd" by (rule acd_reachable.new)
  with a acd_safe [OF good_os_example this] show ?thesis by (auto simp: word_less_nat_alt)
qed

end
