(* ===== verification/Acd_Track.thy ===== *)
theory Acd_Track
  imports Acd_Safe
begin

text \<open>
  What a client sees of its probes: each probe that stops probing raises exactly one of the
  events READY and USED, which tells how it ended.
\<close>

section \<open>Operations that raise no event\<close>

text \<open>The state, the data of the client and the address of a probe.\<close>

definition view :: "NAcd \<Rightarrow> nat \<Rightarrow> (probe_state \<times> u32 option \<times> u32) option" where
  "view acd p = map_option (\<lambda>pr. (p_state pr, p_userdata pr, p_ip pr)) (a_probes acd p)"

definition calm :: "NAcd \<Rightarrow> NAcd \<Rightarrow> bool" where
  "calm acd acd' \<longleftrightarrow> a_event_list acd' = a_event_list acd \<and> view acd' = view acd"

lemma calm_refl [simp]: "calm acd acd"
  by (simp add: calm_def)

lemma calm_trans: "calm a b \<Longrightarrow> calm b c \<Longrightarrow> calm a c"
  by (simp add: calm_def)

lemma view_upd_probe:
  "(\<And>pr. p_state (f pr) = p_state pr) \<Longrightarrow> (\<And>pr. p_userdata (f pr) = p_userdata pr) \<Longrightarrow> (\<And>pr. p_ip (f pr) = p_ip pr) \<Longrightarrow> view (upd_probe p f acd) = view acd"
  by (rule ext) (simp add: view_def option.map_comp comp_def)

lemma calm_upd_probe [simp]:
  "(\<And>pr. p_state (f pr) = p_state pr) \<Longrightarrow> (\<And>pr. p_userdata (f pr) = p_userdata pr) \<Longrightarrow> (\<And>pr. p_ip (f pr) = p_ip pr) \<Longrightarrow>
   calm a (upd_probe p f acd) = calm a acd"
  by (simp add: calm_def view_upd_probe)

lemma view_irrelevant [simp]:
  "view (acd\<lparr>a_armed := x1\<rparr>) = view acd" "view (acd\<lparr>a_scheduled_timeout := x2\<rparr>) = view acd"
  "view (acd\<lparr>a_timer_tree := x3\<rparr>) = view acd" "view (acd\<lparr>a_ip_tree := x4\<rparr>) = view acd"
  "view (acd\<lparr>a_bpf_map := x5\<rparr>) = view acd" "view (acd\<lparr>a_n_bpf_map := x6\<rparr>) = view acd"
  "view (acd\<lparr>a_event_list := x7\<rparr>) = view acd" "view (acd\<lparr>a_sent := x8\<rparr>) = view acd"
  "view (acd\<lparr>a_preempted := x9\<rparr>) = view acd" "view (acd\<lparr>a_max_bpf_map := x10\<rparr>) = view acd" "view (tick acd) = view acd"
  by (simp_all add: view_def fun_eq_iff)

lemma calm_irrelevant [simp]:
  "calm a (acd\<lparr>a_armed := x1\<rparr>) = calm a acd" "calm a (acd\<lparr>a_scheduled_timeout := x2\<rparr>) = calm a acd"
  "calm a (acd\<lparr>a_timer_tree := x3\<rparr>) = calm a acd" "calm a (acd\<lparr>a_ip_tree := x4\<rparr>) = calm a acd"
  "calm a (acd\<lparr>a_bpf_map := x5\<rparr>) = calm a acd" "calm a (acd\<lparr>a_n_bpf_map := x6\<rparr>) = calm a acd"
  "calm a (acd\<lparr>a_sent := x7\<rparr>) = calm a acd" "calm a (acd\<lparr>a_preempted := x8\<rparr>) = calm a acd"
  "calm a (acd\<lparr>a_max_bpf_map := x9\<rparr>) = calm a acd" "calm a (tick acd) = calm a acd"
  by (simp_all add: calm_def)

lemma calm_rearm: "timer_rearm os acd = Some acd' \<Longrightarrow> calm acd acd'"
  by (auto simp: timer_rearm_def Let_def split: if_splits)

lemma calm_schedule: "timeout_schedule os acd p t = Some acd' \<Longrightarrow> calm acd acd'"
  by (auto simp: timeout_schedule_def bind_eq_Some_conv Let_def split: if_splits dest!: calm_rearm)
     (auto simp: calm_def view_upd_probe)

lemma calm_unschedule: "timeout_unschedule os acd p = Some acd' \<Longrightarrow> calm acd acd'"
  by (auto simp: timeout_unschedule_def bind_eq_Some_conv split: if_splits dest!: calm_rearm)
     (auto simp: calm_def view_upd_probe)

lemma calm_probe_schedule: "n_acd_probe_schedule os acd p d j = Some acd' \<Longrightarrow> calm acd acd'"
  by (auto simp: n_acd_probe_schedule_def timer_now_def Let_def split: if_splits dest!: calm_schedule)
     (auto simp: calm_def)

lemma calm_unlink: "n_acd_probe_unlink os acd p = Some acd' \<Longrightarrow> calm acd acd'"
  by (auto simp: n_acd_probe_unlink_def bind_eq_Some_conv tree_unlink_def split: if_splits prod.splits)

lemma calm_pop: "timer_pop_timeout acd now = (q, acd') \<Longrightarrow> calm acd acd'"
  by (auto simp: timer_pop_timeout_def split: list.splits if_splits prod.splits)

section \<open>The events of a probe\<close>

text \<open>The events that end the probing of \<open>p\<close>.\<close>

definition ends :: "nat \<Rightarrow> NAcdEventNode list \<Rightarrow> n_acd_event list" where
  "ends p es = map ev_event (filter (\<lambda>e. ev_probe e = Some p \<and> ev_event e \<in> {N_ACD_EVENT_READY, N_ACD_EVENT_USED}) es)"

lemma ends_simps [simp]:
  "ends p [] = []" "ends p (xs @ ys) = ends p xs @ ends p ys"
  "ends p [e] = (if ev_probe e = Some p \<and> ev_event e \<in> {N_ACD_EVENT_READY, N_ACD_EVENT_USED} then [ev_event e] else [])"
  by (simp_all add: ends_def)

text \<open>The steps of a probe, with the events that tell of them.\<close>

definition probe_track :: "probe_state \<Rightarrow> probe_state \<Rightarrow> n_acd_event list \<Rightarrow> bool" where
  "probe_track s s' es \<longleftrightarrow>
     (if s = N_ACD_PROBE_STATE_PROBING then
        s' = N_ACD_PROBE_STATE_PROBING \<and> es = []
        \<or> s' = N_ACD_PROBE_STATE_CONFIGURING \<and> es = [N_ACD_EVENT_READY]
        \<or> s' = N_ACD_PROBE_STATE_FAILED \<and> es = [N_ACD_EVENT_USED]
      else if s = N_ACD_PROBE_STATE_ANNOUNCING
      then es = [] \<and> s' \<in> {N_ACD_PROBE_STATE_ANNOUNCING, N_ACD_PROBE_STATE_FAILED}
      else es = [] \<and> s' = s)"

definition track :: "NAcd \<Rightarrow> NAcd \<Rightarrow> bool" where
  "track acd acd' \<longleftrightarrow>
     (\<exists>new. a_event_list acd' = a_event_list acd @ new \<and> (\<forall>e\<in>set new. \<not> is_public e \<and> (ev_event e = N_ACD_EVENT_DOWN \<or> ev_probe e \<noteq> None))
       \<and> (\<forall>p. case view acd p of
            None \<Rightarrow> view acd' p = None \<and> ends p new = []
          | Some (s, u) \<Rightarrow> \<exists>s'. view acd' p = Some (s', u) \<and> probe_track s s' (ends p new)))"

lemma probe_track_refl [simp]: "probe_track s s []"
  by (auto simp: probe_track_def)

lemma probe_track_trans: "probe_track s s1 es \<Longrightarrow> probe_track s1 s2 es' \<Longrightarrow> probe_track s s2 (es @ es')"
  by (cases s) (auto simp: probe_track_def split: if_splits)

lemma track_trans: "track a b \<Longrightarrow> track b c \<Longrightarrow> track a c"
proof -
  assume "track a b" "track b c"
  then obtain n1 n2 where 1: "a_event_list b = a_event_list a @ n1" "\<forall>e\<in>set n1. \<not> is_public e \<and> (ev_event e = N_ACD_EVENT_DOWN \<or> ev_probe e \<noteq> None)"
    "\<And>p. case view a p of None \<Rightarrow> view b p = None \<and> ends p n1 = []
      | Some (s, u) \<Rightarrow> \<exists>s'. view b p = Some (s', u) \<and> probe_track s s' (ends p n1)"
    and 2: "a_event_list c = a_event_list b @ n2" "\<forall>e\<in>set n2. \<not> is_public e \<and> (ev_event e = N_ACD_EVENT_DOWN \<or> ev_probe e \<noteq> None)"
    "\<And>p. case view b p of None \<Rightarrow> view c p = None \<and> ends p n2 = []
      | Some (s, u) \<Rightarrow> \<exists>s'. view c p = Some (s', u) \<and> probe_track s s' (ends p n2)"
    unfolding track_def by blast
  have "case view a p of None \<Rightarrow> view c p = None \<and> ends p (n1 @ n2) = []
      | Some (s, u) \<Rightarrow> \<exists>s'. view c p = Some (s', u) \<and> probe_track s s' (ends p (n1 @ n2))" for p
    using 1(3) [of p] 2(3) [of p] by (auto split: option.splits dest: probe_track_trans)
  with 1(1,2) 2(1,2) show ?thesis unfolding track_def by (intro exI [of _ "n1 @ n2"]) auto
qed

lemma calm_track: "calm a b \<Longrightarrow> track a b"
  unfolding track_def calm_def by (intro exI [of _ "[]"]) (auto split: option.split)

lemma track_refl [simp]: "track a a"
  by (simp add: calm_track)

lemma track_calm: "track a b \<Longrightarrow> calm b c \<Longrightarrow> track a c"
  by (rule track_trans [OF _ calm_track])

lemma calm_then_track: "calm a b \<Longrightarrow> track b c \<Longrightarrow> track a c"
  by (rule track_trans [OF calm_track])

text \<open>An event that ends no probing.\<close>

lemma track_event:
  assumes "view b = view a" "a_event_list b = a_event_list a @ [e]" "\<not> is_public e"
    "ev_event e \<notin> {N_ACD_EVENT_READY, N_ACD_EVENT_USED}" "ev_event e = N_ACD_EVENT_DOWN \<or> ev_probe e \<noteq> None"
  shows "track a b"
  using assms unfolding track_def by (intro exI [of _ "[e]"]) (auto split: option.split)

lemma track_irrelevant [simp]:
  "track (tick a) b = track a b" "track a (tick b) = track a b" "track a (b\<lparr>a_sent := x\<rparr>) = track a b"
  "track (a\<lparr>a_preempted := y\<rparr>) b = track a b" "track (a\<lparr>a_armed := z\<rparr>) b = track a b"
  unfolding track_def view_irrelevant by simp_all

lemma track_upd_probe [simp]:
  "(\<And>pr. p_state (f pr) = p_state pr) \<Longrightarrow> (\<And>pr. p_userdata (f pr) = p_userdata pr) \<Longrightarrow> (\<And>pr. p_ip (f pr) = p_ip pr) \<Longrightarrow>
   track (upd_probe p f a) b = track a b"
  by (simp add: track_def view_upd_probe)

lemma track_raise: "n_acd_raise os acd N_ACD_EVENT_DOWN = (r, acd') \<Longrightarrow> track acd acd'"
  by (auto simp: n_acd_raise_def Let_def split: if_splits intro: track_event)

lemma track_send: "n_acd_send os acd a s = (r, acd') \<Longrightarrow> track acd acd'"
  by (auto simp: n_acd_send_def Let_def split: if_splits send_answer.splits prod.splits dest!: track_raise)

text \<open>An event that ends the probing of a probe, whose state changes with it.\<close>

lemma track_end:
  assumes "calm b c" "view b = view a" "a_event_list b = a_event_list a @ [e]" "\<not> is_public e" "ev_probe e = Some p"
    "a_probes a p = Some pr" "p_state pr = N_ACD_PROBE_STATE_PROBING"
    "ev_event e = N_ACD_EVENT_READY \<and> s = N_ACD_PROBE_STATE_CONFIGURING
     \<or> ev_event e = N_ACD_EVENT_USED \<and> s = N_ACD_PROBE_STATE_FAILED"
  shows "track a (upd_probe p (p_state_update (\<lambda>_. s)) c)" (is "track a ?d")
proof -
  have v: "view c = view a" "a_event_list c = a_event_list a @ [e]" using assms(1-3) by (simp_all add: calm_def)
  have q: "view ?d q = (if q = p then map_option (\<lambda>(_, u). (s, u)) (view a p) else view a q)" for q
    unfolding v(1) [symmetric] by (simp add: view_def option.map_comp comp_def)
  have p: "view a p = Some (N_ACD_PROBE_STATE_PROBING, p_userdata pr, p_ip pr)" using assms(6,7) by (simp add: view_def)
  show ?thesis
    unfolding track_def
  proof (intro exI [of _ "[e]"] conjI allI, goal_cases)
    case (3 r)
    show ?case
      using assms(5,8) p by (cases "r = p") (auto simp: q probe_track_def split: option.split)
  qed (use v(2) assms(4,5) in simp_all)
qed

lemma probe_raise_Some:
  "n_acd_probe_raise os acd p e = Some (r, acd') \<Longrightarrow>
     r \<noteq> 0 \<and> calm acd acd'
     \<or> r = 0 \<and> view acd' = view acd \<and> e \<noteq> N_ACD_EVENT_DOWN
        \<and> a_event_list acd' = a_event_list acd @ [\<lparr>ev_event = e, ev_probe = Some p, ev_sender = [], is_public = False\<rparr>]"
  by (auto simp: n_acd_probe_raise_def n_acd_raise_def upd_last_def Let_def split: if_splits)

lemma track_probe_fail:
  assumes "probe_fail os acd p e sender = Some (r, acd')" "a_probes acd p = Some pr"
    "p_state pr = N_ACD_PROBE_STATE_PROBING \<and> e = N_ACD_EVENT_USED
     \<or> p_state pr = N_ACD_PROBE_STATE_ANNOUNCING \<and> e = N_ACD_EVENT_CONFLICT"
  shows "track acd acd'"
proof -
  obtain r1 a1 where r1: "n_acd_probe_raise os acd p e = Some (r1, a1)" using assms(1) by (auto simp: probe_fail_def bind_eq_Some_conv)
  show ?thesis
  proof (cases "r1 = 0")
    case False
    then have "acd' = a1" using assms(1) r1 by (simp add: probe_fail_def)
    then show ?thesis using probe_raise_Some [OF r1] False by (auto intro: calm_track)
  next
    case True
    let ?e = "\<lparr>ev_event = e, ev_probe = Some p, ev_sender = sender, is_public = False\<rparr>"
    let ?b = "upd_last (ev_sender_update (\<lambda>_. sender)) a1"
    have b: "view ?b = view acd" "a_event_list ?b = a_event_list acd @ [?e]"
      using probe_raise_Some [OF r1] True by (auto simp: upd_last_def)
    obtain a2 a3 where "timeout_unschedule os ?b p = Some a2" "n_acd_probe_unlink os a2 p = Some a3"
      and d: "acd' = upd_probe p (p_state_update (\<lambda>_. N_ACD_PROBE_STATE_FAILED)) a3"
      using assms(1) r1 True by (auto simp: probe_fail_def bind_eq_Some_conv)
    then have c: "calm ?b a3" by (blast intro: calm_trans calm_unschedule calm_unlink)
    show ?thesis
    proof (cases "p_state pr = N_ACD_PROBE_STATE_PROBING")
      case True
      then show ?thesis using assms(2,3) d by (auto intro: track_end [OF c b])
    next
      case False
      then have "track acd a3" using b c assms(3) by (intro track_calm [OF track_event c]) auto
      moreover have "view a3 p = Some (N_ACD_PROBE_STATE_ANNOUNCING, p_userdata pr, p_ip pr)"
        using b(1) c False assms(2,3) by (simp add: calm_def view_def)
      then have "track a3 acd'"
        unfolding track_def d
        by (intro exI [of _ "[]"]) (auto simp: view_def probe_track_def split: option.split)
      ultimately show ?thesis by (rule track_trans)
    qed
  qed
qed

lemma track_probe_defended:
  assumes "probe_defended os acd p sender = Some (r, acd')"
  shows "track acd acd'"
proof -
  obtain r1 a1 where r1: "n_acd_probe_raise os acd p N_ACD_EVENT_DEFENDED = Some (r1, a1)"
    and *: "acd' = (if r1 \<noteq> 0 then a1 else upd_last (ev_sender_update (\<lambda>_. sender)) a1)"
    using assms by (auto simp: probe_defended_def bind_eq_Some_conv split: if_splits)
  show ?thesis
  proof (cases "r1 = 0")
    case True
    let ?e = "\<lparr>ev_event = N_ACD_EVENT_DEFENDED, ev_probe = Some p, ev_sender = sender, is_public = False\<rparr>"
    have "view acd' = view acd" "a_event_list acd' = a_event_list acd @ [?e]"
      using probe_raise_Some [OF r1] * True by (simp_all add: upd_last_def)
    then show ?thesis by (rule track_event) simp_all
  next
    case False
    then show ?thesis using probe_raise_Some [OF r1] * by (auto intro: calm_track)
  qed
qed

lemma send_probes: "n_acd_send os acd a s = (r, acd') \<Longrightarrow> a_probes acd' = a_probes acd"
  by (rule quietD(1) [OF quiet_send])

lemma track_probe_defend:
  assumes "probe_defend os acd p pr now sender = Some (r, acd')" "a_probes acd p = Some pr"
    "p_state pr = N_ACD_PROBE_STATE_ANNOUNCING"
  shows "track acd acd'"
proof -
  obtain r1 a1 where s: "n_acd_send os acd (p_ip pr) (Some (p_ip pr)) = (r1, a1)" by fastforce
  note t = track_send [OF s]
  have p1: "a_probes a1 p = Some pr" using send_probes [OF s] assms(2) by simp
  have d: "track acd acd'" if "probe_defended os (upd_probe p (p_last_defend_update (\<lambda>_. now)) a1) p sender = Some (r, acd')"
    using track_probe_defended [OF that] by (intro track_trans [OF t]) simp
  have d1: "track acd acd'" if "probe_defended os a1 p sender = Some (r, acd')"
    using track_probe_defended [OF that] by (rule track_trans [OF t])
  let ?l = "now < p_last_defend pr + 10000000000"
  have f: "track acd acd'" if "probe_fail os acd p N_ACD_EVENT_CONFLICT sender = Some (r, acd')"
    using track_probe_fail [OF that assms(2)] assms(3) by blast
  have f1: "track acd acd'" if "probe_fail os a1 p N_ACD_EVENT_CONFLICT sender = Some (r, acd')"
    using track_probe_fail [OF that p1] assms(3) by (blast intro: track_trans [OF t])
  consider "p_defend pr = 0 \<or> p_defend pr = 1 \<and> ?l" | "p_defend pr = 2" ?l | "p_defend pr > 2"
    | "p_defend pr = 1 \<or> p_defend pr = 2" "\<not> ?l" by linarith
  then show ?thesis
  proof cases
    case 1
    then show ?thesis using assms(1) f by (simp add: probe_defend_def Let_def)
  next
    case 2
    then show ?thesis using assms(1) track_probe_defended by (auto simp: probe_defend_def Let_def)
  next
    case 3
    then show ?thesis using assms(1) by (simp add: probe_defend_def Let_def)
  next
    case 4
    then have e: "probe_defend os acd p pr now sender =
        (if r1 \<noteq> 0 \<and> r1 \<noteq> - N_ACD_E_DROPPED then Some (r1, a1)
         else if r1 \<noteq> 0 \<and> p_defend pr = 1 then probe_fail os a1 p N_ACD_EVENT_CONFLICT sender
         else probe_defended os (if r1 \<noteq> - N_ACD_E_DROPPED then upd_probe p (p_last_defend_update (\<lambda>_. now)) a1 else a1) p sender)"
      unfolding probe_defend_def Let_def s by (elim disjE) simp_all
    consider "r1 \<noteq> 0" "r1 \<noteq> - N_ACD_E_DROPPED" | "r1 = 0 \<or> r1 = - N_ACD_E_DROPPED" by blast
    then show ?thesis
    proof cases
      case 1
      then show ?thesis using assms(1) t unfolding e by simp
    next
      case 2
      then show ?thesis using assms(1) f1 d d1 unfolding e by (simp split: if_splits)
    qed
  qed
qed

lemma track_handle_packet1:
  "n_acd_probe_handle_packet os acd p packet hard = Some (r, acd') \<Longrightarrow> track acd acd'"
proof -
  assume h: "n_acd_probe_handle_packet os acd p packet hard = Some (r, acd')"
  then obtain pr where pr: "a_probes (tick acd) p = Some pr" by (auto simp: n_acd_probe_handle_packet_def bind_eq_Some_conv)
  then show "track acd acd'"
    using h track_probe_fail [OF _ pr, of os N_ACD_EVENT_USED "arp_sha packet" r acd']
      track_probe_defend [OF _ pr, of os "os_now os (a_calls acd)" "arp_sha packet" r acd']
    by (cases "p_state pr") (auto simp: n_acd_probe_handle_packet_def timer_now_def split: if_splits)
qed

lemma track_handle_timeout1:
  assumes "n_acd_probe_handle_timeout os acd p = Some (r, acd')"
  shows "track acd acd'"
proof -
  obtain pr where pr: "a_probes acd p = Some pr" using assms by (auto simp: n_acd_probe_handle_timeout_def bind_eq_Some_conv)
  have u: "track acd (upd_probe p (p_n_iteration_update (\<lambda>_. n)) b)" if "n_acd_send os acd a s = (x, b)" for a s x b n
    using track_send [OF that] by (rule track_calm) simp
  have sched: "track acd c" if "n_acd_send os acd a s = (x, b)"
    "n_acd_probe_schedule os (upd_probe p (p_n_iteration_update (\<lambda>_. n)) b) p d j = Some c" for a s x b n d j c
    using u [OF that(1)] calm_probe_schedule [OF that(2)] by (rule track_calm)
  show ?thesis
  proof (cases "p_state pr")
    case N_ACD_PROBE_STATE_PROBING
    show ?thesis
    proof (cases "p_n_iteration pr < 3")
      case True
      then show ?thesis using assms pr N_ACD_PROBE_STATE_PROBING
        by (auto simp: n_acd_probe_handle_timeout_def bind_eq_Some_conv Let_def split: prod.splits if_splits
            intro: track_send sched)
    next
      case False
      then obtain r1 a1 where r1: "n_acd_probe_raise os acd p N_ACD_EVENT_READY = Some (r1, a1)"
        and *: "if r1 \<noteq> 0 then acd' = a1 else acd' = upd_probe p (p_state_update (\<lambda>_. N_ACD_PROBE_STATE_CONFIGURING)) a1"
        using assms pr N_ACD_PROBE_STATE_PROBING
        by (auto simp: n_acd_probe_handle_timeout_def bind_eq_Some_conv split: if_splits)
      show ?thesis
        using probe_raise_Some [OF r1] * pr N_ACD_PROBE_STATE_PROBING
        by (cases "r1 = 0") (auto intro: calm_track track_end [OF calm_refl])
    qed
  next
    case N_ACD_PROBE_STATE_ANNOUNCING
    then show ?thesis using assms pr
      by (auto simp: n_acd_probe_handle_timeout_def bind_eq_Some_conv Let_def split: prod.splits if_splits
          intro: track_send sched u)
  qed (use assms pr in \<open>simp_all add: n_acd_probe_handle_timeout_def\<close>)
qed

section \<open>Dispatching\<close>

lemma track_timeout_loop:
  assumes "timeout_loop os now acd = Some y"
  shows "track acd (snd y)"
proof (rule timeout_loop.raw_induct [OF _ assms, where P = "\<lambda>os now acd y. track acd (snd y)"], goal_cases)
  case (1 timeout_loop os now acd y)
  obtain q acd1 where pop: "timer_pop_timeout acd now = (q, acd1)" by fastforce
  note c = calm_pop [OF pop]
  show ?case
  proof (cases q)
    case None
    then show ?thesis using 1(2) pop c by (auto simp: bind_eq_Some_conv dest!: calm_rearm intro!: calm_track [OF calm_trans])
  next
    case (Some p)
    then obtain r acd2 where h: "n_acd_probe_handle_timeout os acd1 p = Some (r, acd2)"
      and *: "if r \<noteq> 0 then y = (r, acd2) else timeout_loop os now acd2 = Some y"
      using 1(2) pop by (auto simp: bind_eq_Some_conv split: if_splits)
    have t: "track acd acd2" using c track_handle_timeout1 [OF h] by (rule calm_then_track)
    show ?thesis using * t 1(1) [of os now acd2 y] track_trans [OF t] by (cases "r = 0") auto
  qed
qed

lemma track_packet_loop: "packet_loop os acd packet hard a qs = Some (r, acd') \<Longrightarrow> track acd acd'"
proof (induction qs arbitrary: acd)
  case (Cons p qs)
  then show ?case
    by (auto simp: bind_eq_Some_conv split: if_splits intro: track_trans [OF track_handle_packet1] track_handle_packet1)
qed simp

lemma track_handle_packet: "n_acd_handle_packet os acd packet = Some (r, acd') \<Longrightarrow> track acd acd'"
  by (auto simp: n_acd_handle_packet_def Let_def split: if_splits option.splits dest!: track_packet_loop)

lemma track_handle_packets: "handle_packets os acd ps = Some (r, acd') \<Longrightarrow> track acd acd'"
proof (induction ps arbitrary: acd)
  case (Cons p ps)
  then show ?case
    by (auto simp: bind_eq_Some_conv split: if_splits intro: track_trans [OF track_handle_packet] track_handle_packet)
qed simp

lemma track_dispatch_timer: "n_acd_dispatch_timer os acd hup inp ans = Some (r, acd') \<Longrightarrow> track acd acd'"
  by (auto simp: n_acd_dispatch_timer_def timer_read_def n_acd_handle_timeout_def timer_now_def
      split: if_splits timer_answer.splits dest!: track_timeout_loop)

lemma track_dispatch_socket: "n_acd_dispatch_socket os acd hup ans = Some (r, acd') \<Longrightarrow> track acd acd'"
  by (auto simp: n_acd_dispatch_socket_def split: if_splits recv_answer.splits dest!: track_handle_packets track_raise)

lemma track_dispatch_events: "dispatch_events os acd es = Some (r, acd') \<Longrightarrow> track acd acd'"
proof (induction es arbitrary: acd)
  case (Cons e es)
  then show ?case
    by (cases e) (auto simp: bind_eq_Some_conv split: if_splits intro: track_dispatch_timer track_dispatch_socket
        track_trans [OF track_dispatch_timer] track_trans [OF track_dispatch_socket])
qed simp

lemma track_dispatch: "n_acd_dispatch os acd wait = Some (r, acd') \<Longrightarrow> track acd acd'"
  by (auto simp: n_acd_dispatch_def bind_eq_Some_conv split: sum.splits dest!: track_dispatch_events)

end
