(* ===== verification/Acd_Protocol.thy ===== *)
theory Acd_Protocol
  imports Acd_Safe
begin

text \<open>
  The behaviour of the engine on the link: conflicts are detected and answered, a free address is
  ready in time, and two defects of the code.
\<close>

section \<open>The search for an address\<close>

lemma find_top_Leaf:
  "sorted (map k (inorder t)) \<Longrightarrow> find_top k a t = Leaf \<longleftrightarrow> (\<forall>q\<in>set (inorder t). k q \<noteq> a)"
proof (induction t)
  case (Node l q r)
  then have l: "\<forall>x\<in>set (inorder l). k x \<le> k q" and r: "\<forall>x\<in>set (inorder r). k q \<le> k x"
    by (auto simp: sorted_append)
  consider "a < k q" | "a > k q" | "a = k q" by fastforce
  then show ?case
  proof cases
    case 1
    with r have "\<forall>x\<in>set (inorder r). k x \<noteq> a" by fastforce
    with 1 Node show ?thesis by (auto simp: sorted_append)
  next
    case 2
    with l have "\<forall>x\<in>set (inorder l). k x \<noteq> a" by fastforce
    with 2 Node show ?thesis by (auto simp: sorted_append)
  qed simp
qed simp

lemma find_top_Node:
  "find_top k a t = Node l q r \<Longrightarrow> k q = a \<and> set_tree (Node l q r) \<subseteq> set_tree t"
  by (induction t) (auto split: if_splits)

text \<open>An address that only one probe has is found whatever the shape of the tree.\<close>

lemma search_unique:
  assumes "sorted (map k (inorder t))" "p \<in> set (inorder t)" "k p = a"
    "\<And>q. q \<in> set (inorder t) \<Longrightarrow> k q = a \<Longrightarrow> q = p" "distinct (inorder t)"
  shows "left_most k a (find_top k a t) = Some p"
proof (cases "find_top k a t")
  case Leaf
  then show ?thesis using find_top_Leaf [OF assms(1), of a] assms(2,3) by auto
next
  case (Node l q r)
  then have q: "k q = a" "set_tree (Node l q r) \<subseteq> set_tree t" using find_top_Node by metis+
  then have "q = p" using assms(4) [of q] by auto
  show ?thesis
  proof (cases l)
    case (Node l' q' r')
    then have "q' \<in> set (inorder t)" using q(2) by auto
    then have "k q' = a \<Longrightarrow> q' = p" using assms(4) by blast
    moreover have "q' \<noteq> p"
    proof
      assume "q' = p"
      have "distinct (inorder (find_top k a t))"
        using assms(5) by (induction t) auto
      then show False using \<open>find_top k a t = Node l q r\<close> Node \<open>q = p\<close> \<open>q' = p\<close> by simp
    qed
    ultimately show ?thesis using \<open>find_top k a t = Node l q r\<close> Node \<open>q = p\<close> by auto
  qed (simp add: \<open>find_top k a t = Node l q r\<close> \<open>q = p\<close>)
qed

section \<open>Packets of other hosts\<close>

text \<open>The packets \<^verbatim>\<open>n_acd_send\<close> builds, as another host receives them.\<close>

lemma arp_packet_fields:
  assumes "length mac = 6"
  shows "length (arp_packet mac tpa spa) = 28"
    "arp_hrd (arp_packet mac tpa spa) = htobe16 ARPHRD_ETHER"
    "arp_pro (arp_packet mac tpa spa) = htobe16 ETHERTYPE_IP"
    "arp_hln (arp_packet mac tpa spa) = [6]" "arp_pln (arp_packet mac tpa spa) = [4]"
    "arp_op (arp_packet mac tpa spa) = htobe16 ARPOP_REQUEST"
    "arp_sha (arp_packet mac tpa spa) = mac"
    "arp_spa (arp_packet mac tpa spa) = (case spa of None \<Rightarrow> [0, 0, 0, 0] | Some a \<Rightarrow> ip_bytes a)"
    "arp_tpa (arp_packet mac tpa spa) = ip_bytes tpa"
proof -
  obtain a b c d e f where m: "mac = [a, b, c, d, e, f]"
    using assms by (auto simp: length_Suc_conv numeral_eq_Suc)
  show "length (arp_packet mac tpa spa) = 28"
    "arp_hrd (arp_packet mac tpa spa) = htobe16 ARPHRD_ETHER"
    "arp_pro (arp_packet mac tpa spa) = htobe16 ETHERTYPE_IP"
    "arp_hln (arp_packet mac tpa spa) = [6]" "arp_pln (arp_packet mac tpa spa) = [4]"
    "arp_op (arp_packet mac tpa spa) = htobe16 ARPOP_REQUEST"
    "arp_sha (arp_packet mac tpa spa) = mac"
    "arp_spa (arp_packet mac tpa spa) = (case spa of None \<Rightarrow> [0, 0, 0, 0] | Some a \<Rightarrow> ip_bytes a)"
    "arp_tpa (arp_packet mac tpa spa) = ip_bytes tpa"
    by (cases spa; simp add: m arp_packet_def bytes_at_def htobe16_def ip_bytes_def)+
qed

lemma arp_packet_valid:
  "length mac = 6 \<Longrightarrow> mac \<noteq> mac' \<Longrightarrow> n_acd_packet_is_valid mac' (arp_packet mac tpa spa)"
  by (simp add: n_acd_packet_is_valid_def arp_packet_fields del: One_nat_def)


section \<open>Conflicts\<close>

lemma probe_raise_ok:
  assumes "os_alloc os (a_calls acd)" "e \<noteq> N_ACD_EVENT_DOWN"
  shows "n_acd_probe_raise os acd p e =
    Some (0, (tick acd)\<lparr>a_event_list := a_event_list acd @
      [\<lparr>ev_event = e, ev_probe = Some p, ev_sender = [], is_public = False\<rparr>]\<rparr>)"
  using assms by (simp add: n_acd_probe_raise_def n_acd_raise_def upd_last_def)

lemma probe_fail_ok:
  assumes "good_os os" "acd_inv acd" "a_probes acd p = Some pr" "os_alloc os (a_calls acd)" "e \<noteq> N_ACD_EVENT_DOWN"
  shows "\<exists>acd' pr'. probe_fail os acd p e sender = Some (0, acd') \<and> a_probes acd' p = Some pr'
    \<and> p_state pr' = N_ACD_PROBE_STATE_FAILED \<and> \<not> p_linked pr' \<and> p \<notin> snd ` set (a_timer_tree acd')
    \<and> a_event_list acd' = a_event_list acd @ [\<lparr>ev_event = e, ev_probe = Some p, ev_sender = sender, is_public = False\<rparr>]"
proof -
  let ?es = "a_event_list acd @ [\<lparr>ev_event = e, ev_probe = Some p, ev_sender = sender, is_public = False\<rparr>]"
  let ?a = "(tick acd)\<lparr>a_event_list := ?es\<rparr>"
  have "events_ok (a_probes acd) ?es" using assms(2,3) by (auto simp: acd_inv_def events_ok_def)
  then have i: "acd_inv ?a" using assms(2) by (intro inv_events) simp_all
  have p: "a_probes ?a p = Some pr" using assms(3) by simp
  have "wp (timeout_unschedule os ?a p) (\<lambda>acd2. wp (n_acd_probe_unlink os acd2 p) (\<lambda>acd3.
      a_event_list acd3 = ?es \<and> p \<notin> snd ` set (a_timer_tree acd3)
      \<and> (\<exists>pr'. a_probes acd3 p = Some pr' \<and> \<not> p_linked pr')))"
  proof (rule wp_unschedule [OF assms(1) i p], goal_cases)
    case (1 acd2 pr2)
    show ?case by (rule wp_probe_unlink [OF assms(1) 1(1,4)]) (use 1 in auto)
  qed
  then obtain acd2 acd3 pr' where w: "timeout_unschedule os ?a p = Some acd2" "n_acd_probe_unlink os acd2 p = Some acd3"
    "a_event_list acd3 = ?es" "p \<notin> snd ` set (a_timer_tree acd3)" "a_probes acd3 p = Some pr'" "\<not> p_linked pr'"
    by (auto simp: wp_Some_iff)
  have "upd_last (ev_sender_update (\<lambda>_. sender)) ((tick acd)\<lparr>a_event_list := a_event_list acd @
      [\<lparr>ev_event = e, ev_probe = Some p, ev_sender = [], is_public = False\<rparr>]\<rparr>) = ?a"
    by (simp add: upd_last_def)
  then have "probe_fail os acd p e sender =
      Some (0, upd_probe p (p_state_update (\<lambda>_. N_ACD_PROBE_STATE_FAILED)) acd3)"
    using w(1,2) by (simp add: probe_fail_def probe_raise_ok [OF assms(4,5)])
  then show ?thesis using w by simp
qed

text \<open>The only probe for an address handles every packet about the address.\<close>

lemma handle_packet_unique:
  assumes "acd_inv acd" "a_probes acd p = Some pr" "p_linked pr"
    "\<And>q qr. a_probes acd q = Some qr \<Longrightarrow> p_linked qr \<Longrightarrow> p_ip qr = p_ip pr \<Longrightarrow> q = p"
    "hard \<longleftrightarrow> arp_spa packet \<noteq> [0, 0, 0, 0]" "hard \<or> arp_op packet = htobe16 ARPOP_REQUEST"
    "le_value (if hard then arp_spa packet else arp_tpa packet) = p_ip pr"
  shows "\<exists>qs. n_acd_handle_packet os acd packet = packet_loop os acd packet hard (p_ip pr) (p # qs)
    \<and> (qs \<noteq> [] \<longrightarrow> ip_of acd (hd qs) \<noteq> p_ip pr)"
proof -
  let ?xs = "inorder (a_ip_tree acd)" and ?k = "ip_of acd"
  have tr: "tree_ok (a_probes acd) (a_ip_tree acd)" using assms(1) by (simp add: acd_inv_def)
  then have s: "set ?xs = {q. \<exists>r. a_probes acd q = Some r \<and> p_linked r}" and d: "distinct ?xs"
    and so: "sorted (map ?k ?xs)" by (simp_all only: tree_ok_def ip_of_ipf)
  have in_t: "p \<in> set ?xs" unfolding s using assms(2,3) by simp
  have kp: "?k p = p_ip pr" using assms(2) by (simp add: ip_of_def)
  have u: "q = p" if q: "q \<in> set ?xs" "?k q = p_ip pr" for q
  proof -
    obtain r where r: "a_probes acd q = Some r" "p_linked r" using q(1) unfolding s by blast
    then have "p_ip r = p_ip pr" using q(2) by (simp add: ip_of_def)
    with r show ?thesis by (rule assms(4))
  qed
  have lm: "left_most ?k (p_ip pr) (find_top ?k (p_ip pr) (a_ip_tree acd)) = Some p"
    by (rule search_unique [OF so in_t kp u d])
  obtain ys qs where xs: "?xs = ys @ p # qs" "p \<notin> set ys"
    using split_list_first [OF in_t] by auto
  have "p \<notin> set qs" using d unfolding xs(1) by simp
  then have "qs \<noteq> [] \<longrightarrow> ?k (hd qs) \<noteq> p_ip pr" using u [of "hd qs"] hd_in_set [of qs] unfolding xs(1) by auto
  moreover have "dropWhile (\<lambda>q. q \<noteq> p) ?xs = p # qs" using xs(2) unfolding xs(1) by (simp add: dropWhile_append)
  then have "n_acd_handle_packet os acd packet = packet_loop os acd packet hard (p_ip pr) (p # qs)"
    using assms(5-7) lm by (cases hard) (simp_all add: n_acd_handle_packet_def Let_def del: packet_loop.simps)
  ultimately show ?thesis by blast
qed

text \<open>
  C13. Two hosts that want the same address detect each other. When another host probes for or
  announces the address of a probe that is still probing and is the only probe of the context
  linked for that address, and memory for the event is available, the packet it sends passes the
  check of the engine, the probe fails, is taken out of both trees, and the client gets an event
  with the hardware address of the other host. (Of two probes of one address only the first is
  told: the handling takes it out of the tree, and the loop over the matching probes then stops.)
\<close>

theorem conflict_detected:
  assumes "good_os os" "acd_reachable os acd" "\<forall>i. os_alloc os i"
    and "a_probes acd p = Some pr" "p_linked pr" "p_state pr = N_ACD_PROBE_STATE_PROBING" "p_ip pr \<noteq> 0"
    and "\<forall>q qr. a_probes acd q = Some qr \<and> p_linked qr \<and> p_ip qr = p_ip pr \<longrightarrow> q = p"
    and "length mac = 6" "mac \<noteq> a_mac acd"
    and "packet = arp_packet mac (p_ip pr) None \<or> packet = arp_packet mac tpa (Some (p_ip pr))"
  shows "\<exists>acd' pr'. handle_packets os acd [packet] = Some (0, acd') \<and> a_probes acd' p = Some pr'
    \<and> p_state pr' = N_ACD_PROBE_STATE_FAILED \<and> \<not> p_linked pr' \<and> p \<notin> snd ` set (a_timer_tree acd')
    \<and> a_event_list acd' = a_event_list acd @
        [\<lparr>ev_event = N_ACD_EVENT_USED, ev_probe = Some p, ev_sender = mac, is_public = False\<rparr>]"
proof -
  have i: "acd_inv acd" by (rule reachable_inv [OF assms(1,2)])
  let ?h = "arp_spa packet \<noteq> [0, 0, 0, 0]"
  have f: "arp_op packet = htobe16 ARPOP_REQUEST" "arp_sha packet = mac"
    "le_value (if ?h then arp_spa packet else arp_tpa packet) = p_ip pr"
    using assms(7,9,11) by (auto simp: arp_packet_fields ip_bytes_roundtrip ip_bytes_zero)
  have v: "n_acd_packet_is_valid (a_mac acd) packet" using assms(9-11) by (auto intro: arp_packet_valid)
  obtain qs where l: "n_acd_handle_packet os acd packet = packet_loop os acd packet ?h (p_ip pr) (p # qs)"
    using handle_packet_unique [OF i assms(4,5), of ?h packet os] assms(8) f by auto
  have it: "acd_inv (tick acd)" "a_probes (tick acd) p = Some pr" using i assms(4) by simp_all
  obtain acd' pr' where a: "probe_fail os (tick acd) p N_ACD_EVENT_USED mac = Some (0, acd')" "a_probes acd' p = Some pr'"
    "p_state pr' = N_ACD_PROBE_STATE_FAILED" "\<not> p_linked pr'" "p \<notin> snd ` set (a_timer_tree acd')"
    "a_event_list acd' = a_event_list acd @ [\<lparr>ev_event = N_ACD_EVENT_USED, ev_probe = Some p, ev_sender = mac, is_public = False\<rparr>]"
    using probe_fail_ok [OF assms(1) it, of N_ACD_EVENT_USED mac] assms(3) by auto
  have "n_acd_probe_handle_packet os acd p packet ?h = Some (0, acd')"
    using a(1) assms(4,6) f(2) by (simp add: n_acd_probe_handle_packet_def timer_now_ok [OF assms(1)])
  then have "handle_packets os acd [packet] = Some (0, acd')"
    using v a(2,4) by (simp add: l)
  then show ?thesis using a by blast
qed


section \<open>One probe on a new context\<close>

definition mac_example :: "u8 list" where "mac_example = [0, 1, 2, 3, 4, 5]"

definition acd_fresh :: "u8 list \<Rightarrow> NAcd" where
  "acd_fresh mac = \<lparr>a_n_refs = 1, a_mac = mac, a_probes = (\<lambda>_. None), a_next_id = 0,
     a_ip_tree = Leaf, a_event_list = [], a_timer_tree = [], a_scheduled_timeout = 0,
     a_armed = 0, a_bpf_map = [], a_n_bpf_map = 0, a_max_bpf_map = 8,
     a_preempted = False, a_sent = [], a_calls = 0\<rparr>"

lemma new_fresh: "n_acd_new ifindex ethernet mac n_mac alloc errors = (0, Some acd) \<Longrightarrow> acd = acd_fresh (take 6 mac)"
  by (auto simp: n_acd_new_def acd_fresh_def split: if_splits list.splits)

text \<open>The answers of a system with memory, that accepts the entries of the map.\<close>

definition kind_os :: "acd_os \<Rightarrow> bool" where
  "kind_os os \<longleftrightarrow> good_os os \<and> (\<forall>i. os_alloc os i) \<and> (\<forall>i. os_bpf os i = 0)"

text \<open>A context whose only probe has sent \<open>n\<close> packets and waits until \<open>t\<close>.\<close>

definition probing :: "NAcd \<Rightarrow> u8 list \<Rightarrow> u32 \<Rightarrow> u64 \<Rightarrow> u32 \<Rightarrow> u64 \<Rightarrow> bool" where
  "probing acd mac a T n t \<longleftrightarrow>
     (\<exists>pr. a_probes acd = [0 \<mapsto> pr] \<and> p_ip pr = a \<and> p_timeout_multiplier pr = T \<and> p_n_iteration pr = n
        \<and> p_state pr = N_ACD_PROBE_STATE_PROBING \<and> p_timer_set pr)
     \<and> a_timer_tree acd = [(t, 0)] \<and> a_armed acd = t \<and> a_scheduled_timeout acd = t \<and> t \<noteq> 0
     \<and> a_mac acd = mac \<and> a_event_list acd = [] \<and> a_sent acd = replicate (unat n) (arp_packet mac a None)"

lemma jitter_le:
  assumes "j \<noteq> (0 :: u32)"
  shows "unat (x mod ucast j :: u64) \<le> unat j"
proof -
  have "unat (ucast j :: u64) = unat j" by transfer simp
  moreover have "0 < unat j" using assms by (simp add: unat_gt_0)
  ultimately show ?thesis using mod_less_divisor [of "unat j" "unat x"] by (simp add: unat_mod_distrib)
qed

text \<open>Scheduling the only timeout: it is later by at least the delay, and at most the jitter more.\<close>

lemma schedule_alone:
  assumes "good_os os" "a_timer_tree acd = []" "a_probes acd = [0 \<mapsto> pr]" "d < 2 ^ 62"
    "a_scheduled_timeout acd = 0 \<or> a_scheduled_timeout acd \<le> os_now os (a_calls acd) \<and> 0 < d"
  shows "\<exists>t acd'. n_acd_probe_schedule os acd 0 d j = Some acd'
    \<and> a_probes acd' = [0 \<mapsto> pr\<lparr>p_timeout := t, p_timer_set := True\<rparr>] \<and> a_timer_tree acd' = [(t, 0)]
    \<and> a_armed acd' = t \<and> a_scheduled_timeout acd' = t \<and> t \<noteq> 0 \<and> a_mac acd' = a_mac acd
    \<and> a_event_list acd' = a_event_list acd \<and> a_sent acd' = a_sent acd \<and> a_preempted acd' = a_preempted acd
    \<and> unat (os_now os (a_calls acd)) + unat d \<le> unat t
    \<and> unat t \<le> unat (os_now os (a_calls acd)) + unat d + unat j"
proof -
  let ?now = "os_now os (a_calls acd)"
  define r where "r = (if j \<noteq> 0 then os_rand os (a_calls acd + 1) mod ucast j else 0)"
  define b where "b = (if j \<noteq> 0 then tick (tick acd) else tick acd)"
  let ?t = "?now + d + r"
  have n: "0 < ?now" "?now < 2 ^ 62" using assms(1) by (auto simp: good_os_def)
  have rj: "unat r \<le> unat j" using jitter_le by (simp add: r_def)
  have r32: "r < 2 ^ 32" using jitter_small [of j] by (simp add: r_def)
  have un: "unat ?now < 2 ^ 62" "unat d < 2 ^ 62" "unat r < 2 ^ 32"
    using n assms(4) r32 by (simp_all add: word_less_nat_alt)
  then have ut: "unat ?t = unat ?now + unat d + unat r" by (simp add: unat_word_ariths)
  have t0: "?t \<noteq> 0" by (rule near_future(1) [OF n assms(4) r32])
  have ts: "a_scheduled_timeout acd \<noteq> ?t"
    using assms(5)
  proof
    assume "a_scheduled_timeout acd \<le> ?now \<and> 0 < d"
    then show ?thesis using near_future(3) [OF n assms(4) r32] by auto
  qed (use t0 in simp)
  have "n_acd_probe_schedule os acd 0 d j = timeout_schedule os b 0 ?t"
    by (simp add: n_acd_probe_schedule_def timer_now_ok [OF assms(1)] r_def b_def Let_def)
  also have "\<dots> = Some ((tick (upd_probe 0 (\<lambda>pr. pr\<lparr>p_timeout := ?t, p_timer_set := True\<rparr>)
    (b\<lparr>a_timer_tree := [(?t, 0)]\<rparr>)))\<lparr>a_armed := ?t, a_scheduled_timeout := ?t\<rparr>)"
    using assms(2,3) ts t0
    by (simp add: timeout_schedule_def timer_rearm_def timer_insert_def timer_remove_def b_def Let_def upd_probe_def
        settime_ok [OF assms(1)])
  finally show ?thesis
    using assms(3) t0 ut rj by (intro exI [of _ ?t]) (simp add: b_def upd_probe_def)
qed

lemma unat_times: "T < 2 ^ 32 \<Longrightarrow> k \<le> 333333 \<Longrightarrow> unat (T * word_of_nat k :: u64) = unat T * k"
proof -
  assume "T < 2 ^ 32" "k \<le> 333333"
  then have "unat T < 2 ^ 32" by (simp add: word_less_nat_alt)
  then have "unat T * k \<le> 2 ^ 32 * 333333" using \<open>k \<le> 333333\<close> by (intro mult_mono) simp_all
  then show ?thesis using \<open>k \<le> 333333\<close> by (simp add: unat_word_ariths unat_of_nat)
qed

lemma unat_jitter: "T < 2 ^ 32 \<Longrightarrow> k \<le> 333333 \<Longrightarrow> unat (ucast (T * word_of_nat k :: u64) :: u32) \<le> unat T * k"
  using unat_times [of T k] by (simp add: unsigned_ucast_eq)

lemma new_probing:
  assumes "kind_os os" "a \<noteq> 0" "0 < T" "T < 2 ^ 32"
  shows "\<exists>acd t. n_acd_probe_new os (acd_fresh mac) a T = Some (0, Some 0, acd) \<and> probing acd mac a T 0 t
    \<and> unat t \<le> unat (os_now os 2) + unat T * 111111"
proof -
  have g: "good_os os" and k: "\<And>i. os_alloc os i" "\<And>i. os_bpf os i = 0"
    using assms(1) by (auto simp: kind_os_def)
  have b: "inorder (rb_balance os \<langle>\<langle>\<rangle>, 0, \<langle>\<rangle>\<rangle>) = [0]" using g by (simp add: good_os_def)
  let ?pr = "N_ACD_PROBE_NULL\<lparr>p_ip := a, p_timeout_multiplier := T, p_linked := True, p_n_iteration := 0\<rparr>"
  let ?acd = "(acd_fresh mac)\<lparr>a_n_refs := 2, a_probes := [0 \<mapsto> ?pr], a_next_id := 1,
    a_ip_tree := rb_balance os \<langle>\<langle>\<rangle>, 0, \<langle>\<rangle>\<rangle>, a_bpf_map := [ntohl a], a_n_bpf_map := 1, a_calls := 2\<rparr>"
  have "T \<noteq> 0" using assms(3) by auto
  then have new: "n_acd_probe_new os (acd_fresh mac) a T =
      Option.bind (n_acd_probe_schedule os ?acd 0 0 (ucast (T * 111111))) (\<lambda>acd3. Some (0, Some 0, acd3))"
    using assms(2)
    by (simp add: n_acd_probe_new_def k n_acd_probe_link_def n_acd_ensure_bpf_map_space_def acd_fresh_def
        n_acd_probe_is_unique_def b rb_next_def same_ip_def n_acd_bpf_map_add_def tick_def upd_probe_def numeral_2_eq_2)
  have c: "a_calls ?acd = 2" by simp
  obtain t acd' where s: "n_acd_probe_schedule os ?acd 0 0 (ucast (T * 111111)) = Some acd'"
    "a_probes acd' = [0 \<mapsto> ?pr\<lparr>p_timeout := t, p_timer_set := True\<rparr>]" "a_timer_tree acd' = [(t, 0)]"
    "a_armed acd' = t" "a_scheduled_timeout acd' = t" "t \<noteq> 0" "a_mac acd' = a_mac ?acd"
    "a_event_list acd' = a_event_list ?acd" "a_sent acd' = a_sent ?acd"
    "unat t \<le> unat (os_now os (a_calls ?acd)) + unat (0 :: u64) + unat (ucast (T * 111111) :: u32)"
    using schedule_alone [OF g, of ?acd ?pr 0 "ucast (T * 111111)"] by (auto simp: acd_fresh_def)
  have "probing acd' mac a T 0 t" unfolding probing_def
    by (intro conjI exI [of _ "?pr\<lparr>p_timeout := t, p_timer_set := True\<rparr>"])
      (use s(2-9) in \<open>simp_all add: acd_fresh_def N_ACD_PROBE_NULL_def\<close>)
  moreover have "unat t \<le> unat (os_now os 2) + unat T * 111111"
    using s(10) unat_jitter [OF assms(4), of 111111] by simp
  ultimately show ?thesis using s(1) new by auto
qed


text \<open>The kernel reports that the timer expired.\<close>

abbreviation timer_event :: "int + acd_epoll list" where
  "timer_event \<equiv> Inr [Epoll_timer False True Timer_triggered]"

text \<open>The clock while the timeout is handled, which is no later than \<open>lat\<close> after the time the timer was set to.\<close>

definition on_time :: "acd_os \<Rightarrow> nat \<Rightarrow> NAcd \<Rightarrow> bool" where
  "on_time os lat acd \<longleftrightarrow>
     (\<forall>i<3. a_armed acd \<le> os_now os (a_calls acd + i)
        \<and> unat (os_now os (a_calls acd + i)) \<le> unat (a_armed acd) + lat)"

lemma dispatch_timer_only:
  "good_os os \<Longrightarrow> n_acd_dispatch os acd timer_event =
     map_option (\<lambda>(r, acd'). (if r \<noteq> 0 then r else if a_preempted acd' then N_ACD_E_PREEMPTED else 0, acd'))
       (timeout_loop os (os_now os (a_calls acd)) (tick (acd\<lparr>a_preempted := False, a_armed := 0\<rparr>)))"
  by (auto simp: n_acd_dispatch_def n_acd_dispatch_timer_def timer_read_def n_acd_handle_timeout_def timer_now_ok
      split: bind_splits)

lemma probing_round:
  assumes k: "kind_os os" and T: "0 < T" "T < 2 ^ 32" and n: "n < 3"
    and pb: "probing acd mac a T n t" and ot: "on_time os lat acd" and snd: "\<forall>i. os_send os i = Send_len 28"
  shows "\<exists>acd' t'. n_acd_dispatch os acd timer_event = Some (0, acd') \<and> probing acd' mac a T (n + 1) t'
    \<and> unat t' \<le> unat t + lat + unat T * (if n + 1 < 3 then 333333 else 222222)"
proof -
  have g: "good_os os" using k by (auto simp: kind_os_def)
  obtain pr where pr: "a_probes acd = [0 \<mapsto> pr]" "p_ip pr = a" "p_timeout_multiplier pr = T" "p_n_iteration pr = n"
    "p_state pr = N_ACD_PROBE_STATE_PROBING" "p_timer_set pr"
    and tm: "a_timer_tree acd = [(t, 0)]" "a_armed acd = t" "a_scheduled_timeout acd = t" "t \<noteq> 0"
    and mac: "a_mac acd = mac" "a_event_list acd = []" "a_sent acd = replicate (unat n) (arp_packet mac a None)"
    using pb unfolding probing_def by blast
  let ?c = "a_calls acd"
  have now: "t \<le> os_now os ?c" "t \<le> os_now os (?c + 2)" "unat (os_now os (?c + 2)) \<le> unat t + lat"
    using ot tm(2) by (auto simp: on_time_def dest: spec [of _ 0] spec [of _ 2])
  have mono: "os_now os ?c \<le> os_now os (?c + 2)" using g by (simp add: good_os_def)
  define d where "d = (if n + 1 < 3 then T * 111111 else T * 222222)"
  define j where "j = (if n + 1 < 3 then ucast (T * 222222) else (0 :: u32))"
  let ?pr = "pr\<lparr>p_timeout := 0, p_n_iteration := n + 1\<rparr>"
  let ?a = "acd\<lparr>a_preempted := False, a_armed := 0, a_timer_tree := [], a_probes := [0 \<mapsto> ?pr],
    a_sent := a_sent acd @ [arp_packet mac a None], a_calls := ?c + 2\<rparr>"
  have ud: "unat d = unat T * (if n + 1 < 3 then 111111 else 222222)"
    using unat_times [OF T(2), of 111111] unat_times [OF T(2), of 222222] by (simp add: d_def)
  have uT: "0 < unat T" "unat T < 2 ^ 32" using T by (simp_all add: word_less_nat_alt)
  then have d: "d < 2 ^ 62" "0 < d" using ud by (simp_all add: word_less_nat_alt)
  have uj: "unat j \<le> (if n + 1 < 3 then unat T * 222222 else 0)"
    using unat_jitter [OF T(2), of 222222] by (simp add: j_def)
  obtain t' acd' where s: "n_acd_probe_schedule os ?a 0 d j = Some acd'"
    "a_probes acd' = [0 \<mapsto> ?pr\<lparr>p_timeout := t', p_timer_set := True\<rparr>]" "a_timer_tree acd' = [(t', 0)]"
    "a_armed acd' = t'" "a_scheduled_timeout acd' = t'" "t' \<noteq> 0" "a_mac acd' = mac" "a_event_list acd' = []"
    "a_sent acd' = a_sent acd @ [arp_packet mac a None]" "a_preempted acd' = False"
    "unat (os_now os (?c + 2)) + unat d \<le> unat t'" "unat t' \<le> unat (os_now os (?c + 2)) + unat d + unat j"
    using schedule_alone [OF g, of ?a ?pr d j] d now(2) tm mac by auto
  have late: "\<not> t' \<le> os_now os ?c"
    using s(11) d(2) mono by (simp add: word_le_nat_alt word_less_nat_alt)
  have "timeout_loop os (os_now os ?c) acd' = Some (0, acd')"
    using late s(3,5,6) by (simp add: timeout_loop.simps timer_pop_timeout_def timer_rearm_def)
  moreover have "timeout_loop os (os_now os ?c) (tick (acd\<lparr>a_preempted := False, a_armed := 0\<rparr>)) =
      timeout_loop os (os_now os ?c) acd'"
  proof -
    have "n_acd_probe_handle_timeout os (tick (acd\<lparr>a_preempted := False, a_armed := 0, a_timer_tree := [],
        a_probes := [0 \<mapsto> pr\<lparr>p_timeout := 0\<rparr>]\<rparr>)) 0 = Some (0, acd')" (is "n_acd_probe_handle_timeout os ?b 0 = _")
    proof -
      have "n_acd_send os ?b a None = (0, ?b\<lparr>a_sent := a_sent acd @ [arp_packet mac a None], a_calls := ?c + 2\<rparr>)"
        by (simp add: n_acd_send_def snd tick_def mac(1))
      moreover have "upd_probe 0 (p_n_iteration_update (\<lambda>_. n + 1))
          (?b\<lparr>a_sent := a_sent acd @ [arp_packet mac a None], a_calls := ?c + 2\<rparr>) = ?a"
        by (simp add: upd_probe_def tick_def)
      ultimately show ?thesis
        using pr(2-5) n s(1)
        by (cases "n + 1 < 3") (simp_all add: n_acd_probe_handle_timeout_def d_def j_def Let_def)
    qed
    moreover have "timer_pop_timeout (tick (acd\<lparr>a_preempted := False, a_armed := 0\<rparr>)) (os_now os ?c) = (Some 0, ?b)"
      using pr(1) tm(1) now(1) by (simp add: timer_pop_timeout_def upd_probe_def tick_def)
    ultimately show ?thesis by (simp add: timeout_loop.simps [of os _ "tick _"])
  qed
  ultimately have "n_acd_dispatch os acd timer_event = Some (0, acd')"
    by (simp add: dispatch_timer_only [OF g] s(10))
  moreover have "probing acd' mac a T (n + 1) t'" unfolding probing_def
    by (intro conjI exI [of _ "?pr\<lparr>p_timeout := t', p_timer_set := True\<rparr>"])
      (use s(2-9) pr mac(3) n in \<open>simp_all add: replicate_append_same word_less_nat_alt unat_word_ariths\<close>)
  moreover have "unat t' \<le> unat t + lat + unat T * (if n + 1 < 3 then 333333 else 222222)"
    using s(12) now(3) ud uj by (auto split: if_splits)
  ultimately show ?thesis by blast
qed

lemma ready_round:
  assumes k: "kind_os os" and pb: "probing acd mac a T 3 t" and ot: "on_time os lat acd"
  shows "\<exists>acd' pr. n_acd_dispatch os acd timer_event = Some (0, acd') \<and> a_probes acd' 0 = Some pr
    \<and> p_state pr = N_ACD_PROBE_STATE_CONFIGURING \<and> a_armed acd' = 0 \<and> a_sent acd' = replicate 3 (arp_packet mac a None)
    \<and> a_event_list acd' = [\<lparr>ev_event = N_ACD_EVENT_READY, ev_probe = Some 0, ev_sender = [], is_public = False\<rparr>]"
proof -
  have al: "\<And>i. os_alloc os i" and g: "good_os os" using k by (auto simp: kind_os_def)
  obtain pr where pr: "a_probes acd = [0 \<mapsto> pr]" "p_n_iteration pr = 3" "p_state pr = N_ACD_PROBE_STATE_PROBING"
    and tm: "a_timer_tree acd = [(t, 0)]" "a_armed acd = t" "a_scheduled_timeout acd = t" "t \<noteq> 0"
    and mac: "a_event_list acd = []" "a_sent acd = replicate 3 (arp_packet mac a None)"
    using pb unfolding probing_def by auto
  let ?now = "os_now os (a_calls acd)"
  let ?b = "tick (acd\<lparr>a_preempted := False, a_armed := 0, a_timer_tree := [], a_probes := [0 \<mapsto> pr\<lparr>p_timeout := 0\<rparr>]\<rparr>)"
  let ?c = "(tick ?b)\<lparr>a_event_list := [\<lparr>ev_event = N_ACD_EVENT_READY, ev_probe = Some 0, ev_sender = [], is_public = False\<rparr>],
    a_probes := [0 \<mapsto> pr\<lparr>p_timeout := 0, p_state := N_ACD_PROBE_STATE_CONFIGURING\<rparr>]\<rparr>"
  have "t \<le> ?now" using ot tm(2) by (auto simp: on_time_def dest: spec [of _ 0])
  then have "timer_pop_timeout (tick (acd\<lparr>a_preempted := False, a_armed := 0\<rparr>)) ?now = (Some 0, ?b)"
    using pr(1) tm(1) by (simp add: timer_pop_timeout_def upd_probe_def tick_def)
  moreover have "n_acd_probe_handle_timeout os ?b 0 = Some (0, ?c)"
    using pr(2,3) mac(1) by (simp add: n_acd_probe_handle_timeout_def probe_raise_ok al upd_probe_def)
  moreover have "timeout_loop os ?now ?c = Some (0, (tick ?c)\<lparr>a_armed := 0, a_scheduled_timeout := 0\<rparr>)"
    using tm(3,4) by (simp add: timeout_loop.simps timer_pop_timeout_def timer_rearm_def settime_ok [OF g])
  ultimately have "n_acd_dispatch os acd timer_event = Some (0, (tick ?c)\<lparr>a_armed := 0, a_scheduled_timeout := 0\<rparr>)"
    by (simp add: dispatch_timer_only [OF g] timeout_loop.simps [of os _ "tick (acd\<lparr>a_preempted := False, a_armed := 0\<rparr>)"])
  then show ?thesis using mac(2) by simp
qed

text \<open>The client dispatches the context whenever the timer expires, \<open>k\<close> times.\<close>

fun timer_fires :: "acd_os \<Rightarrow> nat \<Rightarrow> NAcd \<Rightarrow> NAcd option" where
  "timer_fires os 0 acd = Some acd"
| "timer_fires os (Suc k) acd =
     do { (r, acd') \<leftarrow> n_acd_dispatch os acd timer_event; if r = 0 then timer_fires os k acd' else None }"

lemma fires_Suc: "n_acd_dispatch os acd timer_event = Some (0, acd') \<Longrightarrow> timer_fires os (Suc k) acd = timer_fires os k acd'"
  by simp

text \<open>
  C14. An address nobody else uses is ready in time. A probe with a timeout of \<open>T\<close> milliseconds,
  greater than 0 and below 2^32, alone on a new context, whose packets the kernel accepts, with
  memory for the events, and whose timer the client serves within \<open>lat\<close> nanoseconds each time, sends
  the three probes of RFC 5227 and waits. Its last timer is set to \<open>T\<close> milliseconds and three
  latencies after its creation at the latest, no event is raised before, and the dispatch it wakes,
  at \<open>T\<close> milliseconds and four latencies at the latest, raises READY and leaves the probe waiting for
  the client, its timer not running. (With \<open>T = 0\<close> no packet is sent at all, and a packet the kernel
  drops stops the probe.)
\<close>

theorem probe_ready_in_time:
  assumes "kind_os os" "a \<noteq> 0" "0 < T" "T < 2 ^ 32"
    and "n_acd_new ifindex ethernet mac n_mac alloc errors = (0, Some acd0)"
    and "n_acd_probe_new os acd0 a T = Some (r, p, acd1)"
    and "\<forall>k<4. \<forall>acd. timer_fires os k acd1 = Some acd \<longrightarrow> on_time os lat acd"
    and "\<forall>i. os_send os i = Send_len 28"
  shows "r = 0 \<and> p = Some 0
    \<and> (\<exists>acd acd' pr. timer_fires os 3 acd1 = Some acd \<and> unat (a_armed acd) \<le> unat (os_now os 2) + unat T * 1000000 + 3 * lat
       \<and> unat (os_now os (a_calls acd)) \<le> unat (os_now os 2) + unat T * 1000000 + 4 * lat \<and> a_event_list acd = []
       \<and> n_acd_dispatch os acd timer_event = Some (0, acd')
       \<and> a_sent acd' = replicate 3 (arp_packet (take 6 mac) a None)
       \<and> a_event_list acd' = [\<lparr>ev_event = N_ACD_EVENT_READY, ev_probe = Some 0, ev_sender = [], is_public = False\<rparr>]
       \<and> a_probes acd' 0 = Some pr \<and> p_state pr = N_ACD_PROBE_STATE_CONFIGURING \<and> a_armed acd' = 0)"
proof -
  note T = assms(3,4)
  have f: "acd0 = acd_fresh (take 6 mac)" using assms(5) by (rule new_fresh)
  obtain t0 where "r = 0" "p = Some 0" and p0: "probing acd1 (take 6 mac) a T 0 t0"
    and t0: "unat t0 \<le> unat (os_now os 2) + unat T * 111111"
    using new_probing [OF assms(1-4), of "take 6 mac"] assms(6) unfolding f by auto
  have ot: "on_time os lat acd" if "timer_fires os k acd1 = Some acd" "k < 4" for k acd using assms(7) that by blast
  have o0: "on_time os lat acd1" using ot [of 0] by simp
  obtain acd2 t1 where d1: "n_acd_dispatch os acd1 timer_event = Some (0, acd2)" and p1: "probing acd2 (take 6 mac) a T 1 t1"
    and t1: "unat t1 \<le> unat t0 + lat + unat T * 333333"
    using probing_round [OF assms(1) T _ p0 o0 assms(8)] by auto
  have o1: "on_time os lat acd2" using ot [of 1 acd2] d1 by (simp add: numeral_eq_Suc)
  obtain acd3 t2 where d2: "n_acd_dispatch os acd2 timer_event = Some (0, acd3)" and p2: "probing acd3 (take 6 mac) a T 2 t2"
    and t2: "unat t2 \<le> unat t1 + lat + unat T * 333333"
    using probing_round [OF assms(1) T _ p1 o1 assms(8)] by auto
  have o2: "on_time os lat acd3" using ot [of 2 acd3] d1 d2 by (simp add: numeral_eq_Suc)
  obtain acd4 t3 where d3: "n_acd_dispatch os acd3 timer_event = Some (0, acd4)" and p3: "probing acd4 (take 6 mac) a T 3 t3"
    and t3: "unat t3 \<le> unat t2 + lat + unat T * 222222"
    using probing_round [OF assms(1) T _ p2 o2 assms(8)] by auto
  have f3: "timer_fires os 3 acd1 = Some acd4" using d1 d2 d3 by (simp add: numeral_eq_Suc)
  have o3: "on_time os lat acd4" using ot [OF f3] by simp
  have a4: "a_armed acd4 = t3" "a_event_list acd4 = []" using p3 by (simp_all add: probing_def)
  have o4: "unat (os_now os (a_calls acd4)) \<le> unat t3 + lat"
    using o3 a4(1) by (auto simp: on_time_def dest: spec [of _ 0])
  have "unat t3 \<le> unat (os_now os 2) + unat T * 1000000 + 3 * lat" using t0 t1 t2 t3 by simp
  then show ?thesis
    using ready_round [OF assms(1) p3 o3] f3 a4 o4 \<open>r = 0\<close> \<open>p = Some 0\<close> by auto
qed

text \<open>A clock that advances by a millisecond with every call.\<close>

definition os_clock :: acd_os where
  "os_clock = os_example\<lparr>os_now := (\<lambda>i. 1000000 * (1 + word_of_nat (min i 1000)))\<rparr>"

lemma clock_value: "unat (os_now os_clock i) = 1000000 * (1 + min i 1000)"
  by (simp add: os_clock_def unat_word_ariths unat_of_nat)

lemma send_clock: "os_send os_clock i = Send_len 28"
  by (simp add: os_clock_def os_example_def)

lemma kind_os_clock: "kind_os os_clock"
proof -
  have "os_now os_clock i \<le> os_now os_clock j" if "i \<le> j" for i j
    using that unfolding word_le_nat_alt clock_value by simp
  moreover have "0 < os_now os_clock i \<and> os_now os_clock i < 2 ^ 62" for i
    unfolding word_less_nat_alt clock_value by simp
  ultimately show ?thesis
    using good_os_example by (simp add: kind_os_def good_os_def) (simp add: os_clock_def os_example_def)
qed

text \<open>A probe for 10.0.0.1 with a timeout of one millisecond on a new context.\<close>

definition acd_one :: "acd_os \<Rightarrow> NAcd" where
  "acd_one os = (case n_acd_probe_new os (acd_fresh mac_example) 0x0100000A 1 of Some (_, _, acd) \<Rightarrow> acd)"

lemma new_example: "n_acd_new 2 True mac_example 6 True [] = (0, Some (acd_fresh mac_example))"
  by (simp add: n_acd_new_def n_acd_new_ok_def mac_example_def acd_fresh_def)

lemma probe_one:
  assumes "kind_os os"
  shows "n_acd_probe_new os (acd_fresh mac_example) 0x0100000A 1 = Some (0, Some 0, acd_one os)"
    "\<exists>t. probing (acd_one os) mac_example 0x0100000A 1 0 t" "acd_reachable os (acd_one os)"
proof -
  show p: "n_acd_probe_new os (acd_fresh mac_example) 0x0100000A 1 = Some (0, Some 0, acd_one os)"
    "\<exists>t. probing (acd_one os) mac_example 0x0100000A 1 0 t"
    using new_probing [OF assms, where a = "0x0100000A" and T = 1 and mac = mac_example]
    by (auto simp: word_less_nat_alt acd_one_def)
  have "acd_reachable os (acd_fresh mac_example)" by (rule acd_reachable.new [OF new_example])
  then show "acd_reachable os (acd_one os)" by (rule acd_reachable.probe [OF _ _ p(1)]) (simp add: word_less_nat_alt)
qed

definition arm_call :: "acd_os \<Rightarrow> nat \<Rightarrow> (u64 \<times> nat) option" where
  "arm_call os k = map_option (\<lambda>acd. (a_armed acd, a_calls acd)) (timer_fires os k (acd_one os))"

lemma arm_calls:
  "arm_call os_clock 0 = Some (3000007, 5)" "arm_call os_clock 1 = Some (8111118, 10)"
  "arm_call os_clock 2 = Some (13111118, 15)" "arm_call os_clock 3 = Some (18222222, 19)"
  by code_simp+

lemma clock_on_time:
  assumes "k < 4" "timer_fires os_clock k (acd_one os_clock) = Some acd"
  shows "on_time os_clock 5000000 acd"
proof -
  have *: "arm_call os_clock k = Some (a_armed acd, a_calls acd)" using assms(2) by (simp add: arm_call_def)
  consider "k = 0" | "k = 1" | "k = 2" | "k = 3" using assms(1) by linarith
  then have "(a_armed acd, a_calls acd) \<in> {(3000007, 5), (8111118, 10), (13111118, 15), (18222222, 19)}"
    by cases (use * in \<open>simp_all add: arm_calls del: One_nat_def\<close>)
  then show ?thesis by (auto simp: on_time_def word_le_nat_alt clock_value)
qed

theorem probe_ready_in_time_witness:
  "\<exists>acd acd'. timer_fires os_clock 3 (acd_one os_clock) = Some acd
     \<and> n_acd_dispatch os_clock acd timer_event = Some (0, acd') \<and> length (a_sent acd') = 3"
proof -
  show ?thesis
    using probe_ready_in_time [OF kind_os_clock _ _ _ new_example probe_one(1) [OF kind_os_clock], of 5000000] clock_on_time
    by (auto simp: word_less_nat_alt send_clock)
qed

text \<open>
  C18. A packet that cannot be sent stops a probe for good. \<^verbatim>\<open>n_acd_send\<close> reports a full queue as
  \<^verbatim>\<open>N_ACD_E_DROPPED\<close>, while its caller lets \<^verbatim>\<open>-N_ACD_E_DROPPED\<close> pass, as the comment in
  \<^verbatim>\<open>n_acd_probe_handle_timeout\<close> intends: the dispatcher returns the code to the client, the probe goes on
  probing with no timeout set and no event raised, and the timer is not set for the other probes either.
\<close>

theorem dropped_probe_stuck:
  assumes "good_os os" "acd_reachable os acd"
    and "a_timer_tree acd = (t, p) # rest" "t \<le> os_now os (a_calls acd)"
    and "a_probes acd p = Some pr" "p_state pr = N_ACD_PROBE_STATE_PROBING" "p_n_iteration pr < 3"
    and "os_send os (a_calls acd + 1) = Send_errno e" "e = EAGAIN \<or> e = ENOBUFS"
  shows "\<exists>acd' pr'. n_acd_dispatch os acd timer_event = Some (4, acd') \<and> a_probes acd' p = Some pr'
    \<and> p_state pr' = N_ACD_PROBE_STATE_PROBING \<and> p_n_iteration pr' = p_n_iteration pr
    \<and> p \<notin> snd ` set (a_timer_tree acd') \<and> a_timer_tree acd' = rest \<and> a_armed acd' = 0
    \<and> a_event_list acd' = a_event_list acd"
proof -
  have i: "acd_inv acd" by (rule reachable_inv [OF assms(1,2)])
  have p: "p \<notin> snd ` set rest" using i assms(3) by (auto simp: acd_inv_def timers_ok_def)
  let ?b = "tick (acd\<lparr>a_preempted := False, a_armed := 0, a_timer_tree := rest,
    a_probes := (a_probes acd)(p \<mapsto> pr\<lparr>p_timeout := 0\<rparr>)\<rparr>)"
  have "timer_pop_timeout (tick (acd\<lparr>a_preempted := False, a_armed := 0\<rparr>)) (os_now os (a_calls acd)) = (Some p, ?b)"
    using assms(3-5) by (simp add: timer_pop_timeout_def upd_probe_def tick_def)
  moreover have "n_acd_send os ?b (p_ip pr) None = (4, tick ?b)"
    using assms(8,9) by (auto simp: n_acd_send_def N_ACD_E_DROPPED_def)
  then have "n_acd_probe_handle_timeout os ?b p = Some (4, tick ?b)"
    using assms(6,7) by (simp add: n_acd_probe_handle_timeout_def N_ACD_E_DROPPED_def)
  ultimately have "n_acd_dispatch os acd timer_event = Some (4, tick ?b)"
    by (simp add: dispatch_timer_only [OF assms(1)] timeout_loop.simps)
  then show ?thesis using p assms(6) by auto
qed

text \<open>The queue of the device is full from the sixth call on, the first packet.\<close>

definition os_full :: acd_os where
  "os_full = os_clock\<lparr>os_send := (\<lambda>_. Send_errno ENOBUFS)\<rparr>"

theorem dropped_probe_stuck_witness:
  "\<exists>acd'. n_acd_dispatch os_full (acd_one os_full) timer_event = Some (4, acd') \<and> a_timer_tree acd' = [] \<and> a_armed acd' = 0"
proof -
  have k: "kind_os os_full" using kind_os_clock by (simp add: kind_os_def good_os_def os_full_def)
  then have g: "good_os os_full" by (simp add: kind_os_def)
  obtain pr where "a_probes (acd_one os_full) 0 = Some pr" "p_state pr = N_ACD_PROBE_STATE_PROBING"
    "p_n_iteration pr = 0" "a_timer_tree (acd_one os_full) = [(a_armed (acd_one os_full), 0)]"
    using probe_one(2) [OF k] by (auto simp: probing_def)
  moreover have "arm_call os_full 0 = Some (3000007, 5)" by code_simp
  then have "a_armed (acd_one os_full) = 3000007" "a_calls (acd_one os_full) = 5" by (simp_all add: arm_call_def)
  moreover have "3000007 \<le> os_now os_full 5" using clock_value [of 5] by (simp add: word_le_nat_alt os_full_def)
  moreover have "os_send os_full i = Send_errno 105" for i by (simp add: os_full_def)
  ultimately show ?thesis
    using dropped_probe_stuck [OF g probe_one(3) [OF k], of 3000007 0 "[]" pr 105] by auto
qed

theorem conflict_detected_witness:
  "\<exists>acd' pr'. handle_packets os_clock (acd_one os_clock) [arp_packet [2, 0, 0, 0, 0, 9] 0x0100000A None] = Some (0, acd')
     \<and> a_probes acd' 0 = Some pr' \<and> p_state pr' = N_ACD_PROBE_STATE_FAILED"
proof -
  have g: "good_os os_clock" "\<forall>i. os_alloc os_clock i" using kind_os_clock by (simp_all add: kind_os_def)
  obtain pr where p: "a_probes (acd_one os_clock) = [0 \<mapsto> pr]" "p_state pr = N_ACD_PROBE_STATE_PROBING"
    "p_ip pr = 0x0100000A" "a_mac (acd_one os_clock) = mac_example"
    using probe_one(2) [OF kind_os_clock] unfolding probing_def by blast
  have "map_option p_linked (a_probes (acd_one os_clock) 0) = Some True" by code_simp
  then have l: "p_linked pr" by (simp add: p(1))
  have u: "\<forall>q qr. a_probes (acd_one os_clock) q = Some qr \<and> p_linked qr \<and> p_ip qr = p_ip pr \<longrightarrow> q = 0"
    by (simp add: p(1))
  have "p_ip pr \<noteq> 0" "[2, 0, 0, 0, 0, 9] \<noteq> a_mac (acd_one os_clock)" "a_probes (acd_one os_clock) 0 = Some pr"
    by (simp_all add: p mac_example_def)
  then show ?thesis
    using conflict_detected [OF g(1) probe_one(3) [OF kind_os_clock] g(2) _ l p(2) _ u, of "[2, 0, 0, 0, 0, 9]"
        "arp_packet [2, 0, 0, 0, 0, 9] 0x0100000A None" 0] unfolding p(3) by (simp del: handle_packets.simps) blast
qed

section \<open>Defence\<close>

lemma arp_packet_claims:
  assumes "length mac = 6" "a \<noteq> 0"
  shows "arp_spa (arp_packet mac tpa (Some a)) \<noteq> [0, 0, 0, 0]" "le_value (arp_spa (arp_packet mac tpa (Some a))) = a"
    "arp_sha (arp_packet mac tpa (Some a)) = mac"
  using assms by (simp_all add: arp_packet_fields ip_bytes_roundtrip ip_bytes_zero)

text \<open>Whether the last defence of a probe was less than ten seconds ago.\<close>

definition rate_limited :: "NAcdProbe \<Rightarrow> u64 \<Rightarrow> bool" where
  "rate_limited pr now \<longleftrightarrow> now < p_last_defend pr + 10000000000"

lemma defend_keep:
  assumes "os_alloc os (a_calls acd + (if rate_limited pr now then 0 else 1))" "os_send os (a_calls acd) = Send_len 28"
    "a_probes acd p = Some pr" "p_defend pr = 2 \<or> p_defend pr = 1 \<and> \<not> rate_limited pr now"
  shows "\<exists>acd'. probe_defend os acd p pr now sender = Some (0, acd')
    \<and> a_probes acd' = (a_probes acd)(p \<mapsto> pr\<lparr>p_last_defend := (if rate_limited pr now then p_last_defend pr else now)\<rparr>)
    \<and> a_event_list acd' = a_event_list acd @ [\<lparr>ev_event = N_ACD_EVENT_DEFENDED, ev_probe = Some p, ev_sender = sender, is_public = False\<rparr>]
    \<and> a_sent acd' = a_sent acd @ (if rate_limited pr now then [] else [arp_packet (a_mac acd) (p_ip pr) (Some (p_ip pr))])"
proof -
  have d: "probe_defended os b p sender = Some (0, (tick b)\<lparr>a_event_list := a_event_list b @
      [\<lparr>ev_event = N_ACD_EVENT_DEFENDED, ev_probe = Some p, ev_sender = sender, is_public = False\<rparr>]\<rparr>)"
    if "os_alloc os (a_calls b)" for b
    using that by (simp add: probe_defended_def probe_raise_ok upd_last_def)
  show ?thesis
  proof (cases "rate_limited pr now")
    case True
    then have "probe_defend os acd p pr now sender = probe_defended os acd p sender"
      using assms(4) by (auto simp: probe_defend_def rate_limited_def Let_def)
    then show ?thesis using True d [of acd] assms(1,3) by (simp add: fun_upd_idem)
  next
    case False
    let ?b = "upd_probe p (p_last_defend_update (\<lambda>_. now))
      ((tick acd)\<lparr>a_sent := a_sent acd @ [arp_packet (a_mac acd) (p_ip pr) (Some (p_ip pr))]\<rparr>)"
    have "n_acd_send os acd (p_ip pr) (Some (p_ip pr)) = (0, (tick acd)\<lparr>a_sent := a_sent acd @
        [arp_packet (a_mac acd) (p_ip pr) (Some (p_ip pr))]\<rparr>)"
      using assms(2) by (simp add: n_acd_send_def)
    then have "probe_defend os acd p pr now sender = probe_defended os ?b p sender"
      using assms(4) False by (auto simp: probe_defend_def rate_limited_def Let_def N_ACD_E_DROPPED_def)
    then show ?thesis using False d [of ?b] assms(1,3) by (simp add: upd_probe_def tick_def)
  qed
qed

text \<open>
  C15. The answer to another host that claims the address of an announced probe follows RFC 5227 and the
  policy the client chose, when the probe is the only one of the context linked for its address,
  memory for the event is available and the kernel accepts the packet. The address is given up, with
  an event CONFLICT, when it is not to be defended, or only once and the time of the last defence is
  less than ten seconds ago. Otherwise the probe keeps the address and raises DEFENDED, and it sends
  one announcement, unless the last one is less than ten seconds ago, and then remembers the time.
  The time of the last defence of a probe that never defended itself is 0: in the first ten seconds
  of the clock (since the system started) that counts as a recent defence.
\<close>

theorem conflict_answered:
  assumes "good_os os" "acd_reachable os acd" "\<forall>i. os_alloc os i" "\<forall>i. os_send os i = Send_len 28"
    and "a_probes acd p = Some pr" "p_linked pr" "p_state pr = N_ACD_PROBE_STATE_ANNOUNCING" "p_ip pr \<noteq> 0" "p_defend pr \<le> 2"
    and "\<forall>q qr. a_probes acd q = Some qr \<and> p_linked qr \<and> p_ip qr = p_ip pr \<longrightarrow> q = p"
    and "length mac = 6" "mac \<noteq> a_mac acd" "now = os_now os (a_calls acd)"
  shows "\<exists>acd' pr'. handle_packets os acd [arp_packet mac tpa (Some (p_ip pr))] = Some (0, acd') \<and> a_probes acd' p = Some pr'
    \<and> (if p_defend pr = N_ACD_DEFEND_NEVER \<or> p_defend pr = N_ACD_DEFEND_ONCE \<and> rate_limited pr now
       then p_state pr' = N_ACD_PROBE_STATE_FAILED \<and> \<not> p_linked pr'
         \<and> a_event_list acd' = a_event_list acd @
             [\<lparr>ev_event = N_ACD_EVENT_CONFLICT, ev_probe = Some p, ev_sender = mac, is_public = False\<rparr>]
       else p_state pr' = N_ACD_PROBE_STATE_ANNOUNCING \<and> p_linked pr'
         \<and> a_event_list acd' = a_event_list acd @
             [\<lparr>ev_event = N_ACD_EVENT_DEFENDED, ev_probe = Some p, ev_sender = mac, is_public = False\<rparr>]
         \<and> a_sent acd' = a_sent acd @ (if rate_limited pr now then [] else [arp_packet (a_mac acd) (p_ip pr) (Some (p_ip pr))])
         \<and> p_last_defend pr' = (if rate_limited pr now then p_last_defend pr else now))"
    (is "\<exists>acd' pr'. _ \<and> _ \<and> (if ?lose then ?F acd' pr' else ?D acd' pr')")
proof -
  let ?pk = "arp_packet mac tpa (Some (p_ip pr))"
  have i: "acd_inv acd" by (rule reachable_inv [OF assms(1,2)])
  note f = arp_packet_claims [OF assms(11,8), of tpa]
  have v: "n_acd_packet_is_valid (a_mac acd) ?pk" using assms(11,12) by (rule arp_packet_valid)
  obtain qs where l: "n_acd_handle_packet os acd ?pk = packet_loop os acd ?pk True (p_ip pr) (p # qs)"
    and qs: "qs \<noteq> [] \<longrightarrow> ip_of acd (hd qs) \<noteq> p_ip pr"
    using handle_packet_unique [OF i assms(5,6), of True ?pk os] assms(10) f by auto
  have hp: "n_acd_probe_handle_packet os acd p ?pk True = probe_defend os (tick acd) p pr now mac"
    using assms(5,7,13) f(3) by (simp add: n_acd_probe_handle_packet_def timer_now_ok [OF assms(1)])
  have it: "acd_inv (tick acd)" "a_probes (tick acd) p = Some pr" using i assms(5) by simp_all
  show ?thesis
  proof (cases ?lose)
    case True
    then have "probe_defend os (tick acd) p pr now mac = probe_fail os (tick acd) p N_ACD_EVENT_CONFLICT mac"
      by (auto simp: probe_defend_def rate_limited_def Let_def)
    then obtain acd' pr' where "n_acd_probe_handle_packet os acd p ?pk True = Some (0, acd')" and a: "a_probes acd' p = Some pr'"
      "\<not> p_linked pr'" "?F acd' pr'"
      using probe_fail_ok [OF assms(1) it, of N_ACD_EVENT_CONFLICT mac] assms(3) hp by auto
    then have "handle_packets os acd [?pk] = Some (0, acd')" using v by (simp add: l)
    then show ?thesis using True a by auto
  next
    case False
    let ?pr = "pr\<lparr>p_last_defend := (if rate_limited pr now then p_last_defend pr else now)\<rparr>"
    obtain acd' where "n_acd_probe_handle_packet os acd p ?pk True = Some (0, acd')"
      and p: "a_probes acd' = (a_probes acd)(p \<mapsto> ?pr)" and a: "?D acd' ?pr"
      using defend_keep [OF _ _ it(2), of os now mac] assms(3,4,6,7,9) False hp by (auto simp: numeral_2_eq_2 le_Suc_eq)
    moreover have "qs \<noteq> [] \<longrightarrow> ip_of acd' (hd qs) \<noteq> p_ip pr" using qs assms(5) by (auto simp: ip_of_def p)
    ultimately have "handle_packets os acd [?pk] = Some (0, acd')" using v by (auto simp: l)
    then show ?thesis using False a p by (intro exI [of _ acd'] exI [of _ ?pr]) simp
  qed
qed

text \<open>The probe of the example, announced with one defence, twenty seconds after the system started.\<close>

definition acd_announced :: NAcd where
  "acd_announced = (case n_acd_probe_announce os_example (acd_one os_example) 0 1 of Some (_, acd) \<Rightarrow> acd)"

lemma kind_os_example: "kind_os os_example"
  using good_os_example by (simp add: kind_os_def) (simp add: os_example_def)

lemma announced_call:
  "\<exists>r. n_acd_probe_announce os_example (acd_one os_example) 0 1 = Some (r, acd_announced) \<and> dom (a_probes acd_announced) = {0}"
  "0 \<in> dom (a_probes (acd_one os_example))"
proof -
  obtain pr where p: "a_probes (acd_one os_example) = [0 \<mapsto> pr]"
    using probe_one(2) [OF kind_os_example] unfolding probing_def by blast
  then show d: "0 \<in> dom (a_probes (acd_one os_example))" by simp
  have "wp (n_acd_probe_announce os_example (acd_one os_example) 0 1) (\<lambda>(r, acd). dom (a_probes acd) = {0})"
    by (rule wp_announce [OF good_os_example reachable_inv [OF good_os_example probe_one(3) [OF kind_os_example]] d])
       (simp add: frame_def p)
  then show "\<exists>r. n_acd_probe_announce os_example (acd_one os_example) 0 1 = Some (r, acd_announced)
      \<and> dom (a_probes acd_announced) = {0}"
    unfolding acd_announced_def by (cases "n_acd_probe_announce os_example (acd_one os_example) 0 1") auto
qed

lemma announced_fields:
  "map_option p_linked (a_probes acd_announced 0) = Some True"
  "map_option p_state (a_probes acd_announced 0) = Some N_ACD_PROBE_STATE_ANNOUNCING"
  "map_option p_ip (a_probes acd_announced 0) = Some 0x0100000A"
  "map_option p_defend (a_probes acd_announced 0) = Some 1"
  "map_option p_last_defend (a_probes acd_announced 0) = Some 0"
  "a_mac acd_announced = mac_example"
  by code_simp+

lemma acd_announced_state:
  "acd_reachable os_example acd_announced"
  "\<exists>pr. a_probes acd_announced = [0 \<mapsto> pr] \<and> p_linked pr \<and> p_state pr = N_ACD_PROBE_STATE_ANNOUNCING
     \<and> p_ip pr = 0x0100000A \<and> p_defend pr = 1 \<and> \<not> rate_limited pr (os_now os_example (a_calls acd_announced))"
proof -
  obtain r where r: "n_acd_probe_announce os_example (acd_one os_example) 0 1 = Some (r, acd_announced)"
    and dom: "dom (a_probes acd_announced) = {0}"
    using announced_call(1) by (elim exE conjE)
  show "acd_reachable os_example acd_announced"
    by (rule acd_reachable.announce [OF probe_one(3) [OF kind_os_example] announced_call(2) r])
  have "a_probes acd_announced q = None" if "q \<noteq> 0" for q
  proof -
    have "q \<notin> dom (a_probes acd_announced)" unfolding dom using that by simp
    then show ?thesis by (simp add: domIff)
  qed
  moreover have "0 \<in> dom (a_probes acd_announced)" unfolding dom by simp
  then obtain pr where p: "a_probes acd_announced 0 = Some pr" by (elim domD [THEN exE])
  ultimately have "a_probes acd_announced = [0 \<mapsto> pr]" by (intro ext) simp
  moreover have f: "p_linked pr" "p_state pr = N_ACD_PROBE_STATE_ANNOUNCING" "p_ip pr = 0x0100000A" "p_defend pr = 1"
    "p_last_defend pr = 0"
    using announced_fields(1-5) by (simp_all add: p)
  moreover have "\<not> rate_limited pr (os_now os_example (a_calls acd_announced))"
    by (simp add: rate_limited_def os_example_def f(5))
  ultimately show "\<exists>pr. a_probes acd_announced = [0 \<mapsto> pr] \<and> p_linked pr \<and> p_state pr = N_ACD_PROBE_STATE_ANNOUNCING
     \<and> p_ip pr = 0x0100000A \<and> p_defend pr = 1 \<and> \<not> rate_limited pr (os_now os_example (a_calls acd_announced))"
    by blast
qed

theorem conflict_answered_witness:
  "\<exists>acd'. handle_packets os_example acd_announced [arp_packet [2, 0, 0, 0, 0, 9] 7 (Some 0x0100000A)] = Some (0, acd')
     \<and> a_sent acd' = a_sent acd_announced @ [arp_packet mac_example 0x0100000A (Some 0x0100000A)]"
proof -
  obtain pr where p: "a_probes acd_announced = [0 \<mapsto> pr]" "p_linked pr" "p_state pr = N_ACD_PROBE_STATE_ANNOUNCING"
    "p_ip pr = 0x0100000A" "p_defend pr = 1" "\<not> rate_limited pr (os_now os_example (a_calls acd_announced))"
    using acd_announced_state(2) by blast
  have u: "\<forall>q qr. a_probes acd_announced q = Some qr \<and> p_linked qr \<and> p_ip qr = p_ip pr \<longrightarrow> q = 0" by (simp add: p(1))
  have o: "\<forall>i. os_alloc os_example i" "\<forall>i. os_send os_example i = Send_len 28" by (simp_all add: os_example_def)
  have s: "a_probes acd_announced 0 = Some pr" "p_ip pr \<noteq> 0" "p_defend pr \<le> 2" "[2, 0, 0, 0, 0, 9] \<noteq> a_mac acd_announced"
    "length [2, 0, 0, 0, 0, 9 :: u8] = 6" by (simp_all add: p announced_fields(6) mac_example_def)
  show ?thesis
    using conflict_answered [OF good_os_example acd_announced_state(1) o s(1) p(2,3) s(2,3) u s(5,4) refl, of 7]
    unfolding p(4,5) announced_fields(6) using p(6) by (simp del: handle_packets.simps) blast
qed

end
