(* ===== verification/Nm_Acd.thy ===== *)
theory Nm_Acd
  imports Acd_Track Acd_Protocol
begin

text \<open>
  Duplicate address detection for the addresses of a device,
  \<^verbatim>\<open>src/devices/nm-acd-manager.c\<close>, on top of the engine: an object that probes a set of addresses,
  reports once when all probes ended, and announces addresses.

  A failed \<^verbatim>\<open>nm_assert\<close> and a null pointer that is followed are the result \<open>None\<close>. The order in which a
  hash table of GLib is walked is the argument \<open>ht\<close>, some permutation of its keys.
\<close>

section \<open>State\<close>

datatype State = STATE_INIT | STATE_PROBING | STATE_PROBE_DONE | STATE_ANNOUNCING

record AddressInfo =
  duplicate :: bool
  info_probe :: "nat option"

text \<open>
  \<open>m_addresses\<close> is the hash table of addresses, \<open>m_watch\<close> says whether channel and event source exist,
  \<open>m_callback\<close> whether a callback was given; \<open>m_terminated\<close> counts its calls.
\<close>

record NMAcdManager =
  m_ifindex :: int
  m_hwaddr :: "u8 list"
  m_state :: State
  m_addresses :: "(u32 \<times> AddressInfo) list"
  m_completed :: nat
  m_acd :: "NAcd option"
  m_watch :: bool
  m_callback :: bool
  m_terminated :: nat

type_synonym hash_order = "u32 list \<Rightarrow> u32 list"

abbreviation (input) NME_UNSPEC :: int where "NME_UNSPEC \<equiv> 100000"

definition upd_info :: "u32 \<Rightarrow> (AddressInfo \<Rightarrow> AddressInfo) \<Rightarrow> NMAcdManager \<Rightarrow> NMAcdManager" where
  "upd_info a f m = m\<lparr>m_addresses := map (\<lambda>(b, i). (b, if b = a then f i else i)) (m_addresses m)\<rparr>"

section \<open>Operations\<close>

definition acd_error_to_nmerr :: "int \<Rightarrow> bool \<Rightarrow> int" where
  "acd_error_to_nmerr error always_fail =
     (if error < 0 then error else if always_fail then - NME_UNSPEC else error)"

definition nm_acd_manager_new :: "int \<Rightarrow> u8 list option \<Rightarrow> nat \<Rightarrow> bool \<Rightarrow> NMAcdManager option" where
  "nm_acd_manager_new ifindex hwaddr hwaddr_len callback =
     (case hwaddr of
        None \<Rightarrow> None
      | Some mac \<Rightarrow>
          if \<not> 0 < ifindex \<or> hwaddr_len \<noteq> 6 then None
          else Some \<lparr>m_ifindex = ifindex, m_hwaddr = take 6 mac, m_state = STATE_INIT, m_addresses = [],
            m_completed = 0, m_acd = None, m_watch = False, m_callback = callback, m_terminated = 0\<rparr>)"

definition nm_acd_manager_add_address :: "NMAcdManager \<Rightarrow> u32 \<Rightarrow> bool \<times> NMAcdManager" where
  "nm_acd_manager_add_address m a =
     (if m_state m \<noteq> STATE_INIT then (False, m)
      else if map_of (m_addresses m) a \<noteq> None then (False, m)
      else (True, m\<lparr>m_addresses := m_addresses m @ [(a, \<lparr>duplicate = False, info_probe = None\<rparr>)]\<rparr>))"

text \<open>The context is created on first use; \<open>config\<close>, \<open>alloc\<close> and \<open>errors\<close> are the answers of the system.\<close>

definition acd_init :: "NMAcdManager \<Rightarrow> bool \<Rightarrow> bool \<Rightarrow> int list \<Rightarrow> int \<times> NMAcdManager" where
  "acd_init m config alloc errors =
     (if m_acd m \<noteq> None then (0, m)
      else if \<not> config then (- ENOMEM, m)
      else case n_acd_new (m_ifindex m) True (m_hwaddr m) 6 alloc errors of
          (r, acd) \<Rightarrow> (r, m\<lparr>m_acd := acd\<rparr>))"

definition acd_probe_add :: "acd_os \<Rightarrow> NMAcdManager \<Rightarrow> u32 \<Rightarrow> u64 \<Rightarrow> (bool \<times> NMAcdManager) option" where
  "acd_probe_add os m a timeout = do {
     acd \<leftarrow> m_acd m;
     if \<not> os_alloc os (a_calls acd) then Some (False, m\<lparr>m_acd := Some (tick acd)\<rparr>)
     else do {
       (r, po, acd1) \<leftarrow> n_acd_probe_new os (tick acd) a timeout;
       if r \<noteq> 0 then Some (False, m\<lparr>m_acd := Some acd1\<rparr>)
       else do {
         p \<leftarrow> po;
         Some (True, upd_info a (info_probe_update (\<lambda>_. Some p))
           (m\<lparr>m_acd := Some (n_acd_probe_set_userdata acd1 p a)\<rparr>)) } } }"

text \<open>A probe for each address, with the results.\<close>

fun probe_all :: "acd_os \<Rightarrow> NMAcdManager \<Rightarrow> u32 list \<Rightarrow> u64 \<Rightarrow> (bool list \<times> NMAcdManager) option" where
  "probe_all os m [] timeout = Some ([], m)"
| "probe_all os m (a # as) timeout = do {
     (s, m1) \<leftarrow> acd_probe_add os m a timeout;
     (ss, m2) \<leftarrow> probe_all os m1 as timeout;
     Some (s # ss, m2) }"

definition nm_acd_manager_start_probe ::
  "acd_os \<Rightarrow> hash_order \<Rightarrow> NMAcdManager \<Rightarrow> u32 \<Rightarrow> bool \<Rightarrow> bool \<Rightarrow> int list \<Rightarrow> (int \<times> NMAcdManager) option" where
  "nm_acd_manager_start_probe os ht m timeout config alloc errors =
     (if m_state m \<noteq> STATE_INIT then Some (0, m)
      else case acd_init m config alloc errors of
        (r, m1) \<Rightarrow>
          if r \<noteq> 0 then Some (acd_error_to_nmerr r True, m1)
          else do {
            (ss, m2) \<leftarrow> probe_all os (m1\<lparr>m_completed := 0\<rparr>) (ht (map fst (m_addresses m1))) (ucast timeout);
            let success = (True \<in> set ss);
            let m3 = (if success then m2\<lparr>m_state := STATE_PROBING\<rparr> else m2);
            if m_watch m3 then None
            else Some (if success then 0 else - NME_UNSPEC, m3\<lparr>m_watch := True\<rparr>) })"

definition nm_acd_manager_check_address :: "NMAcdManager \<Rightarrow> u32 \<Rightarrow> bool" where
  "nm_acd_manager_check_address m a =
     (if m_state m \<notin> {STATE_INIT, STATE_PROBE_DONE} then False
      else case map_of (m_addresses m) a of None \<Rightarrow> False | Some i \<Rightarrow> \<not> duplicate i)"

text \<open>Announcing the addresses that are not duplicates, one after the other.\<close>

fun announce_all :: "acd_os \<Rightarrow> NMAcdManager \<Rightarrow> u32 list \<Rightarrow> (bool \<times> NMAcdManager) option" where
  "announce_all os m [] = Some (True, m)"
| "announce_all os m (a # as) = do {
     i \<leftarrow> map_of (m_addresses m) a;
     if duplicate i then announce_all os m as
     else do {
       acd \<leftarrow> m_acd m;
       p \<leftarrow> info_probe i;
       (r, acd1) \<leftarrow> n_acd_probe_announce os acd p N_ACD_DEFEND_ONCE;
       (s, m2) \<leftarrow> announce_all os (m\<lparr>m_acd := Some acd1\<rparr>) as;
       Some (r = 0 \<and> s, m2) } }"

definition nm_acd_manager_announce_addresses ::
  "acd_os \<Rightarrow> hash_order \<Rightarrow> NMAcdManager \<Rightarrow> bool \<Rightarrow> bool \<Rightarrow> int list \<Rightarrow> (int \<times> NMAcdManager) option" where
  "nm_acd_manager_announce_addresses os ht m config alloc errors =
     (case acd_init m config alloc errors of
        (r, m1) \<Rightarrow>
          if r \<noteq> 0 then Some (acd_error_to_nmerr r True, m1)
          else do {
            (success, m2) \<leftarrow>
              (if m_state m1 = STATE_INIT then do {
                 (ss, m2) \<leftarrow> probe_all os m1 (ht (map fst (m_addresses m1))) 0;
                 Some (False \<notin> set ss, m2\<lparr>m_state := STATE_ANNOUNCING\<rparr>) }
               else if m_state m1 = STATE_ANNOUNCING then announce_all os m1 (ht (map fst (m_addresses m1)))
               else Some (True, m1));
            Some (if success then 0 else - NME_UNSPEC, m2\<lparr>m_watch := True\<rparr>) })"

text \<open>One event: whether it ends a probe, and the state after it.\<close>

definition handle_event :: "acd_os \<Rightarrow> NMAcdManager \<Rightarrow> NAcdEventNode \<Rightarrow> (bool \<times> NMAcdManager) option" where
  "handle_event os m e =
     (if ev_event e = N_ACD_EVENT_DOWN then Some (False, m)
      else do {
        p \<leftarrow> ev_probe e;
        acd \<leftarrow> m_acd m;
        pr \<leftarrow> a_probes acd p;
        a \<leftarrow> p_userdata pr;
        i \<leftarrow> map_of (m_addresses m) a;
        case ev_event e of
          N_ACD_EVENT_READY \<Rightarrow>
            if m_state m = STATE_ANNOUNCING then do {
              q \<leftarrow> info_probe i;
              (r, acd1) \<leftarrow> n_acd_probe_announce os acd q N_ACD_DEFEND_ONCE;
              Some (True, upd_info a (duplicate_update (\<lambda>_. False)) (m\<lparr>m_acd := Some acd1\<rparr>)) }
            else Some (True, upd_info a (duplicate_update (\<lambda>_. False)) m)
        | N_ACD_EVENT_USED \<Rightarrow> Some (True, upd_info a (duplicate_update (\<lambda>_. True)) m)
        | _ \<Rightarrow> Some (False, m) })"

definition check_probing_done :: "bool \<Rightarrow> NMAcdManager \<Rightarrow> bool \<times> NMAcdManager" where
  "check_probing_done check m =
     (if check \<and> m_state m = STATE_PROBING
      then if m_completed m + 1 = length (m_addresses m)
        then (True, m\<lparr>m_completed := m_completed m + 1, m_state := STATE_PROBE_DONE\<rparr>)
        else (False, m\<lparr>m_completed := m_completed m + 1\<rparr>)
      else (False, m))"

partial_function (option) event_loop :: "acd_os \<Rightarrow> NMAcdManager \<Rightarrow> bool \<Rightarrow> (bool \<times> NMAcdManager) option" where
  "event_loop os m emit = do {
     acd \<leftarrow> m_acd m;
     case n_acd_pop_event acd of
       (None, acd1) \<Rightarrow> Some (emit, m\<lparr>m_acd := Some acd1\<rparr>)
     | (Some e, acd1) \<Rightarrow> do {
         (check, m1) \<leftarrow> handle_event os (m\<lparr>m_acd := Some acd1\<rparr>) e;
         event_loop os (snd (check_probing_done check m1)) (emit \<or> fst (check_probing_done check m1)) } }"

declare event_loop.simps [code]

definition acd_event :: "acd_os \<Rightarrow> NMAcdManager \<Rightarrow> int + acd_epoll list \<Rightarrow> NMAcdManager option" where
  "acd_event os m wait = do {
     acd \<leftarrow> m_acd m;
     (r, acd1) \<leftarrow> n_acd_dispatch os acd wait;
     if r \<noteq> 0 then Some (m\<lparr>m_acd := Some acd1\<rparr>)
     else do {
       (emit, m1) \<leftarrow> event_loop os (m\<lparr>m_acd := Some acd1\<rparr>) False;
       Some (if emit \<and> m_callback m1 then m1\<lparr>m_terminated := m_terminated m1 + 1\<rparr> else m1) } }"

text \<open>The table with its probes is freed, then the context. \<open>Some None\<close> says that nothing is left.\<close>

fun free_all :: "acd_os \<Rightarrow> NAcd option \<Rightarrow> AddressInfo list \<Rightarrow> NAcd option option" where
  "free_all os acd [] = Some acd"
| "free_all os acd (i # is) =
     (case info_probe i of
        None \<Rightarrow> free_all os acd is
      | Some p \<Rightarrow> do {
          a \<leftarrow> acd;
          a1 \<leftarrow> n_acd_probe_free os a p;
          free_all os (Some a1) is })"

definition nm_acd_manager_free :: "acd_os \<Rightarrow> hash_order \<Rightarrow> NMAcdManager \<Rightarrow> NAcd option option" where
  "nm_acd_manager_free os ht m = do {
     is \<leftarrow> Some (map (\<lambda>a. the (map_of (m_addresses m) a)) (ht (map fst (m_addresses m))));
     acd \<leftarrow> free_all os (m_acd m) is;
     case acd of None \<Rightarrow> Some None | Some a \<Rightarrow> n_acd_unref a }"

section \<open>The invariant\<close>

text \<open>The private events, and those of them that end the probing of \<open>p\<close>.\<close>

definition pend :: "NAcd \<Rightarrow> NAcdEventNode list" where
  "pend acd = filter (\<lambda>e. \<not> is_public e) (a_event_list acd)"

definition linked :: "(u32 \<times> AddressInfo) list \<Rightarrow> NAcd \<Rightarrow> bool" where
  "linked xs acd \<longleftrightarrow> distinct (map fst xs)
     \<and> (\<forall>a i p. map_of xs a = Some i \<longrightarrow> info_probe i = Some p \<longrightarrow> (\<exists>s. view acd p = Some (s, Some a, a)))
     \<and> (\<forall>p s u. view acd p = Some (s, u) \<longrightarrow> (\<exists>a i. u = (Some a, a) \<and> map_of xs a = Some i \<and> info_probe i = Some p))"

text \<open>
  A probe in each state: it still probes, or its end is an event the manager has not seen, or
  it has, and then the mark of the address says how it ended.
\<close>

definition probing_ok :: "(u32 \<times> AddressInfo) list \<Rightarrow> NAcd \<Rightarrow> bool" where
  "probing_ok xs acd \<longleftrightarrow>
     (\<forall>p s a i. view acd p = Some (s, Some a, a) \<longrightarrow> map_of xs a = Some i \<longrightarrow>
        ends p (pend acd) = [] \<and> s = N_ACD_PROBE_STATE_PROBING
        \<or> ends p (pend acd) = [N_ACD_EVENT_READY] \<and> s = N_ACD_PROBE_STATE_CONFIGURING
        \<or> ends p (pend acd) = [N_ACD_EVENT_USED] \<and> s = N_ACD_PROBE_STATE_FAILED
        \<or> ends p (pend acd) = [] \<and> s \<in> {N_ACD_PROBE_STATE_CONFIGURING, N_ACD_PROBE_STATE_FAILED}
          \<and> duplicate i = (s = N_ACD_PROBE_STATE_FAILED))"

text \<open>The probes whose end the manager has seen.\<close>

definition seen :: "NAcd \<Rightarrow> nat set" where
  "seen acd = {p. \<exists>s u. view acd p = Some (s, u) \<and> s \<noteq> N_ACD_PROBE_STATE_PROBING \<and> ends p (pend acd) = []}"

definition mgr_acd_inv :: "NMAcdManager \<Rightarrow> NAcd \<Rightarrow> bool" where
  "mgr_acd_inv m acd \<longleftrightarrow>
     acd_inv acd \<and> linked (m_addresses m) acd
     \<and> (\<forall>e\<in>set (pend acd). ev_event e = N_ACD_EVENT_DOWN \<or> ev_probe e \<noteq> None)
     \<and> (m_state m = STATE_INIT \<longrightarrow> a_probes acd = Map.empty)
     \<and> (m_state m \<in> {STATE_PROBING, STATE_PROBE_DONE} \<longrightarrow>
          probing_ok (m_addresses m) acd \<and> m_completed m = card (seen acd)
          \<and> (if m_state m = STATE_PROBING then m_completed m < length (m_addresses m)
             else m_completed m = length (m_addresses m)))"

definition mgr_inv :: "NMAcdManager \<Rightarrow> bool" where
  "mgr_inv m \<longleftrightarrow>
     (case m_acd m of
        None \<Rightarrow> m_state m = STATE_INIT \<and> distinct (map fst (m_addresses m)) \<and> \<not> m_watch m
          \<and> (\<forall>i\<in>snd ` set (m_addresses m). info_probe i = None)
      | Some acd \<Rightarrow> mgr_acd_inv m acd)
     \<and> m_terminated m = (if m_state m = STATE_PROBE_DONE \<and> m_callback m then 1 else 0)"

text \<open>A hash table is walked in some order of its keys.\<close>

definition good_order :: "hash_order \<Rightarrow> bool" where
  "good_order ht \<longleftrightarrow> (\<forall>ks. distinct ks \<longrightarrow> distinct (ht ks) \<and> set (ht ks) = set ks)"

section \<open>Helper lemmas\<close>

lemma view_Some: "view acd p = Some (s, u) \<longleftrightarrow> (\<exists>pr. a_probes acd p = Some pr \<and> p_state pr = s \<and> (p_userdata pr, p_ip pr) = u)"
  by (auto simp: view_def)

lemma dom_acd_view [simp]: "dom (view acd) = dom (a_probes acd)"
  by (auto simp: view_def)

lemma map_of_upd_info:
  "map_of (m_addresses (upd_info a f m)) b = (if b = a then map_option f (map_of (m_addresses m) b) else map_of (m_addresses m) b)"
proof -
  have "map_of (map (\<lambda>(b, i). (b, if b = a then f i else i)) xs) b = (if b = a then map_option f (map_of xs b) else map_of xs b)" for xs
    by (induction xs) auto
  then show ?thesis by (simp add: upd_info_def)
qed

lemma upd_info_simps [simp]:
  "m_state (upd_info a f m) = m_state m" "m_acd (upd_info a f m) = m_acd m" "m_completed (upd_info a f m) = m_completed m"
  "m_callback (upd_info a f m) = m_callback m" "m_terminated (upd_info a f m) = m_terminated m"
  "m_watch (upd_info a f m) = m_watch m" "length (m_addresses (upd_info a f m)) = length (m_addresses m)"
  "map fst (m_addresses (upd_info a f m)) = map fst (m_addresses m)"
  by (simp_all add: upd_info_def case_prod_beta comp_def)

lemma linked_upd_info:
  assumes "linked (m_addresses m) acd" "\<And>i. info_probe (f i) = info_probe i"
  shows "linked (m_addresses (upd_info a f m)) acd"
  using assms unfolding linked_def by (auto simp: map_of_upd_info split: if_splits) metis+

section \<open>Events\<close>

lemma pop_event_None: "pop_event es = (None, es') \<Longrightarrow> filter (\<lambda>e. \<not> is_public e) es = [] \<and> es' = []"
  by (induction es) (auto split: if_splits)

lemma pop_event_Some:
  "pop_event es = (Some e, es') \<Longrightarrow>
     \<exists>e0. filter (\<lambda>e. \<not> is_public e) es = e0 # filter (\<lambda>e. \<not> is_public e) es' \<and> e = e0\<lparr>is_public := True\<rparr>"
  by (induction es) (auto split: if_splits)

lemma acd_pop_None: "n_acd_pop_event acd = (None, acd1) \<Longrightarrow> pend acd = [] \<and> pend acd1 = [] \<and> view acd1 = view acd"
  by (auto simp: n_acd_pop_event_def pend_def split: prod.splits dest!: pop_event_None)

lemma acd_pop_Some:
  assumes "n_acd_pop_event acd = (Some e, acd1)"
  shows "\<exists>e0. pend acd = e0 # pend acd1 \<and> e = e0\<lparr>is_public := True\<rparr>" "view acd1 = view acd" "a_probes acd1 = a_probes acd"
  using assms by (auto simp: n_acd_pop_event_def pend_def split: prod.splits dest!: pop_event_Some)

lemma ends_Cons: "ends p (e # es) = ends p [e] @ ends p es"
  by (simp only: ends_simps(2) [symmetric] append.simps)

lemma finite_view: "acd_inv acd \<Longrightarrow> finite (dom (view acd))"
  by (simp add: finite_probes)

lemma seen_dom: "seen acd \<subseteq> dom (view acd)"
  by (auto simp: seen_def view_Some)

lemma linkedD:
  assumes "linked xs acd"
  shows "distinct (map fst xs)"
    "map_of xs a = Some i \<Longrightarrow> info_probe i = Some p \<Longrightarrow> \<exists>s. view acd p = Some (s, Some a, a)"
    "view acd p = Some (s, u) \<Longrightarrow> \<exists>a i. u = (Some a, a) \<and> map_of xs a = Some i \<and> info_probe i = Some p"
  using assms unfolding linked_def by blast+

lemma linked_view: "view acd' = view acd \<Longrightarrow> linked xs acd' = linked xs acd"
  by (simp only: linked_def)

text \<open>Different probes belong to different addresses.\<close>

lemma card_probes:
  assumes "linked xs acd"
  shows "card (dom (view acd)) \<le> length xs"
    "card (dom (view acd)) = length xs \<longleftrightarrow> (\<forall>a i. map_of xs a = Some i \<longrightarrow> info_probe i \<noteq> None)"
proof -
  define A where "A = {a \<in> dom (map_of xs). info_probe (the (map_of xs a)) \<noteq> None}"
  define f where "f a = the (info_probe (the (map_of xs a)))" for a
  have d: "distinct (map fst xs)" by (rule linkedD(1) [OF assms])
  then have dom: "card (dom (map_of xs)) = length xs" "finite (dom (map_of xs))"
    using distinct_card [OF d] by (simp_all add: dom_map_of_conv_image_fst)
  have sub: "A \<subseteq> dom (map_of xs)" by (simp add: A_def)
  have lk: "\<exists>s. view acd (f a) = Some (s, Some a, a)" if a: "a \<in> A" for a
  proof -
    obtain i p where "map_of xs a = Some i" "info_probe i = Some p" using a unfolding A_def by auto
    then show ?thesis using linkedD(2) [OF assms, of a i p] by (simp only: f_def option.sel)
  qed
  have "inj_on f A"
  proof (rule inj_onI)
    fix a b assume ab: "a \<in> A" "b \<in> A" and f: "f a = f b"
    obtain s where s: "view acd (f a) = Some (s, Some a, a)" using lk [OF ab(1)] by (elim exE)
    obtain t where "view acd (f b) = Some (t, Some b, b)" using lk [OF ab(2)] by (elim exE)
    then have "Some (s, Some a, a) = Some (t, Some b, b)" unfolding s [symmetric] f .
    then show "a = b" by simp
  qed
  moreover have "f ` A = dom (view acd)"
  proof (intro set_eqI iffI)
    fix p assume "p \<in> f ` A"
    then obtain a where "a \<in> A" "p = f a" by blast
    with lk [of a] show "p \<in> dom (view acd)" by (auto simp only: domIff)
  next
    fix p assume "p \<in> dom (view acd)"
    then obtain s u where "view acd p = Some (s, u)" unfolding dom_def by auto
    then obtain a i where "map_of xs a = Some i" "info_probe i = Some p" using linkedD(3) [OF assms] by blast
    then show "p \<in> f ` A" by (intro image_eqI [of _ _ a]) (simp_all add: A_def f_def domIff)
  qed
  ultimately have c: "card (dom (view acd)) = card A" using card_image [of f A] by simp
  then show "card (dom (view acd)) \<le> length xs" using card_mono [OF dom(2) sub] dom(1) by simp
  have "card A = card (dom (map_of xs)) \<longleftrightarrow> A = dom (map_of xs)"
    using card_subset_eq [OF dom(2) sub] by auto
  also have "\<dots> \<longleftrightarrow> (\<forall>a i. map_of xs a = Some i \<longrightarrow> info_probe i \<noteq> None)"
  proof
    assume e: "A = dom (map_of xs)"
    show "\<forall>a i. map_of xs a = Some i \<longrightarrow> info_probe i \<noteq> None"
    proof (intro allI impI)
      fix a i assume i: "map_of xs a = Some i"
      then have "a \<in> A" unfolding e by (rule domI)
      with i show "info_probe i \<noteq> None" by (simp add: A_def)
    qed
  next
    assume all: "\<forall>a i. map_of xs a = Some i \<longrightarrow> info_probe i \<noteq> None"
    have "dom (map_of xs) \<subseteq> A"
    proof
      fix a assume a: "a \<in> dom (map_of xs)"
      then obtain i where "map_of xs a = Some i" by (elim domD [THEN exE])
      with a all show "a \<in> A" by (simp add: A_def)
    qed
    with sub show "A = dom (map_of xs)" by (rule equalityI)
  qed
  finally show "card (dom (view acd)) = length xs \<longleftrightarrow> (\<forall>a i. map_of xs a = Some i \<longrightarrow> info_probe i \<noteq> None)"
    using c dom(1) by simp
qed

section \<open>Dispatching keeps the invariant\<close>

lemma track_pend:
  assumes "track acd acd'"
  obtains new where "pend acd' = pend acd @ new" "\<And>e. e \<in> set new \<Longrightarrow> ev_event e = N_ACD_EVENT_DOWN \<or> ev_probe e \<noteq> None"
    "\<And>p. view acd p = None \<Longrightarrow> view acd' p = None"
    "\<And>p s u. view acd p = Some (s, u) \<Longrightarrow> \<exists>s'. view acd' p = Some (s', u) \<and> probe_track s s' (ends p new)"
proof -
  obtain new where n: "a_event_list acd' = a_event_list acd @ new"
    "\<forall>e\<in>set new. \<not> is_public e \<and> (ev_event e = N_ACD_EVENT_DOWN \<or> ev_probe e \<noteq> None)"
    "\<And>p. case view acd p of None \<Rightarrow> view acd' p = None \<and> ends p new = []
      | Some (s, u) \<Rightarrow> \<exists>s'. view acd' p = Some (s', u) \<and> probe_track s s' (ends p new)"
    using assms unfolding track_def by blast
  have "filter (\<lambda>e. \<not> is_public e) new = new" using n(2) by (simp add: filter_id_conv)
  then show ?thesis using that [of new] n(1,2) n(3) by (fastforce simp: pend_def split: option.splits)
qed

lemma track_view: "track acd acd' \<Longrightarrow> (\<exists>s. view acd' p = Some (s, u)) \<longleftrightarrow> (\<exists>s. view acd p = Some (s, u))"
proof (erule track_pend)
  fix new
  assume *: "\<And>p. view acd p = None \<Longrightarrow> view acd' p = None"
    "\<And>p s u. view acd p = Some (s, u) \<Longrightarrow> \<exists>s'. view acd' p = Some (s', u) \<and> probe_track s s' (ends p new)"
  show ?thesis
  proof (cases "view acd p")
    case (Some x)
    then obtain s v where v: "view acd p = Some (s, v)" by (cases x) simp
    then show ?thesis using *(2) [OF v] by auto
  qed (simp add: *(1))
qed

lemma linked_same:
  assumes "\<And>p u. (\<exists>s. view acd' p = Some (s, u)) \<longleftrightarrow> (\<exists>s. view acd p = Some (s, u))" "linked xs acd"
  shows "linked xs acd'"
proof -
  have "\<exists>a i. u = (Some a, a) \<and> map_of xs a = Some i \<and> info_probe i = Some p" if v: "view acd' p = Some (s, u)" for p s u
  proof -
    obtain s0 where "view acd p = Some (s0, u)" using assms(1) [of p u] v by blast
    with assms(2) show ?thesis unfolding linked_def by blast
  qed
  moreover have "\<exists>s. view acd' p = Some (s, Some a, a)" if "map_of xs a = Some i" "info_probe i = Some p" for a i p
    using assms(2) that assms(1) [of p "(Some a, a)"] unfolding linked_def by blast
  ultimately show ?thesis using assms(2) unfolding linked_def by blast
qed

lemma track_linked: "track acd acd' \<Longrightarrow> linked xs acd \<Longrightarrow> linked xs acd'"
  by (rule linked_same [OF track_view])

lemma track_probing_ok:
  assumes "track acd acd'" "probing_ok xs acd"
  shows "probing_ok xs acd'"
  using assms(1)
proof (rule track_pend)
  fix new
  assume new: "pend acd' = pend acd @ new"
    "\<And>p s u. view acd p = Some (s, u) \<Longrightarrow> \<exists>s'. view acd' p = Some (s', u) \<and> probe_track s s' (ends p new)"
  show ?thesis
    unfolding probing_ok_def
  proof (intro allI impI)
    fix p s' a i
    assume v': "view acd' p = Some (s', Some a, a)" and i: "map_of xs a = Some i"
    then obtain s where v: "view acd p = Some (s, Some a, a)" using track_view [OF assms(1), of p "(Some a, a)"] by blast
    have t: "probe_track s s' (ends p new)" using new(2) [OF v] v' by auto
    note ok = assms(2) [unfolded probing_ok_def, rule_format, OF v i]
    show "ends p (pend acd') = [] \<and> s' = N_ACD_PROBE_STATE_PROBING
        \<or> ends p (pend acd') = [N_ACD_EVENT_READY] \<and> s' = N_ACD_PROBE_STATE_CONFIGURING
        \<or> ends p (pend acd') = [N_ACD_EVENT_USED] \<and> s' = N_ACD_PROBE_STATE_FAILED
        \<or> ends p (pend acd') = [] \<and> s' \<in> {N_ACD_PROBE_STATE_CONFIGURING, N_ACD_PROBE_STATE_FAILED}
          \<and> duplicate i = (s' = N_ACD_PROBE_STATE_FAILED)"
      using ok t by (elim disjE conjE) (auto simp: new(1) probe_track_def)
  qed
qed

lemma track_seen:
  assumes "track acd acd'"
  shows "seen acd' = seen acd"
  using assms
proof (rule track_pend)
  fix new
  assume new: "pend acd' = pend acd @ new"
    "\<And>p s u. view acd p = Some (s, u) \<Longrightarrow> \<exists>s'. view acd' p = Some (s', u) \<and> probe_track s s' (ends p new)"
  show ?thesis
  proof (intro set_eqI iffI)
    fix p assume "p \<in> seen acd'"
    then obtain s' u where s': "view acd' p = Some (s', u)" "s' \<noteq> N_ACD_PROBE_STATE_PROBING" "ends p (pend acd') = []"
      by (auto simp: seen_def)
    then obtain s where v: "view acd p = Some (s, u)" using track_view [OF assms, of p u] by blast
    have "probe_track s s' (ends p new)" using new(2) [OF v] s'(1) by auto
    with v s' show "p \<in> seen acd" by (auto simp: seen_def new(1) probe_track_def)
  next
    fix p assume "p \<in> seen acd"
    then obtain s u where s: "view acd p = Some (s, u)" "s \<noteq> N_ACD_PROBE_STATE_PROBING" "ends p (pend acd) = []"
      by (auto simp: seen_def)
    obtain s' where s': "view acd' p = Some (s', u)" "probe_track s s' (ends p new)" using new(2) [OF s(1)] by blast
    with s show "p \<in> seen acd'" by (auto simp: seen_def new(1) probe_track_def split: if_splits)
  qed
qed

lemma mgr_track:
  assumes "mgr_acd_inv m acd" "track acd acd'" "acd_inv acd'"
  shows "mgr_acd_inv m acd'"
proof -
  have e: "\<forall>e\<in>set (pend acd'). ev_event e = N_ACD_EVENT_DOWN \<or> ev_probe e \<noteq> None"
    by (rule track_pend [OF assms(2)]) (use assms(1) in \<open>auto simp: mgr_acd_inv_def\<close>)
  have d: "a_probes acd' = Map.empty" if "a_probes acd = Map.empty"
  proof -
    have "view acd' p = None" for p
    proof (cases "view acd' p")
      case (Some x)
      then have "\<exists>s. view acd p = Some (s, snd x)" using track_view [OF assms(2), of p "snd x"] by (cases x) simp
      then show ?thesis using that by (simp add: view_def)
    qed simp
    then show ?thesis by (auto simp: view_def fun_eq_iff)
  qed
  show ?thesis
    using assms(1,3) e d track_linked [OF assms(2)] track_probing_ok [OF assms(2)]
    unfolding mgr_acd_inv_def track_seen [OF assms(2)] by blast
qed

section \<open>Handling events\<close>

text \<open>What announcing a probe does for the client: only the state of the probe changes.\<close>

lemma announce_view:
  assumes "n_acd_probe_announce os acd p d = Some (r, acd')"
  shows "a_event_list acd' = a_event_list acd"
    "view acd' = view acd \<or> view acd' = (view acd)(p := map_option (\<lambda>(_, u). (N_ACD_PROBE_STATE_ANNOUNCING, u)) (view acd p))"
proof -
  have "calm (upd_probe p (\<lambda>pr. pr\<lparr>p_state := N_ACD_PROBE_STATE_ANNOUNCING, p_defend := d, p_n_iteration := 0\<rparr>) acd) acd'
      \<or> acd' = acd"
    using assms by (auto simp: n_acd_probe_announce_def bind_eq_Some_conv split: if_splits dest: calm_probe_schedule)
  moreover have "view (upd_probe p (\<lambda>pr. pr\<lparr>p_state := N_ACD_PROBE_STATE_ANNOUNCING, p_defend := d, p_n_iteration := 0\<rparr>) acd)
      = (view acd)(p := map_option (\<lambda>(_, u). (N_ACD_PROBE_STATE_ANNOUNCING, u)) (view acd p))"
    by (rule ext) (simp add: view_def option.map_comp comp_def)
  ultimately show "a_event_list acd' = a_event_list acd"
    "view acd' = view acd \<or> view acd' = (view acd)(p := map_option (\<lambda>(_, u). (N_ACD_PROBE_STATE_ANNOUNCING, u)) (view acd p))"
    by (auto simp: calm_def)
qed

lemma announce_linked:
  assumes "n_acd_probe_announce os acd p d = Some (r, acd')" "linked xs acd"
  shows "linked xs acd'"
proof (rule linked_same [OF _ assms(2)])
  fix q u
  show "(\<exists>s. view acd' q = Some (s, u)) \<longleftrightarrow> (\<exists>s. view acd q = Some (s, u))"
    using announce_view(2) [OF assms(1)] by (cases "q = p"; cases "view acd p") auto
qed

text \<open>The event at the head of the queue is taken from it.\<close>

lemma popped:
  assumes "mgr_acd_inv m acd" "n_acd_pop_event acd = (Some e, acd1)"
  obtains e0 where "pend acd = e0 # pend acd1" "ev_event e = ev_event e0" "ev_probe e = ev_probe e0"
    "view acd1 = view acd" "acd_inv acd1" "linked (m_addresses m) acd1"
    "ev_event e = N_ACD_EVENT_DOWN \<or> (\<exists>p s a i. ev_probe e = Some p \<and> view acd p = Some (s, Some a, a)
       \<and> map_of (m_addresses m) a = Some i \<and> info_probe i = Some p)"
proof -
  obtain e0 where e0: "pend acd = e0 # pend acd1" "e = e0\<lparr>is_public := True\<rparr>" using acd_pop_Some(1) [OF assms(2)] by blast
  have v: "view acd1 = view acd" by (rule acd_pop_Some(2) [OF assms(2)])
  have i: "acd_inv acd" and l: "linked (m_addresses m) acd" using assms(1) by (simp_all add: mgr_acd_inv_def)
  have "ev_event e = N_ACD_EVENT_DOWN \<or> (\<exists>p s a i. ev_probe e = Some p \<and> view acd p = Some (s, Some a, a)
       \<and> map_of (m_addresses m) a = Some i \<and> info_probe i = Some p)"
  proof (cases "ev_event e = N_ACD_EVENT_DOWN")
    case False
    then obtain p where p: "ev_probe e = Some p" using assms(1) e0 by (auto simp: mgr_acd_inv_def)
    have "e0 \<in> set (pend acd)" using e0(1) by simp
    then have "e0 \<in> set (a_event_list acd)" by (simp add: pend_def)
    then have "p \<in> dom (view acd)" using i p e0(2) unfolding dom_acd_view by (auto simp: acd_inv_def events_ok_def)
    then obtain s u where "view acd p = Some (s, u)" unfolding dom_def by auto
    then show ?thesis using l p unfolding linked_def by blast
  qed simp
  then show ?thesis using that [of e0] e0 v inv_pop_event [OF i assms(2)] l linked_view [OF v] by simp
qed

text \<open>An event that ends no probe leaves the counts as they are.\<close>

lemma popped_other:
  assumes "mgr_acd_inv m acd" "pend acd = e0 # pend acd1" "view acd1 = view acd" "acd_inv acd1"
    "linked (m_addresses m) acd1" "ev_event e0 \<notin> {N_ACD_EVENT_READY, N_ACD_EVENT_USED}"
  shows "mgr_acd_inv m acd1"
proof -
  have e: "ends p (pend acd) = ends p (pend acd1)" for p using assms(6) by (simp add: assms(2) ends_Cons [of p e0])
  have "a_probes acd1 = Map.empty" if "a_probes acd = Map.empty"
    using that assms(3) dom_acd_view [of acd] dom_acd_view [of acd1] by (metis dom_eq_empty_conv)
  moreover have "probing_ok xs acd1 = probing_ok xs acd" for xs by (simp only: probing_ok_def assms(3) e)
  moreover have "seen acd1 = seen acd" by (simp only: seen_def assms(3) e)
  ultimately show ?thesis using assms(1,2,4,5) unfolding mgr_acd_inv_def by (auto split: if_splits)
qed

text \<open>An event that ends a probe: the end is seen, and the mark of the address set.\<close>

lemma popped_end:
  assumes "mgr_acd_inv m acd" "pend acd = e0 # pend acd1" "view acd1 = view acd" "acd_inv acd1"
    "linked (m_addresses m) acd1" "ev_event e0 \<in> {N_ACD_EVENT_READY, N_ACD_EVENT_USED}" "ev_probe e0 = Some p"
    "view acd p = Some (s, Some a, a)" "map_of (m_addresses m) a = Some i" "info_probe i = Some p"
    "m_state m \<in> {STATE_PROBING, STATE_PROBE_DONE}"
  shows "m_state m = STATE_PROBING"
    "probing_ok (m_addresses (upd_info a (duplicate_update (\<lambda>_. ev_event e0 = N_ACD_EVENT_USED)) m)) acd1"
    "card (seen acd1) = m_completed m + 1"
proof -
  let ?m = "upd_info a (duplicate_update (\<lambda>_. ev_event e0 = N_ACD_EVENT_USED)) m"
  have ok: "probing_ok (m_addresses m) acd" and c: "m_completed m = card (seen acd)"
    using assms(1,11) by (auto simp: mgr_acd_inv_def)
  have ep: "ends p (pend acd) = ev_event e0 # ends p (pend acd1)"
    using assms(6,7) by (simp add: assms(2) ends_Cons [of p e0])
  have eq: "ends q (pend acd) = ends q (pend acd1)" if "q \<noteq> p" for q
    using assms(7) that by (simp add: assms(2) ends_Cons [of q e0])
  note okp = ok [unfolded probing_ok_def, rule_format, OF assms(8,9)]
  have sp: "ends p (pend acd1) = []" "s = (if ev_event e0 = N_ACD_EVENT_USED then N_ACD_PROBE_STATE_FAILED else N_ACD_PROBE_STATE_CONFIGURING)"
    using okp unfolding ep by auto
  have seen: "seen acd1 = insert p (seen acd)" "p \<notin> seen acd"
    using sp assms(8) eq ep unfolding seen_def assms(3) by (auto, metis)
  have fin: "finite (seen acd)" using finite_subset [OF seen_dom finite_view] assms(1) by (auto simp: mgr_acd_inv_def)
  show card: "card (seen acd1) = m_completed m + 1" using seen fin c by simp
  have "card (seen acd1) \<le> length (m_addresses m)"
    using card_mono [OF finite_view [OF assms(4)] seen_dom] card_probes(1) [OF assms(5)] by simp
  then show "m_state m = STATE_PROBING" using assms(1,11) card by (auto simp: mgr_acd_inv_def)
  show "probing_ok (m_addresses ?m) acd1"
    unfolding probing_ok_def assms(3)
  proof (intro allI impI)
    fix q t b j
    assume q: "view acd q = Some (t, Some b, b)" and j: "map_of (m_addresses ?m) b = Some j"
    show "ends q (pend acd1) = [] \<and> t = N_ACD_PROBE_STATE_PROBING
        \<or> ends q (pend acd1) = [N_ACD_EVENT_READY] \<and> t = N_ACD_PROBE_STATE_CONFIGURING
        \<or> ends q (pend acd1) = [N_ACD_EVENT_USED] \<and> t = N_ACD_PROBE_STATE_FAILED
        \<or> ends q (pend acd1) = [] \<and> t \<in> {N_ACD_PROBE_STATE_CONFIGURING, N_ACD_PROBE_STATE_FAILED}
          \<and> duplicate j = (t = N_ACD_PROBE_STATE_FAILED)"
    proof (cases "q = p")
      case True
      then have "b = a" "t = s" using q assms(8) by simp_all
      then show ?thesis using True sp j assms(9) by (auto simp: map_of_upd_info)
    next
      case False
      have "b \<noteq> a"
      proof
        assume "b = a"
        moreover obtain k where "map_of (m_addresses m) b = Some k" "info_probe k = Some q"
          using assms(5) q unfolding linked_def assms(3) by blast
        ultimately show False using assms(9,10) False by simp
      qed
      then have "map_of (m_addresses m) b = Some j" using j by (simp add: map_of_upd_info)
      from ok [unfolded probing_ok_def, rule_format, OF q this] show ?thesis unfolding eq [OF False] .
    qed
  qed
qed

text \<open>What handling events keeps.\<close>

definition kept :: "NMAcdManager \<Rightarrow> NMAcdManager \<Rightarrow> bool" where
  "kept m m' \<longleftrightarrow>
     m_callback m' = m_callback m \<and> m_terminated m' = m_terminated m \<and> m_watch m' = m_watch m
     \<and> (\<forall>a. map_option info_probe (map_of (m_addresses m') a) = map_option info_probe (map_of (m_addresses m) a))
     \<and> (m_state m' = m_state m \<or> m_state m = STATE_PROBING \<and> m_state m' = STATE_PROBE_DONE)"

lemma kept_trans: "kept a b \<Longrightarrow> kept b c \<Longrightarrow> kept a c"
  by (auto simp: kept_def)

lemma kept_refl [simp]: "kept a a" "kept a (a\<lparr>m_acd := x\<rparr>)"
  by (auto simp: kept_def)

lemma mgr_acd_irrelevant [simp]:
  "mgr_acd_inv (m\<lparr>m_acd := x1\<rparr>) acd = mgr_acd_inv m acd" "mgr_acd_inv (m\<lparr>m_watch := x2\<rparr>) acd = mgr_acd_inv m acd"
  "mgr_acd_inv (m\<lparr>m_terminated := x3\<rparr>) acd = mgr_acd_inv m acd"
  "upd_info a f (m\<lparr>m_acd := x1\<rparr>) = (upd_info a f m)\<lparr>m_acd := x1\<rparr>"
  by (simp_all add: mgr_acd_inv_def upd_info_def)

lemma kept_upd_info:
  "(\<And>i. info_probe (f i) = info_probe i) \<Longrightarrow> kept m (upd_info a f m)"
  by (auto simp: kept_def map_of_upd_info option.map_comp comp_def)

text \<open>The step of the manager after an event that ends a probe.\<close>

lemma end_step:
  assumes "mgr_acd_inv m acd" "pend acd = e0 # pend acd1" "view acd1 = view acd" "acd_inv acd1"
    "linked (m_addresses m) acd1" "ev_event e0 \<in> {N_ACD_EVENT_READY, N_ACD_EVENT_USED}" "ev_probe e0 = Some p"
    "view acd p = Some (s, Some a, a)" "map_of (m_addresses m) a = Some i" "info_probe i = Some p"
    "m_state m \<noteq> STATE_ANNOUNCING \<or> ev_event e0 = N_ACD_EVENT_USED"
    "m1 = (upd_info a (duplicate_update (\<lambda>_. ev_event e0 = N_ACD_EVENT_USED)) m)\<lparr>m_acd := Some acd1\<rparr>"
  shows "\<exists>emit m2. check_probing_done True m1 = (emit, m2) \<and> m_acd m2 = Some acd1 \<and> mgr_acd_inv m2 acd1 \<and> kept m m2
    \<and> emit = (m_state m = STATE_PROBING \<and> m_state m2 = STATE_PROBE_DONE)"
proof -
  let ?m = "upd_info a (duplicate_update (\<lambda>_. ev_event e0 = N_ACD_EVENT_USED)) m"
  have l: "linked (m_addresses ?m) acd1" by (rule linked_upd_info [OF assms(5)]) simp
  have ev: "\<forall>e\<in>set (pend acd1). ev_event e = N_ACD_EVENT_DOWN \<or> ev_probe e \<noteq> None"
    using assms(1,2) by (simp add: mgr_acd_inv_def)
  have k: "kept m ?m" by (rule kept_upd_info) simp
  have "a_probes acd \<noteq> Map.empty" using assms(8) by (auto simp: view_def)
  then have ni: "m_state m \<noteq> STATE_INIT" using assms(1) by (auto simp: mgr_acd_inv_def)
  show ?thesis
  proof (cases "m_state m = STATE_ANNOUNCING")
    case True
    then have "check_probing_done True m1 = (False, m1)" by (simp add: check_probing_done_def assms(12))
    moreover have "mgr_acd_inv m1 acd1" using True l ev assms(4,12) by (simp add: mgr_acd_inv_def)
    moreover have "kept m m1" using k by (simp add: assms(12) kept_def)
    ultimately show ?thesis using True assms(12) by (intro exI [of _ False]) simp
  next
    case False
    then have st: "m_state m \<in> {STATE_PROBING, STATE_PROBE_DONE}" using ni by (cases "m_state m") auto
    note pe = popped_end [OF assms(1-10) st]
    have lt: "m_completed m < length (m_addresses m)" using assms(1) pe(1) by (simp add: mgr_acd_inv_def)
    let ?m2 = "m1\<lparr>m_completed := m_completed m1 + 1, m_state := STATE_PROBE_DONE\<rparr>"
    let ?m3 = "m1\<lparr>m_completed := m_completed m1 + 1\<rparr>"
    show ?thesis
    proof (cases "m_completed m + 1 = length (m_addresses m)")
      case True
      then have "check_probing_done True m1 = (True, ?m2)" using pe(1) by (simp add: check_probing_done_def assms(12))
      moreover have "mgr_acd_inv ?m2 acd1" using True l ev assms(4) pe by (simp add: mgr_acd_inv_def assms(12))
      moreover have "kept m ?m2" using k pe(1) by (simp add: assms(12) kept_def)
      ultimately show ?thesis using pe(1) by (intro exI [of _ True]) (simp add: assms(12))
    next
      case False
      then have "check_probing_done True m1 = (False, ?m3)" using pe(1) by (simp add: check_probing_done_def assms(12))
      moreover have "mgr_acd_inv ?m3 acd1" using False lt l ev assms(4) pe by (simp add: mgr_acd_inv_def assms(12))
      moreover have "kept m ?m3" using k by (simp add: assms(12) kept_def)
      ultimately show ?thesis using pe(1) by (intro exI [of _ False]) (simp add: assms(12))
    qed
  qed
qed

lemma handle_step:
  assumes "good_os os" "mgr_acd_inv m acd" "n_acd_pop_event acd = (Some e, acd1)"
  shows "\<exists>check m1 emit m2 acd2. handle_event os (m\<lparr>m_acd := Some acd1\<rparr>) e = Some (check, m1)
    \<and> check_probing_done check m1 = (emit, m2) \<and> m_acd m2 = Some acd2 \<and> mgr_acd_inv m2 acd2 \<and> kept m m2
    \<and> length (pend acd2) < length (pend acd) \<and> emit = (m_state m = STATE_PROBING \<and> m_state m2 = STATE_PROBE_DONE)"
  using assms(2,3)
proof (rule popped)
  fix e0
  assume e0: "pend acd = e0 # pend acd1" "ev_event e = ev_event e0" "ev_probe e = ev_probe e0"
    and v: "view acd1 = view acd" and i: "acd_inv acd1" and l: "linked (m_addresses m) acd1"
    and *: "ev_event e = N_ACD_EVENT_DOWN \<or> (\<exists>p s a i. ev_probe e = Some p \<and> view acd p = Some (s, Some a, a)
       \<and> map_of (m_addresses m) a = Some i \<and> info_probe i = Some p)"
  have step: ?thesis if "handle_event os (m\<lparr>m_acd := Some acd1\<rparr>) e = Some (check, m1)"
    "check_probing_done check m1 = (emit, m2)" "m_acd m2 = Some acd2" "mgr_acd_inv m2 acd2" "kept m m2"
    "length (pend acd2) < length (pend acd)" "emit = (m_state m = STATE_PROBING \<and> m_state m2 = STATE_PROBE_DONE)"
    for check m1 emit m2 acd2
    using that by blast
  have other: ?thesis if "handle_event os (m\<lparr>m_acd := Some acd1\<rparr>) e = Some (False, m\<lparr>m_acd := Some acd1\<rparr>)"
    "ev_event e0 \<notin> {N_ACD_EVENT_READY, N_ACD_EVENT_USED}"
    by (rule step [OF that(1), of False "m\<lparr>m_acd := Some acd1\<rparr>" acd1]) (use popped_other [OF assms(2) e0(1) v i l that(2)] e0(1) in \<open>simp_all add: check_probing_done_def\<close>)
  show ?thesis
  proof (cases "ev_event e = N_ACD_EVENT_DOWN")
    case True
    then show ?thesis using e0(2) by (intro other) (simp_all add: handle_event_def)
  next
    case False
    then obtain p s a j where p: "ev_probe e0 = Some p" "view acd p = Some (s, Some a, a)" "map_of (m_addresses m) a = Some j"
      "info_probe j = Some p" using * e0(3) by auto
    obtain pr where pr: "a_probes acd1 p = Some pr" "p_userdata pr = Some a" using p(2) unfolding v [symmetric] view_Some by auto
    have ends: ?thesis if t: "ev_event e0 \<in> {N_ACD_EVENT_READY, N_ACD_EVENT_USED}"
      "m_state m \<noteq> STATE_ANNOUNCING \<or> ev_event e0 = N_ACD_EVENT_USED"
    proof -
      let ?m1 = "(upd_info a (duplicate_update (\<lambda>_. ev_event e0 = N_ACD_EVENT_USED)) m)\<lparr>m_acd := Some acd1\<rparr>"
      obtain emit m2 where c: "check_probing_done True ?m1 = (emit, m2)" "m_acd m2 = Some acd1" "mgr_acd_inv m2 acd1" "kept m m2"
        "emit = (m_state m = STATE_PROBING \<and> m_state m2 = STATE_PROBE_DONE)"
        using end_step [OF assms(2) e0(1) v i l t(1) p t(2) refl] by (elim exE conjE)
      have "ev_event e0 = N_ACD_EVENT_READY \<or> ev_event e0 = N_ACD_EVENT_USED" using t(1) by simp
      then have "handle_event os (m\<lparr>m_acd := Some acd1\<rparr>) e = Some (True, ?m1)"
        using t(2) p(1,3,4) pr e0(2,3) by (elim disjE) (simp_all add: handle_event_def)
      then show ?thesis by (rule step [OF _ c(1-4) _ c(5)]) (simp add: e0(1))
    qed
    have dc: ?thesis if "ev_event e0 = N_ACD_EVENT_DEFENDED \<or> ev_event e0 = N_ACD_EVENT_CONFLICT"
      using that p(1,3,4) pr e0(2,3) by (elim disjE; intro other) (simp_all add: handle_event_def)
    show ?thesis
    proof (cases "ev_event e0")
      case N_ACD_EVENT_READY
      show ?thesis
      proof (cases "m_state m = STATE_ANNOUNCING")
        case True
        have d: "p \<in> dom (a_probes acd1)" using pr(1) by auto
        have "wp (n_acd_probe_announce os acd1 p 1) (\<lambda>(r, acd2). acd_inv acd2)" by (rule wp_announce [OF assms(1) i d]) simp
        then obtain r acd2 where an: "n_acd_probe_announce os acd1 p 1 = Some (r, acd2)" and i2: "acd_inv acd2"
          by (auto simp: wp_Some_iff)
        let ?m = "(upd_info a (duplicate_update (\<lambda>_. False)) m)\<lparr>m_acd := Some acd2\<rparr>"
        have h: "handle_event os (m\<lparr>m_acd := Some acd1\<rparr>) e = Some (True, ?m)"
          using p pr e0 an True N_ACD_EVENT_READY by (simp add: handle_event_def)
        have "linked (m_addresses ?m) acd2"
          using linked_upd_info [OF announce_linked [OF an l], of "duplicate_update (\<lambda>_. False)" a] by simp
        moreover have "pend acd2 = pend acd1" by (simp add: pend_def announce_view(1) [OF an])
        ultimately have "mgr_acd_inv ?m acd2" using assms(2) e0(1) i2 True by (simp add: mgr_acd_inv_def)
        moreover have "kept m ?m" using kept_upd_info [of "duplicate_update (\<lambda>_. False)" m a] by (simp add: kept_def)
        ultimately show ?thesis
          by (intro step [OF h, of False ?m acd2]) (use True e0(1) \<open>pend acd2 = pend acd1\<close> in \<open>simp_all add: check_probing_done_def\<close>)
      qed (use N_ACD_EVENT_READY ends in simp)
    next
      case N_ACD_EVENT_USED
      then show ?thesis using ends by simp
    qed (use False e0(2) dc in simp_all)
  qed
qed

lemma event_loop_ok:
  assumes "good_os os"
  shows "mgr_acd_inv m acd \<Longrightarrow> m_acd m = Some acd \<Longrightarrow>
    \<exists>m' acd'. event_loop os m emit = Some (emit \<or> m_state m = STATE_PROBING \<and> m_state m' = STATE_PROBE_DONE, m')
      \<and> m_acd m' = Some acd' \<and> mgr_acd_inv m' acd' \<and> kept m m' \<and> pend acd' = []"
proof (induction "length (pend acd)" arbitrary: m acd emit rule: less_induct)
  case less
  obtain eo acd1 where pop: "n_acd_pop_event acd = (eo, acd1)" by fastforce
  show ?case
  proof (cases eo)
    case None
    note pn = acd_pop_None [OF pop [unfolded None]]
    have "acd_inv acd1" by (rule inv_pop_event [OF _ pop]) (use less.prems(1) in \<open>simp add: mgr_acd_inv_def\<close>)
    moreover have "probing_ok xs acd1 = probing_ok xs acd" "seen acd1 = seen acd" for xs
      using pn by (simp_all only: probing_ok_def seen_def)
    moreover have "a_probes acd1 = a_probes acd" using pop by (auto simp: n_acd_pop_event_def split: prod.splits)
    ultimately have "mgr_acd_inv m acd1"
      using less.prems(1) pn linked_view [of acd1 acd] by (auto simp: mgr_acd_inv_def)
    then show ?thesis using less.prems(2) pop None pn by (subst event_loop.simps) (auto simp: kept_def)
  next
    case (Some e)
    obtain check m1 emit1 m2 acd2 where h: "handle_event os (m\<lparr>m_acd := Some acd1\<rparr>) e = Some (check, m1)"
      "check_probing_done check m1 = (emit1, m2)" "m_acd m2 = Some acd2" "mgr_acd_inv m2 acd2" "kept m m2"
      "length (pend acd2) < length (pend acd)" "emit1 = (m_state m = STATE_PROBING \<and> m_state m2 = STATE_PROBE_DONE)"
      using handle_step [OF assms less.prems(1) pop [unfolded Some]] by blast
    obtain m' acd' where l: "event_loop os m2 (emit \<or> emit1) =
        Some ((emit \<or> emit1) \<or> m_state m2 = STATE_PROBING \<and> m_state m' = STATE_PROBE_DONE, m')"
      "m_acd m' = Some acd'" "mgr_acd_inv m' acd'" "kept m2 m'" "pend acd' = []"
      using less.hyps [OF h(6,4,3), of "emit \<or> emit1"] by blast
    have "event_loop os m emit = event_loop os m2 (emit \<or> emit1)"
      using less.prems(2) pop Some h(1,2) by (subst event_loop.simps) simp
    moreover have "((emit \<or> emit1) \<or> m_state m2 = STATE_PROBING \<and> m_state m' = STATE_PROBE_DONE) =
        (emit \<or> m_state m = STATE_PROBING \<and> m_state m' = STATE_PROBE_DONE)"
      using h(5,7) l(4) by (auto simp: kept_def)
    ultimately show ?thesis using l kept_trans [OF h(5) l(4)] by simp
  qed
qed

lemma acd_event_ok:
  assumes "good_os os" "mgr_inv m" "m_acd m = Some acd"
  shows "\<exists>m' acd' r acd1. acd_event os m wait = Some m' \<and> mgr_inv m' \<and> m_acd m' = Some acd' \<and> m_watch m' = m_watch m
    \<and> n_acd_dispatch os acd wait = Some (r, acd1) \<and> (r = 0 \<longrightarrow> pend acd' = [])
    \<and> (\<forall>a. map_option info_probe (map_of (m_addresses m') a) = map_option info_probe (map_of (m_addresses m) a))
    \<and> (m_state m' = m_state m \<or> m_state m = STATE_PROBING \<and> m_state m' = STATE_PROBE_DONE)"
proof -
  have mi: "mgr_acd_inv m acd" and tm: "m_terminated m = (if m_state m = STATE_PROBE_DONE \<and> m_callback m then 1 else 0)"
    using assms(2,3) by (simp_all add: mgr_inv_def)
  have "wp (n_acd_dispatch os acd wait) (\<lambda>(r, acd1). acd_inv acd1)"
    by (rule wp_dispatch [OF assms(1)]) (use mi in \<open>simp_all add: mgr_acd_inv_def\<close>)
  then obtain r acd1 where d: "n_acd_dispatch os acd wait = Some (r, acd1)" and i1: "acd_inv acd1"
    by (auto simp: wp_Some_iff)
  have m1: "mgr_acd_inv m acd1" by (rule mgr_track [OF mi track_dispatch [OF d] i1])
  show ?thesis
  proof (cases "r = 0")
    case False
    then show ?thesis using d m1 tm assms(3) by (simp add: acd_event_def mgr_inv_def)
  next
    case True
    have "mgr_acd_inv (m\<lparr>m_acd := Some acd1\<rparr>) acd1" "m_acd (m\<lparr>m_acd := Some acd1\<rparr>) = Some acd1" using m1 by simp_all
    from event_loop_ok [OF assms(1) this, of False] obtain m' acd' where
      l: "event_loop os (m\<lparr>m_acd := Some acd1\<rparr>) False = Some (m_state m = STATE_PROBING \<and> m_state m' = STATE_PROBE_DONE, m')"
      "m_acd m' = Some acd'" "mgr_acd_inv m' acd'" "kept m m'" "pend acd' = []"
      by (auto simp: kept_def)
    let ?m = "if (m_state m = STATE_PROBING \<and> m_state m' = STATE_PROBE_DONE) \<and> m_callback m'
      then m'\<lparr>m_terminated := m_terminated m' + 1\<rparr> else m'"
    have "acd_event os m wait = Some ?m" using assms(3) d True l(1) by (simp add: acd_event_def)
    moreover have "mgr_inv ?m" using l tm by (auto simp: mgr_inv_def kept_def)
    ultimately show ?thesis using l d by (auto simp: kept_def)
  qed
qed

section \<open>Starting probes\<close>

lemma calm_tick [simp]: "calm (tick a) b = calm a b"
  by (simp add: calm_def)

lemma calm_fill: "bpf_map_fill os acd mx qs m = Some (r, acd', m') \<Longrightarrow> calm acd acd'"
proof (induction qs arbitrary: acd m)
  case (Cons q qs)
  obtain pr where pr: "a_probes acd q = Some pr" using Cons.prems by (cases "a_probes acd q") simp_all
  obtain x m1 where x: "n_acd_bpf_map_add os (a_calls acd) m mx (p_ip pr) = (x, m1)" by fastforce
  show ?case
  proof (cases "x = 0")
    case True
    then have "bpf_map_fill os (tick acd) mx qs m1 = Some (r, acd', m')" using Cons.prems pr x by simp
    from Cons.IH [OF this] show ?thesis by simp
  qed (use Cons.prems pr x in auto)
qed simp

lemma calm_ensure:
  assumes "n_acd_ensure_bpf_map_space os acd = Some (r, acd')"
  shows "calm acd acd'"
proof (cases "a_n_bpf_map acd < a_max_bpf_map acd \<or> os_bpf os (a_calls acd) \<noteq> 0")
  case True
  then show ?thesis using assms by (auto simp: n_acd_ensure_bpf_map_space_def Let_def split: if_splits)
next
  case False
  then obtain r1 a1 m where f: "bpf_map_fill os (tick acd) (2 * a_max_bpf_map acd) (inorder (a_ip_tree acd)) [] = Some (r1, a1, m)"
    using assms by (auto simp: n_acd_ensure_bpf_map_space_def Let_def bind_eq_Some_conv)
  have "calm a1 acd'" using assms False f by (auto simp: n_acd_ensure_bpf_map_space_def Let_def split: if_splits)
  with calm_fill [OF f] show ?thesis by (auto intro: calm_trans)
qed

lemma calm_link:
  assumes "n_acd_probe_link os acd p = Some (r, acd')"
  shows "calm acd acd'"
proof -
  obtain r1 a1 where e: "n_acd_ensure_bpf_map_space os acd = Some (r1, a1)"
    using assms by (auto simp: n_acd_probe_link_def bind_eq_Some_conv)
  have "calm a1 acd'" using assms e
    by (auto simp: n_acd_probe_link_def bind_eq_Some_conv tree_unlink_def Let_def split: if_splits prod.splits)
  then show ?thesis using calm_ensure [OF e] by (blast intro: calm_trans)
qed

lemma free_view:
  assumes "n_acd_probe_free os acd p = Some acd'"
  shows "view acd' = (view acd)(p := None)"
    "a_event_list acd' = filter (\<lambda>node. ev_probe node \<noteq> Some p) (a_event_list acd)"
proof -
  let ?a = "acd\<lparr>a_event_list := filter (\<lambda>node. ev_probe node \<noteq> Some p) (a_event_list acd)\<rparr>"
  obtain a1 a2 where "timeout_unschedule os ?a p = Some a1" "n_acd_probe_unlink os a1 p = Some a2"
    and d: "acd' = a2\<lparr>a_n_refs := a_n_refs a2 - 1, a_probes := (a_probes a2)(p := None)\<rparr>"
    using assms by (auto simp: n_acd_probe_free_def bind_eq_Some_conv)
  then have "calm ?a a2" by (blast intro: calm_trans calm_unschedule calm_unlink)
  then have v: "view a2 = view acd" and "a_event_list a2 = a_event_list ?a" by (simp_all add: calm_def)
  then show "a_event_list acd' = filter (\<lambda>node. ev_probe node \<noteq> Some p) (a_event_list acd)" by (simp add: d)
  show "view acd' = (view acd)(p := None)" unfolding v [symmetric] d by (rule ext) (simp add: view_def)
qed

lemma probe_new_view:
  assumes "acd_inv acd" "n_acd_probe_new os acd a T = Some (r, po, acd')"
  shows "a_event_list acd' = a_event_list acd \<and>
    (case po of None \<Rightarrow> r \<noteq> 0 \<and> view acd' = view acd
     | Some p \<Rightarrow> r = 0 \<and> view acd p = None \<and> view acd' = (view acd)(p \<mapsto> (N_ACD_PROBE_STATE_PROBING, None, a)))"
proof (cases "a = 0 \<or> \<not> os_alloc os (a_calls acd)")
  case True
  then show ?thesis using assms(2) by (cases "a = 0") (auto simp: n_acd_probe_new_def)
next
  case False
  let ?p = "a_next_id acd"
  let ?a = "(tick acd)\<lparr>a_next_id := ?p + 1, a_n_refs := a_n_refs acd + 1, a_probes := (a_probes acd)(?p \<mapsto>
    N_ACD_PROBE_NULL\<lparr>p_ip := a, p_timeout_multiplier := T\<rparr>)\<rparr>"
  have none: "a_probes acd ?p = None" using assms(1) by (cases "a_probes acd ?p") (auto simp: acd_inv_def)
  have nv: "view acd ?p = None" using none by (simp add: view_def)
  have va: "view ?a = (view acd)(?p \<mapsto> (N_ACD_PROBE_STATE_PROBING, None, a))"
    by (rule ext) (simp add: view_def N_ACD_PROBE_NULL_def)
  obtain r2 a2 where l: "n_acd_probe_link os ?a ?p = Some (r2, a2)"
    using assms(2) False by (auto simp: n_acd_probe_new_def Let_def bind_eq_Some_conv)
  have c: "view a2 = view ?a" "a_event_list a2 = a_event_list acd" using calm_link [OF l] by (simp_all add: calm_def)
  show ?thesis
  proof (cases "r2 = 0")
    case True
    then obtain n d j where "n_acd_probe_schedule os (upd_probe ?p (p_n_iteration_update (\<lambda>_. n)) a2) ?p d j = Some acd'"
      and rp: "r = 0" "po = Some ?p"
      using assms(2) False l by (auto simp: n_acd_probe_new_def Let_def bind_eq_Some_conv split: if_splits)
    then have "calm (upd_probe ?p (p_n_iteration_update (\<lambda>_. n)) a2) acd'" by (intro calm_probe_schedule)
    then show ?thesis using c va nv rp by (simp add: calm_def view_upd_probe)
  next
    case r2: False
    then have f: "n_acd_probe_free os a2 ?p = Some acd'" and rp: "r = r2" "po = None"
      using assms(2) False l by (auto simp: n_acd_probe_new_def Let_def bind_eq_Some_conv)
    have "filter (\<lambda>node. ev_probe node \<noteq> Some ?p) (a_event_list acd) = a_event_list acd"
      using assms(1) none by (auto simp: filter_id_conv acd_inv_def events_ok_def)
    then show ?thesis using free_view [OF f] c va nv rp r2 by (simp add: fun_upd_idem)
  qed
qed

lemma userdata_view:
  "view acd p = Some (s, u, c) \<Longrightarrow> view (n_acd_probe_set_userdata acd p a) = (view acd)(p \<mapsto> (s, Some a, c))"
  by (rule ext) (auto simp: view_def n_acd_probe_set_userdata_def)

text \<open>The state while probes are added: all of them still probe, and no event names a probe.\<close>

definition starting :: "NMAcdManager \<Rightarrow> NAcd \<Rightarrow> bool" where
  "starting m acd \<longleftrightarrow> m_acd m = Some acd \<and> acd_inv acd \<and> linked (m_addresses m) acd
     \<and> (\<forall>e\<in>set (a_event_list acd). ev_probe e = None)
     \<and> (\<forall>e\<in>set (pend acd). ev_event e = N_ACD_EVENT_DOWN)
     \<and> (\<forall>p s u. view acd p = Some (s, u) \<longrightarrow> s = N_ACD_PROBE_STATE_PROBING)"

lemma linked_add:
  assumes "linked (m_addresses m) acd" "map_of (m_addresses m) a = Some i" "info_probe i = None"
    "view acd p = None" "view acd' = (view acd)(p \<mapsto> (s, Some a, a))"
  shows "linked (m_addresses (upd_info a (info_probe_update (\<lambda>_. Some p)) m)) acd'"
  unfolding linked_def
proof (intro conjI allI impI)
  let ?m = "upd_info a (info_probe_update (\<lambda>_. Some p)) m"
  show "distinct (map fst (m_addresses ?m))" using linkedD(1) [OF assms(1)] by simp
  fix b j q
  assume j: "map_of (m_addresses ?m) b = Some j" "info_probe j = Some q"
  show "\<exists>s. view acd' q = Some (s, Some b, b)"
  proof (cases "b = a")
    case True
    then show ?thesis using j assms(2,5) by (auto simp: map_of_upd_info)
  next
    case False
    then have "\<exists>s. view acd q = Some (s, Some b, b)" using j linkedD(2) [OF assms(1), of b j q] by (simp add: map_of_upd_info)
    then show ?thesis using assms(4,5) by auto
  qed
next
  let ?m = "upd_info a (info_probe_update (\<lambda>_. Some p)) m"
  fix q t u
  assume v: "view acd' q = Some (t, u)"
  show "\<exists>b j. u = (Some b, b) \<and> map_of (m_addresses ?m) b = Some j \<and> info_probe j = Some q"
  proof (cases "q = p")
    case True
    then show ?thesis using v assms(2,5) by (auto simp: map_of_upd_info)
  next
    case False
    then obtain b j where b: "u = (Some b, b)" "map_of (m_addresses m) b = Some j" "info_probe j = Some q"
      using v assms(5) linkedD(3) [OF assms(1), of q t u] by auto
    then have "b \<noteq> a" using assms(2,3) by auto
    then show ?thesis using b by (auto simp: map_of_upd_info)
  qed
qed

definition same_cfg :: "NMAcdManager \<Rightarrow> NMAcdManager \<Rightarrow> bool" where
  "same_cfg m m' \<longleftrightarrow> m_state m' = m_state m \<and> m_completed m' = m_completed m \<and> m_callback m' = m_callback m
     \<and> m_terminated m' = m_terminated m \<and> m_watch m' = m_watch m \<and> map fst (m_addresses m') = map fst (m_addresses m)"

lemma same_cfg_refl [simp]: "same_cfg m m" "same_cfg m (m\<lparr>m_acd := x\<rparr>)"
  by (simp_all add: same_cfg_def)

lemma same_cfg_trans: "same_cfg a b \<Longrightarrow> same_cfg b c \<Longrightarrow> same_cfg a c"
  by (simp add: same_cfg_def)

lemma probe_add_ok:
  assumes "good_os os" "starting m acd" "map_of (m_addresses m) a = Some i" "info_probe i = None" "T < 2 ^ 32"
  shows "\<exists>s m' acd'. acd_probe_add os m a T = Some (s, m') \<and> starting m' acd' \<and> same_cfg m m'
    \<and> (\<forall>b. b \<noteq> a \<longrightarrow> map_of (m_addresses m') b = map_of (m_addresses m) b)
    \<and> (if s then dom (view acd') \<noteq> {} else view acd' = view acd)"
proof (cases "os_alloc os (a_calls acd)")
  case False
  have "pend (tick acd) = pend acd" by (simp add: pend_def)
  then have "starting (m\<lparr>m_acd := Some (tick acd)\<rparr>) (tick acd)"
    using assms(2) linked_view [of "tick acd" acd] by (simp add: starting_def)
  then show ?thesis using False assms(2)
    by (intro exI [of _ False] exI [of _ "m\<lparr>m_acd := Some (tick acd)\<rparr>"]) (auto simp: acd_probe_add_def starting_def)
next
  case True
  have m: "m_acd m = Some acd" and ti: "acd_inv (tick acd)" and l: "linked (m_addresses m) acd" using assms(2) by (simp_all add: starting_def)
  have "wp (n_acd_probe_new os (tick acd) a T) (\<lambda>(r, po, acd1). acd_inv acd1)"
    by (rule wp_probe_new [OF assms(1) ti assms(5)]) simp
  then obtain r po acd1 where n: "n_acd_probe_new os (tick acd) a T = Some (r, po, acd1)" and i1: "acd_inv acd1"
    by (auto simp: wp_Some_iff)
  note v = probe_new_view [OF ti n]
  then have e1: "a_event_list acd1 = a_event_list acd" by simp
  show ?thesis
  proof (cases po)
    case None
    then have "view acd1 = view acd" "r \<noteq> 0" using v by simp_all
    moreover from this have "starting (m\<lparr>m_acd := Some acd1\<rparr>) acd1"
      using assms(2) i1 e1 linked_view [of acd1 acd] by (simp add: starting_def pend_def)
    ultimately show ?thesis using True m n
      by (intro exI [of _ False] exI [of _ "m\<lparr>m_acd := Some acd1\<rparr>"] exI [of _ acd1]) (simp add: acd_probe_add_def)
  next
    case (Some p)
    let ?acd = "n_acd_probe_set_userdata acd1 p a"
    let ?m = "(upd_info a (info_probe_update (\<lambda>_. Some p)) m)\<lparr>m_acd := Some ?acd\<rparr>"
    have p: "r = 0" "view acd p = None" "view acd1 = (view acd)(p \<mapsto> (N_ACD_PROBE_STATE_PROBING, None, a))"
      using v Some by simp_all
    then have v2: "view ?acd = (view acd)(p \<mapsto> (N_ACD_PROBE_STATE_PROBING, Some a, a))"
      using userdata_view [of acd1 p N_ACD_PROBE_STATE_PROBING None a a] by simp
    have ev: "a_event_list ?acd = a_event_list acd" using e1 by (simp add: n_acd_probe_set_userdata_def)
    have "linked (m_addresses ?m) ?acd" using linked_add [OF l assms(3,4) p(2) v2] by simp
    then have "starting ?m ?acd"
      using assms(2) inv_userdata [OF i1, of p a] ev v2 by (auto simp: starting_def pend_def split: if_splits)
    moreover have "acd_probe_add os m a T = Some (True, ?m)" using True m n p(1) Some by (simp add: acd_probe_add_def)
    moreover have "same_cfg m ?m" by (simp add: same_cfg_def)
    moreover have "\<forall>b. b \<noteq> a \<longrightarrow> map_of (m_addresses ?m) b = map_of (m_addresses m) b" by (simp add: map_of_upd_info)
    moreover have "p \<in> dom (view ?acd)" by (simp only: v2 dom_fun_upd) simp
    then have "dom (view ?acd) \<noteq> {}" by blast
    ultimately show ?thesis by (intro exI [of _ True] exI [of _ ?m] exI [of _ ?acd]) simp
  qed
qed

lemma probe_all_ok:
  assumes "good_os os" "T < 2 ^ 32"
  shows "starting m acd \<Longrightarrow> distinct ks \<Longrightarrow> \<forall>a\<in>set ks. \<exists>i. map_of (m_addresses m) a = Some i \<and> info_probe i = None \<Longrightarrow>
    \<exists>ss m' acd'. probe_all os m ks T = Some (ss, m') \<and> starting m' acd' \<and> same_cfg m m'
      \<and> (True \<notin> set ss \<longrightarrow> view acd' = view acd)
      \<and> (True \<in> set ss \<or> dom (view acd) \<noteq> {} \<longrightarrow> dom (view acd') \<noteq> {})"
proof (induction ks arbitrary: m acd)
  case (Cons a ks)
  obtain i where "map_of (m_addresses m) a = Some i" "info_probe i = None" using Cons.prems(3) by auto
  from probe_add_ok [OF assms(1) Cons.prems(1) this assms(2)] obtain s m1 acd1 where
    1: "acd_probe_add os m a T = Some (s, m1)" "starting m1 acd1" "same_cfg m m1"
    "\<forall>b. b \<noteq> a \<longrightarrow> map_of (m_addresses m1) b = map_of (m_addresses m) b"
    "if s then dom (view acd1) \<noteq> {} else view acd1 = view acd" by blast
  have "\<forall>b\<in>set ks. \<exists>i. map_of (m_addresses m1) b = Some i \<and> info_probe i = None"
    using Cons.prems(2,3) 1(4) by auto
  moreover have "distinct ks" using Cons.prems(2) by simp
  ultimately obtain ss m2 acd2 where
    2: "probe_all os m1 ks T = Some (ss, m2)" "starting m2 acd2" "same_cfg m1 m2" "True \<notin> set ss \<longrightarrow> view acd2 = view acd1"
    "True \<in> set ss \<or> dom (view acd1) \<noteq> {} \<longrightarrow> dom (view acd2) \<noteq> {}"
    using Cons.IH [OF 1(2)] by blast
  have "probe_all os m (a # ks) T = Some (s # ss, m2)" using 1(1) 2(1) by simp
  moreover have "True \<notin> set (s # ss) \<longrightarrow> view acd2 = view acd" using 1(5) 2(4) by (cases s) auto
  moreover have "True \<in> set (s # ss) \<or> dom (view acd) \<noteq> {} \<longrightarrow> dom (view acd2) \<noteq> {}"
    using 1(5) 2(5) by (cases s) (auto simp del: dom_acd_view)
  ultimately show ?case using 2(2) same_cfg_trans [OF 1(3) 2(3)] by blast
qed (auto simp del: dom_acd_view)

section \<open>The operations of the interface\<close>

lemma new_context:
  "n_acd_new ifindex e mac n alloc errors = (r, acdo) \<Longrightarrow>
     if r = 0 then \<exists>acd. acdo = Some acd \<and> acd_inv acd \<and> a_probes acd = Map.empty \<and> a_event_list acd = [] else acdo = None"
  using inv_new [of ifindex e mac n alloc errors r] filter_eq_Cons_iff [of "\<lambda>r. r \<noteq> 0" errors]
  by (auto simp: n_acd_new_def split: if_splits list.splits)

lemma init_ok:
  assumes "mgr_inv m" "acd_init m config alloc errors = (r, m1)"
  shows "mgr_inv m1 \<and> same_cfg m m1 \<and> m_addresses m1 = m_addresses m \<and> (r = 0 \<longrightarrow> (\<exists>acd. m_acd m1 = Some acd))"
proof (cases "m_acd m")
  case (Some acd)
  then show ?thesis using assms by (simp add: acd_init_def)
next
  case None
  show ?thesis
  proof (cases config)
    case False
    then show ?thesis using assms None by (auto simp: acd_init_def)
  next
    case True
    obtain x acdo where x: "n_acd_new (m_ifindex m) True (m_hwaddr m) 6 alloc errors = (x, acdo)" by fastforce
    then have m1: "r = x" "m1 = m\<lparr>m_acd := acdo\<rparr>" using assms(2) None True by (simp_all add: acd_init_def)
    show ?thesis
    proof (cases "r = 0")
      case False
      then have "m1 = m" using new_context [OF x] m1 None by simp
      then show ?thesis using assms(1) False by simp
    next
      case True
      then obtain acd where a: "acdo = Some acd" "acd_inv acd" "a_probes acd = Map.empty" "a_event_list acd = []"
        using new_context [OF x] m1 by auto
      have i: "info_probe i = None" if "map_of (m_addresses m) b = Some i" for b i
        using assms(1) None map_of_SomeD [OF that] by (force simp: mgr_inv_def)
      have "linked (m_addresses m) acd"
        using assms(1) None i a(3) unfolding linked_def by (auto simp: mgr_inv_def view_def)
      then show ?thesis using assms(1) None a m1 by (simp add: mgr_inv_def mgr_acd_inv_def pend_def)
    qed
  qed
qed

lemma init_starting:
  assumes "mgr_inv m" "m_state m = STATE_INIT" "m_acd m = Some acd"
  shows "starting m acd" "dom (view acd) = {}" "\<forall>a\<in>fst ` set (m_addresses m). \<exists>i. map_of (m_addresses m) a = Some i \<and> info_probe i = None"
proof -
  have a: "mgr_acd_inv m acd" "a_probes acd = Map.empty" using assms by (simp_all add: mgr_inv_def mgr_acd_inv_def)
  then have e: "\<forall>e\<in>set (a_event_list acd). ev_probe e = None"
    by (auto simp: mgr_acd_inv_def acd_inv_def events_ok_def)
  have "\<forall>e\<in>set (pend acd). ev_event e = N_ACD_EVENT_DOWN"
    using a(1) e by (auto simp: mgr_acd_inv_def pend_def)
  with a e assms(3) show "starting m acd" by (auto simp: starting_def mgr_acd_inv_def view_def)
  show "dom (view acd) = {}" using a(2) by simp
  have l: "linked (m_addresses m) acd" using a(1) by (simp add: mgr_acd_inv_def)
  show "\<forall>a\<in>fst ` set (m_addresses m). \<exists>i. map_of (m_addresses m) a = Some i \<and> info_probe i = None"
  proof
    fix b assume "b \<in> fst ` set (m_addresses m)"
    then have "map_of (m_addresses m) b \<noteq> None" by (simp add: map_of_eq_None_iff)
    then obtain i where i: "map_of (m_addresses m) b = Some i" by auto
    have "info_probe i = None"
    proof (cases "info_probe i")
      case (Some p)
      then show ?thesis using linkedD(2) [OF l i Some] a(2) by (simp add: view_def)
    qed simp
    with i show "\<exists>i. map_of (m_addresses m) b = Some i \<and> info_probe i = None" by blast
  qed
qed

lemma ends_none: "\<forall>e\<in>set es. ev_probe e = None \<Longrightarrow> ends p es = []"
  by (auto simp: ends_def filter_empty_conv)

lemma starting_probing:
  assumes "starting m acd" "m_completed m = 0" "dom (view acd) \<noteq> {}"
  shows "mgr_acd_inv (m\<lparr>m_state := STATE_PROBING\<rparr>) acd"
proof -
  have e: "ends p (pend acd) = []" for p using assms(1) by (intro ends_none) (auto simp: starting_def pend_def)
  have v: "s = N_ACD_PROBE_STATE_PROBING" if "view acd p = Some (s, u)" for p s u
    using assms(1) that unfolding starting_def by blast
  have "seen acd = {}" using v by (auto simp: seen_def)
  moreover have "probing_ok (m_addresses m) acd" using v e by (auto simp: probing_ok_def)
  moreover have "0 < card (dom (view acd))"
    using assms(1,3) finite_view [of acd] by (auto simp: card_gt_0_iff starting_def simp del: dom_acd_view)
  then have "0 < length (m_addresses m)" using card_probes(1) [of "m_addresses m" acd] assms(1)
    unfolding starting_def by linarith
  ultimately show ?thesis using assms(1,2) by (auto simp: mgr_acd_inv_def starting_def)
qed

lemma start_probe_ok:
  assumes "good_os os" "good_order ht" "mgr_inv m" "m_state m = STATE_INIT \<Longrightarrow> \<not> m_watch m"
  shows "\<exists>r m'. nm_acd_manager_start_probe os ht m timeout config alloc errors = Some (r, m') \<and> mgr_inv m'"
proof (cases "m_state m = STATE_INIT")
  case False
  then show ?thesis using assms(3) by (simp add: nm_acd_manager_start_probe_def)
next
  case True
  obtain r m1 where m1: "acd_init m config alloc errors = (r, m1)" by fastforce
  note i = init_ok [OF assms(3) m1]
  show ?thesis
  proof (cases "r = 0")
    case False
    then show ?thesis using True m1 i by (simp add: nm_acd_manager_start_probe_def)
  next
    case r: True
    then obtain acd where acd: "m_acd m1 = Some acd" using i by blast
    let ?m = "m1\<lparr>m_completed := 0\<rparr>" and ?ks = "ht (map fst (m_addresses m1))"
    have st: "m_state m1 = STATE_INIT" "m_watch m1 = m_watch m" using i True by (simp_all add: same_cfg_def)
    note ist = init_starting [OF conjunct1 [OF i] st(1) acd]
    have s0: "starting ?m acd" using ist(1) by (simp add: starting_def)
    have "distinct (map fst (m_addresses m1))" using ist(1) by (simp add: starting_def linked_def)
    then have ks: "distinct ?ks" "set ?ks = fst ` set (m_addresses m1)" using assms(2) by (simp_all add: good_order_def)
    have T: "(ucast timeout :: u64) < 2 ^ 32"
      using unsigned_less [where 'a = nat, of timeout] by (simp add: word_less_nat_alt unsigned_ucast_eq take_bit_nat_eq_self)
    obtain ss m2 acd2 where p: "probe_all os ?m ?ks (ucast timeout) = Some (ss, m2)" "starting m2 acd2" "same_cfg ?m m2"
      "True \<notin> set ss \<longrightarrow> view acd2 = view acd" "True \<in> set ss \<longrightarrow> dom (view acd2) \<noteq> {}"
      using probe_all_ok [OF assms(1) T s0 ks(1)] ks(2) ist(3) by auto
    have w: "\<not> m_watch m2" "m_terminated m2 = 0" "m_completed m2 = 0" "m_state m2 = STATE_INIT"
      using p(3) st assms(4) True conjunct1 [OF i] by (auto simp: same_cfg_def mgr_inv_def)
    show ?thesis
    proof (cases "True \<in> set ss")
      case ok: True
      have "mgr_acd_inv (m2\<lparr>m_state := STATE_PROBING\<rparr>) acd2" using starting_probing [OF p(2)] w p(5) ok by simp
      then have "mgr_inv (m2\<lparr>m_state := STATE_PROBING, m_watch := True\<rparr>)"
        using p(2) w by (simp add: mgr_inv_def starting_def)
      then show ?thesis using True m1 r p(1) ok w by (simp add: nm_acd_manager_start_probe_def)
    next
      case no: False
      then have "dom (view acd2) = {}" using p(4) ist(2) by simp
      then have "mgr_inv (m2\<lparr>m_watch := True\<rparr>)"
        using p(2) w by (auto simp: mgr_inv_def mgr_acd_inv_def starting_def)
      then show ?thesis using True m1 r p(1) no w by (simp add: nm_acd_manager_start_probe_def)
    qed
  qed
qed

lemma announce_all_ok:
  assumes "good_os os"
  shows "mgr_acd_inv m acd \<Longrightarrow> m_acd m = Some acd \<Longrightarrow> m_state m = STATE_ANNOUNCING \<Longrightarrow>
    \<forall>a\<in>set ks. \<exists>i. map_of (m_addresses m) a = Some i \<and> (duplicate i \<or> info_probe i \<noteq> None) \<Longrightarrow>
    \<exists>s m' acd'. announce_all os m ks = Some (s, m') \<and> mgr_acd_inv m' acd' \<and> m_acd m' = Some acd' \<and> same_cfg m m'"
proof (induction ks arbitrary: m acd)
  case (Cons a ks)
  obtain i where i: "map_of (m_addresses m) a = Some i" "duplicate i \<or> info_probe i \<noteq> None" using Cons.prems(4) by auto
  show ?case
  proof (cases "duplicate i")
    case True
    then show ?thesis using Cons.IH [OF Cons.prems(1-3)] Cons.prems(4) i(1) by simp
  next
    case False
    then obtain p where p: "info_probe i = Some p" using i(2) by auto
    have l: "linked (m_addresses m) acd" and ai: "acd_inv acd" using Cons.prems(1) by (simp_all add: mgr_acd_inv_def)
    obtain s where "view acd p = Some (s, Some a, a)" using linkedD(2) [OF l i(1) p] by blast
    then have d: "p \<in> dom (a_probes acd)" by (auto simp: view_def)
    have "wp (n_acd_probe_announce os acd p 1) (\<lambda>(r, acd2). acd_inv acd2)" by (rule wp_announce [OF assms ai d]) simp
    then obtain r acd1 where an: "n_acd_probe_announce os acd p 1 = Some (r, acd1)" and i1: "acd_inv acd1"
      by (auto simp: wp_Some_iff)
    have "pend acd1 = pend acd" by (simp add: pend_def announce_view(1) [OF an])
    then have "mgr_acd_inv (m\<lparr>m_acd := Some acd1\<rparr>) acd1"
      using Cons.prems(1,3) i1 announce_linked [OF an l] by (simp add: mgr_acd_inv_def)
    from Cons.IH [OF this] Cons.prems(3,4) obtain s m' acd' where
      "announce_all os (m\<lparr>m_acd := Some acd1\<rparr>) ks = Some (s, m')" "mgr_acd_inv m' acd'" "m_acd m' = Some acd'"
      "same_cfg (m\<lparr>m_acd := Some acd1\<rparr>) m'" by auto
    then show ?thesis using i(1) False p an Cons.prems(2) by (simp add: same_cfg_def)
  qed
qed auto

lemma announce_ok:
  assumes "good_os os" "good_order ht" "mgr_inv m"
    "m_state m = STATE_ANNOUNCING \<Longrightarrow> \<forall>i\<in>snd ` set (m_addresses m). duplicate i \<or> info_probe i \<noteq> None"
  shows "\<exists>r m'. nm_acd_manager_announce_addresses os ht m config alloc errors = Some (r, m') \<and> mgr_inv m'"
proof -
  obtain r m1 where m1: "acd_init m config alloc errors = (r, m1)" by fastforce
  note i = init_ok [OF assms(3) m1]
  show ?thesis
  proof (cases "r = 0")
    case False
    then show ?thesis using m1 i by (simp add: nm_acd_manager_announce_addresses_def)
  next
    case r: True
    then obtain acd where acd: "m_acd m1 = Some acd" using i by blast
    let ?ks = "ht (map fst (m_addresses m1))"
    have mi: "mgr_acd_inv m1 acd" and tm: "m_terminated m1 = (if m_state m1 = STATE_PROBE_DONE \<and> m_callback m1 then 1 else 0)"
      using i acd by (simp_all add: mgr_inv_def)
    have "distinct (map fst (m_addresses m1))" using mi by (simp add: mgr_acd_inv_def linked_def)
    then have ks: "distinct ?ks" "set ?ks = fst ` set (m_addresses m1)" using assms(2) by (simp_all add: good_order_def)
    consider "m_state m1 = STATE_INIT" | "m_state m1 = STATE_ANNOUNCING" | "m_state m1 \<noteq> STATE_INIT" "m_state m1 \<noteq> STATE_ANNOUNCING"
      by blast
    then show ?thesis
    proof cases
      case 1
      note ist = init_starting [OF conjunct1 [OF i] 1 acd]
      obtain ss m2 acd2 where p: "probe_all os m1 ?ks 0 = Some (ss, m2)" "starting m2 acd2" "same_cfg m1 m2"
        using probe_all_ok [OF assms(1) _ ist(1) ks(1), of 0] ks(2) ist(3) by (auto simp: word_less_nat_alt)
      have "mgr_inv (m2\<lparr>m_state := STATE_ANNOUNCING, m_watch := True\<rparr>)"
        using p(2,3) tm 1 by (simp add: mgr_inv_def mgr_acd_inv_def starting_def same_cfg_def)
      then show ?thesis using m1 r p(1) 1 by (simp add: nm_acd_manager_announce_addresses_def)
    next
      case 2
      have "m_state m = STATE_ANNOUNCING" using i 2 by (simp add: same_cfg_def)
      then have dup: "\<forall>i\<in>snd ` set (m_addresses m1). duplicate i \<or> info_probe i \<noteq> None" using assms(4) i by simp
      have "\<forall>a\<in>set ?ks. \<exists>i. map_of (m_addresses m1) a = Some i \<and> (duplicate i \<or> info_probe i \<noteq> None)"
      proof
        fix a assume "a \<in> set ?ks"
        then have "map_of (m_addresses m1) a \<noteq> None" unfolding ks(2) by (simp add: map_of_eq_None_iff)
        then obtain i where i: "map_of (m_addresses m1) a = Some i" by auto
        then have "i \<in> snd ` set (m_addresses m1)" using map_of_SomeD [OF i] by force
        with i dup show "\<exists>i. map_of (m_addresses m1) a = Some i \<and> (duplicate i \<or> info_probe i \<noteq> None)" by blast
      qed
      from announce_all_ok [OF assms(1) mi acd 2 this] obtain s m2 acd2 where
        p: "announce_all os m1 ?ks = Some (s, m2)" "mgr_acd_inv m2 acd2" "m_acd m2 = Some acd2" "same_cfg m1 m2" by blast
      have "mgr_inv (m2\<lparr>m_watch := True\<rparr>)" using p tm by (simp add: mgr_inv_def same_cfg_def)
      then show ?thesis using m1 r p(1) 2 by (simp add: nm_acd_manager_announce_addresses_def)
    next
      case 3
      have "mgr_inv (m1\<lparr>m_watch := True\<rparr>)" using mi tm acd by (simp add: mgr_inv_def)
      then show ?thesis using m1 r 3 by (simp add: nm_acd_manager_announce_addresses_def)
    qed
  qed
qed

lemma add_ok: "mgr_inv m \<Longrightarrow> nm_acd_manager_add_address m a = (r, m') \<Longrightarrow> mgr_inv m'"
proof -
  assume m: "mgr_inv m" and a: "nm_acd_manager_add_address m a = (r, m')"
  let ?xs = "m_addresses m @ [(a, \<lparr>duplicate = False, info_probe = None\<rparr>)]"
  show "mgr_inv m'"
  proof (cases "m_state m = STATE_INIT \<and> map_of (m_addresses m) a = None")
    case False
    then show ?thesis using m a by (auto simp: nm_acd_manager_add_address_def split: if_splits)
  next
    case True
    then have m': "m' = m\<lparr>m_addresses := ?xs\<rparr>" using a by (simp add: nm_acd_manager_add_address_def)
    have new: "a \<notin> fst ` set (m_addresses m)" using True by (simp add: map_of_eq_None_iff)
    show ?thesis
    proof (cases "m_acd m")
      case None
      then show ?thesis using m True new by (auto simp: mgr_inv_def m')
    next
      case (Some acd)
      then have l: "linked (m_addresses m) acd" and e: "a_probes acd = Map.empty"
        using m True by (simp_all add: mgr_inv_def mgr_acd_inv_def)
      have v: "view acd = Map.empty" using e by (simp add: view_def fun_eq_iff)
      have none: "info_probe i = None" if "map_of (m_addresses m) b = Some i" for b i
        using linkedD(2) [OF l that] v by (cases "info_probe i") auto
      have "info_probe i = None" if "map_of ?xs b = Some i" for b i
        using that none [of b i] by (auto simp: map_add_Some_iff split: if_splits)
      then have "linked ?xs acd" using linkedD(1) [OF l] new v unfolding linked_def by (auto simp del: map_of_append)
      then show ?thesis using m Some True by (simp add: mgr_inv_def mgr_acd_inv_def m')
    qed
  qed
qed

lemma new_ok: "nm_acd_manager_new ifindex hwaddr n cb = Some m \<Longrightarrow> mgr_inv m"
  by (auto simp: nm_acd_manager_new_def mgr_inv_def split: option.splits if_splits)

text \<open>Freeing all probes of the table empties the context.\<close>

lemma free_all_ok:
  assumes "good_os os"
  shows "acd_inv acd \<Longrightarrow> dom (a_probes acd) = {p. \<exists>i\<in>set is. info_probe i = Some p} \<Longrightarrow>
    distinct (List.map_filter info_probe is) \<Longrightarrow>
    \<exists>acd'. free_all os (Some acd) is = Some (Some acd') \<and> acd_inv acd' \<and> a_probes acd' = Map.empty"
proof (induction "is" arbitrary: acd)
  case (Cons i js)
  show ?case
  proof (cases "info_probe i")
    case None
    then show ?thesis using Cons by (simp add: List.map_filter_simps)
  next
    case (Some p)
    have "wp (n_acd_probe_free os acd p) (\<lambda>a. acd_inv a \<and> dom (a_probes a) = dom (a_probes acd) - {p})"
      by (rule wp_probe_free [OF assms Cons.prems(1)]) (use Cons.prems(2) Some in auto)
    then obtain a1 where a1: "n_acd_probe_free os acd p = Some a1" "acd_inv a1" "dom (a_probes a1) = dom (a_probes acd) - {p}"
      by (auto simp: wp_Some_iff)
    have np: "p \<notin> set (List.map_filter info_probe js)" "distinct (List.map_filter info_probe js)"
      using Cons.prems(3) Some by (simp_all add: List.map_filter_simps)
    then have "dom (a_probes a1) = {p. \<exists>i\<in>set js. info_probe i = Some p}"
      using a1(3) Cons.prems(2) Some by (force simp: List.map_filter_def)
    from Cons.IH [OF a1(2) this np(2)] show ?thesis using Some a1(1) by simp
  qed
qed simp

lemma unref_empty:
  assumes "acd_inv acd" "a_probes acd = Map.empty"
  shows "n_acd_unref acd = Some None"
proof -
  have "inorder (a_ip_tree acd) = []" using assms by (auto simp: acd_inv_def tree_ok_def)
  then have "a_ip_tree acd = Leaf" by (cases "a_ip_tree acd") simp_all
  moreover have "a_timer_tree acd = []" using assms by (cases "a_timer_tree acd") (auto simp: acd_inv_def timers_ok_def)
  moreover have "a_n_refs acd = 1" using assms by (simp add: acd_inv_def)
  ultimately show ?thesis by (simp add: n_acd_unref_def)
qed

lemma free_ok:
  assumes "good_os os" "good_order ht" "mgr_inv m"
  shows "nm_acd_manager_free os ht m = Some None"
proof -
  let ?xs = "m_addresses m"
  define ks where "ks = ht (map fst ?xs)"
  define inf where "inf = (\<lambda>a. the (map_of ?xs a))"
  have "distinct (map fst ?xs)"
    using assms(3) by (auto simp: mgr_inv_def mgr_acd_inv_def linked_def split: option.splits)
  then have ks: "distinct ks" "set ks = fst ` set ?xs" using assms(2) by (simp_all add: good_order_def ks_def)
  have inf: "map_of ?xs a = Some (inf a)" if "a \<in> set ks" for a
  proof -
    have "map_of ?xs a \<noteq> None" using that unfolding ks(2) by (simp add: map_of_eq_None_iff)
    then show ?thesis by (auto simp: inf_def)
  qed
  have fr: "nm_acd_manager_free os ht m =
      Option.bind (free_all os (m_acd m) (map inf ks)) (case_option (Some None) n_acd_unref)"
    by (simp add: nm_acd_manager_free_def inf_def ks_def)
  show ?thesis
  proof (cases "m_acd m")
    case None
    have none: "info_probe (inf a) = None" if "a \<in> set ks" for a
      using map_of_SomeD [OF inf [OF that]] assms(3) None by (force simp: mgr_inv_def)
    have "free_all os None (map inf ls) = Some None" if "set ls \<subseteq> set ks" for ls
      using that none by (induction ls) auto
    then show ?thesis using fr None by simp
  next
    case (Some acd)
    then have i: "acd_inv acd" and l: "linked ?xs acd" using assms(3) by (simp_all add: mgr_inv_def mgr_acd_inv_def)
    have dis: "distinct (List.map_filter info_probe (map inf ls))" if "set ls \<subseteq> set ks" "distinct ls" for ls
      using that
    proof (induction ls)
      case (Cons a ls)
      have "p \<notin> set (List.map_filter info_probe (map inf ls))" if p: "info_probe (inf a) = Some p" for p
      proof
        assume "p \<in> set (List.map_filter info_probe (map inf ls))"
        then obtain b where b: "b \<in> set ls" "info_probe (inf b) = Some p" by (auto simp: List.map_filter_def)
        then have "b \<in> set ks" "a \<in> set ks" "a \<noteq> b" using Cons.prems by auto
        then show False using linkedD(2) [OF l inf p] linkedD(2) [OF l inf b(2)] by auto
      qed
      then show ?case using Cons by (auto simp: List.map_filter_simps split: option.split)
    qed (simp add: List.map_filter_def)
    have "dom (a_probes acd) = {p. \<exists>i\<in>set (map inf ks). info_probe i = Some p}"
    proof (intro set_eqI iffI)
      fix p assume "p \<in> dom (a_probes acd)"
      then obtain s u where "view acd p = Some (s, u)" by (auto simp: view_def)
      then obtain a j where a: "map_of ?xs a = Some j" "info_probe j = Some p" using linkedD(3) [OF l] by blast
      then have "a \<in> set ks" "inf a = j" using map_of_SomeD [OF a(1)] by (force simp: ks(2), simp add: inf_def)
      with a(2) show "p \<in> {p. \<exists>i\<in>set (map inf ks). info_probe i = Some p}" by auto
    next
      fix p assume "p \<in> {p. \<exists>i\<in>set (map inf ks). info_probe i = Some p}"
      then obtain a where "a \<in> set ks" "info_probe (inf a) = Some p" by auto
      then show "p \<in> dom (a_probes acd)" using linkedD(2) [OF l inf] by (fastforce simp: view_def)
    qed
    from free_all_ok [OF assms(1) i this dis [OF subset_refl ks(1)]] obtain acd' where
      "free_all os (Some acd) (map inf ks) = Some (Some acd')" "acd_inv acd'" "a_probes acd' = Map.empty" by blast
    then show ?thesis using fr Some unref_empty by simp
  qed
qed

section \<open>Reachable managers\<close>

text \<open>
  A client creates a manager and calls its operations in any order; an operation that violates an
  assertion or follows a null pointer has no state after it. The main loop calls \<^verbatim>\<open>acd_event\<close> while
  the event source exists.
\<close>

inductive mgr_reachable :: "acd_os \<Rightarrow> hash_order \<Rightarrow> NMAcdManager \<Rightarrow> bool" for os ht where
  new: "nm_acd_manager_new ifindex hwaddr n cb = Some m \<Longrightarrow> mgr_reachable os ht m"
| add: "mgr_reachable os ht m \<Longrightarrow> nm_acd_manager_add_address m a = (r, m') \<Longrightarrow> mgr_reachable os ht m'"
| start: "mgr_reachable os ht m \<Longrightarrow>
    nm_acd_manager_start_probe os ht m timeout config alloc errors = Some (r, m') \<Longrightarrow> mgr_reachable os ht m'"
| announce: "mgr_reachable os ht m \<Longrightarrow>
    nm_acd_manager_announce_addresses os ht m config alloc errors = Some (r, m') \<Longrightarrow> mgr_reachable os ht m'"
| event: "mgr_reachable os ht m \<Longrightarrow> m_watch m \<Longrightarrow> acd_event os m wait = Some m' \<Longrightarrow> mgr_reachable os ht m'"

lemma watch_acd: "mgr_inv m \<Longrightarrow> m_watch m \<Longrightarrow> \<exists>acd. m_acd m = Some acd"
  by (cases "m_acd m") (auto simp: mgr_inv_def)

text \<open>The two operations that fault: a second start after one that failed, and announcing an address without a probe.\<close>

lemma probe_all_watch: "probe_all os m as timeout = Some (ss, m') \<Longrightarrow> m_watch m' = m_watch m"
proof (induction "as" arbitrary: m ss)
  case (Cons a as)
  obtain s m1 ts where m1: "acd_probe_add os m a timeout = Some (s, m1)" "probe_all os m1 as timeout = Some (ts, m')"
    using Cons.prems by (auto simp: bind_eq_Some_conv)
  have "m_watch m1 = m_watch m"
    using m1(1) by (auto simp: acd_probe_add_def upd_info_def bind_eq_Some_conv split: if_splits)
  with Cons.IH [OF m1(2)] show ?case by simp
qed simp

lemma start_faults:
  assumes "mgr_inv m" "m_state m = STATE_INIT" "m_watch m"
  shows "nm_acd_manager_start_probe os ht m timeout config alloc errors = None"
proof -
  have i: "acd_init m config alloc errors = (0, m)" using watch_acd [OF assms(1,3)] by (auto simp: acd_init_def)
  let ?p = "probe_all os (m\<lparr>m_completed := 0\<rparr>) (ht (map fst (m_addresses m))) (ucast timeout)"
  show ?thesis
  proof (cases ?p)
    case None
    then show ?thesis using i assms(2) by (simp add: nm_acd_manager_start_probe_def)
  next
    case (Some x)
    obtain ss m2 where x: "x = (ss, m2)" by (cases x)
    have "m_watch m2" using probe_all_watch [OF Some [unfolded x]] assms(3) by simp
    then show ?thesis using i assms(2) Some x by (simp add: nm_acd_manager_start_probe_def Let_def)
  qed
qed

lemma announce_all_null:
  "a \<in> set ks \<Longrightarrow> map_of (m_addresses m) a = Some i \<Longrightarrow> \<not> duplicate i \<Longrightarrow> info_probe i = None \<Longrightarrow>
     announce_all os m ks = None"
proof (induction ks arbitrary: m)
  case (Cons b ks)
  show ?case
  proof (cases "b = a")
    case False
    then have "announce_all os m' ks = None" if "m_addresses m' = m_addresses m" for m'
      using Cons that by simp
    then show ?thesis by (auto simp: bind_eq_None_conv split: option.split)
  qed (use Cons.prems in simp)
qed simp

lemma announce_faults:
  assumes "good_order ht" "mgr_inv m" "m_state m = STATE_ANNOUNCING"
    "j \<in> snd ` set (m_addresses m)" "\<not> duplicate j" "info_probe j = None"
  shows "nm_acd_manager_announce_addresses os ht m config alloc errors = None"
proof -
  obtain acd where acd: "m_acd m = Some acd" using assms(2,3) by (cases "m_acd m") (auto simp: mgr_inv_def)
  then have d: "distinct (map fst (m_addresses m))" using assms(2) by (simp add: mgr_inv_def mgr_acd_inv_def linked_def)
  obtain a where a: "map_of (m_addresses m) a = Some j" using assms(4) d by auto
  have "a \<in> set (ht (map fst (m_addresses m)))"
    using map_of_SomeD [OF a] assms(1) d by (force simp: good_order_def)
  then show ?thesis using announce_all_null [OF _ a assms(5,6)] acd assms(3)
    by (simp add: nm_acd_manager_announce_addresses_def acd_init_def)
qed

lemma mgr_reachable_inv:
  assumes "good_os os" "good_order ht"
  shows "mgr_reachable os ht m \<Longrightarrow> mgr_inv m"
proof (induction rule: mgr_reachable.induct)
  case (start m timeout config alloc errors r m')
  have "m_state m = STATE_INIT \<Longrightarrow> \<not> m_watch m" using start_faults [OF start.IH] start.hyps(2) by force
  then show ?case using start_probe_ok [OF assms start.IH, of timeout config alloc errors] start.hyps(2) by auto
next
  case (announce m config alloc errors r m')
  have "m_state m = STATE_ANNOUNCING \<Longrightarrow> \<forall>i\<in>snd ` set (m_addresses m). duplicate i \<or> info_probe i \<noteq> None"
    using announce_faults [OF assms(2) announce.IH] announce.hyps(2) by force
  then show ?case using announce_ok [OF assms announce.IH, of config alloc errors] announce.hyps(2) by auto
next
  case (event m wait m')
  obtain acd where "m_acd m = Some acd" using watch_acd [OF event.IH event.hyps(2)] by blast
  then show ?case using acd_event_ok [OF assms(1) event.IH, of acd wait] event.hyps(3) by auto
qed (auto intro: new_ok add_ok)

lemma done_seen:
  assumes "mgr_acd_inv m acd" "m_state m = STATE_PROBE_DONE"
  shows "seen acd = dom (view acd)" "map_of (m_addresses m) a = Some i \<Longrightarrow> info_probe i \<noteq> None"
proof -
  have l: "linked (m_addresses m) acd" and c: "card (seen acd) = length (m_addresses m)" and fin: "finite (dom (view acd))"
    using assms finite_view [of acd] by (simp_all add: mgr_acd_inv_def)
  have cd: "card (dom (view acd)) = length (m_addresses m)"
    using card_mono [OF fin seen_dom] card_probes(1) [OF l] c by simp
  then show "map_of (m_addresses m) a = Some i \<Longrightarrow> info_probe i \<noteq> None" using card_probes(2) [OF l] by simp
  show "seen acd = dom (view acd)" using card_subset_eq [OF fin seen_dom] c cd by simp
qed

text \<open>
  C4. The manager reports the result of probing once and correctly. In every state a client can
  reach, the callback was called once if probing is done and never otherwise. Probing is done only
  when every address has a probe that ended; \<^verbatim>\<open>nm_acd_manager_check_address\<close> then says of each
  address whether its probe found it free.
\<close>

theorem probe_result_reported:
  assumes "good_os os" "good_order ht" "mgr_reachable os ht m"
  shows "m_terminated m = (if m_state m = STATE_PROBE_DONE \<and> m_callback m then 1 else 0)
    \<and> (m_state m = STATE_PROBE_DONE \<longrightarrow> (\<exists>acd. m_acd m = Some acd \<and> (\<forall>(a, i) \<in> set (m_addresses m).
         \<exists>p pr. info_probe i = Some p \<and> a_probes acd p = Some pr \<and> p_ip pr = a
           \<and> p_state pr \<in> {N_ACD_PROBE_STATE_CONFIGURING, N_ACD_PROBE_STATE_FAILED}
           \<and> nm_acd_manager_check_address m a = (p_state pr = N_ACD_PROBE_STATE_CONFIGURING))))"
proof -
  have mi: "mgr_inv m" by (rule mgr_reachable_inv [OF assms])
  have "\<exists>acd. m_acd m = Some acd \<and> (\<forall>(a, i) \<in> set (m_addresses m).
         \<exists>p pr. info_probe i = Some p \<and> a_probes acd p = Some pr \<and> p_ip pr = a
           \<and> p_state pr \<in> {N_ACD_PROBE_STATE_CONFIGURING, N_ACD_PROBE_STATE_FAILED}
           \<and> nm_acd_manager_check_address m a = (p_state pr = N_ACD_PROBE_STATE_CONFIGURING))" if st: "m_state m = STATE_PROBE_DONE"
  proof -
    obtain acd where acd: "m_acd m = Some acd" using mi st by (cases "m_acd m") (auto simp: mgr_inv_def)
    then have ma: "mgr_acd_inv m acd" using mi by (simp add: mgr_inv_def)
    then have l: "linked (m_addresses m) acd" and ok: "probing_ok (m_addresses m) acd"
      using st by (simp_all add: mgr_acd_inv_def)
    note seen = done_seen [OF ma st]
    have "\<exists>p pr. info_probe i = Some p \<and> a_probes acd p = Some pr \<and> p_ip pr = a
           \<and> p_state pr \<in> {N_ACD_PROBE_STATE_CONFIGURING, N_ACD_PROBE_STATE_FAILED}
           \<and> nm_acd_manager_check_address m a = (p_state pr = N_ACD_PROBE_STATE_CONFIGURING)" if "(a, i) \<in> set (m_addresses m)" for a i
    proof -
      have i: "map_of (m_addresses m) a = Some i" using that linkedD(1) [OF l] by simp
      obtain p where p: "info_probe i = Some p" using seen(2) [OF i] by blast
      obtain s where v: "view acd p = Some (s, Some a, a)" using linkedD(2) [OF l i p] by blast
      then have "p \<in> seen acd" unfolding seen(1) by blast
      then have "s \<noteq> N_ACD_PROBE_STATE_PROBING" "ends p (pend acd) = []" using v by (auto simp: seen_def)
      then have s: "s \<in> {N_ACD_PROBE_STATE_CONFIGURING, N_ACD_PROBE_STATE_FAILED}" "duplicate i = (s = N_ACD_PROBE_STATE_FAILED)"
        using ok [unfolded probing_ok_def, rule_format, OF v i] by auto
      obtain pr where pr: "a_probes acd p = Some pr" "p_state pr = s" "p_ip pr = a" using v by (auto simp: view_Some)
      have "nm_acd_manager_check_address m a = (\<not> duplicate i)" using st i by (simp add: nm_acd_manager_check_address_def)
      then show ?thesis using p pr s by auto
    qed
    with acd show ?thesis by blast
  qed
  with mi show ?thesis by (simp add: mgr_inv_def)
qed

text \<open>
  C6. What can go wrong in the manager. In every state a client can reach, whatever other hosts
  do and the kernel answers (in the bounds of \<open>good_os\<close>), handling events and freeing the manager
  follow no null pointer, violate no assertion and end, and freeing releases the context with all
  probes and timers. Starting the probes violates an assertion exactly in the initial state with
  the event source already there: \<^verbatim>\<open>nm_assert (!self->channel)\<close> fails on a second start after one in
  which no address got a probe. Announcing follows a null pointer exactly when addresses are being
  announced already and one that is not a duplicate has no probe.
\<close>

theorem manager_safe:
  assumes "good_os os" "good_order ht" "mgr_reachable os ht m"
  shows "(nm_acd_manager_start_probe os ht m timeout config alloc errors = None
      \<longleftrightarrow> m_state m = STATE_INIT \<and> m_watch m)
    \<and> (nm_acd_manager_announce_addresses os ht m config alloc errors = None
      \<longleftrightarrow> m_state m = STATE_ANNOUNCING
        \<and> (\<exists>i\<in>snd ` set (m_addresses m). \<not> duplicate i \<and> info_probe i = None))
    \<and> (m_watch m \<longrightarrow> acd_event os m wait \<noteq> None)
    \<and> nm_acd_manager_free os ht m = Some None"
proof -
  have mi: "mgr_inv m" by (rule mgr_reachable_inv [OF assms])
  have "acd_event os m wait \<noteq> None" if w: "m_watch m"
  proof -
    obtain acd where "m_acd m = Some acd" using watch_acd [OF mi w] by blast
    then show ?thesis using acd_event_ok [OF assms(1) mi, of acd wait] by auto
  qed
  moreover have "nm_acd_manager_start_probe os ht m timeout config alloc errors = None \<longleftrightarrow> m_state m = STATE_INIT \<and> m_watch m"
    using start_probe_ok [OF assms(1,2) mi, of timeout config alloc errors] start_faults [OF mi] by (metis option.distinct(1))
  moreover have "nm_acd_manager_announce_addresses os ht m config alloc errors = None \<longleftrightarrow> m_state m = STATE_ANNOUNCING
      \<and> (\<exists>i\<in>snd ` set (m_addresses m). \<not> duplicate i \<and> info_probe i = None)"
    using announce_ok [OF assms(1,2) mi, of config alloc errors] announce_faults [OF assms(2) mi] by (metis option.distinct(1))
  ultimately show ?thesis using free_ok [OF assms(1,2) mi] by blast
qed

text \<open>
  C16. Probing ends, when every probe could be started. If every address has a probe, dispatching
  the context returned 0 (no error, nothing left to read), and after the events have been handled
  none of the probes is probing any more, then probing is done, and the callback was called once,
  if there is one.
\<close>

theorem probing_completes:
  assumes "good_os os" "good_order ht" "mgr_reachable os ht m" "m_watch m" "m_state m \<in> {STATE_PROBING, STATE_PROBE_DONE}"
    and "m_acd m = Some acd" "n_acd_dispatch os acd wait = Some (0, acd1)"
    and "acd_event os m wait = Some m'" "m_acd m' = Some acd'"
    and "\<forall>i\<in>snd ` set (m_addresses m). info_probe i \<noteq> None"
    and "\<forall>pr\<in>ran (a_probes acd'). p_state pr \<noteq> N_ACD_PROBE_STATE_PROBING"
  shows "m_state m' = STATE_PROBE_DONE \<and> m_terminated m' = (if m_callback m' then 1 else 0)"
proof -
  have mi: "mgr_inv m" by (rule mgr_reachable_inv [OF assms(1-3)])
  have e: "mgr_inv m'" "pend acd' = []" "m_state m' = m_state m \<or> m_state m = STATE_PROBING \<and> m_state m' = STATE_PROBE_DONE"
    "map_option info_probe (map_of (m_addresses m') a) = map_option info_probe (map_of (m_addresses m) a)" for a
    using acd_event_ok [OF assms(1) mi assms(6), of wait] assms(7-9) by auto
  have ma: "mgr_acd_inv m' acd'" using e(1) assms(9) by (simp add: mgr_inv_def)
  have "m_state m' \<noteq> STATE_PROBING"
  proof
    assume st: "m_state m' = STATE_PROBING"
    have l: "linked (m_addresses m') acd'" using ma by (simp add: mgr_acd_inv_def)
    have "seen acd' = dom (view acd')"
      using assms(11) e(2) by (auto simp: seen_def view_Some ran_def)
    moreover have "info_probe i \<noteq> None" if i: "map_of (m_addresses m') a = Some i" for a i
    proof -
      obtain j where j: "map_of (m_addresses m) a = Some j" "info_probe j = info_probe i"
        using e(4) [of a] i by (cases "map_of (m_addresses m) a") auto
      have "j \<in> snd ` set (m_addresses m)" using map_of_SomeD [OF j(1)] by force
      then show ?thesis using assms(10) j(2) by metis
    qed
    ultimately have "card (seen acd') = length (m_addresses m')" using card_probes(2) [OF l] by auto
    then show False using ma st by (auto simp: mgr_acd_inv_def)
  qed
  then have "m_state m' = STATE_PROBE_DONE" using e(3) assms(5) by auto
  then show ?thesis using e(1) by (simp add: mgr_inv_def)
qed

text \<open>
  C17. Probing never ends when a probe could not be started. \<^verbatim>\<open>nm_acd_manager_start_probe\<close> succeeds
  when at least one probe was started, but \<^verbatim>\<open>acd_event\<close> waits for as many results as there are
  addresses: whatever events follow, the manager stays probing and the callback is never called.
\<close>

theorem partial_start_never_completes:
  assumes "good_os os" "good_order ht" "mgr_reachable os ht m" "m_watch m" "m_state m = STATE_PROBING"
    and "(a, i) \<in> set (m_addresses m)" "info_probe i = None"
    and "(\<lambda>m m'. \<exists>wait. acd_event os m wait = Some m')\<^sup>*\<^sup>* m m'"
  shows "m_state m' = STATE_PROBING \<and> m_terminated m' = 0"
proof -
  have mi: "mgr_inv m" by (rule mgr_reachable_inv [OF assms(1-3)])
  obtain acd0 where acd0: "m_acd m = Some acd0" using watch_acd [OF mi assms(4)] by blast
  have "linked (m_addresses m) acd0" using mi acd0 by (simp add: mgr_inv_def mgr_acd_inv_def)
  then have ia: "map_of (m_addresses m) a = Some i" using assms(6) linkedD(1) by fastforce
  from assms(8) have "mgr_inv m' \<and> m_watch m' \<and> m_state m' = STATE_PROBING
    \<and> map_option info_probe (map_of (m_addresses m') a) = Some None"
  proof (induction rule: rtranclp_induct)
    case base
    then show ?case using mi assms(4,5,7) ia by simp
  next
    case (step m1 m2)
    then obtain wait where w: "acd_event os m1 wait = Some m2" by blast
    have m1: "mgr_inv m1" "m_watch m1" "m_state m1 = STATE_PROBING"
      "map_option info_probe (map_of (m_addresses m1) a) = Some None" using step.IH by simp_all
    obtain acd where "m_acd m1 = Some acd" using watch_acd [OF m1(1,2)] by blast
    from acd_event_ok [OF assms(1) m1(1) this, of wait] w obtain acd2 where
      e: "mgr_inv m2" "m_acd m2 = Some acd2" "m_watch m2 = m_watch m1"
        "m_state m2 = m_state m1 \<or> m_state m1 = STATE_PROBING \<and> m_state m2 = STATE_PROBE_DONE"
      and "\<forall>a. map_option info_probe (map_of (m_addresses m2) a) = map_option info_probe (map_of (m_addresses m1) a)"
      by auto
    then have p: "map_option info_probe (map_of (m_addresses m2) a) = Some None" using m1(4) by simp
    have ma: "mgr_acd_inv m2 acd2" using e(1,2) by (simp add: mgr_inv_def)
    then have l: "linked (m_addresses m2) acd2" and ai: "acd_inv acd2" by (simp_all add: mgr_acd_inv_def)
    have "card (dom (view acd2)) < length (m_addresses m2)"
      using card_probes [OF l] p by (fastforce simp: le_neq_implies_less)
    moreover have "card (seen acd2) \<le> card (dom (view acd2))" by (rule card_mono [OF finite_view [OF ai] seen_dom])
    ultimately have "m_state m2 \<noteq> STATE_PROBE_DONE" using ma by (auto simp: mgr_acd_inv_def)
    then show ?case using e p m1 by auto
  qed
  then show ?thesis by (auto simp: mgr_inv_def)
qed

section \<open>An example\<close>

text \<open>A manager that probes a list of addresses without waiting, whose timer expires \<open>k\<close> times.\<close>

definition mgr_new :: "u32 list \<Rightarrow> NMAcdManager option" where
  "mgr_new as = map_option (\<lambda>m. fold (\<lambda>a m. snd (nm_acd_manager_add_address m a)) as m)
     (nm_acd_manager_new 2 (Some mac_example) 6 True)"

fun mgr_run :: "acd_os \<Rightarrow> u32 list \<Rightarrow> nat \<Rightarrow> NMAcdManager option" where
  "mgr_run os as 0 = do {
     m \<leftarrow> mgr_new as;
     (r, m') \<leftarrow> nm_acd_manager_start_probe os (\<lambda>ks. ks) m 0 True True [];
     Some m' }"
| "mgr_run os as (Suc k) = do { m \<leftarrow> mgr_run os as k; if m_watch m then acd_event os m timer_event else Some m }"

lemma good_order_id: "good_order (\<lambda>ks. ks)"
  by (simp add: good_order_def)

lemma fold_add_reachable:
  "mgr_reachable os ht m \<Longrightarrow> \<not> m_watch m \<Longrightarrow>
     mgr_reachable os ht (fold (\<lambda>a m. snd (nm_acd_manager_add_address m a)) as m)
     \<and> \<not> m_watch (fold (\<lambda>a m. snd (nm_acd_manager_add_address m a)) as m)"
proof (induction "as" arbitrary: m)
  case (Cons a as)
  have "mgr_reachable os ht (snd (nm_acd_manager_add_address m a))"
    by (rule mgr_reachable.add [OF Cons.prems(1) prod.collapse [symmetric]])
  moreover have "\<not> m_watch (snd (nm_acd_manager_add_address m a))"
    using Cons.prems(2) by (simp add: nm_acd_manager_add_address_def)
  ultimately show ?case using Cons.IH by simp
qed simp

lemma mgr_run_reachable: "mgr_run os as k = Some m \<Longrightarrow> mgr_reachable os (\<lambda>ks. ks) m"
proof (induction k arbitrary: m)
  case 0
  then obtain m0 m1 r where m0: "nm_acd_manager_new 2 (Some mac_example) 6 True = Some m0"
    and m1: "m1 = fold (\<lambda>a m. snd (nm_acd_manager_add_address m a)) as m0"
    and st: "nm_acd_manager_start_probe os (\<lambda>ks. ks) m1 0 True True [] = Some (r, m)"
    by (auto simp: mgr_new_def bind_eq_Some_conv)
  have "\<not> m_watch m0" using m0 by (auto simp: nm_acd_manager_new_def split: if_splits)
  then have "mgr_reachable os (\<lambda>ks. ks) m1 \<and> \<not> m_watch m1"
    unfolding m1 by (intro fold_add_reachable mgr_reachable.new [OF m0])
  then show ?case using mgr_reachable.start [OF _ st] by blast
next
  case (Suc k)
  then obtain m0 where m0: "mgr_run os as k = Some m0" by (auto simp: bind_eq_Some_conv)
  show ?case
  proof (cases "m_watch m0")
    case True
    then show ?thesis using Suc.prems m0 mgr_reachable.event [OF Suc.IH [OF m0] True] by simp
  qed (use Suc m0 in simp)
qed

lemma run_done:
  "map_option m_state (mgr_run os_example [0x0100000A] 1) = Some STATE_PROBE_DONE"
  "map_option m_callback (mgr_run os_example [0x0100000A] 1) = Some True"
  by code_simp+

theorem probe_result_reported_witness:
  "\<exists>m. mgr_run os_example [0x0100000A] 1 = Some m \<and> m_state m = STATE_PROBE_DONE \<and> m_terminated m = 1"
proof -
  obtain m where m: "mgr_run os_example [0x0100000A] 1 = Some m" "m_state m = STATE_PROBE_DONE" "m_callback m"
    using run_done by (cases "mgr_run os_example [0x0100000A] 1") (simp_all del: mgr_run.simps)
  then show ?thesis
    using probe_result_reported [OF good_os_example good_order_id mgr_run_reachable [OF m(1)]]
    by (simp del: mgr_run.simps)
qed

lemma run_started:
  "map_option m_state (mgr_run os_example [0x0100000A] 0) = Some STATE_PROBING"
  "map_option m_watch (mgr_run os_example [0x0100000A] 0) = Some True"
  "map_option (\<lambda>m. map_option fst (n_acd_dispatch os_example (the (m_acd m)) timer_event)) (mgr_run os_example [0x0100000A] 0)
     = Some (Some 0)"
  "map_option (\<lambda>m. list_all (\<lambda>(a, i). info_probe i \<noteq> None) (m_addresses m)) (mgr_run os_example [0x0100000A] 0) = Some True"
  by code_simp+

text \<open>There is no memory for any probe: the start fails, and leaves the event source in the initial state.\<close>

definition os_no_memory :: acd_os where
  "os_no_memory = os_example\<lparr>os_alloc := (\<lambda>i. False)\<rparr>"

lemma good_os_no_memory: "good_os os_no_memory"
  using good_os_example by (simp add: good_os_def os_no_memory_def)

lemma run_no_memory:
  "map_option (\<lambda>m. (m_state m, m_watch m)) (mgr_run os_no_memory [0x0100000A] 0) = Some (STATE_INIT, True)"
  by code_simp

theorem manager_safe_witness:
  "\<exists>m. mgr_run os_no_memory [0x0100000A] 0 = Some m
     \<and> nm_acd_manager_start_probe os_no_memory (\<lambda>ks. ks) m 0 True True [] = None
     \<and> nm_acd_manager_free os_no_memory (\<lambda>ks. ks) m = Some None"
proof -
  obtain m where m: "mgr_run os_no_memory [0x0100000A] 0 = Some m" "m_state m = STATE_INIT" "m_watch m"
    using run_no_memory by (cases "mgr_run os_no_memory [0x0100000A] 0") (simp_all del: mgr_run.simps)
  then show ?thesis using manager_safe [OF good_os_no_memory good_order_id mgr_run_reachable [OF m(1)]] by blast
qed

theorem probing_completes_witness:
  "\<exists>m m'. mgr_run os_example [0x0100000A] 0 = Some m \<and> m_state m = STATE_PROBING
     \<and> acd_event os_example m timer_event = Some m' \<and> m_state m' = STATE_PROBE_DONE"
proof -
  obtain m where m: "mgr_run os_example [0x0100000A] 0 = Some m"
    using run_started(1) by (cases "mgr_run os_example [0x0100000A] 0") (simp_all del: mgr_run.simps)
  have st: "m_state m = STATE_PROBING" "m_watch m" "map_option fst (n_acd_dispatch os_example (the (m_acd m)) timer_event) = Some 0"
    "\<forall>i\<in>snd ` set (m_addresses m). info_probe i \<noteq> None"
    using run_started unfolding m by (auto simp: list_all_iff)
  note r = mgr_run_reachable [OF m]
  have mi: "mgr_inv m" by (rule mgr_reachable_inv [OF good_os_example good_order_id r])
  obtain acd where acd: "m_acd m = Some acd" using watch_acd [OF mi st(2)] by blast
  obtain acd1 where d: "n_acd_dispatch os_example acd timer_event = Some (0, acd1)" using st(3) acd by auto
  obtain m' where m': "acd_event os_example m timer_event = Some m'"
    using acd_event_ok [OF good_os_example mi acd, of timer_event] by blast
  then have run: "mgr_run os_example [0x0100000A] 1 = Some m'" using m st(2) by (simp del: mgr_run.simps(1))
  then have "m_state m' = STATE_PROBE_DONE" using run_done(1) by (simp del: mgr_run.simps)
  obtain acd' where acd': "m_acd m' = Some acd'" and i': "mgr_inv m'"
    using acd_event_ok [OF good_os_example mi acd, of timer_event] m' by auto
  then have "seen acd' = dom (view acd')" using done_seen(1) [of m' acd'] \<open>m_state m' = STATE_PROBE_DONE\<close> by (simp add: mgr_inv_def)
  then have "p_state pr \<noteq> N_ACD_PROBE_STATE_PROBING" if "a_probes acd' p = Some pr" for p pr
    using that by (auto simp: seen_def view_Some dest: equalityD2 [THEN subsetD, of _ _ p])
  then have "\<forall>pr\<in>ran (a_probes acd'). p_state pr \<noteq> N_ACD_PROBE_STATE_PROBING" by (auto simp: ran_def)
  from probing_completes [OF good_os_example good_order_id r st(2) _ acd d m' acd' st(4) this] st(1) m m'
  show ?thesis by blast
qed

text \<open>There is no memory for the configuration of the first probe.\<close>

definition os_partial :: acd_os where
  "os_partial = os_example\<lparr>os_alloc := (\<lambda>i. i \<noteq> 0)\<rparr>"

lemma run_partial:
  "map_option m_state (mgr_run os_partial [0x0100000A, 0x0200000A] 0) = Some STATE_PROBING"
  "map_option m_watch (mgr_run os_partial [0x0100000A, 0x0200000A] 0) = Some True"
  "map_option (\<lambda>m. list_ex (\<lambda>(a, i). info_probe i = None) (m_addresses m)) (mgr_run os_partial [0x0100000A, 0x0200000A] 0) = Some True"
  by code_simp+

theorem partial_start_never_completes_witness:
  "\<exists>m. mgr_run os_partial [0x0100000A, 0x0200000A] 0 = Some m \<and> m_state m = STATE_PROBING
     \<and> (\<forall>wait m'. acd_event os_partial m wait = Some m' \<longrightarrow> m_state m' = STATE_PROBING)"
proof -
  have g: "good_os os_partial" using good_os_example by (simp add: good_os_def os_partial_def)
  obtain m where m: "mgr_run os_partial [0x0100000A, 0x0200000A] 0 = Some m"
    using run_partial(1) by (cases "mgr_run os_partial [0x0100000A, 0x0200000A] 0") (simp_all del: mgr_run.simps)
  obtain a i where st: "m_state m = STATE_PROBING" "m_watch m" "(a, i) \<in> set (m_addresses m)" "info_probe i = None"
    using run_partial unfolding m by (auto simp: list_ex_iff)
  have "m_state m' = STATE_PROBING" if "acd_event os_partial m wait = Some m'" for wait m'
    using partial_start_never_completes [OF g good_order_id mgr_run_reachable [OF m] st(2,1,3,4), of m'] that by blast
  then show ?thesis using m st(1) by blast
qed

end
