(* ===== verification/Dmi_Base.thy ===== *)
theory Dmi_Base
  imports Prelude "HOL-Library.Monad_Syntax"
begin

text \<open>
  Memory, output and strings of dmidecode.

  \<^item> A pointer into the DMI table is the list of the bytes that are readable from it to the
    end of the buffer, so \<^verbatim>\<open>p + k\<close> is \<open>drop k p\<close>. Every access is checked: \<open>rd\<close>, \<open>WORD\<close>,
    \<open>DWORD\<close> and \<open>QWORD\<close> are \<open>None\<close> when one of their bytes is beyond the end of the
    buffer. The multi-byte reads are the little-endian macros of types.h.
  \<^item> A printing function is the \<open>string option\<close> it prints; \<open>None\<close> stands for an access outside
    the buffer or outside a static table on the way. \<open>prints\<close> concatenates the outputs of
    consecutive statements.
  \<^item> \<open>dmi_header\<close>, \<open>is_printable\<close> and \<open>dmi_string\<close> are shared by the program and by the
    callback interface. \<open>structure_ok\<close> is the contract between the code that walks a table
    and the code that decodes one structure: the formatted area is in the buffer and is
    followed, somewhere, by two NUL bytes. \<open>dmi_string_ok\<close> shows that this is enough for
    every string number.
\<close>

section \<open>Checked memory accesses\<close>

definition rd :: "u8 list \<Rightarrow> nat \<Rightarrow> u8 option" where
  "rd p i = (if i < length p then Some (p ! i) else None)"

definition WORD :: "u8 list \<Rightarrow> nat \<Rightarrow> u16 option" where
  "WORD p i = do {
     b0 \<leftarrow> rd p i;
     b1 \<leftarrow> rd p (i + 1);
     Some (ucast b0 + push_bit 8 (ucast b1)) }"

definition DWORD :: "u8 list \<Rightarrow> nat \<Rightarrow> u32 option" where
  "DWORD p i = do {
     b0 \<leftarrow> rd p i;
     b1 \<leftarrow> rd p (i + 1);
     b2 \<leftarrow> rd p (i + 2);
     b3 \<leftarrow> rd p (i + 3);
     Some (ucast b0 + push_bit 8 (ucast b1) + push_bit 16 (ucast b2) + push_bit 24 (ucast b3)) }"

record dmi_u64 =
  lo32 :: u32
  hi32 :: u32

definition QWORD :: "u8 list \<Rightarrow> nat \<Rightarrow> dmi_u64 option" where
  "QWORD p i = do {
     l \<leftarrow> DWORD p i;
     h \<leftarrow> DWORD p (i + 4);
     Some \<lparr>lo32 = l, hi32 = h\<rparr> }"

text \<open>
  \<open>safe m\<close>: the computation \<open>m\<close> makes no access outside the memory it is given. The
  collection \<open>dmi_safe\<close> holds the rules that decide it by rewriting.
\<close>

definition safe :: "'a option \<Rightarrow> bool" where
  "safe m \<longleftrightarrow> m \<noteq> None"

named_theorems dmi_safe

lemma safe_simps [simp]: "safe (Some x)" "\<not> safe None"
  by (simp_all add: safe_def)

lemma safe_if [dmi_safe]: "safe (if b then m else n) \<longleftrightarrow> (b \<longrightarrow> safe m) \<and> (\<not> b \<longrightarrow> safe n)"
  by simp

lemma safe_bind [dmi_safe]: "safe (m \<bind> f) \<longleftrightarrow> safe m \<and> (\<forall>x. m = Some x \<longrightarrow> safe (f x))"
  by (cases m) (auto simp: safe_def)

lemma safe_map_option [dmi_safe]: "safe (map_option f m) \<longleftrightarrow> safe m"
  by (simp add: safe_def)

lemma safe_elim: "safe m \<Longrightarrow> (\<And>x. m = Some x \<Longrightarrow> P) \<Longrightarrow> P"
  by (cases m) auto

lemma safe_rd [dmi_safe]: "safe (rd p i) \<longleftrightarrow> i < length p"
  by (simp add: rd_def)

lemma rd_Some: "i < length p \<Longrightarrow> rd p i = Some (p ! i)"
  by (simp add: rd_def)

lemma rd_drop: "rd (drop k p) i = rd p (k + i)"
  by (auto simp: rd_def add.commute)

lemma safe_WORD [dmi_safe]: "safe (WORD p i) \<longleftrightarrow> i + 1 < length p"
  by (auto simp: WORD_def dmi_safe rd_def)

lemma safe_DWORD [dmi_safe]: "safe (DWORD p i) \<longleftrightarrow> i + 3 < length p"
  by (auto simp: DWORD_def dmi_safe rd_def)

lemma safe_QWORD [dmi_safe]: "safe (QWORD p i) \<longleftrightarrow> i + 7 < length p"
proof -
  have "safe (QWORD p i) \<longleftrightarrow> i + 3 < length p \<and> (\<forall>x. DWORD p i = Some x \<longrightarrow> i + 4 + 3 < length p)"
    by (auto simp: QWORD_def dmi_safe)
  then show ?thesis
    by (cases "DWORD p i") (use safe_DWORD [of p i] in auto)
qed

section \<open>Output\<close>

fun prints :: "string option list \<Rightarrow> string option" where
  "prints [] = Some []"
| "prints (x # xs) = do { s \<leftarrow> x; t \<leftarrow> prints xs; Some (s @ t) }"

lemma safe_prints [dmi_safe]:
  "safe (prints []) \<longleftrightarrow> True" "safe (prints (x # xs)) \<longleftrightarrow> safe x \<and> safe (prints xs)"
  by (cases x; cases "prints xs"; simp)+

lemma safe_prints_set: "safe (prints xs) \<longleftrightarrow> (\<forall>x\<in>set xs. safe x)"
  by (induction xs) (auto simp: dmi_safe simp del: prints.simps)

declare prints.simps [simp del]

abbreviation nl :: string where
  "nl \<equiv> [CHR 0x0A]"

abbreviation tab :: string where
  "tab \<equiv> [CHR 0x09]"

text \<open>\<open>attr label x\<close> is \<^verbatim>\<open>printf("\t<label>%s\n", x)\<close>, the shape of most lines.\<close>

definition attr :: "string \<Rightarrow> string option \<Rightarrow> string option" where
  "attr label x = map_option (\<lambda>s. tab @ label @ s @ nl) x"

definition line :: "string \<Rightarrow> string option" where
  "line s = Some (s @ nl)"

abbreviation nothing :: "string option" where
  "nothing \<equiv> Some []"

lemma safe_attr [dmi_safe]: "safe (attr label x) \<longleftrightarrow> safe x"
  by (simp add: attr_def dmi_safe)

lemma safe_line [dmi_safe]: "safe (line s)"
  by (simp add: line_def)

subsection \<open>Number formats of printf\<close>

definition digit :: "nat \<Rightarrow> char" where
  "digit n = char_of (48 + n)"

fun dec :: "nat \<Rightarrow> string" where
  "dec n = (if n < 10 then [digit n] else dec (n div 10) @ [digit (n mod 10)])"

declare dec.simps [simp del]

definition hex_digit :: "bool \<Rightarrow> nat \<Rightarrow> char" where
  "hex_digit upper n =
     (if n < 10 then digit n else char_of ((if upper then 65 else 97) + (n - 10)))"

fun hex :: "bool \<Rightarrow> nat \<Rightarrow> string" where
  "hex upper n =
     (if n < 16 then [hex_digit upper n]
      else hex upper (n div 16) @ [hex_digit upper (n mod 16)])"

declare hex.simps [simp del]

definition pad0 :: "nat \<Rightarrow> string \<Rightarrow> string" where
  "pad0 w s = replicate (w - length s) (CHR ''0'') @ s"

text \<open>\<^verbatim>\<open>%u\<close>, \<^verbatim>\<open>%d\<close>, \<^verbatim>\<open>%0wX\<close>, \<^verbatim>\<open>%0wx\<close> and \<^verbatim>\<open>%02u\<close>.\<close>

definition pu :: "'a::len word \<Rightarrow> string" where
  "pu x = dec (unat x)"

definition pd :: "int \<Rightarrow> string" where
  "pd i = (if i < 0 then ''-'' @ dec (nat (- i)) else dec (nat i))"

definition pX :: "nat \<Rightarrow> 'a::len word \<Rightarrow> string" where
  "pX w x = pad0 w (hex True (unat x))"

definition px :: "nat \<Rightarrow> 'a::len word \<Rightarrow> string" where
  "px w x = pad0 w (hex False (unat x))"

text \<open>
  \<^verbatim>\<open>%.kf\<close> of a \<^verbatim>\<open>float\<close> that is an integer of at most 16 bits divided by \<open>10 ^ k\<close>: the rounding
  errors of the division stay below half a unit of the last printed digit, so the exact
  decimal fraction is printed.
\<close>

definition pfix :: "nat \<Rightarrow> int \<Rightarrow> string" where
  "pfix k i =
     (if i < 0 then ''-'' else []) @ dec (nat \<bar>i\<bar> div 10 ^ k) @ ''.''
       @ pad0 k (dec (nat \<bar>i\<bar> mod 10 ^ k))"

text \<open>\<^verbatim>\<open>%g\<close> of the same kind of value: trailing zeros of the fraction are dropped.\<close>

fun strip_zeros :: "string \<Rightarrow> string" where
  "strip_zeros s = rev (dropWhile (\<lambda>c. c = CHR ''0'') (rev s))"

definition pgen :: "nat \<Rightarrow> nat \<Rightarrow> string" where
  "pgen k n =
     (let frac = strip_zeros (pad0 k (dec (n mod 10 ^ k)))
      in dec (n div 10 ^ k) @ (if frac = [] then [] else ''.'' @ frac))"

subsection \<open>Static tables\<close>

definition out_of_spec :: string where
  "out_of_spec = ''<OUT OF SPEC>''"

definition bad_index :: string where
  "bad_index = ''<BAD INDEX>''"

definition idx :: "'a list \<Rightarrow> nat \<Rightarrow> 'a option" where
  "idx xs i = (if i < length xs then Some (xs ! i) else None)"

lemma safe_idx [dmi_safe]: "safe (idx xs i) \<longleftrightarrow> i < length xs"
  by (simp add: idx_def)

text \<open>
  \<open>in_table lo hi xs code rest\<close> is
  \<^verbatim>\<open>if (code >= lo && code <= hi) return xs[code - lo];\<close> followed by \<open>rest\<close>.
\<close>

definition in_table ::
  "nat \<Rightarrow> nat \<Rightarrow> string list \<Rightarrow> 'a::len word \<Rightarrow> string option \<Rightarrow> string option" where
  "in_table lo hi xs code rest =
     (if lo \<le> unat code \<and> unat code \<le> hi then idx xs (unat code - lo) else rest)"

lemma in_table_safe [dmi_safe]:
  "hi < lo + length xs \<Longrightarrow> safe (in_table lo hi xs code rest) \<longleftrightarrow> unat code < lo \<or> hi < unat code \<longrightarrow> safe rest"
  by (auto simp: in_table_def dmi_safe)

text \<open>
  \<open>flag_lines lo hi b f\<close> is \<^verbatim>\<open>for (i = lo; i <= hi; i++) if (b i) f(i);\<close>.
\<close>

definition flag_lines ::
  "nat \<Rightarrow> nat \<Rightarrow> (nat \<Rightarrow> bool) \<Rightarrow> (nat \<Rightarrow> string option) \<Rightarrow> string option" where
  "flag_lines lo hi b f = prints (map (\<lambda>i. if b i then f i else nothing) [lo..<Suc hi])"

lemma flag_lines_safe [dmi_safe]:
  "safe (flag_lines lo hi b f) \<longleftrightarrow> (\<forall>i. lo \<le> i \<longrightarrow> i \<le> hi \<longrightarrow> b i \<longrightarrow> safe (f i))"
  unfolding flag_lines_def safe_prints_set set_map set_upt ball_simps
  by (auto simp: dmi_safe)

definition for_lines :: "nat \<Rightarrow> nat \<Rightarrow> (nat \<Rightarrow> string option) \<Rightarrow> string option" where
  "for_lines lo hi f = prints (map f [lo..<hi])"

lemma for_lines_safe [dmi_safe]:
  "safe (for_lines lo hi f) \<longleftrightarrow> (\<forall>i. lo \<le> i \<longrightarrow> i < hi \<longrightarrow> safe (f i))"
  by (auto simp: for_lines_def safe_prints_set)

section \<open>Structures and their strings\<close>

record dmi_header =
  dm_type :: u8
  dm_length :: u8
  dm_handle :: u16
  dm_data :: "u8 list"

abbreviation len :: "dmi_header \<Rightarrow> nat" where
  "len h \<equiv> unat (dm_length h)"

definition char_of_byte :: "u8 \<Rightarrow> char" where
  "char_of_byte b = char_of (unat b)"

fun is_printable_loop :: "u8 list \<Rightarrow> nat \<Rightarrow> nat \<Rightarrow> bool option" where
  "is_printable_loop p i 0 = Some True"
| "is_printable_loop p i (Suc n) = do {
     b \<leftarrow> rd p i;
     if b < 32 \<or> b \<ge> 127 then Some False else is_printable_loop p (Suc i) n }"

definition is_printable :: "u8 list \<Rightarrow> nat \<Rightarrow> bool option" where
  "is_printable p n = is_printable_loop p 0 n"

fun strlen :: "u8 list \<Rightarrow> nat option" where
  "strlen [] = None"
| "strlen (b # p) = (if b = 0 then Some 0 else map_option Suc (strlen p))"

text \<open>
  The loop of \<^verbatim>\<open>dmi_string\<close> that skips \<open>s - 1\<close> strings, stopping at an empty one. Its
  variable \<^verbatim>\<open>s\<close> is an unsigned byte that only counts down.
\<close>

fun skip_strings :: "nat \<Rightarrow> u8 list \<Rightarrow> u8 list option" where
  "skip_strings s bp =
     (if s > 1 then do {
        b \<leftarrow> rd bp 0;
        if b \<noteq> 0 then do {
          n \<leftarrow> strlen bp;
          skip_strings (s - 1) (drop (n + 1) bp) }
        else Some bp }
      else Some bp)"

declare skip_strings.simps [simp del]

text \<open>
  The filter compares a (signed) \<^verbatim>\<open>char\<close> with 32, so the bytes from 128 on are replaced too.
\<close>

definition ascii_filter :: "u8 \<Rightarrow> u8" where
  "ascii_filter b = (if sint b < 32 \<or> b = 127 then 46 else b)"

definition cstring :: "u8 list \<Rightarrow> string option" where
  "cstring bp = do { n \<leftarrow> strlen bp; Some (map char_of_byte (take n bp)) }"

text \<open>
  \<open>dmi_string_at dump h s\<close> is the text the returned pointer refers to, or the inner \<open>None\<close>
  for the pointer \<^verbatim>\<open>bad_index\<close>, which some callers compare with; \<open>dump\<close> is
  \<^verbatim>\<open>opt.flags & FLAG_DUMP\<close>. \<open>dmi_string\<close> is the text that is printed in both cases. The
  function also overwrites the bytes of the string by the filtered ones;
  \<open>dmi_string_filtered\<close> is the memory afterwards.
\<close>

definition dmi_string_at :: "bool \<Rightarrow> dmi_header \<Rightarrow> u8 \<Rightarrow> string option option" where
  "dmi_string_at dump h s =
     (if s = 0 then Some (Some ''Not Specified'') else do {
        bp \<leftarrow> skip_strings (unat s) (drop (len h) (dm_data h));
        b \<leftarrow> rd bp 0;
        if b = 0 then Some None
        else do {
          n \<leftarrow> strlen bp;
          Some (Some (map char_of_byte
            (if dump then take n bp else map ascii_filter (take n bp)))) } })"

definition dmi_string :: "bool \<Rightarrow> dmi_header \<Rightarrow> u8 \<Rightarrow> string option" where
  "dmi_string dump h s =
     map_option (\<lambda>r. case r of None \<Rightarrow> bad_index | Some t \<Rightarrow> t) (dmi_string_at dump h s)"

definition dmi_string_filtered :: "bool \<Rightarrow> dmi_header \<Rightarrow> u8 \<Rightarrow> u8 list option" where
  "dmi_string_filtered dump h s =
     (if s = 0 then Some (dm_data h) else do {
        bp \<leftarrow> skip_strings (unat s) (drop (len h) (dm_data h));
        b \<leftarrow> rd bp 0;
        if b = 0 \<or> dump then Some (dm_data h)
        else do {
          n \<leftarrow> strlen bp;
          let at = length (dm_data h) - length bp;
          Some (take at (dm_data h) @ map ascii_filter (take n bp) @ drop n bp) } })"

subsection \<open>Every string number is safe on a terminated structure\<close>

definition terminated :: "u8 list \<Rightarrow> bool" where
  "terminated p \<longleftrightarrow>
     (\<exists>q. p = 0 # q) \<or> (\<exists>k. Suc k < length p \<and> p ! k = 0 \<and> p ! Suc k = 0)"

definition structure_ok :: "dmi_header \<Rightarrow> bool" where
  "structure_ok h \<longleftrightarrow>
     4 \<le> len h
     \<and> (\<exists>k. len h \<le> k \<and> Suc k < length (dm_data h)
            \<and> dm_data h ! k = 0 \<and> dm_data h ! Suc k = 0)"

lemma strlen_Some:
  "strlen p = Some n \<longleftrightarrow> n < length p \<and> p ! n = 0 \<and> (\<forall>i<n. p ! i \<noteq> 0)"
proof (induction p arbitrary: n)
  case Nil
  then show ?case by simp
next
  case (Cons b p)
  show ?case
  proof (cases n)
    case 0
    then show ?thesis by auto
  next
    case (Suc m)
    then show ?thesis using Cons.IH [of m] by (auto simp: all_conj_distrib nth_Cons split: nat.splits)
  qed
qed

lemma strlen_exists: "k < length p \<Longrightarrow> p ! k = 0 \<Longrightarrow> \<exists>n. strlen p = Some n \<and> n \<le> k"
proof (induction p arbitrary: k)
  case Nil
  then show ?case by simp
next
  case (Cons b p)
  show ?case
  proof (cases "b = 0")
    case False
    then obtain j where "k = Suc j" using Cons.prems by (cases k) auto
    then show ?thesis using Cons.IH [of j] Cons.prems False by auto
  qed simp
qed

lemma terminated_nonempty: "terminated p \<Longrightarrow> 0 < length p"
  by (auto simp: terminated_def)

lemma terminated_strlen:
  assumes "terminated p"
  obtains n where "strlen p = Some n"
proof -
  obtain k where "k < length p" and "p ! k = 0"
    using assms by (fastforce simp: terminated_def)
  then show ?thesis using strlen_exists that by blast
qed

lemma terminated_next:
  assumes "terminated p" and "p ! 0 \<noteq> 0" and "strlen p = Some n"
  shows "terminated (drop (Suc n) p)"
proof -
  obtain k where k: "Suc k < length p" "p ! k = 0" "p ! Suc k = 0"
    using assms(1,2) by (auto simp: terminated_def)
  obtain m where "strlen p = Some m" "m \<le> k"
    using k strlen_exists [of k p] by auto
  then have n: "n \<le> k" using assms(3) by simp
  show ?thesis
  proof (cases "n = k")
    case True
    then have "drop (Suc n) p = 0 # drop (Suc (Suc n)) p"
      using k by (simp add: Cons_nth_drop_Suc [symmetric])
    then show ?thesis by (simp add: terminated_def)
  next
    case False
    then have "Suc (k - Suc n) < length (drop (Suc n) p)"
      and "drop (Suc n) p ! (k - Suc n) = 0" and "drop (Suc n) p ! Suc (k - Suc n) = 0"
      using n k by (auto simp: nth_drop)
    then show ?thesis by (auto simp: terminated_def)
  qed
qed

lemma skip_strings_terminated:
  "terminated p \<Longrightarrow> \<exists>q. skip_strings s p = Some q \<and> terminated q \<and> (\<exists>k. q = drop k p)"
proof (induction s p rule: skip_strings.induct)
  case (1 s p)
  show ?case
  proof (cases "s > 1 \<and> p ! 0 \<noteq> 0")
    case True
    obtain n where n: "strlen p = Some n"
      using terminated_strlen [OF "1.prems"] by blast
    have rd0: "rd p 0 = Some (p ! 0)"
      using terminated_nonempty [OF "1.prems"] by (simp add: rd_def)
    have "terminated (drop (Suc n) p)"
      using "1.prems" True n by (simp add: terminated_next)
    then obtain q where "skip_strings (s - 1) (drop (Suc n) p) = Some q"
      and "terminated q" and "\<exists>k. q = drop k (drop (Suc n) p)"
      using "1.IH" [of "p ! 0" n] True rd0 n by auto
    then show ?thesis
      using True rd0 n by (subst skip_strings.simps) auto
  next
    case False
    then show ?thesis
      using "1.prems" terminated_nonempty [OF "1.prems"]
      by (subst skip_strings.simps) (auto simp: rd_def intro: exI [of _ 0])
  qed
qed

lemma structure_ok_terminated: "structure_ok h \<Longrightarrow> terminated (drop (len h) (dm_data h))"
proof -
  assume "structure_ok h"
  then obtain k where k: "len h \<le> k" "Suc k < length (dm_data h)"
    "dm_data h ! k = 0" "dm_data h ! Suc k = 0"
    by (auto simp: structure_ok_def)
  then have "Suc (k - len h) < length (drop (len h) (dm_data h))"
    and "drop (len h) (dm_data h) ! (k - len h) = 0"
    and "drop (len h) (dm_data h) ! Suc (k - len h) = 0"
    by (auto simp: nth_drop)
  then show ?thesis unfolding terminated_def by blast
qed

lemma structure_ok_length: "structure_ok h \<Longrightarrow> len h + 2 \<le> length (dm_data h)"
  by (auto simp: structure_ok_def)

lemma safe_dmi_string_at [dmi_safe]: "structure_ok h \<Longrightarrow> safe (dmi_string_at dump h s)"
proof -
  assume "structure_ok h"
  then obtain q where "skip_strings (unat s) (drop (len h) (dm_data h)) = Some q"
    and "terminated q"
    using skip_strings_terminated structure_ok_terminated by blast
  moreover have "safe (strlen q)" if "terminated q"
    using terminated_strlen [OF that] by (metis safe_simps(1))
  ultimately show ?thesis
    using terminated_nonempty [of q] by (simp add: dmi_string_at_def dmi_safe)
qed

lemma safe_dmi_string [dmi_safe]: "structure_ok h \<Longrightarrow> safe (dmi_string dump h s)"
  by (simp add: dmi_string_def dmi_safe)

lemma safe_is_printable [dmi_safe]: "n \<le> length p \<Longrightarrow> safe (is_printable p n)"
proof -
  have "i + n \<le> length p \<Longrightarrow> safe (is_printable_loop p i n)" for i
    by (induction n arbitrary: i) (auto simp: dmi_safe)
  from this [of 0] show "n \<le> length p \<Longrightarrow> safe (is_printable p n)"
    by (simp add: is_printable_def)
qed

end
