(* ===== verification/Dmi_Walk.thy ===== *)
theory Dmi_Walk
  imports Dmi_Base
begin

text \<open>
  The table walk of dmi_ext/dmi_decode_ext.c: \<^verbatim>\<open>dmi_table_decode_ext\<close> with its callback, and
  the two searches built on it. The buffer is the list of its bytes, a position in it is an
  offset, and the header handed to the callback points to the bytes from that offset on.

  The specification is \<open>table_structures\<close>, the list of the complete structures of a table.
  The walk is shown to be a fold of the callback over it (\<open>walk_eq_run\<close>), to return on every
  buffer, to read only inside it, and to hand only terminated structures to the callback.
  The locale \<open>dmi_callback\<close> is the interface between the walk and its clients: an invariant
  the callback keeps on terminated structures holds after the walk. The callbacks of the two
  searches are its instances.
\<close>

unbundle bit_operations_syntax

section \<open>The walk\<close>

definition to_dmi_header_ext :: "u8 list \<Rightarrow> dmi_header option" where
  "to_dmi_header_ext data = do {
     t \<leftarrow> rd data 0;
     n \<leftarrow> rd data 1;
     handle \<leftarrow> WORD data 2;
     Some \<lparr>dm_type = t, dm_length = n, dm_handle = handle, dm_data = data\<rparr> }"

text \<open>The inner loop: the first position from \<open>next\<close> on that holds two NUL bytes, or the last
  position.\<close>

function find_next :: "u8 list \<Rightarrow> nat \<Rightarrow> nat \<Rightarrow> nat option" where
  "find_next buf n next =
     (if next + 1 < n then do {
        b0 \<leftarrow> rd buf next;
        b1 \<leftarrow> rd buf (next + 1);
        if b0 \<noteq> 0 \<or> b1 \<noteq> 0 then find_next buf n (next + 1) else Some next }
      else Some next)"
  by pat_completeness auto
termination
  by (relation "measure (\<lambda>(buf, n, next). n - next)") auto

declare find_next.simps [simp del]

lemma find_next_ge: "find_next buf n next = Some m \<Longrightarrow> next \<le> m"
proof (induction "n - next" arbitrary: "next" rule: less_induct)
  case less
  show ?case
  proof (cases "next + 1 < n")
    case True
    have "next \<le> m" if "find_next buf n (next + 1) = Some m"
      using less.hyps [OF _ that] True by (simp add: diff_less_mono2)
    then show ?thesis
      using less.prems True
      by (subst (asm) find_next.simps) (auto split: if_splits Option.bind_splits)
  next
    case False
    then show ?thesis using less.prems by (simp add: find_next.simps)
  qed
qed

text \<open>
  A callback gets the header and the user data; it returns a code, where any value but 0
  stops the walk, and the new user data.
\<close>

type_synonym 's callback = "dmi_header \<Rightarrow> 's \<Rightarrow> int \<times> 's"

definition DMI_EXT_FLAG_STOP_AT_EOT :: nat where
  "DMI_EXT_FLAG_STOP_AT_EOT = 1"

function walk ::
  "u8 list \<Rightarrow> nat \<Rightarrow> u16 \<Rightarrow> u32 \<Rightarrow> 's callback option \<Rightarrow> nat \<Rightarrow> nat \<Rightarrow> 's \<Rightarrow> (nat \<times> 's) option"
where
  "walk buf n num flags callback data i s =
     (if (i < unat num \<or> num = 0) \<and> data + 4 \<le> n then do {
        h \<leftarrow> to_dmi_header_ext (drop data buf);
        if len h < 4 then Some (i, s)
        else do {
          next \<leftarrow> find_next buf n (data + len h);
          if next + 2 > n then Some (i + 1, s)
          else
            let (ret, s') = (case callback of None \<Rightarrow> (0, s) | Some cb \<Rightarrow> cb h s)
            in if ret \<noteq> 0 then Some (i + 1, s')
               else if dm_type h = 127 \<and> bit flags DMI_EXT_FLAG_STOP_AT_EOT
                 then Some (i + 1, s')
               else walk buf n num flags callback (next + 2) (i + 1) s' } }
      else Some (i, s))"
  by pat_completeness auto
termination
  by (relation "measure (\<lambda>(buf, n, num, flags, callback, data, i, s). n - data)")
    (auto dest!: find_next_ge)

declare walk.simps [simp del]

definition dmi_table_decode_ext ::
  "u8 list \<Rightarrow> u32 \<Rightarrow> u16 \<Rightarrow> u16 \<Rightarrow> u32 \<Rightarrow> 's callback option \<Rightarrow> 's \<Rightarrow> (nat \<times> 's) option" where
  "dmi_table_decode_ext buf len' num ver flags callback user_data =
     walk buf (unat len') num flags callback 0 0 user_data"

section \<open>Searches\<close>

record 'k find_context =
  target :: 'k
  out_header :: "dmi_header option"
  found :: int

definition find_type_callback :: "u8 find_context callback" where
  "find_type_callback h ctx =
     (if dm_type h = target ctx then (1, ctx\<lparr>out_header := Some h, found := 1\<rparr>) else (0, ctx))"

definition find_handle_callback :: "u16 find_context callback" where
  "find_handle_callback h ctx =
     (if dm_handle h = target ctx then (1, ctx\<lparr>out_header := Some h, found := 1\<rparr>) else (0, ctx))"

text \<open>
  The searches return \<^verbatim>\<open>found\<close> and the header written to \<^verbatim>\<open>*out_header\<close>; the argument \<open>out\<close> is
  false for a null pointer.
\<close>

definition dmi_table_find_by_type ::
  "u8 list \<Rightarrow> u32 \<Rightarrow> u16 \<Rightarrow> u16 \<Rightarrow> u8 \<Rightarrow> bool \<Rightarrow> (int \<times> dmi_header option) option" where
  "dmi_table_find_by_type buf len' num ver target_type out =
     (if \<not> out then Some (0, None)
      else do {
        (i, ctx) \<leftarrow> dmi_table_decode_ext buf len' num ver 0 (Some find_type_callback)
                     \<lparr>target = target_type, out_header = None, found = 0\<rparr>;
        Some (found ctx, out_header ctx) })"

definition dmi_table_find_by_handle ::
  "u8 list \<Rightarrow> u32 \<Rightarrow> u16 \<Rightarrow> u16 \<Rightarrow> u16 \<Rightarrow> bool \<Rightarrow> (int \<times> dmi_header option) option" where
  "dmi_table_find_by_handle buf len' num ver handle out =
     (if \<not> out then Some (0, None)
      else do {
        (i, ctx) \<leftarrow> dmi_table_decode_ext buf len' num ver 0 (Some find_handle_callback)
                     \<lparr>target = handle, out_header = None, found = 0\<rparr>;
        Some (found ctx, out_header ctx) })"

section \<open>The structures of a table\<close>

text \<open>
  The header at an offset, and the position after the structure that starts there. A
  structure is complete when it has at least 4 bytes and its string area, which ends at the
  first two NUL bytes after the formatted area, is inside the table.
\<close>

definition header_at :: "u8 list \<Rightarrow> nat \<Rightarrow> dmi_header" where
  "header_at buf data =
     \<lparr>dm_type = buf ! data, dm_length = buf ! (data + 1),
      dm_handle = ucast (buf ! (data + 2)) + push_bit 8 (ucast (buf ! (data + 3))),
      dm_data = drop data buf\<rparr>"

fun end_of_strings :: "u8 list \<Rightarrow> nat option" where
  "end_of_strings (a # b # p) = (if a = 0 \<and> b = 0 then Some 2 else map_option Suc (end_of_strings (b # p)))"
| "end_of_strings p = None"

definition structure_size :: "u8 list \<Rightarrow> nat \<Rightarrow> nat option" where
  "structure_size buf data =
     (if data + 4 \<le> length buf \<and> 4 \<le> len (header_at buf data)
      then map_option (\<lambda>k. len (header_at buf data) + k)
             (end_of_strings (drop (data + len (header_at buf data)) buf))
      else None)"

lemma structure_size_ge4: "structure_size buf data = Some k \<Longrightarrow> 4 \<le> k"
  by (auto simp: structure_size_def split: if_splits)

function table_structures :: "u8 list \<Rightarrow> nat \<Rightarrow> dmi_header list" where
  "table_structures buf data =
     (case structure_size buf data of
        None \<Rightarrow> []
      | Some k \<Rightarrow> header_at buf data # table_structures buf (data + k))"
  by pat_completeness auto
termination
proof (relation "measure (\<lambda>(buf, data). length buf - data)")
  show "wf (measure (\<lambda>(buf, data). length buf - data))" by simp
next
  fix buf :: "u8 list" and data k :: nat
  assume "structure_size buf data = Some k"
  then show "((buf, data + k), buf, data) \<in> measure (\<lambda>(buf, data). length buf - data)"
    by (auto simp: structure_size_def split: if_splits)
qed

declare table_structures.simps [simp del]

text \<open>
  What the walk computes from the list of the structures: the callback is run on them in
  order, at most \<open>num\<close> of them unless \<open>num\<close> is 0, until it returns a value other than 0 or
  the end-of-table marker is passed. The number returned also counts an incomplete
  structure at the end of the table, if the walk gets there.
\<close>

function truncated :: "u8 list \<Rightarrow> nat \<Rightarrow> bool" where
  "truncated buf data =
     (case structure_size buf data of
        None \<Rightarrow> data + 4 \<le> length buf \<and> 4 \<le> len (header_at buf data)
      | Some k \<Rightarrow> truncated buf (data + k))"
  by pat_completeness auto
termination
proof (relation "measure (\<lambda>(buf, data). length buf - data)")
  show "wf (measure (\<lambda>(buf, data). length buf - data))" by simp
next
  fix buf :: "u8 list" and data k :: nat
  assume "structure_size buf data = Some k"
  then show "((buf, data + k), buf, data) \<in> measure (\<lambda>(buf, data). length buf - data)"
    by (auto simp: structure_size_def split: if_splits)
qed

declare truncated.simps [simp del]

fun run ::
  "u16 \<Rightarrow> u32 \<Rightarrow> 's callback option \<Rightarrow> bool \<Rightarrow> dmi_header list \<Rightarrow> nat \<Rightarrow> 's \<Rightarrow> nat \<times> 's" where
  "run num flags callback trunc [] i s =
     (if (i < unat num \<or> num = 0) \<and> trunc then i + 1 else i, s)"
| "run num flags callback trunc (h # hs) i s =
     (if i < unat num \<or> num = 0 then
        let (ret, s') = (case callback of None \<Rightarrow> (0, s) | Some cb \<Rightarrow> cb h s)
        in if ret \<noteq> 0 then (i + 1, s')
           else if dm_type h = 127 \<and> bit flags DMI_EXT_FLAG_STOP_AT_EOT then (i + 1, s')
           else run num flags callback trunc hs (i + 1) s'
      else (i, s))"

lemma end_of_strings_Some:
  "end_of_strings p = Some k \<Longrightarrow> 2 \<le> k \<and> k \<le> length p \<and> p ! (k - 2) = 0 \<and> p ! (k - 1) = 0"
proof (induction p arbitrary: k rule: end_of_strings.induct)
  case (1 a b p)
  show ?case
  proof (cases "a = 0 \<and> b = 0")
    case True
    then show ?thesis using "1.prems" by simp
  next
    case False
    then obtain j where j: "end_of_strings (b # p) = Some j" and "k = Suc j"
      using "1.prems" by auto
    then show ?thesis
      using "1.IH" [OF False j] by (auto simp: nth_Cons' numeral_2_eq_2 Suc_diff_le)
  qed
qed auto

lemma find_next_drop:
  assumes "next + 2 \<le> n" and "n = length buf"
  shows "find_next buf n next =
    (if buf ! next \<noteq> 0 \<or> buf ! (next + 1) \<noteq> 0 then find_next buf n (next + 1) else Some next)"
  using assms by (subst find_next.simps) (simp add: rd_def)

lemma drop_two:
  assumes "next + 2 \<le> length buf"
  shows "drop next buf = buf ! next # buf ! (next + 1) # drop (next + 2) buf"
    and "drop (next + 1) buf = buf ! (next + 1) # drop (next + 2) buf"
  using assms Cons_nth_drop_Suc [of "next" buf] Cons_nth_drop_Suc [of "next + 1" buf] by auto

lemma find_next_eq:
  "case end_of_strings (drop next buf) of
     Some k \<Rightarrow> find_next buf (length buf) next = Some (next + k - 2)
   | None \<Rightarrow> \<exists>m. find_next buf (length buf) next = Some m \<and> length buf < m + 2"
proof (induction "length buf - next" arbitrary: "next" rule: less_induct)
  case less
  show ?case
  proof (cases "next + 2 \<le> length buf")
    case True
    have step: "end_of_strings (drop next buf) =
        (if buf ! next = 0 \<and> buf ! (next + 1) = 0 then Some 2
         else map_option Suc (end_of_strings (drop (next + 1) buf)))"
      by (simp only: drop_two [OF True] end_of_strings.simps)
    have ih: "case end_of_strings (drop (next + 1) buf) of
        Some k \<Rightarrow> find_next buf (length buf) (next + 1) = Some (next + 1 + k - 2)
      | None \<Rightarrow> \<exists>m. find_next buf (length buf) (next + 1) = Some m \<and> length buf < m + 2"
      by (rule less.hyps) (use True in simp)
    show ?thesis
      using ih find_next_drop [OF True refl]
      by (auto simp: step split: option.splits)
  next
    case False
    then have "end_of_strings (drop next buf) = None"
      by (cases "drop next buf" rule: end_of_strings.cases)
        (auto dest!: arg_cong [of _ _ length])
    moreover have "find_next buf (length buf) next = Some next"
      using False by (simp add: find_next.simps)
    ultimately show ?thesis using False by simp
  qed
qed

lemma to_dmi_header_ext_eq:
  "data + 4 \<le> length buf \<Longrightarrow> to_dmi_header_ext (drop data buf) = Some (header_at buf data)"
  by (simp add: to_dmi_header_ext_def WORD_def header_at_def rd_def)

lemma structure_size_next:
  assumes "data + 4 \<le> length buf" and "4 \<le> len (header_at buf data)"
  shows "case structure_size buf data of
      Some k \<Rightarrow> find_next buf (length buf) (data + len (header_at buf data)) = Some (data + k - 2)
        \<and> data + k \<le> length buf \<and> 6 \<le> k
    | None \<Rightarrow> \<exists>m. find_next buf (length buf) (data + len (header_at buf data)) = Some m
        \<and> length buf < m + 2"
  using find_next_eq [of buf "data + len (header_at buf data)"] assms
    end_of_strings_Some [of "drop (data + len (header_at buf data)) buf"]
  by (fastforce simp: structure_size_def split: option.splits)

lemma walk_eq_run:
  "walk buf (length buf) num flags callback data i s =
     Some (run num flags callback (truncated buf data) (table_structures buf data) i s)"
proof (induction "length buf - data" arbitrary: data i s rule: less_induct)
  case less
  let ?h = "header_at buf data"
  show ?case
  proof (cases "data + 4 \<le> length buf \<and> 4 \<le> len ?h")
    case False
    then have "structure_size buf data = None" by (auto simp: structure_size_def)
    then show ?thesis
      using False
      by (subst walk.simps)
        (auto simp: table_structures.simps truncated.simps to_dmi_header_ext_eq)
  next
    case True
    then have hdr: "to_dmi_header_ext (drop data buf) = Some ?h"
      by (simp add: to_dmi_header_ext_eq)
    show ?thesis
    proof (cases "structure_size buf data")
      case None
      then obtain m where "find_next buf (length buf) (data + len ?h) = Some m"
        and "length buf < m + 2"
        using structure_size_next [of data buf] True by auto
      then show ?thesis
        using True None hdr
        by (subst walk.simps) (simp add: table_structures.simps truncated.simps)
    next
      case (Some k)
      then have nxt: "find_next buf (length buf) (data + len ?h) = Some (data + k - 2)"
        and k: "data + k \<le> length buf" "6 \<le> k"
        using structure_size_next [of data buf] True by auto
      have "walk buf (length buf) num flags callback (data + k) (i + 1) s' =
          Some (run num flags callback (truncated buf (data + k))
                 (table_structures buf (data + k)) (i + 1) s')" for s'
        by (rule less.hyps) (use k in simp)
      moreover have "\<not> data + k - 2 + 2 > length buf" "data + k - 2 + 2 = data + k"
        using k by auto
      ultimately show ?thesis
        using True Some hdr nxt
        by (subst walk.simps)
          (auto simp: table_structures.simps [of buf data] truncated.simps [of buf data]
            case_prod_beta Let_def)
    qed
  qed
qed

text \<open>Every structure of a table meets the contract of the decoders.\<close>

lemma header_at_ok:
  assumes "structure_size buf data = Some k"
  shows "structure_ok (header_at buf data)"
proof -
  let ?n = "len (header_at buf data)"
  obtain j where n: "data + 4 \<le> length buf" "4 \<le> ?n" and j: "k = ?n + j"
    "end_of_strings (drop (data + ?n) buf) = Some j"
    using assms by (auto simp: structure_size_def split: if_splits)
  note e = end_of_strings_Some [OF j(2)]
  then obtain m where m: "j = Suc (Suc m)" by (metis add_2_eq_Suc le_Suc_ex)
  from e have "data + ?n \<le> length buf" by auto
  then have d: "drop (data + ?n) buf ! i = drop data buf ! (?n + i)" for i
    by (simp add: add.assoc)
  have "Suc (?n + m) < length (drop data buf)" using e m by (auto simp: less_diff_conv)
  moreover have "drop data buf ! (?n + m) = 0" using e m d [of m] by simp
  moreover have "drop data buf ! Suc (?n + m) = 0" using e m d [of "Suc m"] by simp
  ultimately show ?thesis
    unfolding structure_ok_def
    using n(2) by (intro conjI exI [of _ "?n + m"]) (auto simp: header_at_def)
qed

lemma table_structures_ok: "h \<in> set (table_structures buf data) \<Longrightarrow> structure_ok h"
proof (induction buf data rule: table_structures.induct)
  case (1 buf data)
  then show ?case
    by (cases "structure_size buf data")
      (auto simp: table_structures.simps [of buf data] intro: header_at_ok)
qed

section \<open>The interface to the clients of the walk\<close>

text \<open>
  A client of the walk is a callback with an invariant of its user data that the callback
  keeps on every terminated structure. The walk then returns, whatever the bytes of the
  table are, and the invariant holds at the end.
\<close>

locale dmi_callback =
  fixes cb :: "'s callback" and inv :: "'s \<Rightarrow> bool"
  assumes keeps: "structure_ok h \<Longrightarrow> inv s \<Longrightarrow> inv (snd (cb h s))"
begin

lemma run_keeps:
  "(\<And>h. h \<in> set hs \<Longrightarrow> structure_ok h) \<Longrightarrow> inv s \<Longrightarrow>
   inv (snd (run num flags (Some cb) trunc hs i s))"
  by (induction hs arbitrary: i s) (auto simp: case_prod_beta Let_def keeps)

lemma walk_keeps:
  assumes "inv s"
  obtains i s' where "walk buf (length buf) num flags (Some cb) 0 0 s = Some (i, s')"
    and "inv s'"
  using run_keeps [of "table_structures buf 0" s num flags "truncated buf 0" 0, OF table_structures_ok assms]
  by (cases "run num flags (Some cb) (truncated buf 0) (table_structures buf 0) 0 s")
    (auto simp: walk_eq_run intro: that)

end

text \<open>A search that has found a header has found a terminated structure with the target.\<close>

definition find_inv :: "(dmi_header \<Rightarrow> 'k) \<Rightarrow> 'k \<Rightarrow> 'k find_context \<Rightarrow> bool" where
  "find_inv key k ctx \<longleftrightarrow>
     target ctx = k \<and> (found ctx = 0 \<or> found ctx = 1)
     \<and> (case out_header ctx of
          None \<Rightarrow> found ctx = 0
        | Some h \<Rightarrow> found ctx = 1 \<and> structure_ok h \<and> key h = k)"

interpretation type_search: dmi_callback find_type_callback "find_inv dm_type k" for k
  by unfold_locales (auto simp: find_type_callback_def find_inv_def split: option.splits)

interpretation handle_search: dmi_callback find_handle_callback "find_inv dm_handle k" for k
  by unfold_locales (auto simp: find_handle_callback_def find_inv_def split: option.splits)

lemma run_find:
  assumes cb: "\<And>h ctx. cb h ctx =
      (if key h = target ctx then (1, ctx\<lparr>out_header := Some h, found := 1\<rparr>) else (0, ctx))"
  shows "snd (run num 0 (Some cb) trunc hs i
       \<lparr>target = k, out_header = None, found = 0\<rparr>) =
     (case find (\<lambda>h. key h = k) (if num = 0 then hs else take (unat num - i) hs) of
        None \<Rightarrow> \<lparr>target = k, out_header = None, found = 0\<rparr>
      | Some h \<Rightarrow> \<lparr>target = k, out_header = Some h, found = 1\<rparr>)"
proof (induction hs arbitrary: i)
  case Nil
  then show ?case by simp
next
  case (Cons h hs)
  show ?case
  proof (cases "i < unat num \<or> num = 0")
    case True
    then have "unat num - i = Suc (unat num - Suc i) \<or> num = 0" by auto
    then show ?thesis
      using True Cons.IH [of "Suc i"] by (auto simp: cb)
  next
    case False
    then show ?thesis by simp
  qed
qed

lemma walk_find:
  assumes cb: "\<And>h ctx. cb h ctx =
      (if key h = target ctx then (1, ctx\<lparr>out_header := Some h, found := 1\<rparr>) else (0, ctx))"
  shows "walk buf (length buf) num 0 (Some cb) 0 0 \<lparr>target = k, out_header = None, found = 0\<rparr>
       \<bind> (\<lambda>(i, ctx). Some (found ctx, out_header ctx)) =
    Some (case find (\<lambda>h. key h = k)
                 (if num = 0 then table_structures buf 0
                  else take (unat num) (table_structures buf 0)) of
            None \<Rightarrow> (0, None)
          | Some h \<Rightarrow> (1, Some h))"
  unfolding walk_eq_run
  using run_find [of cb key num "truncated buf 0" "table_structures buf 0" 0 k, OF cb]
  by (simp add: case_prod_beta del: if_split_asm split: option.split_asm option.split)

section \<open>Properties\<close>

text \<open>
  C8. The walk over a buffer of the announced length returns for every content, every
  announced number of structures, every flag and every callback, and it never reads outside
  the buffer: its result is the callback run over the complete structures of the table in
  order, up to \<open>num\<close> of them, the first request to stop, or the end-of-table marker.
\<close>

theorem table_decode_ext_spec:
  assumes "length buf = unat len'"
  shows "dmi_table_decode_ext buf len' num ver flags callback user_data =
    Some (run num flags callback (truncated buf 0) (table_structures buf 0) 0 user_data)"
  using assms by (simp add: dmi_table_decode_ext_def walk_eq_run [symmetric])

definition two_structures :: "u8 list" where
  "two_structures = [11, 5, 0x10, 0, 1, 65, 66, 0, 0, 127, 4, 0x11, 0, 0, 0]"

theorem table_decode_ext_spec_witness:
  "dmi_table_decode_ext two_structures 15 0 0 0
     (Some (\<lambda>h n. (0, n + unat (dm_type h)))) 0 = Some (2, 138)"
  using table_decode_ext_spec [of two_structures 15 0 0 0
      "Some (\<lambda>h n. (0, n + unat (dm_type h)))" 0]
  by code_simp

text \<open>
  C33. Every header handed to a client of the walk is that of a terminated structure: its
  formatted area of at least 4 bytes lies in the buffer and is followed in the buffer by two
  NUL bytes. So an invariant that a callback keeps on terminated structures survives the
  walk of any table, however malformed.
\<close>

theorem callback_contract:
  fixes good :: "'s \<Rightarrow> bool"
  assumes "length buf = unat len'"
    and "\<And>h s. structure_ok h \<Longrightarrow> good s \<Longrightarrow> good (snd (cb h s))"
    and "good user_data"
  shows "\<exists>i s. dmi_table_decode_ext buf len' num ver flags (Some cb) user_data = Some (i, s) \<and> good s"
proof -
  have "dmi_callback cb good" by (rule dmi_callback.intro) (rule assms(2))
  from dmi_callback.walk_keeps [OF this assms(3), of buf num flags] show ?thesis
    using assms(1) by (metis dmi_table_decode_ext_def)
qed

theorem callback_contract_witness:
  "\<exists>i hs. dmi_table_decode_ext two_structures 15 0 0 0 (Some (\<lambda>h hs. (0, h # hs))) [] = Some (i, hs)
     \<and> (\<forall>h\<in>set hs. structure_ok h)"
  by (rule callback_contract [where good = "\<lambda>hs. \<forall>h\<in>set hs. structure_ok h"])
    (auto simp: two_structures_def)

text \<open>
  \<^verbatim>\<open>dmi_table_find_by_type\<close> returns 1 and the first structure of the requested type among the
  first \<open>num\<close> structures of the table (all of them if \<open>num\<close> is 0), and 0 without touching
  the output header if there is none.
\<close>

theorem find_by_type_first:
  assumes "length buf = unat len'"
  shows "dmi_table_find_by_type buf len' num ver t True =
    Some (case find (\<lambda>h. dm_type h = t)
                 (if num = 0 then table_structures buf 0
                  else take (unat num) (table_structures buf 0)) of
            None \<Rightarrow> (0, None)
          | Some h \<Rightarrow> (1, Some h))"
  unfolding dmi_table_find_by_type_def dmi_table_decode_ext_def assms [symmetric]
  by (simp add: walk_find [of find_type_callback dm_type, OF find_type_callback_def])

theorem find_by_type_first_witness:
  "map_option fst (dmi_table_find_by_type two_structures 15 0 0 127 True) = Some 1
   \<and> map_option fst (dmi_table_find_by_type two_structures 15 1 0 127 True) = Some 0"
  using find_by_type_first [of two_structures 15 0 0 127]
    find_by_type_first [of two_structures 15 1 0 127]
  by code_simp

text \<open>
  \<^verbatim>\<open>dmi_table_find_by_handle\<close> returns 1 and the first structure with the requested handle
  among the first \<open>num\<close> structures, and 0 if there is none.
\<close>

theorem find_by_handle_first:
  assumes "length buf = unat len'"
  shows "dmi_table_find_by_handle buf len' num ver handle True =
    Some (case find (\<lambda>h. dm_handle h = handle)
                 (if num = 0 then table_structures buf 0
                  else take (unat num) (table_structures buf 0)) of
            None \<Rightarrow> (0, None)
          | Some h \<Rightarrow> (1, Some h))"
  unfolding dmi_table_find_by_handle_def dmi_table_decode_ext_def assms [symmetric]
  by (simp add: walk_find [of find_handle_callback dm_handle, OF find_handle_callback_def])

theorem find_by_handle_first_witness:
  "map_option fst (dmi_table_find_by_handle two_structures 15 0 0 0x11 True) = Some 1"
  using find_by_handle_first [of two_structures 15 0 0 "0x11"]
  by code_simp

end
