(* ===== verification/Dmi_String.thy ===== *)
theory Dmi_String
  imports Dmi_Base
begin

text \<open>
  The strings of a structure. \<^verbatim>\<open>dmi_string\<close> replaces the characters of a string in place; the
  relation \<open>filtered\<close> describes what it may do to the memory, and the theorems show that no
  later reader can tell the difference: the formatted area, the positions of the NUL bytes
  and the text of every string are the same afterwards.
\<close>

section \<open>The ASCII filter\<close>

lemma uint_127: "uint (127 :: u8) = 127"
  by simp

lemma ascii_filter_range: "32 \<le> unat (ascii_filter b) \<and> unat (ascii_filter b) < 127"
proof (cases "sint b < 32 \<or> b = 127")
  case True
  then show ?thesis by (simp add: ascii_filter_def)
next
  case False
  have "sint b < 128" using sint_lt [of b] by simp
  moreover from this have "uint b = sint b"
    using False by (simp only: uint_sint take_bit_eq_mod) simp
  moreover have "uint b \<noteq> 127" using False by (metis uint_127 word_uint_eq_iff)
  ultimately have "32 \<le> unat b" "unat b < 127"
    using False by (simp_all only: unat_eq_nat_uint) linarith+
  then show ?thesis using False by (simp only: ascii_filter_def if_False)
qed

lemma ascii_filter_idem [simp]: "ascii_filter (ascii_filter b) = ascii_filter b"
  by (simp add: ascii_filter_def)

lemma ascii_filter_nonzero [simp]: "ascii_filter b \<noteq> 0"
  using ascii_filter_range [of b] by auto

text \<open>Every printed character of a string that \<^verbatim>\<open>dmi_string\<close> returns is printable ASCII.\<close>

lemma printable_char: "32 \<le> (of_char (char_of_byte (ascii_filter b)) :: nat)
    \<and> (of_char (char_of_byte (ascii_filter b)) :: nat) < 127"
  using ascii_filter_range [of b] by (simp add: char_of_byte_def of_char_of)

section \<open>Filtering in place\<close>

definition filt :: "u8 \<Rightarrow> u8 \<Rightarrow> bool" where
  "filt a b \<longleftrightarrow> b = a \<or> (a \<noteq> 0 \<and> b = ascii_filter a)"

definition filtered :: "u8 list \<Rightarrow> u8 list \<Rightarrow> bool" where
  "filtered p q \<longleftrightarrow> list_all2 filt p q"

lemma filt_zero: "filt a b \<Longrightarrow> b = 0 \<longleftrightarrow> a = 0"
  by (auto simp: filt_def)

lemma filt_filter: "filt a b \<Longrightarrow> ascii_filter b = ascii_filter a"
  by (auto simp: filt_def)

lemma filtered_drop: "filtered p q \<Longrightarrow> filtered (drop k p) (drop k q)"
  by (simp add: filtered_def list_all2_dropI)

lemma filtered_length: "filtered p q \<Longrightarrow> length q = length p"
  by (simp add: filtered_def list_all2_lengthD)

lemma filtered_nth_zero: "filtered p q \<Longrightarrow> i < length p \<Longrightarrow> q ! i = 0 \<longleftrightarrow> p ! i = 0"
  by (auto simp: filtered_def list_all2_conv_all_nth filt_zero)

lemma filtered_strlen: "filtered p q \<Longrightarrow> strlen q = strlen p"
  unfolding filtered_def by (induction rule: list_all2_induct) (auto simp: filt_zero)

lemma filtered_map: "filtered p q \<Longrightarrow> map ascii_filter q = map ascii_filter p"
  unfolding filtered_def by (induction rule: list_all2_induct) (auto simp: filt_filter)

lemma filtered_skip:
  "filtered p q \<Longrightarrow>
   (case skip_strings s p of
      None \<Rightarrow> skip_strings s q = None
    | Some p' \<Rightarrow> \<exists>q'. skip_strings s q = Some q' \<and> filtered p' q')"
proof (induction s p arbitrary: q rule: skip_strings.induct)
  case (1 s p)
  note len = filtered_length [OF "1.prems"]
  show ?case
  proof (cases "s > 1 \<and> 0 < length p")
    case False
    then show ?thesis
      using "1.prems" len
      by (auto simp: skip_strings.simps [of s p] skip_strings.simps [of s q] rd_def)
  next
    case True
    then have rd: "rd p 0 = Some (p ! 0)" "rd q 0 = Some (q ! 0)"
      using len by (auto simp: rd_def)
    have z: "q ! 0 = 0 \<longleftrightarrow> p ! 0 = 0"
      using filtered_nth_zero [OF "1.prems"] True by simp
    show ?thesis
    proof (cases "p ! 0 = 0 \<or> strlen p = None")
      case True
      then show ?thesis
        using \<open>s > 1 \<and> 0 < length p\<close> rd z "1.prems" filtered_strlen [OF "1.prems"]
        by (auto simp: skip_strings.simps [of s p] skip_strings.simps [of s q])
    next
      case False
      then obtain n where n: "strlen p = Some n" by auto
      have "case skip_strings (s - 1) (drop (n + 1) p) of
          None \<Rightarrow> skip_strings (s - 1) (drop (n + 1) q) = None
        | Some p' \<Rightarrow> \<exists>q'. skip_strings (s - 1) (drop (n + 1) q) = Some q' \<and> filtered p' q'"
        by (rule "1.IH" [of "p ! 0"])
          (use \<open>s > 1 \<and> 0 < length p\<close> False rd n filtered_drop [OF "1.prems"] in auto)
      then show ?thesis
        using \<open>s > 1 \<and> 0 < length p\<close> False rd z n filtered_strlen [OF "1.prems"]
        by (auto simp: skip_strings.simps [of s p] skip_strings.simps [of s q] split: option.split)
    qed
  qed
qed

lemma filtered_dmi_string:
  assumes "filtered (dm_data h) d"
  shows "dmi_string False (h\<lparr>dm_data := d\<rparr>) s = dmi_string False h s"
proof -
  have f: "filtered (drop (len h) (dm_data h)) (drop (len h) d)"
    by (rule filtered_drop [OF assms])
  have "dmi_string_at False (h\<lparr>dm_data := d\<rparr>) s = dmi_string_at False h s"
  proof (cases "skip_strings (unat s) (drop (len h) (dm_data h))")
    case None
    then show ?thesis using filtered_skip [OF f, of "unat s"] by (simp add: dmi_string_at_def)
  next
    case (Some p)
    then obtain q where q: "skip_strings (unat s) (drop (len h) d) = Some q" "filtered p q"
      using filtered_skip [OF f, of "unat s"] by auto
    note strl = filtered_strlen [OF q(2)]
    have same: "map ascii_filter (take n q) = map ascii_filter (take n p)" for n
      using filtered_map [OF q(2)] by (metis take_map)
    show ?thesis
    proof (cases "p = []")
      case True
      then have "q = []" using filtered_length [OF q(2)] by simp
      with True Some q show ?thesis by (simp add: dmi_string_at_def)
    next
      case False
      then have "rd p 0 = Some (p ! 0)" "rd q 0 = Some (q ! 0)"
        using filtered_length [OF q(2)] by (auto simp: rd_def)
      moreover have "q ! 0 = 0 \<longleftrightarrow> p ! 0 = 0"
        using filtered_nth_zero [OF q(2), of 0] False by simp
      ultimately show ?thesis
        using Some q strl same by (simp add: dmi_string_at_def)
    qed
  qed
  then show ?thesis by (simp add: dmi_string_def)
qed

lemma skip_strings_drop: "skip_strings s p = Some q \<Longrightarrow> \<exists>k. q = drop k p"
proof (induction s p arbitrary: q rule: skip_strings.induct)
  case (1 s p)
  show ?case
  proof (cases "skip_strings s p = Some p")
    case True
    then show ?thesis using "1.prems" by (auto intro: exI [of _ 0])
  next
    case False
    then obtain b n where *: "1 < s" "rd p 0 = Some b" "b \<noteq> 0" "strlen p = Some n"
      "skip_strings (s - 1) (drop (n + 1) p) = Some q"
      using "1.prems"
      by (auto simp: skip_strings.simps [of s p] split: if_splits Option.bind_splits)
    from "1.IH" [OF *] obtain k where "q = drop k (drop (n + 1) p)" by blast
    then show ?thesis by auto
  qed
qed

lemma dmi_string_filtered_filtered:
  assumes "dmi_string_filtered dump h s = Some d"
  shows "\<exists>k n. len h \<le> k \<and> d = take k (dm_data h)
      @ map ascii_filter (take n (drop k (dm_data h))) @ drop n (drop k (dm_data h))
    \<and> (\<forall>i<n. drop k (dm_data h) ! i \<noteq> 0) \<and> n \<le> length (drop k (dm_data h))
    \<or> d = dm_data h"
proof -
  { fix bp assume skip: "skip_strings (unat s) (drop (len h) (dm_data h)) = Some bp"
      and ne: "rd bp 0 \<noteq> None"
    obtain j where "bp = drop j (drop (len h) (dm_data h))"
      using skip_strings_drop [OF skip] by blast
    then have "bp = drop (len h + j) (dm_data h)" "length (dm_data h) - length bp = len h + j"
      using ne by (auto simp: add.commute rd_def split: if_splits)
    then have "\<exists>k. len h \<le> k \<and> bp = drop k (dm_data h) \<and> length (dm_data h) - length bp = k"
      by auto }
  note at = this
  show ?thesis
  proof (cases "d = dm_data h")
    case False
    then obtain bp b n where bp: "skip_strings (unat s) (drop (len h) (dm_data h)) = Some bp"
      and b: "rd bp 0 = Some b" and n: "strlen bp = Some n"
      and d: "d = take (length (dm_data h) - length bp) (dm_data h)
                @ map ascii_filter (take n bp) @ drop n bp"
      using assms
      by (auto simp: dmi_string_filtered_def Let_def split: if_splits Option.bind_splits)
    obtain k where "len h \<le> k" "bp = drop k (dm_data h)" "length (dm_data h) - length bp = k"
      using at [OF bp] b by auto
    then show ?thesis
      using n d by (intro exI [of _ k] exI [of _ n]) (auto simp: strlen_Some)
  qed simp
qed

lemma filtered_refl: "filtered p p"
  by (simp add: filtered_def list_all2_conv_all_nth filt_def)

lemma filtered_segment:
  assumes "\<forall>i<n. p ! i \<noteq> 0" and "n \<le> length p"
  shows "filtered p (map ascii_filter (take n p) @ drop n p)"
  using assms
  by (auto simp: filtered_def list_all2_conv_all_nth filt_def nth_append)

lemma filtered_append: "filtered a b \<Longrightarrow> filtered c d \<Longrightarrow> filtered (a @ c) (b @ d)"
  by (simp add: filtered_def list_all2_appendI)

lemma dmi_string_memory:
  assumes "dmi_string_filtered dump h s = Some d"
  shows "filtered (dm_data h) d" and "take (len h) d = take (len h) (dm_data h)"
proof -
  consider (same) "d = dm_data h" | (seg) k n where "len h \<le> k"
      "d = take k (dm_data h) @ map ascii_filter (take n (drop k (dm_data h)))
             @ drop n (drop k (dm_data h))"
      "\<forall>i<n. drop k (dm_data h) ! i \<noteq> 0" "n \<le> length (drop k (dm_data h))"
    using dmi_string_filtered_filtered [OF assms] by blast
  then show "filtered (dm_data h) d"
  proof cases
    case seg
    have "filtered (take k (dm_data h) @ drop k (dm_data h)) d"
      unfolding seg(2) by (intro filtered_append filtered_refl filtered_segment seg(3,4))
    then show ?thesis by simp
  qed (simp add: filtered_refl)
  show "take (len h) d = take (len h) (dm_data h)"
    using dmi_string_filtered_filtered [OF assms] by (auto simp: min_def)
qed

section \<open>Properties\<close>

text \<open>
  Without the dump option, a string of a terminated structure is printable ASCII
  whatever the bytes of the table are: every character printed is between the space and the
  tilde.
\<close>

theorem dmi_string_printable:
  assumes "structure_ok h"
  shows "\<exists>t. dmi_string False h s = Some t \<and> (\<forall>c\<in>set t. 32 \<le> (of_char c :: nat) \<and> (of_char c :: nat) < 127)"
proof -
  obtain t where t: "dmi_string False h s = Some t"
    using safe_dmi_string [OF assms] by (auto simp: safe_def)
  moreover have "\<forall>c\<in>set t. 32 \<le> (of_char c :: nat) \<and> (of_char c :: nat) < 127"
    using t printable_char
    by (auto simp: dmi_string_def dmi_string_at_def bad_index_def
        split: if_splits Option.bind_splits)
  ultimately show ?thesis by blast
qed

definition sample_header :: dmi_header where
  "sample_header = \<lparr>dm_type = 1, dm_length = 5, dm_handle = 0x10,
     dm_data = [1, 5, 0x10, 0, 1, 65, 7, 200, 0, 66, 0, 0]\<rparr>"

lemma sample_header_ok: "structure_ok sample_header"
  by (auto simp: structure_ok_def sample_header_def intro!: exI [of _ 10])

theorem dmi_string_printable_witness:
  "dmi_string False sample_header 1 = Some ''A..'' \<and>
   (\<exists>t. dmi_string False sample_header 1 = Some t \<and> (\<forall>c\<in>set t. 32 \<le> (of_char c :: nat) \<and> (of_char c :: nat) < 127))"
proof
  show "dmi_string False sample_header 1 = Some ''A..''" by code_simp
qed (rule dmi_string_printable [OF sample_header_ok])

text \<open>
  The characters that \<^verbatim>\<open>dmi_string\<close> overwrites in place change nothing for later readers:
  the memory keeps its length, the formatted area of the structure and the positions of its
  NUL bytes, so the structure stays terminated, and asking again for any string of the
  structure gives the same text.
\<close>

theorem dmi_string_filter_transparent:
  assumes "dmi_string_filtered False h s = Some d"
  shows "length d = length (dm_data h)
    \<and> take (len h) d = take (len h) (dm_data h)
    \<and> (\<forall>i < length d. d ! i = 0 \<longleftrightarrow> dm_data h ! i = 0)
    \<and> (structure_ok h \<longrightarrow> structure_ok (h\<lparr>dm_data := d\<rparr>))
    \<and> dmi_string False (h\<lparr>dm_data := d\<rparr>) s' = dmi_string False h s'"
proof -
  note f = dmi_string_memory(1) [OF assms]
  have "structure_ok (h\<lparr>dm_data := d\<rparr>)" if "structure_ok h"
    using that filtered_length [OF f] filtered_nth_zero [OF f] by (auto simp: structure_ok_def)
  then show ?thesis
    using filtered_length [OF f] filtered_nth_zero [OF f] dmi_string_memory(2) [OF assms]
      filtered_dmi_string [OF f]
    by auto
qed

theorem dmi_string_filter_transparent_witness:
  "dmi_string_filtered False sample_header 1 = Some [1, 5, 0x10, 0, 1, 65, 46, 46, 0, 66, 0, 0]
   \<and> dmi_string False
       (sample_header\<lparr>dm_data := [1, 5, 0x10, 0, 1, 65, 46, 46, 0, 66, 0, 0]\<rparr>) 2
     = dmi_string False sample_header 2"
proof -
  have "dmi_string_filtered False sample_header 1 = Some [1, 5, 0x10, 0, 1, 65, 46, 46, 0, 66, 0, 0]"
    by code_simp
  with dmi_string_filter_transparent [OF this, of 2] show ?thesis by simp
qed

end
