(* ===== verification/Dmi_Tables.thy ===== *)
theory Dmi_Tables
  imports Dmi_Base
begin

text \<open>
  The enumerations of dmidecode.c: one function per \<^verbatim>\<open>static const char *dmi_...(u8 code)\<close>,
  with its static table. A table access outside the table is \<open>None\<close>. The section at the end
  shows that the guards of every function keep its accesses inside its tables: the functions
  with range checks are total, and the ones whose comment or caller promises a code of a few
  bits are total on those codes.
\<close>

unbundle bit_operations_syntax

section \<open>The lookup functions\<close>

definition dmi_smbios_structure_type :: "u8 \<Rightarrow> string option" where
  \<open>dmi_smbios_structure_type code =
   (let type =
      [''BIOS'', ''System'', ''Base Board'', ''Chassis'', ''Processor'', ''Memory Controller'',
       ''Memory Module'', ''Cache'', ''Port Connector'', ''System Slots'', ''On Board Devices'',
       ''OEM Strings'', ''System Configuration Options'', ''BIOS Language'',
       ''Group Associations'', ''System Event Log'', ''Physical Memory Array'',
       ''Memory Device'', ''32-bit Memory Error'', ''Memory Array Mapped Address'',
       ''Memory Device Mapped Address'', ''Built-in Pointing Device'', ''Portable Battery'',
       ''System Reset'', ''Hardware Security'', ''System Power Controls'', ''Voltage Probe'',
       ''Cooling Device'', ''Temperature Probe'', ''Electrical Current Probe'',
       ''Out-of-band Remote Access'', ''Boot Integrity Services'', ''System Boot'',
       ''64-bit Memory Error'', ''Management Device'', ''Management Device Component'',
       ''Management Device Threshold Data'', ''Memory Channel'', ''IPMI Device'',
       ''Power Supply'', ''Additional Information'', ''Onboard Device'',
       ''Management Controller Host Interface'', ''TPM Device'']
    in if code \<ge> 128 then Some ''OEM-specific'' else
      in_table 0 43 type code
      (Some out_of_spec))\<close>

definition dmi_system_wake_up_type :: "u8 \<Rightarrow> string option" where
  \<open>dmi_system_wake_up_type code =
   (let type =
      [''Reserved'', ''Other'', ''Unknown'', ''APM Timer'', ''Modem Ring'', ''LAN Remote'',
       ''Power Switch'', ''PCI PME#'', ''AC Power Restored'']
    in in_table 0 0x08 type code
      (Some out_of_spec))\<close>

definition dmi_base_board_type :: "u8 \<Rightarrow> string option" where
  \<open>dmi_base_board_type code =
   (let type =
      [''Unknown'', ''Other'', ''Server Blade'', ''Connectivity Switch'',
       ''System Management Module'', ''Processor Module'', ''I/O Module'', ''Memory Module'',
       ''Daughter Board'', ''Motherboard'', ''Processor+Memory Module'',
       ''Processor+I/O Module'', ''Interconnect Board'']
    in in_table 0x01 0x0D type code
      (Some out_of_spec))\<close>

definition dmi_chassis_type :: "u8 \<Rightarrow> string option" where
  \<open>dmi_chassis_type code =
   (let code = code AND 0x7F;
    type =
      [''Other'', ''Unknown'', ''Desktop'', ''Low Profile Desktop'', ''Pizza Box'',
       ''Mini Tower'', ''Tower'', ''Portable'', ''Laptop'', ''Notebook'', ''Hand Held'',
       ''Docking Station'', ''All In One'', ''Sub Notebook'', ''Space-saving'', ''Lunch Box'',
       ''Main Server Chassis'', ''Expansion Chassis'', ''Sub Chassis'',
       ''Bus Expansion Chassis'', ''Peripheral Chassis'', ''RAID Chassis'',
       ''Rack Mount Chassis'', ''Sealed-case PC'', ''Multi-system'', ''CompactPCI'',
       ''AdvancedTCA'', ''Blade'', ''Blade Enclosing'', ''Tablet'', ''Convertible'',
       ''Detachable'', ''IoT Gateway'', ''Embedded PC'', ''Mini PC'', ''Stick PC'']
    in in_table 0x01 0x24 type code
      (Some out_of_spec))\<close>

definition dmi_chassis_lock :: "u8 \<Rightarrow> string option" where
  \<open>dmi_chassis_lock code =
   (let lock =
      [''Not Present'', ''Present'']
    in idx lock (unat code))\<close>

definition dmi_chassis_state :: "u8 \<Rightarrow> string option" where
  \<open>dmi_chassis_state code =
   (let state =
      [''Other'', ''Unknown'', ''Safe'', ''Warning'', ''Critical'', ''Non-recoverable'']
    in in_table 0x01 0x06 state code
      (Some out_of_spec))\<close>

definition dmi_chassis_security_status :: "u8 \<Rightarrow> string option" where
  \<open>dmi_chassis_security_status code =
   (let status =
      [''Other'', ''Unknown'', ''None'', ''External Interface Locked Out'',
       ''External Interface Enabled'']
    in in_table 0x01 0x05 status code
      (Some out_of_spec))\<close>

definition dmi_processor_type :: "u8 \<Rightarrow> string option" where
  \<open>dmi_processor_type code =
   (let type =
      [''Other'', ''Unknown'', ''Central Processor'', ''Math Processor'', ''DSP Processor'',
       ''Video Processor'']
    in in_table 0x01 0x06 type code
      (Some out_of_spec))\<close>

definition dmi_processor_status :: "u8 \<Rightarrow> string option" where
  \<open>dmi_processor_status code =
   (let status =
      [''Unknown'', ''Enabled'', ''Disabled By User'', ''Disabled By BIOS'', ''Idle'',
       out_of_spec, out_of_spec, ''Other'']
    in idx status (unat code))\<close>

definition dmi_processor_upgrade :: "u8 \<Rightarrow> string option" where
  \<open>dmi_processor_upgrade code =
   (let upgrade =
      [''Other'', ''Unknown'', ''Daughter Board'', ''ZIF Socket'', ''Replaceable Piggy Back'',
       ''None'', ''LIF Socket'', ''Slot 1'', ''Slot 2'', ''370-pin Socket'', ''Slot A'',
       ''Slot M'', ''Socket 423'', ''Socket A (Socket 462)'', ''Socket 478'', ''Socket 754'',
       ''Socket 940'', ''Socket 939'', ''Socket mPGA604'', ''Socket LGA771'', ''Socket LGA775'',
       ''Socket S1'', ''Socket AM2'', ''Socket F (1207)'', ''Socket LGA1366'', ''Socket G34'',
       ''Socket AM3'', ''Socket C32'', ''Socket LGA1156'', ''Socket LGA1567'',
       ''Socket PGA988A'', ''Socket BGA1288'', ''Socket rPGA988B'', ''Socket BGA1023'',
       ''Socket BGA1224'', ''Socket BGA1155'', ''Socket LGA1356'', ''Socket LGA2011'',
       ''Socket FS1'', ''Socket FS2'', ''Socket FM1'', ''Socket FM2'', ''Socket LGA2011-3'',
       ''Socket LGA1356-3'', ''Socket LGA1150'', ''Socket BGA1168'', ''Socket BGA1234'',
       ''Socket BGA1364'', ''Socket AM4'', ''Socket LGA1151'', ''Socket BGA1356'',
       ''Socket BGA1440'', ''Socket BGA1515'', ''Socket LGA3647-1'', ''Socket SP3'',
       ''Socket SP3r2'', ''Socket LGA2066'', ''Socket BGA1392'', ''Socket BGA1510'',
       ''Socket BGA1528'']
    in in_table 0x01 0x3C upgrade code
      (Some out_of_spec))\<close>

definition dmi_memory_controller_ed_method :: "u8 \<Rightarrow> string option" where
  \<open>dmi_memory_controller_ed_method code =
   (let method =
      [''Other'', ''Unknown'', ''None'', ''8-bit Parity'', ''32-bit ECC'', ''64-bit ECC'',
       ''128-bit ECC'', ''CRC'']
    in in_table 0x01 0x08 method code
      (Some out_of_spec))\<close>

definition dmi_memory_controller_interleave :: "u8 \<Rightarrow> string option" where
  \<open>dmi_memory_controller_interleave code =
   (let interleave =
      [''Other'', ''Unknown'', ''One-way Interleave'', ''Two-way Interleave'',
       ''Four-way Interleave'', ''Eight-way Interleave'', ''Sixteen-way Interleave'']
    in in_table 0x01 0x07 interleave code
      (Some out_of_spec))\<close>

definition dmi_cache_mode :: "u8 \<Rightarrow> string option" where
  \<open>dmi_cache_mode code =
   (let mode =
      [''Write Through'', ''Write Back'', ''Varies With Memory Address'', ''Unknown'']
    in idx mode (unat code))\<close>

definition dmi_cache_location :: "u8 \<Rightarrow> string option" where
  \<open>dmi_cache_location code =
   (let location =
      [''Internal'', ''External'', out_of_spec, ''Unknown'']
    in idx location (unat code))\<close>

definition dmi_cache_ec_type :: "u8 \<Rightarrow> string option" where
  \<open>dmi_cache_ec_type code =
   (let type =
      [''Other'', ''Unknown'', ''None'', ''Parity'', ''Single-bit ECC'', ''Multi-bit ECC'']
    in in_table 0x01 0x06 type code
      (Some out_of_spec))\<close>

definition dmi_cache_type :: "u8 \<Rightarrow> string option" where
  \<open>dmi_cache_type code =
   (let type =
      [''Other'', ''Unknown'', ''Instruction'', ''Data'', ''Unified'']
    in in_table 0x01 0x05 type code
      (Some out_of_spec))\<close>

definition dmi_cache_associativity :: "u8 \<Rightarrow> string option" where
  \<open>dmi_cache_associativity code =
   (let type =
      [''Other'', ''Unknown'', ''Direct Mapped'', ''2-way Set-associative'',
       ''4-way Set-associative'', ''Fully Associative'', ''8-way Set-associative'',
       ''16-way Set-associative'', ''12-way Set-associative'', ''24-way Set-associative'',
       ''32-way Set-associative'', ''48-way Set-associative'', ''64-way Set-associative'',
       ''20-way Set-associative'']
    in in_table 0x01 0x0E type code
      (Some out_of_spec))\<close>

definition dmi_port_connector_type :: "u8 \<Rightarrow> string option" where
  \<open>dmi_port_connector_type code =
   (let type =
      [''None'', ''Centronics'', ''Mini Centronics'', ''Proprietary'', ''DB-25 male'',
       ''DB-25 female'', ''DB-15 male'', ''DB-15 female'', ''DB-9 male'', ''DB-9 female'',
       ''RJ-11'', ''RJ-45'', ''50 Pin MiniSCSI'', ''Mini DIN'', ''Micro DIN'', ''PS/2'',
       ''Infrared'', ''HP-HIL'', ''Access Bus (USB)'', ''SSA SCSI'', ''Circular DIN-8 male'',
       ''Circular DIN-8 female'', ''On Board IDE'', ''On Board Floppy'',
       ''9 Pin Dual Inline (pin 10 cut)'', ''25 Pin Dual Inline (pin 26 cut)'',
       ''50 Pin Dual Inline'', ''68 Pin Dual Inline'', ''On Board Sound Input From CD-ROM'',
       ''Mini Centronics Type-14'', ''Mini Centronics Type-26'', ''Mini Jack (headphones)'',
       ''BNC'', ''IEEE 1394'', ''SAS/SATA Plug Receptacle'', ''USB Type-C Receptacle''];
    type_0xA0 =
      [''PC-98'', ''PC-98 Hireso'', ''PC-H98'', ''PC-98 Note'', ''PC-98 Full'']
    in in_table 0 0x23 type code
      (in_table 0xA0 0xA4 type_0xA0 code
      (if code = 0xFF then Some ''Other'' else
      Some out_of_spec)))\<close>

definition dmi_port_type :: "u8 \<Rightarrow> string option" where
  \<open>dmi_port_type code =
   (let type =
      [''None'', ''Parallel Port XT/AT Compatible'', ''Parallel Port PS/2'',
       ''Parallel Port ECP'', ''Parallel Port EPP'', ''Parallel Port ECP/EPP'',
       ''Serial Port XT/AT Compatible'', ''Serial Port 16450 Compatible'',
       ''Serial Port 16550 Compatible'', ''Serial Port 16550A Compatible'', ''SCSI Port'',
       ''MIDI Port'', ''Joystick Port'', ''Keyboard Port'', ''Mouse Port'', ''SSA SCSI'',
       ''USB'', ''Firewire (IEEE P1394)'', ''PCMCIA Type I'', ''PCMCIA Type II'',
       ''PCMCIA Type III'', ''Cardbus'', ''Access Bus Port'', ''SCSI II'', ''SCSI Wide'',
       ''PC-98'', ''PC-98 Hireso'', ''PC-H98'', ''Video Port'', ''Audio Port'', ''Modem Port'',
       ''Network Port'', ''SATA'', ''SAS''];
    type_0xA0 =
      [''8251 Compatible'', ''8251 FIFO Compatible'']
    in in_table 0 0x21 type code
      (in_table 0xA0 0xA1 type_0xA0 code
      (if code = 0xFF then Some ''Other'' else
      Some out_of_spec)))\<close>

definition dmi_slot_type :: "u8 \<Rightarrow> string option" where
  \<open>dmi_slot_type code =
   (let type =
      [''Other'', ''Unknown'', ''ISA'', ''MCA'', ''EISA'', ''PCI'', ''PC Card (PCMCIA)'',
       ''VLB'', ''Proprietary'', ''Processor Card'', ''Proprietary Memory Card'',
       ''I/O Riser Card'', ''NuBus'', ''PCI-66'', ''AGP'', ''AGP 2x'', ''AGP 4x'', ''PCI-X'',
       ''AGP 8x'', ''M.2 Socket 1-DP'', ''M.2 Socket 1-SD'', ''M.2 Socket 2'', ''M.2 Socket 3'',
       ''MXM Type I'', ''MXM Type II'', ''MXM Type III'', ''MXM Type III-HE'', ''MXM Type IV'',
       ''MXM 3.0 Type A'', ''MXM 3.0 Type B'', ''PCI Express 2 SFF-8639'',
       ''PCI Express 3 SFF-8639'', ''PCI Express Mini 52-pin with bottom-side keep-outs'',
       ''PCI Express Mini 52-pin without bottom-side keep-outs'', ''PCI Express Mini 76-pin''];
    type_0xA0 =
      [''PC-98/C20'', ''PC-98/C24'', ''PC-98/E'', ''PC-98/Local Bus'', ''PC-98/Card'',
       ''PCI Express'', ''PCI Express x1'', ''PCI Express x2'', ''PCI Express x4'',
       ''PCI Express x8'', ''PCI Express x16'', ''PCI Express 2'', ''PCI Express 2 x1'',
       ''PCI Express 2 x2'', ''PCI Express 2 x4'', ''PCI Express 2 x8'', ''PCI Express 2 x16'',
       ''PCI Express 3'', ''PCI Express 3 x1'', ''PCI Express 3 x2'', ''PCI Express 3 x4'',
       ''PCI Express 3 x8'', ''PCI Express 3 x16'']
    in in_table 0x01 0x23 type code
      (in_table 0xA0 0xB6 type_0xA0 code
      (Some out_of_spec)))\<close>

definition dmi_slot_bus_width :: "u8 \<Rightarrow> string option" where
  \<open>dmi_slot_bus_width code =
   (let width =
      ['''', '''', ''8-bit '', ''16-bit '', ''32-bit '', ''64-bit '', ''128-bit '', ''x1 '',
       ''x2 '', ''x4 '', ''x8 '', ''x12 '', ''x16 '', ''x32 '']
    in in_table 0x01 0x0E width code
      (Some out_of_spec))\<close>

definition dmi_slot_current_usage :: "u8 \<Rightarrow> string option" where
  \<open>dmi_slot_current_usage code =
   (let usage =
      [''Other'', ''Unknown'', ''Available'', ''In Use'', ''Unavailable'']
    in in_table 0x01 0x05 usage code
      (Some out_of_spec))\<close>

definition dmi_slot_length :: "u8 \<Rightarrow> string option" where
  \<open>dmi_slot_length code =
   (let length =
      [''Other'', ''Unknown'', ''Short'', ''Long'']
    in in_table 0x01 0x04 length code
      (Some out_of_spec))\<close>

definition dmi_on_board_devices_type :: "u8 \<Rightarrow> string option" where
  \<open>dmi_on_board_devices_type code =
   (let type =
      [''Other'', ''Unknown'', ''Video'', ''SCSI Controller'', ''Ethernet'', ''Token Ring'',
       ''Sound'', ''PATA Controller'', ''SATA Controller'', ''SAS Controller'']
    in in_table 0x01 0x0A type code
      (Some out_of_spec))\<close>

definition dmi_event_log_method :: "u8 \<Rightarrow> string option" where
  \<open>dmi_event_log_method code =
   (let method =
      [''Indexed I/O, one 8-bit index port, one 8-bit data port'',
       ''Indexed I/O, two 8-bit index ports, one 8-bit data port'',
       ''Indexed I/O, one 16-bit index port, one 8-bit data port'',
       ''Memory-mapped physical 32-bit address'', ''General-purpose non-volatile data functions'']
    in in_table 0 0x04 method code
      (if code \<ge> 0x80 then Some ''OEM-specific'' else
      Some out_of_spec))\<close>

definition dmi_event_log_header_type :: "u8 \<Rightarrow> string option" where
  \<open>dmi_event_log_header_type code =
   (let type =
      [''No Header'', ''Type 1'']
    in in_table 0 0x01 type code
      (if code \<ge> 0x80 then Some ''OEM-specific'' else
      Some out_of_spec))\<close>

definition dmi_event_log_descriptor_format :: "u8 \<Rightarrow> string option" where
  \<open>dmi_event_log_descriptor_format code =
   (let format =
      [''None'', ''Handle'', ''Multiple-event'', ''Multiple-event handle'',
       ''POST results bitmap'', ''System management'', ''Multiple-event system management'']
    in in_table 0 0x06 format code
      (if code \<ge> 0x80 then Some ''OEM-specific'' else
      Some out_of_spec))\<close>

definition dmi_memory_array_location :: "u8 \<Rightarrow> string option" where
  \<open>dmi_memory_array_location code =
   (let location =
      [''Other'', ''Unknown'', ''System Board Or Motherboard'', ''ISA Add-on Card'',
       ''EISA Add-on Card'', ''PCI Add-on Card'', ''MCA Add-on Card'', ''PCMCIA Add-on Card'',
       ''Proprietary Add-on Card'', ''NuBus''];
    location_0xA0 =
      [''PC-98/C20 Add-on Card'', ''PC-98/C24 Add-on Card'', ''PC-98/E Add-on Card'',
       ''PC-98/Local Bus Add-on Card'']
    in in_table 0x01 0x0A location code
      (in_table 0xA0 0xA3 location_0xA0 code
      (Some out_of_spec)))\<close>

definition dmi_memory_array_use :: "u8 \<Rightarrow> string option" where
  \<open>dmi_memory_array_use code =
   (let use =
      [''Other'', ''Unknown'', ''System Memory'', ''Video Memory'', ''Flash Memory'',
       ''Non-volatile RAM'', ''Cache Memory'']
    in in_table 0x01 0x07 use code
      (Some out_of_spec))\<close>

definition dmi_memory_array_ec_type :: "u8 \<Rightarrow> string option" where
  \<open>dmi_memory_array_ec_type code =
   (let type =
      [''Other'', ''Unknown'', ''None'', ''Parity'', ''Single-bit ECC'', ''Multi-bit ECC'',
       ''CRC'']
    in in_table 0x01 0x07 type code
      (Some out_of_spec))\<close>

definition dmi_memory_device_form_factor :: "u8 \<Rightarrow> string option" where
  \<open>dmi_memory_device_form_factor code =
   (let form_factor =
      [''Other'', ''Unknown'', ''SIMM'', ''SIP'', ''Chip'', ''DIP'', ''ZIP'',
       ''Proprietary Card'', ''DIMM'', ''TSOP'', ''Row Of Chips'', ''RIMM'', ''SODIMM'',
       ''SRIMM'', ''FB-DIMM'']
    in in_table 0x01 0x0F form_factor code
      (Some out_of_spec))\<close>

definition dmi_memory_device_type :: "u8 \<Rightarrow> string option" where
  \<open>dmi_memory_device_type code =
   (let type =
      [''Other'', ''Unknown'', ''DRAM'', ''EDRAM'', ''VRAM'', ''SRAM'', ''RAM'', ''ROM'',
       ''Flash'', ''EEPROM'', ''FEPROM'', ''EPROM'', ''CDRAM'', ''3DRAM'', ''SDRAM'', ''SGRAM'',
       ''RDRAM'', ''DDR'', ''DDR2'', ''DDR2 FB-DIMM'', ''Reserved'', ''Reserved'', ''Reserved'',
       ''DDR3'', ''FBD2'', ''DDR4'', ''LPDDR'', ''LPDDR2'', ''LPDDR3'', ''LPDDR4'']
    in in_table 0x01 0x1E type code
      (Some out_of_spec))\<close>

definition dmi_memory_error_type :: "u8 \<Rightarrow> string option" where
  \<open>dmi_memory_error_type code =
   (let type =
      [''Other'', ''Unknown'', ''OK'', ''Bad Read'', ''Parity Error'', ''Single-bit Error'',
       ''Double-bit Error'', ''Multi-bit Error'', ''Nibble Error'', ''Checksum Error'',
       ''CRC Error'', ''Corrected Single-bit Error'', ''Corrected Error'',
       ''Uncorrectable Error'']
    in in_table 0x01 0x0E type code
      (Some out_of_spec))\<close>

definition dmi_memory_error_granularity :: "u8 \<Rightarrow> string option" where
  \<open>dmi_memory_error_granularity code =
   (let granularity =
      [''Other'', ''Unknown'', ''Device Level'', ''Memory Partition Level'']
    in in_table 0x01 0x04 granularity code
      (Some out_of_spec))\<close>

definition dmi_memory_error_operation :: "u8 \<Rightarrow> string option" where
  \<open>dmi_memory_error_operation code =
   (let operation =
      [''Other'', ''Unknown'', ''Read'', ''Write'', ''Partial Write'']
    in in_table 0x01 0x05 operation code
      (Some out_of_spec))\<close>

definition dmi_pointing_device_type :: "u8 \<Rightarrow> string option" where
  \<open>dmi_pointing_device_type code =
   (let type =
      [''Other'', ''Unknown'', ''Mouse'', ''Track Ball'', ''Track Point'', ''Glide Point'',
       ''Touch Pad'', ''Touch Screen'', ''Optical Sensor'']
    in in_table 0x01 0x09 type code
      (Some out_of_spec))\<close>

definition dmi_pointing_device_interface :: "u8 \<Rightarrow> string option" where
  \<open>dmi_pointing_device_interface code =
   (let interface =
      [''Other'', ''Unknown'', ''Serial'', ''PS/2'', ''Infrared'', ''HIP-HIL'', ''Bus Mouse'',
       ''ADB (Apple Desktop Bus)''];
    interface_0xA0 =
      [''Bus Mouse DB-9'', ''Bus Mouse Micro DIN'', ''USB'']
    in in_table 0x01 0x08 interface code
      (in_table 0xA0 0xA2 interface_0xA0 code
      (Some out_of_spec)))\<close>

definition dmi_battery_chemistry :: "u8 \<Rightarrow> string option" where
  \<open>dmi_battery_chemistry code =
   (let chemistry =
      [''Other'', ''Unknown'', ''Lead Acid'', ''Nickel Cadmium'', ''Nickel Metal Hydride'',
       ''Lithium Ion'', ''Zinc Air'', ''Lithium Polymer'']
    in in_table 0x01 0x08 chemistry code
      (Some out_of_spec))\<close>

definition dmi_system_reset_boot_option :: "u8 \<Rightarrow> string option" where
  \<open>dmi_system_reset_boot_option code =
   (let option =
      [out_of_spec, ''Operating System'', ''System Utilities'', ''Do Not Reboot'']
    in idx option (unat code))\<close>

definition dmi_hardware_security_status :: "u8 \<Rightarrow> string option" where
  \<open>dmi_hardware_security_status code =
   (let status =
      [''Disabled'', ''Enabled'', ''Not Implemented'', ''Unknown'']
    in idx status (unat code))\<close>

definition dmi_voltage_probe_location :: "u8 \<Rightarrow> string option" where
  \<open>dmi_voltage_probe_location code =
   (let location =
      [''Other'', ''Unknown'', ''Processor'', ''Disk'', ''Peripheral Bay'',
       ''System Management Module'', ''Motherboard'', ''Memory Module'', ''Processor Module'',
       ''Power Unit'', ''Add-in Card'']
    in in_table 0x01 0x0B location code
      (Some out_of_spec))\<close>

definition dmi_probe_status :: "u8 \<Rightarrow> string option" where
  \<open>dmi_probe_status code =
   (let status =
      [''Other'', ''Unknown'', ''OK'', ''Non-critical'', ''Critical'', ''Non-recoverable'']
    in in_table 0x01 0x06 status code
      (Some out_of_spec))\<close>

definition dmi_cooling_device_type :: "u8 \<Rightarrow> string option" where
  \<open>dmi_cooling_device_type code =
   (let type =
      [''Other'', ''Unknown'', ''Fan'', ''Centrifugal Blower'', ''Chip Fan'', ''Cabinet Fan'',
       ''Power Supply Fan'', ''Heat Pipe'', ''Integrated Refrigeration''];
    type_0x10 =
      [''Active Cooling'', ''Passive Cooling'']
    in in_table 0x01 0x09 type code
      (in_table 0x10 0x11 type_0x10 code
      (Some out_of_spec)))\<close>

definition dmi_temperature_probe_location :: "u8 \<Rightarrow> string option" where
  \<open>dmi_temperature_probe_location code =
   (let location =
      [''Other'', ''Unknown'', ''Processor'', ''Disk'', ''Peripheral Bay'',
       ''System Management Module'', ''Motherboard'', ''Memory Module'', ''Processor Module'',
       ''Power Unit'', ''Add-in Card'', ''Front Panel Board'', ''Back Panel Board'',
       ''Power System Board'', ''Drive Back Plane'']
    in in_table 0x01 0x0F location code
      (Some out_of_spec))\<close>

definition dmi_system_boot_status :: "u8 \<Rightarrow> string option" where
  \<open>dmi_system_boot_status code =
   (let status =
      [''No errors detected'', ''No bootable media'', ''Operating system failed to load'',
       ''Firmware-detected hardware failure'', ''Operating system-detected hardware failure'',
       ''User-requested boot'', ''System security violation'', ''Previously-requested image'',
       ''System watchdog timer expired'']
    in in_table 0 8 status code
      (if 128 \<le> code \<and> code \<le> 191 then Some ''OEM-specific'' else
      if code \<ge> 192 then Some ''Product-specific'' else
      Some out_of_spec))\<close>

definition dmi_management_device_type :: "u8 \<Rightarrow> string option" where
  \<open>dmi_management_device_type code =
   (let type =
      [''Other'', ''Unknown'', ''LM75'', ''LM78'', ''LM79'', ''LM80'', ''LM81'', ''ADM9240'',
       ''DS1780'', ''MAX1617'', ''GL518SM'', ''W83781D'', ''HT82H791'']
    in in_table 0x01 0x0D type code
      (Some out_of_spec))\<close>

definition dmi_management_device_address_type :: "u8 \<Rightarrow> string option" where
  \<open>dmi_management_device_address_type code =
   (let type =
      [''Other'', ''Unknown'', ''I/O Port'', ''Memory'', ''SMBus'']
    in in_table 0x01 0x05 type code
      (Some out_of_spec))\<close>

definition dmi_memory_channel_type :: "u8 \<Rightarrow> string option" where
  \<open>dmi_memory_channel_type code =
   (let type =
      [''Other'', ''Unknown'', ''RamBus'', ''SyncLink'']
    in in_table 0x01 0x04 type code
      (Some out_of_spec))\<close>

definition dmi_ipmi_interface_type :: "u8 \<Rightarrow> string option" where
  \<open>dmi_ipmi_interface_type code =
   (let type =
      [''Unknown'', ''KCS (Keyboard Control Style)'',
       ''SMIC (Server Management Interface Chip)'', ''BT (Block Transfer)'',
       ''SSIF (SMBus System Interface)'']
    in in_table 0 0x04 type code
      (Some out_of_spec))\<close>

definition dmi_ipmi_register_spacing :: "u8 \<Rightarrow> string option" where
  \<open>dmi_ipmi_register_spacing code =
   (let spacing =
      [''Successive Byte Boundaries'', ''32-bit Boundaries'', ''16-byte Boundaries'', out_of_spec]
    in idx spacing (unat code))\<close>

definition dmi_power_supply_type :: "u8 \<Rightarrow> string option" where
  \<open>dmi_power_supply_type code =
   (let type =
      [''Other'', ''Unknown'', ''Linear'', ''Switching'', ''Battery'', ''UPS'', ''Converter'',
       ''Regulator'']
    in in_table 0x01 0x08 type code
      (Some out_of_spec))\<close>

definition dmi_power_supply_status :: "u8 \<Rightarrow> string option" where
  \<open>dmi_power_supply_status code =
   (let status =
      [''Other'', ''Unknown'', ''OK'', ''Non-critical'', ''Critical'']
    in in_table 0x01 0x05 status code
      (Some out_of_spec))\<close>

definition dmi_power_supply_range_switching :: "u8 \<Rightarrow> string option" where
  \<open>dmi_power_supply_range_switching code =
   (let switching =
      [''Other'', ''Unknown'', ''Manual'', ''Auto-switch'', ''Wide Range'', ''N/A'']
    in in_table 0x01 0x06 switching code
      (Some out_of_spec))\<close>

definition dmi_management_controller_host_type :: "u8 \<Rightarrow> string option" where
  \<open>dmi_management_controller_host_type code =
   (let type =
      [''KCS: Keyboard Controller Style'', ''8250 UART Register Compatible'',
       ''16450 UART Register Compatible'', ''16550/16550A UART Register Compatible'',
       ''16650/16650A UART Register Compatible'', ''16750/16750A UART Register Compatible'',
       ''16850/16850A UART Register Compatible'']
    in in_table 0x02 0x08 type code
      (if code \<le> 0x3F then Some ''MCTP'' else
      if code = 0x40 then Some ''Network'' else
      if code = 0xF0 then Some ''OEM'' else
      Some out_of_spec))\<close>

definition dmi_protocol_record_type :: "u8 \<Rightarrow> string option" where
  \<open>dmi_protocol_record_type type =
   (let protocol =
      [''Reserved'', ''Reserved'', ''IPMI'', ''MCTP'', ''Redfish over IP'']
    in in_table 0 0x4 protocol type
      (if type = 0xF0 then Some ''OEM'' else
      Some out_of_spec))\<close>

definition dmi_protocol_assignment_type :: "u8 \<Rightarrow> string option" where
  \<open>dmi_protocol_assignment_type type =
   (let assignment =
      [''Unknown'', ''Static'', ''DHCP'', ''AutoConf'', ''Host Selected'']
    in in_table 0 0x4 assignment type
      (Some out_of_spec))\<close>

definition dmi_address_type :: "u8 \<Rightarrow> string option" where
  \<open>dmi_address_type type =
   (let addressformat =
      [''Unknown'', ''IPv4'', ''IPv6'']
    in in_table 0 0x2 addressformat type
      (Some out_of_spec))\<close>

definition dmi_parse_device_type :: "u8 \<Rightarrow> string option" where
  \<open>dmi_parse_device_type type =
   (let devname =
      [''USB'', ''PCI/PCIe'']
    in in_table 0x2 0x3 devname type
      (if type \<ge> 0x80 then Some ''OEM'' else
      Some out_of_spec))\<close>

definition dmi_event_log_descriptor_type :: "u8 \<Rightarrow> string option" where
  \<open>dmi_event_log_descriptor_type code =
   (let type =
      [None, Some ''Single-bit ECC memory error'', Some ''Multi-bit ECC memory error'',
       Some ''Parity memory error'', Some ''Bus timeout'', Some ''I/O channel block'',
       Some ''Software NMI'', Some ''POST memory resize'', Some ''POST error'',
       Some ''PCI parity error'', Some ''PCI system error'', Some ''CPU failure'',
       Some ''EISA failsafe timer timeout'', Some ''Correctable memory log disabled'',
       Some ''Logging disabled'', None, Some ''System limit exceeded'',
       Some ''Asynchronous hardware timer expired'', Some ''System configuration information'',
       Some ''Hard disk information'', Some ''System reconfigured'',
       Some ''Uncorrectable CPU-complex error'', Some ''Log area reset/cleared'',
       Some ''System boot''];
     rest =
       (if 0x80 \<le> code \<and> code \<le> 0xFE then ''OEM-specific''
        else if code = 0xFF then ''End of log''
        else out_of_spec)
    in if code \<le> 0x17 then do {
         e \<leftarrow> idx type (unat code);
         case e of Some s \<Rightarrow> Some s | None \<Rightarrow> Some rest }
       else Some rest)\<close>

definition dmi_bios_language_format :: "u8 \<Rightarrow> string" where
  "dmi_bios_language_format code = (if bit code 0 then ''Abbreviated'' else ''Long'')"

section \<open>Table accesses stay inside the tables\<close>

lemmas enum_defs =
  dmi_smbios_structure_type_def
  dmi_system_wake_up_type_def
  dmi_base_board_type_def
  dmi_chassis_type_def
  dmi_chassis_state_def
  dmi_chassis_security_status_def
  dmi_processor_type_def
  dmi_processor_upgrade_def
  dmi_memory_controller_ed_method_def
  dmi_memory_controller_interleave_def
  dmi_cache_ec_type_def
  dmi_cache_type_def
  dmi_cache_associativity_def
  dmi_port_connector_type_def
  dmi_port_type_def
  dmi_slot_type_def
  dmi_slot_bus_width_def
  dmi_slot_current_usage_def
  dmi_slot_length_def
  dmi_on_board_devices_type_def
  dmi_event_log_method_def
  dmi_event_log_header_type_def
  dmi_event_log_descriptor_format_def
  dmi_memory_array_location_def
  dmi_memory_array_use_def
  dmi_memory_array_ec_type_def
  dmi_memory_device_form_factor_def
  dmi_memory_device_type_def
  dmi_memory_error_type_def
  dmi_memory_error_granularity_def
  dmi_memory_error_operation_def
  dmi_pointing_device_type_def
  dmi_pointing_device_interface_def
  dmi_battery_chemistry_def
  dmi_voltage_probe_location_def
  dmi_probe_status_def
  dmi_cooling_device_type_def
  dmi_temperature_probe_location_def
  dmi_system_boot_status_def
  dmi_management_device_type_def
  dmi_management_device_address_type_def
  dmi_memory_channel_type_def
  dmi_ipmi_interface_type_def
  dmi_power_supply_type_def
  dmi_power_supply_status_def
  dmi_power_supply_range_switching_def
  dmi_management_controller_host_type_def
  dmi_protocol_record_type_def
  dmi_protocol_assignment_type_def
  dmi_address_type_def
  dmi_parse_device_type_def

lemma enum_safe [dmi_safe]:
  "safe (dmi_smbios_structure_type code)"
  "safe (dmi_system_wake_up_type code)"
  "safe (dmi_base_board_type code)"
  "safe (dmi_chassis_type code)"
  "safe (dmi_chassis_state code)"
  "safe (dmi_chassis_security_status code)"
  "safe (dmi_processor_type code)"
  "safe (dmi_processor_upgrade code)"
  "safe (dmi_memory_controller_ed_method code)"
  "safe (dmi_memory_controller_interleave code)"
  "safe (dmi_cache_ec_type code)"
  "safe (dmi_cache_type code)"
  "safe (dmi_cache_associativity code)"
  "safe (dmi_port_connector_type code)"
  "safe (dmi_port_type code)"
  "safe (dmi_slot_type code)"
  "safe (dmi_slot_bus_width code)"
  "safe (dmi_slot_current_usage code)"
  "safe (dmi_slot_length code)"
  "safe (dmi_on_board_devices_type code)"
  "safe (dmi_event_log_method code)"
  "safe (dmi_event_log_header_type code)"
  "safe (dmi_event_log_descriptor_format code)"
  "safe (dmi_memory_array_location code)"
  "safe (dmi_memory_array_use code)"
  "safe (dmi_memory_array_ec_type code)"
  "safe (dmi_memory_device_form_factor code)"
  "safe (dmi_memory_device_type code)"
  "safe (dmi_memory_error_type code)"
  "safe (dmi_memory_error_granularity code)"
  "safe (dmi_memory_error_operation code)"
  "safe (dmi_pointing_device_type code)"
  "safe (dmi_pointing_device_interface code)"
  "safe (dmi_battery_chemistry code)"
  "safe (dmi_voltage_probe_location code)"
  "safe (dmi_probe_status code)"
  "safe (dmi_cooling_device_type code)"
  "safe (dmi_temperature_probe_location code)"
  "safe (dmi_system_boot_status code)"
  "safe (dmi_management_device_type code)"
  "safe (dmi_management_device_address_type code)"
  "safe (dmi_memory_channel_type code)"
  "safe (dmi_ipmi_interface_type code)"
  "safe (dmi_power_supply_type code)"
  "safe (dmi_power_supply_status code)"
  "safe (dmi_power_supply_range_switching code)"
  "safe (dmi_management_controller_host_type code)"
  "safe (dmi_protocol_record_type code)"
  "safe (dmi_protocol_assignment_type code)"
  "safe (dmi_address_type code)"
  "safe (dmi_parse_device_type code)"
  by (simp_all add: enum_defs Let_def dmi_safe)

lemmas small_enum_defs =
  dmi_chassis_lock_def
  dmi_processor_status_def
  dmi_cache_mode_def
  dmi_cache_location_def
  dmi_system_reset_boot_option_def
  dmi_hardware_security_status_def
  dmi_ipmi_register_spacing_def

lemma small_enum_safe [dmi_safe]:
  "safe (dmi_chassis_lock code) \<longleftrightarrow> unat code < 2"
  "safe (dmi_processor_status code) \<longleftrightarrow> unat code < 8"
  "safe (dmi_cache_mode code) \<longleftrightarrow> unat code < 4"
  "safe (dmi_cache_location code) \<longleftrightarrow> unat code < 4"
  "safe (dmi_system_reset_boot_option code) \<longleftrightarrow> unat code < 4"
  "safe (dmi_hardware_security_status code) \<longleftrightarrow> unat code < 4"
  "safe (dmi_ipmi_register_spacing code) \<longleftrightarrow> unat code < 4"
  by (simp_all add: small_enum_defs Let_def dmi_safe numeral_eq_Suc)

lemma event_log_descriptor_type_safe [dmi_safe]: "safe (dmi_event_log_descriptor_type code)"
proof (cases "code \<le> 0x17")
  case True
  then have "unat code \<le> 0x17"
    by (simp add: word_le_nat_alt)
  with True show ?thesis
    by (simp add: dmi_event_log_descriptor_type_def Let_def dmi_safe split: option.split)
next
  case False
  then show ?thesis by (simp add: dmi_event_log_descriptor_type_def Let_def)
qed

end
