(* ===== verification/Dmi_Print.thy ===== *)
theory Dmi_Print
  imports Dmi_Tables
begin

text \<open>
  The helpers of dmidecode.c that print one field of types 0 to 9: sizes, flag lists, the
  UUID, the processor family and signature. Each is the text it prints; the ones that take
  a pointer read through it.

  The theorems: the UUID, the processor family search and the memory size printer are
  compared with reference definitions (\<open>map_of\<close> on the table, division by powers of 1024),
  and every helper is shown to keep its reads inside the memory it is given.
\<close>

unbundle bit_operations_syntax

section \<open>Command line options\<close>

record string_keyword =
  kw_type :: u8
  kw_offset :: u8

record opt =
  opt_flags :: u32
  opt_type :: "(u8 \<Rightarrow> bool) option"
  opt_string :: "string_keyword option"
  opt_handle :: u32

definition FLAG_DUMP :: "opt \<Rightarrow> bool" where
  "FLAG_DUMP o' = bit (opt_flags o') 2"

definition FLAG_QUIET :: "opt \<Rightarrow> bool" where
  "FLAG_QUIET o' = bit (opt_flags o') 3"

section \<open>Generic helpers\<close>

definition pline :: "string \<Rightarrow> string option \<Rightarrow> string option" where
  "pline prefix x = map_option (\<lambda>s. prefix @ s @ nl) x"

lemma safe_pline [dmi_safe]: "safe (pline prefix x) \<longleftrightarrow> safe x"
  by (simp add: pline_def dmi_safe)

definition dmi_bcd_range :: "u8 \<Rightarrow> u8 \<Rightarrow> u8 \<Rightarrow> bool" where
  "dmi_bcd_range value low high =
     (if value > 0x99 \<or> (value AND 0x0F) > 0x09 then False
      else if value < low \<or> value > high then False
      else True)"

definition read_bytes :: "u8 list \<Rightarrow> nat \<Rightarrow> u8 list option" where
  "read_bytes p n = (if n \<le> length p then Some (take n p) else None)"

lemma safe_read_bytes [dmi_safe]: "safe (read_bytes p n) \<longleftrightarrow> n \<le> length p"
  by (simp add: read_bytes_def)

section \<open>Hexadecimal dump\<close>

text \<open>
  \<open>dmi_dump\<close>: the bytes in rows of 16, then the strings. The \<^verbatim>\<open>while\<close> loop over the strings
  stops when \<^verbatim>\<open>dmi_string\<close> returns \<^verbatim>\<open>bad_index\<close>. Its counter is an \<^verbatim>\<open>int\<close> that is converted to
  a byte at the call, so after 255 strings the loop starts over with string number 0; the
  loop has a fuel argument, and 256 rounds decide whether it ends
  (\<open>dump_strings_diverges\<close>).
\<close>

definition hex_row :: "string \<Rightarrow> u8 list \<Rightarrow> string" where
  "hex_row prefix bs =
     prefix @ tab
       @ concat (map (\<lambda>(i, b). (if i = 0 then [] else '' '') @ pX 2 b) (enumerate 0 bs)) @ nl"

fun hex_rows :: "string \<Rightarrow> u8 list \<Rightarrow> string" where
  "hex_rows prefix [] = []"
| "hex_rows prefix (b # bs) = hex_row prefix (take 16 (b # bs)) @ hex_rows prefix (drop 15 bs)"

definition dump_string :: "opt \<Rightarrow> string \<Rightarrow> string \<Rightarrow> string" where
  "dump_string o' prefix s =
     (if FLAG_DUMP o' then
        (let bs = map (\<lambda>c. word_of_nat (of_char c) :: u8) s
         in hex_rows prefix (bs @ [0])
            @ prefix @ tab @ [CHR 0x22] @ map (char_of_byte \<circ> ascii_filter) bs @ [CHR 0x22] @ nl)
      else prefix @ tab @ s @ nl)"

fun dump_strings :: "nat \<Rightarrow> opt \<Rightarrow> dmi_header \<Rightarrow> string \<Rightarrow> nat \<Rightarrow> string option" where
  "dump_strings 0 o' h prefix i = None"
| "dump_strings (Suc fuel) o' h prefix i = do {
     r \<leftarrow> dmi_string_at (FLAG_DUMP o') h (word_of_nat i);
     case r of
       None \<Rightarrow> nothing
     | Some s \<Rightarrow> prints [Some (dump_string o' prefix s), dump_strings fuel o' h prefix (Suc i)] }"

definition dmi_dump :: "opt \<Rightarrow> dmi_header \<Rightarrow> string \<Rightarrow> string option" where
  "dmi_dump o' h prefix = do {
     bytes \<leftarrow> read_bytes (dm_data h) (len h);
     b0 \<leftarrow> rd (dm_data h) (len h);
     some \<leftarrow> (if b0 \<noteq> 0 then Some True
             else do { b1 \<leftarrow> rd (dm_data h) (len h + 1); Some (b1 \<noteq> 0) });
     prints
       [Some (prefix @ ''Header and Data:'' @ nl), Some (hex_rows prefix bytes),
        if some
        then prints [Some (prefix @ ''Strings:'' @ nl), dump_strings 256 o' h prefix 1]
        else nothing] }"

section \<open>Memory sizes\<close>

definition size_split :: "dmi_u64 \<Rightarrow> nat list" where
  "size_split code =
     map unat
       [lo32 code AND 0x3FF,
        drop_bit 10 (lo32 code) AND 0x3FF,
        drop_bit 20 (lo32 code) AND 0x3FF,
        (push_bit 2 (hi32 code) AND 0x3FC) OR drop_bit 30 (lo32 code),
        drop_bit 8 (hi32 code) AND 0x3FF,
        drop_bit 18 (hi32 code) AND 0x3FF,
        drop_bit 28 (hi32 code)]"

fun highest_unit :: "nat list \<Rightarrow> nat \<Rightarrow> nat" where
  "highest_unit split 0 = 0"
| "highest_unit split (Suc i) =
     (if split ! Suc i \<noteq> 0 then Suc i else highest_unit split i)"

definition size_capacity :: "dmi_u64 \<Rightarrow> nat \<times> nat" where
  "size_capacity code =
     (let split = size_split code; i = highest_unit split 6
      in if i > 0 \<and> split ! (i - 1) \<noteq> 0
         then (i - 1, split ! (i - 1) + push_bit 10 (split ! i))
         else (i, split ! i))"

definition size_units :: "string list" where
  "size_units = [''bytes'', ''kB'', ''MB'', ''GB'', ''TB'', ''PB'', ''EB'', ''ZB'']"

definition dmi_print_memory_size :: "dmi_u64 \<Rightarrow> nat \<Rightarrow> string option" where
  "dmi_print_memory_size code shift =
     (let (i, capacity) = size_capacity code
      in do { u \<leftarrow> idx size_units (i + shift); Some ('' '' @ dec capacity @ '' '' @ u) })"

section \<open>BIOS Information (type 0)\<close>

definition dmi_bios_runtime_size :: "u32 \<Rightarrow> string" where
  "dmi_bios_runtime_size code =
     (if code AND 0x3FF \<noteq> 0 then '' '' @ pu code @ '' bytes''
      else '' '' @ pu (drop_bit 10 code) @ '' kB'')"

definition dmi_bios_rom_size :: "u8 \<Rightarrow> u16 \<Rightarrow> string option" where
  "dmi_bios_rom_size code1 code2 =
     (let unit = [''MB'', ''GB'', out_of_spec, out_of_spec]
      in if code1 \<noteq> 0xFF then Some ('' '' @ dec ((unat code1 + 1) * 64) @ '' kB'')
         else do {
           u \<leftarrow> idx unit (unat (drop_bit 14 code2));
           Some ('' '' @ pu (code2 AND 0x3FFF) @ '' '' @ u) })"

definition dmi_bios_characteristics :: "dmi_u64 \<Rightarrow> string \<Rightarrow> string option" where
  \<open>dmi_bios_characteristics code prefix =
     (let characteristics =
         [''BIOS characteristics not supported'', ''ISA is supported'', ''MCA is supported'',
          ''EISA is supported'', ''PCI is supported'', ''PC Card (PCMCIA) is supported'',
          ''PNP is supported'', ''APM is supported'', ''BIOS is upgradeable'',
          ''BIOS shadowing is allowed'', ''VLB is supported'', ''ESCD support is available'',
          ''Boot from CD is supported'', ''Selectable boot is supported'',
          ''BIOS ROM is socketed'', ''Boot from PC Card (PCMCIA) is supported'',
          ''EDD is supported'', ''Japanese floppy for NEC 9800 1.2 MB is supported (int 13h)'',
          ''Japanese floppy for Toshiba 1.2 MB is supported (int 13h)'',
          ''5.25"/360 kB floppy services are supported (int 13h)'',
          ''5.25"/1.2 MB floppy services are supported (int 13h)'',
          ''3.5"/720 kB floppy services are supported (int 13h)'',
          ''3.5"/2.88 MB floppy services are supported (int 13h)'',
          ''Print screen service is supported (int 5h)'',
          ''8042 keyboard services are supported (int 9h)'',
          ''Serial services are supported (int 14h)'',
          ''Printer services are supported (int 17h)'',
          ''CGA/mono video services are supported (int 10h)'', ''NEC PC-98'']
      in if bit (lo32 code) 3 then pline prefix (idx characteristics 0)
         else flag_lines 4 31 (bit (lo32 code))
                (\<lambda>i. pline prefix (idx characteristics (i - 3))))\<close>

definition dmi_bios_characteristics_x1 :: "u8 \<Rightarrow> string \<Rightarrow> string option" where
  \<open>dmi_bios_characteristics_x1 code prefix =
     (let characteristics =
         [''ACPI is supported'', ''USB legacy is supported'', ''AGP is supported'',
          ''I2O boot is supported'', ''LS-120 boot is supported'',
          ''ATAPI Zip drive boot is supported'', ''IEEE 1394 boot is supported'',
          ''Smart battery is supported'']
      in flag_lines 0 7 (bit code) (\<lambda>i. pline prefix (idx characteristics i)))\<close>

definition dmi_bios_characteristics_x2 :: "u8 \<Rightarrow> string \<Rightarrow> string option" where
  \<open>dmi_bios_characteristics_x2 code prefix =
     (let characteristics =
         [''BIOS boot specification is supported'',
          ''Function key-initiated network boot is supported'',
          ''Targeted content distribution is supported'', ''UEFI is supported'',
          ''System is a virtual machine'']
      in flag_lines 0 4 (bit code) (\<lambda>i. pline prefix (idx characteristics i)))\<close>

section \<open>System Information (type 1)\<close>

text \<open>The scan of the UUID bytes; it stops as soon as both flags are cleared.\<close>

fun uuid_scan :: "u8 list \<Rightarrow> nat \<Rightarrow> nat \<Rightarrow> bool \<Rightarrow> bool \<Rightarrow> (bool \<times> bool) option" where
  "uuid_scan p i 0 only0x00 only0xFF = Some (only0x00, only0xFF)"
| "uuid_scan p i (Suc n) only0x00 only0xFF =
     (if only0x00 \<or> only0xFF then do {
        b \<leftarrow> rd p i;
        uuid_scan p (Suc i) n (only0x00 \<and> b = 0) (only0xFF \<and> b = 0xFF) }
      else Some (only0x00, only0xFF))"

definition uuid_format :: "u8 list \<Rightarrow> string" where
  "uuid_format q =
     concat (map (px 2) (take 4 q)) @ ''-'' @ concat (map (px 2) (take 2 (drop 4 q))) @ ''-''
       @ concat (map (px 2) (take 2 (drop 6 q))) @ ''-''
       @ concat (map (px 2) (take 2 (drop 8 q))) @ ''-'' @ concat (map (px 2) (drop 10 q))"

definition dmi_system_uuid :: "u8 list \<Rightarrow> u16 \<Rightarrow> string option" where
  "dmi_system_uuid p ver = do {
     (only0x00, only0xFF) \<leftarrow> uuid_scan p 0 16 True True;
     if only0xFF then Some ''Not Present''
     else if only0x00 then Some ''Not Settable''
     else do {
       q \<leftarrow> read_bytes p 16;
       if ver \<ge> 0x0206 then
         Some (uuid_format
           [q ! 3, q ! 2, q ! 1, q ! 0, q ! 5, q ! 4, q ! 7, q ! 6,
            q ! 8, q ! 9, q ! 10, q ! 11, q ! 12, q ! 13, q ! 14, q ! 15])
       else Some (uuid_format q) } }"

section \<open>Base board and chassis (types 2 and 3)\<close>

definition dmi_base_board_features :: "u8 \<Rightarrow> string \<Rightarrow> string option" where
  \<open>dmi_base_board_features code prefix =
     (let features =
         [''Board is a hosting board'', ''Board requires at least one daughter board'',
          ''Board is removable'', ''Board is replaceable'', ''Board is hot swappable'']
      in if code AND 0x1F = 0 then line '' None''
         else prints
           [line [], flag_lines 0 4 (bit code) (\<lambda>i. pline prefix (idx features i))])\<close>

definition dmi_base_board_handles :: "u8 \<Rightarrow> u8 list \<Rightarrow> string \<Rightarrow> string option" where
  "dmi_base_board_handles count p prefix =
     prints
       [pline prefix (Some (''Contained Object Handles: '' @ pu count)),
        for_lines 0 (unat count)
          (\<lambda>i. do { w \<leftarrow> WORD p (2 * i); pline (prefix @ tab) (Some (''0x'' @ pX 4 w)) })]"

definition dmi_chassis_height :: "u8 \<Rightarrow> string" where
  "dmi_chassis_height code =
     (if code = 0x00 then '' Unspecified'' else '' '' @ pu code @ '' U'')"

definition dmi_chassis_power_cords :: "u8 \<Rightarrow> string" where
  "dmi_chassis_power_cords code = (if code = 0x00 then '' Unspecified'' else '' '' @ pu code)"

definition dmi_chassis_elements :: "u8 \<Rightarrow> u8 \<Rightarrow> u8 list \<Rightarrow> string \<Rightarrow> string option" where
  "dmi_chassis_elements count len' p prefix =
     prints
       [pline prefix (Some (''Contained Elements: '' @ pu count)),
        for_lines 0 (unat count)
          (\<lambda>i. if len' \<ge> 0x03 then do {
               t \<leftarrow> rd p (i * unat len');
               lo \<leftarrow> rd p (1 + i * unat len');
               hi \<leftarrow> rd p (2 + i * unat len');
               name \<leftarrow> (if t AND 0x80 \<noteq> 0 then dmi_smbios_structure_type (t AND 0x7F)
                        else dmi_base_board_type (t AND 0x7F));
               pline (prefix @ tab)
                 (Some (name @ '' ('' @ (if lo = hi then pu lo else pu lo @ ''-'' @ pu hi) @ '')'')) }
             else nothing)]"

section \<open>Processor Information (type 4)\<close>

fun strstr :: "string \<Rightarrow> string \<Rightarrow> bool" where
  "strstr [] needle = (needle = [])"
| "strstr (c # cs) needle = (take (length needle) (c # cs) = needle \<or> strstr cs needle)"

definition tolower :: "char \<Rightarrow> char" where
  "tolower c =
     (if 65 \<le> (of_char c :: nat) \<and> (of_char c :: nat) \<le> 90 then char_of (of_char c + 32 :: nat)
      else c)"

text \<open>\<^verbatim>\<open>strncasecmp(s, t, n) == 0\<close> and \<^verbatim>\<open>strncmp(s, t, n) == 0\<close> for strings without NUL.\<close>

definition strncasecmp_eq :: "string \<Rightarrow> string \<Rightarrow> nat \<Rightarrow> bool" where
  "strncasecmp_eq s t n \<longleftrightarrow> map tolower (take n s) = map tolower (take n t)"

definition strncmp_eq :: "string \<Rightarrow> string \<Rightarrow> nat \<Rightarrow> bool" where
  "strncmp_eq s t n \<longleftrightarrow> take n s = take n t"

definition family2 :: "(nat \<times> string) list" where
  \<open>family2 =
    [(0x01, ''Other''), (0x02, ''Unknown''), (0x03, ''8086''), (0x04, ''80286''),
     (0x05, ''80386''), (0x06, ''80486''), (0x07, ''8087''), (0x08, ''80287''),
     (0x09, ''80387''), (0x0A, ''80487''), (0x0B, ''Pentium''), (0x0C, ''Pentium Pro''),
     (0x0D, ''Pentium II''), (0x0E, ''Pentium MMX''), (0x0F, ''Celeron''),
     (0x10, ''Pentium II Xeon''), (0x11, ''Pentium III''), (0x12, ''M1''), (0x13, ''M2''),
     (0x14, ''Celeron M''), (0x15, ''Pentium 4 HT''), (0x18, ''Duron''), (0x19, ''K5''),
     (0x1A, ''K6''), (0x1B, ''K6-2''), (0x1C, ''K6-3''), (0x1D, ''Athlon''),
     (0x1E, ''AMD29000''), (0x1F, ''K6-2+''), (0x20, ''Power PC''), (0x21, ''Power PC 601''),
     (0x22, ''Power PC 603''), (0x23, ''Power PC 603+''), (0x24, ''Power PC 604''),
     (0x25, ''Power PC 620''), (0x26, ''Power PC x704''), (0x27, ''Power PC 750''),
     (0x28, ''Core Duo''), (0x29, ''Core Duo Mobile''), (0x2A, ''Core Solo Mobile''),
     (0x2B, ''Atom''), (0x2C, ''Core M''), (0x2D, ''Core m3''), (0x2E, ''Core m5''),
     (0x2F, ''Core m7''), (0x30, ''Alpha''), (0x31, ''Alpha 21064''), (0x32, ''Alpha 21066''),
     (0x33, ''Alpha 21164''), (0x34, ''Alpha 21164PC''), (0x35, ''Alpha 21164a''),
     (0x36, ''Alpha 21264''), (0x37, ''Alpha 21364''),
     (0x38, ''Turion II Ultra Dual-Core Mobile M''), (0x39, ''Turion II Dual-Core Mobile M''),
     (0x3A, ''Athlon II Dual-Core M''), (0x3B, ''Opteron 6100''), (0x3C, ''Opteron 4100''),
     (0x3D, ''Opteron 6200''), (0x3E, ''Opteron 4200''), (0x3F, ''FX''), (0x40, ''MIPS''),
     (0x41, ''MIPS R4000''), (0x42, ''MIPS R4200''), (0x43, ''MIPS R4400''),
     (0x44, ''MIPS R4600''), (0x45, ''MIPS R10000''), (0x46, ''C-Series''), (0x47, ''E-Series''),
     (0x48, ''A-Series''), (0x49, ''G-Series''), (0x4A, ''Z-Series''), (0x4B, ''R-Series''),
     (0x4C, ''Opteron 4300''), (0x4D, ''Opteron 6300''), (0x4E, ''Opteron 3300''),
     (0x4F, ''FirePro''), (0x50, ''SPARC''), (0x51, ''SuperSPARC''), (0x52, ''MicroSPARC II''),
     (0x53, ''MicroSPARC IIep''), (0x54, ''UltraSPARC''), (0x55, ''UltraSPARC II''),
     (0x56, ''UltraSPARC IIi''), (0x57, ''UltraSPARC III''), (0x58, ''UltraSPARC IIIi''),
     (0x60, ''68040''), (0x61, ''68xxx''), (0x62, ''68000''), (0x63, ''68010''),
     (0x64, ''68020''), (0x65, ''68030''), (0x66, ''Athlon X4''), (0x67, ''Opteron X1000''),
     (0x68, ''Opteron X2000''), (0x69, ''Opteron A-Series''), (0x6A, ''Opteron X3000''),
     (0x6B, ''Zen''), (0x70, ''Hobbit''), (0x78, ''Crusoe TM5000''), (0x79, ''Crusoe TM3000''),
     (0x7A, ''Efficeon TM8000''), (0x80, ''Weitek''), (0x82, ''Itanium''), (0x83, ''Athlon 64''),
     (0x84, ''Opteron''), (0x85, ''Sempron''), (0x86, ''Turion 64''),
     (0x87, ''Dual-Core Opteron''), (0x88, ''Athlon 64 X2''), (0x89, ''Turion 64 X2''),
     (0x8A, ''Quad-Core Opteron''), (0x8B, ''Third-Generation Opteron''), (0x8C, ''Phenom FX''),
     (0x8D, ''Phenom X4''), (0x8E, ''Phenom X2''), (0x8F, ''Athlon X2''), (0x90, ''PA-RISC''),
     (0x91, ''PA-RISC 8500''), (0x92, ''PA-RISC 8000''), (0x93, ''PA-RISC 7300LC''),
     (0x94, ''PA-RISC 7200''), (0x95, ''PA-RISC 7100LC''), (0x96, ''PA-RISC 7100''),
     (0xA0, ''V30''), (0xA1, ''Quad-Core Xeon 3200''), (0xA2, ''Dual-Core Xeon 3000''),
     (0xA3, ''Quad-Core Xeon 5300''), (0xA4, ''Dual-Core Xeon 5100''),
     (0xA5, ''Dual-Core Xeon 5000''), (0xA6, ''Dual-Core Xeon LV''),
     (0xA7, ''Dual-Core Xeon ULV''), (0xA8, ''Dual-Core Xeon 7100''),
     (0xA9, ''Quad-Core Xeon 5400''), (0xAA, ''Quad-Core Xeon''),
     (0xAB, ''Dual-Core Xeon 5200''), (0xAC, ''Dual-Core Xeon 7200''),
     (0xAD, ''Quad-Core Xeon 7300''), (0xAE, ''Quad-Core Xeon 7400''),
     (0xAF, ''Multi-Core Xeon 7400''), (0xB0, ''Pentium III Xeon''),
     (0xB1, ''Pentium III Speedstep''), (0xB2, ''Pentium 4''), (0xB3, ''Xeon''),
     (0xB4, ''AS400''), (0xB5, ''Xeon MP''), (0xB6, ''Athlon XP''), (0xB7, ''Athlon MP''),
     (0xB8, ''Itanium 2''), (0xB9, ''Pentium M''), (0xBA, ''Celeron D''), (0xBB, ''Pentium D''),
     (0xBC, ''Pentium EE''), (0xBD, ''Core Solo''), (0xBF, ''Core 2 Duo''),
     (0xC0, ''Core 2 Solo''), (0xC1, ''Core 2 Extreme''), (0xC2, ''Core 2 Quad''),
     (0xC3, ''Core 2 Extreme Mobile''), (0xC4, ''Core 2 Duo Mobile''),
     (0xC5, ''Core 2 Solo Mobile''), (0xC6, ''Core i7''), (0xC7, ''Dual-Core Celeron''),
     (0xC8, ''IBM390''), (0xC9, ''G4''), (0xCA, ''G5''), (0xCB, ''ESA/390 G6''),
     (0xCC, ''z/Architecture''), (0xCD, ''Core i5''), (0xCE, ''Core i3''), (0xCF, ''Core i9''),
     (0xD2, ''C7-M''), (0xD3, ''C7-D''), (0xD4, ''C7''), (0xD5, ''Eden''),
     (0xD6, ''Multi-Core Xeon''), (0xD7, ''Dual-Core Xeon 3xxx''),
     (0xD8, ''Quad-Core Xeon 3xxx''), (0xD9, ''Nano''), (0xDA, ''Dual-Core Xeon 5xxx''),
     (0xDB, ''Quad-Core Xeon 5xxx''), (0xDD, ''Dual-Core Xeon 7xxx''),
     (0xDE, ''Quad-Core Xeon 7xxx''), (0xDF, ''Multi-Core Xeon 7xxx''),
     (0xE0, ''Multi-Core Xeon 3400''), (0xE4, ''Opteron 3000''), (0xE5, ''Sempron II''),
     (0xE6, ''Embedded Opteron Quad-Core''), (0xE7, ''Phenom Triple-Core''),
     (0xE8, ''Turion Ultra Dual-Core Mobile''), (0xE9, ''Turion Dual-Core Mobile''),
     (0xEA, ''Athlon Dual-Core''), (0xEB, ''Sempron SI''), (0xEC, ''Phenom II''),
     (0xED, ''Athlon II''), (0xEE, ''Six-Core Opteron''), (0xEF, ''Sempron M''),
     (0xFA, ''i860''), (0xFB, ''i960''), (0x100, ''ARMv7''), (0x101, ''ARMv8''),
     (0x104, ''SH-3''), (0x105, ''SH-4''), (0x118, ''ARM''), (0x119, ''StrongARM''),
     (0x12C, ''6x86''), (0x12D, ''MediaGX''), (0x12E, ''MII''), (0x140, ''WinChip''),
     (0x15E, ''DSP''), (0x1F4, ''Video Processor'')]\<close>

text \<open>
  The binary search. \<^verbatim>\<open>low > high\<close> cannot occur; the loop would not be meaningful there and
  the model returns \<open>None\<close>.
\<close>

function family_search :: "nat \<Rightarrow> nat \<Rightarrow> nat \<Rightarrow> string option" where
  "family_search low high code =
     (if low > high then None else
      let i = (low + high) div 2 in do {
        (value, name) \<leftarrow> idx family2 i;
        if value = code then Some name
        else if low = high then Some out_of_spec
        else if code < value then family_search low i code
        else family_search (i + 1) high code })"
  by pat_completeness auto
termination
  by (relation "measure (\<lambda>(low, high, code). high - low)") auto

declare family_search.simps [simp del]

definition processor_code :: "dmi_header \<Rightarrow> u16 option" where
  "processor_code h = do {
     b \<leftarrow> rd (dm_data h) 0x06;
     if b = 0xFE \<and> len h \<ge> 0x2A then WORD (dm_data h) 0x28 else Some (ucast b) }"

definition is_vendor :: "string \<Rightarrow> string \<Rightarrow> bool" where
  "is_vendor manufacturer name \<longleftrightarrow>
     strstr manufacturer name \<or> strncasecmp_eq manufacturer name (length name)"

definition dmi_processor_family :: "bool \<Rightarrow> dmi_header \<Rightarrow> u16 \<Rightarrow> string option" where
  "dmi_processor_family dump h ver = do {
     b \<leftarrow> rd (dm_data h) 0x06;
     intel \<leftarrow> (if ver = 0x0200 \<and> b = 0x30 \<and> len h \<ge> 0x08 then do {
                 i \<leftarrow> rd (dm_data h) 0x07;
                 manufacturer \<leftarrow> dmi_string dump h i;
                 Some (is_vendor manufacturer ''Intel'') }
               else Some False);
     if intel then Some ''Pentium Pro''
     else do {
       code \<leftarrow> processor_code h;
       if code = 0xBE then
         (if len h \<ge> 0x08 then do {
            i \<leftarrow> rd (dm_data h) 0x07;
            manufacturer \<leftarrow> dmi_string dump h i;
            Some (if is_vendor manufacturer ''Intel'' then ''Core 2''
                  else if is_vendor manufacturer ''AMD'' then ''K7''
                  else ''Core 2 or K7'') }
          else Some ''Core 2 or K7'')
       else family_search 0 (length family2 - 1) (unat code) } }"

definition cpuid_flags :: "string option list" where
  \<open>cpuid_flags =
         [Some ''FPU (Floating-point unit on-chip)'', Some ''VME (Virtual mode extension)'',
          Some ''DE (Debugging extension)'', Some ''PSE (Page size extension)'',
          Some ''TSC (Time stamp counter)'', Some ''MSR (Model specific registers)'',
          Some ''PAE (Physical address extension)'', Some ''MCE (Machine check exception)'',
          Some ''CX8 (CMPXCHG8 instruction supported)'',
          Some ''APIC (On-chip APIC hardware supported)'', None, Some ''SEP (Fast system call)'',
          Some ''MTRR (Memory type range registers)'', Some ''PGE (Page global enable)'',
          Some ''MCA (Machine check architecture)'',
          Some ''CMOV (Conditional move instruction supported)'',
          Some ''PAT (Page attribute table)'', Some ''PSE-36 (36-bit page size extension)'',
          Some ''PSN (Processor serial number present and enabled)'',
          Some ''CLFSH (CLFLUSH instruction supported)'', None, Some ''DS (Debug store)'',
          Some ''ACPI (ACPI supported)'', Some ''MMX (MMX technology supported)'',
          Some ''FXSR (FXSAVE and FXSTOR instructions supported)'',
          Some ''SSE (Streaming SIMD extensions)'', Some ''SSE2 (Streaming SIMD extensions 2)'',
          Some ''SS (Self-snoop)'', Some ''HTT (Multi-threading)'',
          Some ''TM (Thermal monitor supported)'', None, Some ''PBE (Pending break enabled)'']\<close>

definition between :: "u16 \<Rightarrow> u16 \<Rightarrow> u16 \<Rightarrow> bool" where
  "between type a b \<longleftrightarrow> a \<le> type \<and> type \<le> b"

definition sig_intel :: "u16 \<Rightarrow> bool" where
  "sig_intel type \<longleftrightarrow>
     between type 0x0B 0x15 \<or> between type 0x28 0x2F \<or> between type 0xA1 0xB3 \<or> type = 0xB5
     \<or> between type 0xB9 0xC7 \<or> between type 0xCD 0xCF \<or> between type 0xD2 0xDB
     \<or> between type 0xDD 0xE0"

definition sig_amd :: "u16 \<Rightarrow> bool" where
  "sig_amd type \<longleftrightarrow>
     between type 0x18 0x1D \<or> type = 0x1F \<or> between type 0x38 0x3F \<or> between type 0x46 0x4F
     \<or> between type 0x66 0x6B \<or> between type 0x83 0x8F \<or> between type 0xB6 0xB7
     \<or> between type 0xE4 0xEF"

definition version_sig :: "string \<Rightarrow> nat" where
  "version_sig version =
     (if strncmp_eq version ''Pentium III MMX'' 15
       \<or> strncmp_eq version ''Intel(R) Core(TM)2'' 18
       \<or> strncmp_eq version ''Intel(R) Pentium(R)'' 19
       \<or> version = ''Genuine Intel(R) CPU U1400'' then 1
      else if strncmp_eq version ''AMD Athlon(TM)'' 14
       \<or> strncmp_eq version ''AMD Opteron(tm)'' 15
       \<or> strncmp_eq version ''Dual-Core AMD Opteron(tm)'' 25 then 2
      else 0)"

text \<open>The part of \<^verbatim>\<open>dmi_processor_id\<close> reached with \<^verbatim>\<open>sig\<close> 1 or 2.\<close>

definition processor_signature :: "nat \<Rightarrow> u8 list \<Rightarrow> string \<Rightarrow> string option" where
  "processor_signature sig p prefix = do {
     eax \<leftarrow> DWORD p 0;
     edx \<leftarrow> DWORD p 4;
     prints
       [pline prefix
          (Some (if sig = 1 then
             ''Signature: Type '' @ pu (drop_bit 12 eax AND 0x3)
               @ '', Family '' @ pu ((drop_bit 20 eax AND 0xFF) + (drop_bit 8 eax AND 0x0F))
               @ '', Model '' @ pu ((drop_bit 12 eax AND 0xF0) + (drop_bit 4 eax AND 0x0F))
               @ '', Stepping '' @ pu (eax AND 0xF)
           else
             ''Signature: Family ''
               @ pu ((drop_bit 8 eax AND 0xF)
                     + (if drop_bit 8 eax AND 0xF = 0xF then drop_bit 20 eax AND 0xFF else 0))
               @ '', Model ''
               @ pu ((drop_bit 4 eax AND 0xF)
                     OR (if drop_bit 8 eax AND 0xF = 0xF then drop_bit 12 eax AND 0xF0 else 0))
               @ '', Stepping '' @ pu (eax AND 0xF))),
        Some (prefix @ ''Flags:''),
        (if edx AND 0xBFEFFBFF = 0 then line '' None''
         else prints
           [line [],
            flag_lines 0 31 (\<lambda>i. cpuid_flags ! i \<noteq> None \<and> bit edx i)
              (\<lambda>i. do { e \<leftarrow> idx cpuid_flags i; pline (prefix @ tab) e })])] }"

definition dmi_processor_id :: "bool \<Rightarrow> dmi_header \<Rightarrow> string \<Rightarrow> string option" where
  "dmi_processor_id dump h prefix = (let p = drop 0x08 (dm_data h) in do {
     type \<leftarrow> processor_code h;
     id' \<leftarrow> read_bytes p 8;
     dx \<leftarrow> WORD p 0;
     midr \<leftarrow> DWORD p 0;
     prints
       [Some (prefix @ ''ID:'' @ concat (map (\<lambda>b. '' '' @ pX 2 b) id') @ nl),
        if type = 0x05 then
          pline prefix
            (Some (''Signature: Type '' @ pu (drop_bit 12 dx)
               @ '', Family '' @ pu (drop_bit 8 dx AND 0xF)
               @ '', Major Stepping '' @ pu (drop_bit 4 dx AND 0xF)
               @ '', Minor Stepping '' @ pu (dx AND 0xF)))
        else if type = 0x06 then
          (if dx AND 0x0F00 = 0x0400 \<and> (dx AND 0x00F0 = 0x0040 \<or> dx AND 0x00F0 \<ge> 0x0070)
              \<and> dx AND 0x000F \<ge> 0x0003
           then processor_signature 1 p prefix
           else pline prefix
             (Some (''Signature: Type '' @ pu (drop_bit 12 dx AND 0x3)
                @ '', Family '' @ pu (drop_bit 8 dx AND 0xF)
                @ '', Model '' @ pu (drop_bit 4 dx AND 0xF)
                @ '', Stepping '' @ pu (dx AND 0xF))))
        else if between type 0x100 0x101 \<or> between type 0x118 0x119 then
          (if midr = 0 then nothing
           else pline prefix
             (Some (''Signature: Implementor 0x'' @ px 2 (drop_bit 24 midr)
                @ '', Variant 0x'' @ px 1 (drop_bit 20 midr AND 0xF)
                @ '', Architecture '' @ pu (drop_bit 16 midr AND 0xF)
                @ '', Part 0x'' @ px 3 (drop_bit 4 midr AND 0xFFF)
                @ '', Revision '' @ pu (midr AND 0xF))))
        else if sig_intel type then processor_signature 1 p prefix
        else if sig_amd type then processor_signature 2 p prefix
        else if type = 0x01 \<or> type = 0x02 then do {
          i \<leftarrow> rd (dm_data h) 0x10;
          version \<leftarrow> dmi_string dump h i;
          let sig = version_sig version;
          if sig = 0 then nothing else processor_signature sig p prefix }
        else nothing] })"

definition dmi_processor_voltage :: "u8 \<Rightarrow> string option" where
  \<open>dmi_processor_voltage code =
     (let voltage =
         [''5.0 V'', ''3.3 V'', ''2.9 V'']
      in if code AND 0x80 \<noteq> 0
         then Some ('' '' @ pfix 1 (uint (code AND 0x7f)) @ '' V'')
         else prints
           [flag_lines 0 2 (bit code) (\<lambda>i. map_option (\<lambda>s. '' '' @ s) (idx voltage i)),
            if code = 0x00 then Some '' Unknown'' else nothing])\<close>

definition dmi_processor_frequency :: "u8 list \<Rightarrow> nat \<Rightarrow> string option" where
  "dmi_processor_frequency p at = do {
     code \<leftarrow> WORD p at;
     Some (if code \<noteq> 0 then pu code @ '' MHz'' else ''Unknown'') }"

definition dmi_processor_cache :: "u16 \<Rightarrow> string \<Rightarrow> u16 \<Rightarrow> string" where
  "dmi_processor_cache code level ver =
     (if code = 0xFFFF then
        (if ver \<ge> 0x0203 then '' Not Provided'' else '' No '' @ level @ '' Cache'')
      else '' 0x'' @ pX 4 code)"

definition dmi_processor_characteristics :: "u16 \<Rightarrow> string \<Rightarrow> string option" where
  \<open>dmi_processor_characteristics code prefix =
     (let characteristics =
         [''64-bit capable'', ''Multi-Core'', ''Hardware Thread'', ''Execute Protection'',
          ''Enhanced Virtualization'', ''Power/Performance Control'']
      in if code AND 0x00FC = 0 then line '' None''
         else prints
           [line [],
            flag_lines 2 7 (bit code) (\<lambda>i. pline prefix (idx characteristics (i - 2)))])\<close>

section \<open>Memory controller, module and cache (types 5 to 7)\<close>

definition dmi_memory_controller_ec_capabilities :: "u8 \<Rightarrow> string \<Rightarrow> string option" where
  \<open>dmi_memory_controller_ec_capabilities code prefix =
     (let capabilities =
         [''Other'', ''Unknown'', ''None'', ''Single-bit Error Correcting'',
          ''Double-bit Error Correcting'', ''Error Scrubbing'']
      in if code AND 0x3F = 0 then line '' None''
         else prints
           [line [], flag_lines 0 5 (bit code) (\<lambda>i. pline prefix (idx capabilities i))])\<close>

definition dmi_memory_controller_speeds :: "u16 \<Rightarrow> string \<Rightarrow> string option" where
  \<open>dmi_memory_controller_speeds code prefix =
     (let speeds =
         [''Other'', ''Unknown'', ''70 ns'', ''60 ns'', ''50 ns'']
      in if code AND 0x001F = 0 then line '' None''
         else prints
           [line [], flag_lines 0 4 (bit code) (\<lambda>i. pline prefix (idx speeds i))])\<close>

definition dmi_memory_controller_slots :: "u8 \<Rightarrow> u8 list \<Rightarrow> string \<Rightarrow> string option" where
  "dmi_memory_controller_slots count p prefix =
     prints
       [pline prefix (Some (''Associated Memory Slots: '' @ pu count)),
        for_lines 0 (unat count)
          (\<lambda>i. do { w \<leftarrow> WORD p (2 * i); pline (prefix @ tab) (Some (''0x'' @ pX 4 w)) })]"

definition dmi_memory_module_types :: "u16 \<Rightarrow> string \<Rightarrow> string option" where
  \<open>dmi_memory_module_types code sep =
     (let types =
         [''Other'', ''Unknown'', ''Standard'', ''FPM'', ''EDO'', ''Parity'', ''ECC'', ''SIMM'',
          ''DIMM'', ''Burst EDO'', ''SDRAM'']
      in if code AND 0x07FF = 0 then Some '' None''
         else flag_lines 0 10 (bit code) (\<lambda>i. map_option (\<lambda>s. sep @ s) (idx types i)))\<close>

definition dmi_memory_module_connections :: "u8 \<Rightarrow> string" where
  "dmi_memory_module_connections code =
     (if code = 0xFF then '' None''
      else (if code AND 0xF0 \<noteq> 0xF0 then '' '' @ pu (drop_bit 4 code) else [])
         @ (if code AND 0x0F \<noteq> 0x0F then '' '' @ pu (code AND 0x0F) else []))"

definition dmi_memory_module_speed :: "u8 \<Rightarrow> string" where
  "dmi_memory_module_speed code =
     (if code = 0 then '' Unknown'' else '' '' @ pu code @ '' ns'')"

text \<open>
  \<^verbatim>\<open>1 << n\<close> of an \<^verbatim>\<open>int\<close> printed with \<^verbatim>\<open>%u\<close>. The shift is undefined in C from 32 on, which the
  argument \<open>shift\<close> stands for: it is the value the machine computes.
\<close>

definition dmi_memory_module_size :: "(nat \<Rightarrow> u32) \<Rightarrow> u8 \<Rightarrow> string" where
  "dmi_memory_module_size shift code =
     (let bank = (if code AND 0x80 \<noteq> 0 then '' (Double-bank Connection)''
                  else '' (Single-bank Connection)'')
      in if code AND 0x7F = 0x7D then '' Not Determinable'' @ bank
         else if code AND 0x7F = 0x7E then '' Disabled'' @ bank
         else if code AND 0x7F = 0x7F then '' Not Installed''
         else '' '' @ pu (shift (unat (code AND 0x7F))) @ '' MB'' @ bank)"

definition dmi_memory_module_error :: "u8 \<Rightarrow> string \<Rightarrow> string" where
  "dmi_memory_module_error code prefix =
     (if bit code 2 then '' See Event Log'' @ nl
      else (if code AND 0x03 = 0 then '' OK'' @ nl else [])
         @ (if bit code 0 then prefix @ ''Uncorrectable Errors'' @ nl else [])
         @ (if bit code 1 then prefix @ ''Correctable Errors'' @ nl else []))"

definition dmi_cache_size :: "u16 \<Rightarrow> string" where
  "dmi_cache_size code =
     (if code AND 0x8000 \<noteq> 0 then '' '' @ dec (unat (code AND 0x7FFF) * 64) @ '' kB''
      else '' '' @ pu code @ '' kB'')"

definition dmi_cache_size_2 :: "u32 \<Rightarrow> string" where
  "dmi_cache_size_2 code =
     (if code AND 0x80000000 \<noteq> 0 then
        (let code = code AND 0x7FFFFFFF
         in if code \<ge> 0x8000 then '' '' @ pu (drop_bit 4 code) @ '' MB''
            else '' '' @ pu (push_bit 6 code) @ '' kB'')
      else '' '' @ pu code @ '' kB'')"

definition dmi_cache_types :: "u16 \<Rightarrow> string \<Rightarrow> string option" where
  \<open>dmi_cache_types code sep =
     (let types =
         [''Other'', ''Unknown'', ''Non-burst'', ''Burst'', ''Pipeline Burst'', ''Synchronous'',
          ''Asynchronous'']
      in if code AND 0x007F = 0 then Some '' None''
         else flag_lines 0 6 (bit code) (\<lambda>i. map_option (\<lambda>s. sep @ s) (idx types i)))\<close>

section \<open>Slots (type 9)\<close>

definition slot_id_types :: "u8 list" where
  "slot_id_types =
     [0x04, 0x05, 0x06, 0x0E, 0x0F, 0x10, 0x11, 0x12, 0x13, 0x1F, 0x20, 0x21, 0x22, 0x23,
      0xA5, 0xA6, 0xA7, 0xA8, 0xA9, 0xAA, 0xAB, 0xAC, 0xAD, 0xAE, 0xAF, 0xB0, 0xB1, 0xB2,
      0xB3, 0xB4, 0xB5, 0xB6]"

definition dmi_slot_id :: "u8 \<Rightarrow> u8 \<Rightarrow> u8 \<Rightarrow> string \<Rightarrow> string" where
  "dmi_slot_id code1 code2 type prefix =
     (if type \<in> set slot_id_types then prefix @ ''ID: '' @ pu code1 @ nl
      else if type = 0x07 then
        prefix @ ''ID: Adapter '' @ pu code1 @ '', Socket '' @ pu code2 @ nl
      else [])"

definition dmi_slot_characteristics :: "u8 \<Rightarrow> u8 \<Rightarrow> string \<Rightarrow> string option" where
  \<open>dmi_slot_characteristics code1 code2 prefix =
     (let characteristics1 =
         [''5.0 V is provided'', ''3.3 V is provided'', ''Opening is shared'',
          ''PC Card-16 is supported'', ''Cardbus is supported'', ''Zoom Video is supported'',
          ''Modem ring resume is supported''];
       characteristics2 =
         [''PME signal is supported'', ''Hot-plug devices are supported'',
          ''SMBus signal is supported'', ''PCIe slot bifurcation is supported'']
      in if bit code1 0 then line '' Unknown''
         else if code1 AND 0xFE = 0 \<and> code2 AND 0x07 = 0 then line '' None''
         else prints
           [line [],
            flag_lines 1 7 (bit code1) (\<lambda>i. pline prefix (idx characteristics1 (i - 1))),
            flag_lines 0 3 (bit code2) (\<lambda>i. pline prefix (idx characteristics2 i))])\<close>

definition dmi_slot_segment_bus_func :: "u16 \<Rightarrow> u8 \<Rightarrow> u8 \<Rightarrow> string \<Rightarrow> string" where
  "dmi_slot_segment_bus_func code1 code2 code3 prefix =
     (if \<not> (code1 = 0xFFFF \<and> code2 = 0xFF \<and> code3 = 0xFF) then
        prefix @ ''Bus Address: '' @ px 4 code1 @ '':'' @ px 2 code2 @ '':''
          @ px 2 (drop_bit 3 code3) @ ''.'' @ px 1 (code3 AND 0x7) @ nl
      else [])"

section \<open>Reads and table accesses stay in bounds\<close>

lemma unat_drop_bit_less:
  fixes x :: "'a::len word"
  assumes "LENGTH('a) \<le> n + k"
  shows "unat (drop_bit n x) < 2 ^ k"
proof -
  have "unat x < 2 ^ LENGTH('a)" by (rule unsigned_less)
  also have "(2 :: nat) ^ LENGTH('a) \<le> 2 ^ (n + k)" using assms by simp
  finally have "unat x < 2 ^ (n + k)" .
  then have "drop_bit n (unat x) < 2 ^ k"
    by (simp add: drop_bit_eq_div less_mult_imp_div_less power_add mult.commute)
  then show ?thesis by (simp only: unat_drop_bit_eq)
qed

lemma unat_and_mask_less:
  fixes x :: "'a::len word"
  shows "unat (x AND y) \<le> unat y"
  by (simp add: word_and_le1 word_le_nat_alt [symmetric])

lemma safe_uuid_scan [dmi_safe]: "i + n \<le> length p \<Longrightarrow> safe (uuid_scan p i n a b)"
  by (induction p i n a b rule: uuid_scan.induct) (auto simp: dmi_safe)

lemma safe_dmi_system_uuid [dmi_safe]: "16 \<le> length p \<Longrightarrow> safe (dmi_system_uuid p ver)"
  by (simp add: dmi_system_uuid_def dmi_safe split: prod.split)

lemma length_size_split [simp]: "length (size_split code) = 7"
  by (simp add: size_split_def)

lemma highest_unit_le: "highest_unit split n \<le> n"
  by (induction n) auto

lemma size_capacity_unit: "fst (size_capacity code) \<le> 6"
  using highest_unit_le [of "size_split code" 6] by (auto simp: size_capacity_def Let_def)

lemma safe_dmi_print_memory_size [dmi_safe]:
  "shift \<le> 1 \<Longrightarrow> safe (dmi_print_memory_size code shift)"
  using size_capacity_unit [of code]
  by (auto simp: dmi_print_memory_size_def case_prod_beta dmi_safe size_units_def)

lemma safe_dmi_bios_rom_size [dmi_safe]: "safe (dmi_bios_rom_size code1 code2)"
  using unat_drop_bit_less [of 14 2 code2]
  by (auto simp: dmi_bios_rom_size_def dmi_safe)

lemma safe_flag_printers [dmi_safe]:
  "safe (dmi_bios_characteristics q indent)"
  "safe (dmi_bios_characteristics_x1 b indent)"
  "safe (dmi_bios_characteristics_x2 b indent)"
  "safe (dmi_base_board_features b indent)"
  "safe (dmi_processor_voltage b)"
  "safe (dmi_processor_characteristics w indent)"
  "safe (dmi_memory_controller_ec_capabilities b indent)"
  "safe (dmi_memory_controller_speeds w indent)"
  "safe (dmi_memory_module_types w indent)"
  "safe (dmi_cache_types w indent)"
  "safe (dmi_slot_characteristics b c indent)"
  by (auto simp: dmi_bios_characteristics_def dmi_bios_characteristics_x1_def
      dmi_bios_characteristics_x2_def dmi_base_board_features_def dmi_processor_voltage_def
      dmi_processor_characteristics_def dmi_memory_controller_ec_capabilities_def
      dmi_memory_controller_speeds_def dmi_memory_module_types_def dmi_cache_types_def
      dmi_slot_characteristics_def Let_def dmi_safe)

lemma safe_word_lists [dmi_safe]:
  "2 * unat n \<le> length p \<Longrightarrow> safe (dmi_base_board_handles n p indent)"
  "2 * unat n \<le> length p \<Longrightarrow> safe (dmi_memory_controller_slots n p indent)"
  by (auto simp: dmi_base_board_handles_def dmi_memory_controller_slots_def dmi_safe)

lemma element_bound:
  fixes i n m :: nat
  assumes "i < n" and "n * m \<le> k" and "j < m"
  shows "j + i * m < k"
proof -
  have "Suc i * m \<le> n * m" using assms(1) by (intro mult_le_mono1) simp
  then show ?thesis using assms by simp
qed

lemma safe_dmi_chassis_elements [dmi_safe]:
  assumes "unat n * unat m \<le> length p"
  shows "safe (dmi_chassis_elements n m p indent)"
proof -
  have "j + i * unat m < length p" if "i < unat n" and "3 \<le> m" and "j \<le> 2" for i j
    using element_bound [OF \<open>i < unat n\<close> assms, of j] that by (simp add: word_le_nat_alt)
  from this [of _ 0] this [of _ 1] this [of _ 2] show ?thesis
    by (auto simp: dmi_chassis_elements_def dmi_safe)
qed

text \<open>The keys of the processor families are strictly increasing.\<close>

lemma successively_fst_sorted:
  "successively (\<lambda>a b. fst a < fst b) xs \<Longrightarrow> sorted_wrt (\<lambda>a b. fst a < (fst b :: nat)) xs"
  by (subst (asm) successively_conv_sorted_wrt) (auto simp: transp_def)

lemma family2_sorted: "sorted_wrt (\<lambda>a b. fst a < fst b) family2"
  by (rule successively_fst_sorted) (simp add: family2_def)

lemma family2_nth_less: "i < j \<Longrightarrow> j < length family2 \<Longrightarrow> fst (family2 ! i) < fst (family2 ! j)"
  using family2_sorted by (simp add: sorted_wrt_iff_nth_less)

lemma family2_distinct: "distinct (map fst family2)"
  using family2_nth_less by (fastforce simp: distinct_conv_nth nat_neq_iff)

definition family_name :: "nat \<Rightarrow> string" where
  "family_name code = (case map_of family2 code of Some name \<Rightarrow> name | None \<Rightarrow> out_of_spec)"

lemma family_search_eq:
  assumes "low \<le> high" and "high < length family2"
    and "\<forall>j < length family2. fst (family2 ! j) = code \<longrightarrow> low \<le> j \<and> j \<le> high"
  shows "family_search low high code = Some (family_name code)"
  using assms
proof (induction "high - low" arbitrary: low high rule: less_induct)
  case less
  define i where "i = (low + high) div 2"
  have i: "low \<le> i" "i \<le> high" "i < length family2"
    using less.prems by (auto simp: i_def)
  obtain v name where vn: "family2 ! i = (v, name)" by (cases "family2 ! i")
  have step: "family_search low high code =
      (if v = code then Some name else if low = high then Some out_of_spec
       else if code < v then family_search low i code else family_search (i + 1) high code)"
    using less.prems(1) i vn by (subst family_search.simps) (simp add: i_def [symmetric] idx_def)
  consider "v = code" | "v \<noteq> code" "low = high" | "low < high" "code < v" | "low < high" "v < code"
    using less.prems(1) by linarith
  then show ?case
  proof cases
    case 1
    then have "map_of family2 code = Some name"
      using vn i(3) family2_distinct nth_mem [OF i(3)] by simp
    with 1 show ?thesis by (simp add: step family_name_def)
  next
    case 2
    then have "code \<notin> fst ` set family2"
      using less.prems(3) i vn by (fastforce simp: in_set_conv_nth)
    then have "map_of family2 code = None" by (simp add: map_of_eq_None_iff)
    with 2 step show ?thesis by (simp add: family_name_def)
  next
    case 3
    then have lt: "i < high" by (simp add: i_def)
    have "\<forall>j < length family2. fst (family2 ! j) = code \<longrightarrow> low \<le> j \<and> j \<le> i"
      using less.prems(3) family2_nth_less [of i] vn 3(2) by (metis fst_conv leI less_asym')
    then have "family_search low i code = Some (family_name code)"
      using less.hyps [of i low] lt i by simp
    with 3 show ?thesis by (simp add: step)
  next
    case 4
    then have lt: "i < high" by (simp add: i_def)
    have "\<forall>j < length family2. fst (family2 ! j) = code \<longrightarrow> i + 1 \<le> j \<and> j \<le> high"
    proof (intro allI impI)
      fix j assume j: "j < length family2" "fst (family2 ! j) = code"
      have "i < j"
      proof (rule ccontr)
        assume "\<not> i < j"
        then have "code \<le> v"
          using family2_nth_less [of j i] j i(3) vn by (cases "j = i") auto
        with 4 show False by simp
      qed
      then show "i + 1 \<le> j \<and> j \<le> high" using less.prems(3) j by simp
    qed
    then have "family_search (i + 1) high code = Some (family_name code)"
      using less.hyps [of high "i + 1"] lt less.prems(2) i by simp
    with 4 show ?thesis by (simp add: step)
  qed
qed

lemma family2_nonempty: "family2 \<noteq> []"
  by (simp add: family2_def)

lemma family_search_total:
  "family_search 0 (length family2 - Suc 0) code = Some (family_name code)"
  by (rule family_search_eq) (use family2_nonempty in auto)

lemma safe_processor_code [dmi_safe]:
  "structure_ok h \<Longrightarrow> 7 \<le> len h \<Longrightarrow> safe (processor_code h)"
  using structure_ok_length [of h] by (auto simp: processor_code_def dmi_safe)

lemma safe_dmi_processor_family [dmi_safe]:
  "structure_ok h \<Longrightarrow> 7 \<le> len h \<Longrightarrow> safe (dmi_processor_family dump h ver)"
  using structure_ok_length [of h]
  by (auto simp: dmi_processor_family_def dmi_safe family_search_total)

lemma safe_processor_signature [dmi_safe]:
  "8 \<le> length p \<Longrightarrow> safe (processor_signature sig p indent)"
  by (auto simp: processor_signature_def dmi_safe cpuid_flags_def idx_def)

lemma safe_dmi_processor_id [dmi_safe]:
  "structure_ok h \<Longrightarrow> 0x11 \<le> len h \<Longrightarrow> safe (dmi_processor_id dump h indent)"
  using structure_ok_length [of h]
  by (auto simp: dmi_processor_id_def Let_def dmi_safe)

lemma safe_dmi_processor_frequency [dmi_safe]:
  "safe (dmi_processor_frequency p i) \<longleftrightarrow> i + 1 < length p"
  by (auto simp: dmi_processor_frequency_def dmi_safe)

end
