(* ===== verification/Dmi_Print2.thy ===== *)
theory Dmi_Print2
  imports Dmi_Print
begin

text \<open>
  The helpers of dmidecode.c that print one field of types 10 to 43, and \<^verbatim>\<open>checksum\<close> and
  \<^verbatim>\<open>u64_range\<close> of util.c, which some of them use. The parsers of the variable-length types
  (10 to 15, 37, 40, 42) read through pointers; the section at the end shows for which
  structures their reads stay inside the structure.
\<close>

unbundle bit_operations_syntax

section \<open>Utilities (util.c)\<close>

fun checksum_loop :: "u8 list \<Rightarrow> nat \<Rightarrow> nat \<Rightarrow> u8 \<Rightarrow> u8 option" where
  "checksum_loop buf a 0 acc = Some acc"
| "checksum_loop buf a (Suc n) acc = do {
     b \<leftarrow> rd buf a;
     checksum_loop buf (Suc a) n (acc + b) }"

definition checksum :: "u8 list \<Rightarrow> nat \<Rightarrow> bool option" where
  "checksum buf n = do { total \<leftarrow> checksum_loop buf 0 n 0; Some (total = 0) }"

definition u64_range :: "dmi_u64 \<Rightarrow> dmi_u64 \<Rightarrow> dmi_u64" where
  "u64_range start end =
     (let h = hi32 end - hi32 start;
          l = lo32 end - lo32 start;
          h = (if lo32 end < lo32 start then h - 1 else h);
          l = l + 1;
          h = (if l = 0 then h + 1 else h)
      in \<lparr>lo32 = l, hi32 = h\<rparr>)"

section \<open>On board devices, strings, languages, groups (types 10 to 14)\<close>

definition dmi_on_board_devices :: "bool \<Rightarrow> dmi_header \<Rightarrow> string \<Rightarrow> string option" where
  "dmi_on_board_devices dump h prefix =
     (let p = drop 4 (dm_data h); count = (len h - 0x04) div 2
      in for_lines 0 count
           (\<lambda>i. do {
              b \<leftarrow> rd p (2 * i);
              name \<leftarrow> dmi_on_board_devices_type (b AND 0x7F);
              s \<leftarrow> rd p (2 * i + 1);
              description \<leftarrow> dmi_string dump h s;
              Some ((if count = 1 then prefix @ ''On Board Device Information'' @ nl
                     else prefix @ ''On Board Device '' @ dec (i + 1) @ '' Information'' @ nl)
                @ prefix @ tab @ ''Type: '' @ name @ nl
                @ prefix @ tab @ ''Status: ''
                @ (if b AND 0x80 \<noteq> 0 then ''Enabled'' else ''Disabled'') @ nl
                @ prefix @ tab @ ''Description: '' @ description @ nl) }))"

definition dmi_oem_strings :: "bool \<Rightarrow> dmi_header \<Rightarrow> string \<Rightarrow> string option" where
  "dmi_oem_strings dump h prefix = do {
     count \<leftarrow> rd (drop 4 (dm_data h)) 0x00;
     for_lines 1 (Suc (unat count))
       (\<lambda>i. pline (prefix @ ''String '' @ dec i @ '': '') (dmi_string dump h (word_of_nat i))) }"

definition dmi_system_configuration_options ::
  "bool \<Rightarrow> dmi_header \<Rightarrow> string \<Rightarrow> string option" where
  "dmi_system_configuration_options dump h prefix = do {
     count \<leftarrow> rd (drop 4 (dm_data h)) 0x00;
     for_lines 1 (Suc (unat count))
       (\<lambda>i. pline (prefix @ ''Option '' @ dec i @ '': '') (dmi_string dump h (word_of_nat i))) }"

definition dmi_bios_languages :: "bool \<Rightarrow> dmi_header \<Rightarrow> string \<Rightarrow> string option" where
  "dmi_bios_languages dump h prefix = do {
     count \<leftarrow> rd (drop 4 (dm_data h)) 0x00;
     for_lines 1 (Suc (unat count))
       (\<lambda>i. pline prefix (dmi_string dump h (word_of_nat i))) }"

definition dmi_group_associations_items :: "u8 \<Rightarrow> u8 list \<Rightarrow> string \<Rightarrow> string option" where
  "dmi_group_associations_items count p prefix =
     for_lines 0 (unat count)
       (\<lambda>i. do {
          w \<leftarrow> WORD p (3 * i + 1);
          t \<leftarrow> rd p (3 * i);
          name \<leftarrow> dmi_smbios_structure_type t;
          pline prefix (Some (''0x'' @ pX 4 w @ '' ('' @ name @ '')'')) })"

section \<open>System event log (type 15)\<close>

definition dmi_event_log_status :: "u8 \<Rightarrow> string option" where
  \<open>dmi_event_log_status code =
     (let valid =
         [''Invalid'', ''Valid''];
       full =
         [''Not Full'', ''Full'']
      in do {
        v \<leftarrow> idx valid (unat (drop_bit 0 code AND 1));
        f \<leftarrow> idx full (unat (drop_bit 1 code AND 1));
        Some ('' '' @ v @ '', '' @ f) })\<close>

definition dmi_event_log_address :: "u8 \<Rightarrow> u8 list \<Rightarrow> string option" where
  "dmi_event_log_address method p =
     (if method = 0x00 \<or> method = 0x01 \<or> method = 0x02 then do {
        i \<leftarrow> WORD p 0;
        d \<leftarrow> WORD p 2;
        Some ('' Index 0x'' @ pX 4 i @ '', Data 0x'' @ pX 4 d) }
      else if method = 0x03 then do { d \<leftarrow> DWORD p 0; Some ('' 0x'' @ pX 8 d) }
      else if method = 0x04 then do { w \<leftarrow> WORD p 0; Some ('' 0x'' @ pX 4 w) }
      else Some '' Unknown'')"

definition dmi_event_log_descriptors ::
  "u8 \<Rightarrow> u8 \<Rightarrow> u8 list \<Rightarrow> string \<Rightarrow> string option" where
  "dmi_event_log_descriptors count len' p prefix =
     for_lines 0 (unat count)
       (\<lambda>i. if len' \<ge> 0x02 then do {
            t \<leftarrow> rd p (i * unat len');
            f \<leftarrow> rd p (i * unat len' + 1);
            prints
              [pline (prefix @ ''Descriptor '' @ dec (i + 1) @ '': '')
                 (dmi_event_log_descriptor_type t),
               pline (prefix @ ''Data Format '' @ dec (i + 1) @ '': '')
                 (dmi_event_log_descriptor_format f)] }
          else nothing)"

section \<open>Memory arrays and devices (types 16 to 20)\<close>

definition dmi_memory_array_error_handle :: "u16 \<Rightarrow> string" where
  "dmi_memory_array_error_handle code =
     (if code = 0xFFFE then '' Not Provided''
      else if code = 0xFFFF then '' No Error''
      else '' 0x'' @ pX 4 code)"

definition dmi_memory_device_width :: "u16 \<Rightarrow> string" where
  "dmi_memory_device_width code =
     (if code = 0xFFFF \<or> code = 0 then '' Unknown'' else '' '' @ pu code @ '' bits'')"

definition dmi_memory_device_size :: "u16 \<Rightarrow> string" where
  "dmi_memory_device_size code =
     (if code = 0 then '' No Module Installed''
      else if code = 0xFFFF then '' Unknown''
      else if code AND 0x8000 \<noteq> 0 then '' '' @ pu (code AND 0x7FFF) @ '' kB''
      else '' '' @ pu code @ '' MB'')"

definition dmi_memory_device_extended_size :: "u32 \<Rightarrow> string" where
  "dmi_memory_device_extended_size code =
     (let code = code AND 0x7FFFFFFF
      in if code AND 0x3FF \<noteq> 0 then '' '' @ pu code @ '' MB''
         else if code AND 0xFFC00 \<noteq> 0 then '' '' @ pu (drop_bit 10 code) @ '' GB''
         else '' '' @ pu (drop_bit 20 code) @ '' TB'')"

definition dmi_memory_voltage_value :: "u16 \<Rightarrow> string" where
  "dmi_memory_voltage_value code =
     (if code = 0 then '' Unknown''
      else if unat code mod 100 \<noteq> 0 then '' '' @ pgen 3 (unat code) @ '' V''
      else '' '' @ pfix 1 (int (unat code div 100)) @ '' V'')"

definition dmi_memory_device_set :: "u8 \<Rightarrow> string" where
  "dmi_memory_device_set code =
     (if code = 0 then '' None'' else if code = 0xFF then '' Unknown'' else '' '' @ pu code)"

definition dmi_memory_device_type_detail :: "u16 \<Rightarrow> string option" where
  \<open>dmi_memory_device_type_detail code =
     (let detail =
         [''Other'', ''Unknown'', ''Fast-paged'', ''Static Column'', ''Pseudo-static'',
          ''RAMBus'', ''Synchronous'', ''CMOS'', ''EDO'', ''Window DRAM'', ''Cache DRAM'',
          ''Non-Volatile'', ''Registered (Buffered)'', ''Unbuffered (Unregistered)'', ''LRDIMM'']
      in if code AND 0xFFFE = 0 then Some '' None''
         else flag_lines 1 15 (bit code) (\<lambda>i. map_option (\<lambda>s. '' '' @ s) (idx detail (i - 1))))\<close>

definition dmi_memory_device_speed :: "u16 \<Rightarrow> string" where
  "dmi_memory_device_speed code =
     (if code = 0 then '' Unknown'' else '' '' @ pu code @ '' MT/s'')"

definition dmi_memory_technology :: "u8 \<Rightarrow> string option" where
  \<open>dmi_memory_technology code =
     (let technology =
         [''Other'', ''Unknown'', ''DRAM'', ''NVDIMM-N'', ''NVDIMM-F'', ''NVDIMM-P'',
          ''Intel persistent memory'']
      in map_option (\<lambda>s. '' '' @ s) (in_table 0x01 0x07 technology code (Some out_of_spec)))\<close>

definition dmi_memory_operating_mode_capability :: "u16 \<Rightarrow> string option" where
  \<open>dmi_memory_operating_mode_capability code =
     (let mode =
         [''Other'', ''Unknown'', ''Volatile memory'', ''Byte-accessible persistent memory'',
          ''Block-accessible persistent memory'']
      in if code AND 0xFFFE = 0 then Some '' None''
         else flag_lines 1 5 (bit code) (\<lambda>i. map_option (\<lambda>s. '' '' @ s) (idx mode (i - 1))))\<close>

definition dmi_memory_manufacturer_id :: "u16 \<Rightarrow> string" where
  "dmi_memory_manufacturer_id code =
     (if code = 0 then '' Unknown''
      else '' Bank '' @ dec (unat (code AND 0x7F) + 1) @ '', Hex 0x'' @ pX 2 (drop_bit 8 code))"

definition dmi_memory_product_id :: "u16 \<Rightarrow> string" where
  "dmi_memory_product_id code = (if code = 0 then '' Unknown'' else '' 0x'' @ pX 4 code)"

definition dmi_memory_size :: "dmi_u64 \<Rightarrow> string option" where
  "dmi_memory_size code =
     (if hi32 code = 0xFFFFFFFF \<and> lo32 code = 0xFFFFFFFF then Some '' Unknown''
      else if hi32 code = 0 \<and> lo32 code = 0 then Some '' None''
      else dmi_print_memory_size code 0)"

definition dmi_memory_error_syndrome :: "u32 \<Rightarrow> string" where
  "dmi_memory_error_syndrome code = (if code = 0 then '' Unknown'' else '' 0x'' @ pX 8 code)"

definition dmi_32bit_memory_error_address :: "u32 \<Rightarrow> string" where
  "dmi_32bit_memory_error_address code =
     (if code = 0x80000000 then '' Unknown'' else '' 0x'' @ pX 8 code)"

definition dmi_mapped_address_size :: "u32 \<Rightarrow> string option" where
  "dmi_mapped_address_size code =
     (if code = 0 then Some '' Invalid''
      else dmi_print_memory_size \<lparr>lo32 = code, hi32 = 0\<rparr> 1)"

definition dmi_mapped_address_extended_size :: "dmi_u64 \<Rightarrow> dmi_u64 \<Rightarrow> string option" where
  "dmi_mapped_address_extended_size start end =
     (if hi32 start = hi32 end \<and> lo32 start = lo32 end then Some '' Invalid''
      else dmi_print_memory_size (u64_range start end) 0)"

definition dmi_mapped_address_row_position :: "u8 \<Rightarrow> string" where
  "dmi_mapped_address_row_position code =
     (if code = 0 then '' '' @ out_of_spec
      else if code = 0xFF then '' Unknown''
      else '' '' @ pu code)"

definition dmi_mapped_address_interleave_position :: "u8 \<Rightarrow> string \<Rightarrow> string" where
  "dmi_mapped_address_interleave_position code prefix =
     (if code \<noteq> 0 then
        prefix @ ''Interleave Position:''
          @ (if code = 0xFF then '' Unknown'' else '' '' @ pu code) @ nl
      else [])"

definition dmi_mapped_address_interleaved_data_depth :: "u8 \<Rightarrow> string \<Rightarrow> string" where
  "dmi_mapped_address_interleaved_data_depth code prefix =
     (if code \<noteq> 0 then
        prefix @ ''Interleaved Data Depth:''
          @ (if code = 0xFF then '' Unknown'' else '' '' @ pu code) @ nl
      else [])"

section \<open>Batteries, resets, power controls, probes (types 22 to 29)\<close>

definition dmi_battery_capacity :: "u16 \<Rightarrow> u8 \<Rightarrow> string" where
  "dmi_battery_capacity code multiplier =
     (if code = 0 then '' Unknown'' else '' '' @ dec (unat code * unat multiplier) @ '' mWh'')"

definition dmi_battery_voltage :: "u16 \<Rightarrow> string" where
  "dmi_battery_voltage code = (if code = 0 then '' Unknown'' else '' '' @ pu code @ '' mV'')"

definition dmi_battery_maximum_error :: "u8 \<Rightarrow> string" where
  "dmi_battery_maximum_error code =
     (if code = 0xFF then '' Unknown'' else '' '' @ pu code @ ''%'')"

definition dmi_system_reset_count :: "u16 \<Rightarrow> string" where
  "dmi_system_reset_count code = (if code = 0xFFFF then '' Unknown'' else '' '' @ pu code)"

definition dmi_system_reset_timer :: "u16 \<Rightarrow> string" where
  "dmi_system_reset_timer code =
     (if code = 0xFFFF then '' Unknown'' else '' '' @ pu code @ '' min'')"

definition dmi_power_controls_power_on :: "u8 list \<Rightarrow> string option" where
  "dmi_power_controls_power_on p = do {
     p0 \<leftarrow> rd p 0;
     p1 \<leftarrow> rd p 1;
     p2 \<leftarrow> rd p 2;
     p3 \<leftarrow> rd p 3;
     p4 \<leftarrow> rd p 4;
     Some ((if dmi_bcd_range p0 0x01 0x12 then '' '' @ pX 2 p0 else '' *'')
       @ (if dmi_bcd_range p1 0x01 0x31 then ''-'' @ pX 2 p1 else ''-*'')
       @ (if dmi_bcd_range p2 0x00 0x23 then '' '' @ pX 2 p2 else '' *'')
       @ (if dmi_bcd_range p3 0x00 0x59 then '':'' @ pX 2 p3 else '':*'')
       @ (if dmi_bcd_range p4 0x00 0x59 then '':'' @ pX 2 p4 else '':*'')) }"

definition dmi_voltage_probe_value :: "u16 \<Rightarrow> string" where
  "dmi_voltage_probe_value code =
     (if code = 0x8000 then '' Unknown'' else '' '' @ pfix 3 (sint code) @ '' V'')"

definition dmi_voltage_probe_resolution :: "u16 \<Rightarrow> string" where
  "dmi_voltage_probe_resolution code =
     (if code = 0x8000 then '' Unknown'' else '' '' @ pfix 1 (uint code) @ '' mV'')"

definition dmi_probe_accuracy :: "u16 \<Rightarrow> string" where
  "dmi_probe_accuracy code =
     (if code = 0x8000 then '' Unknown'' else '' '' @ pfix 2 (uint code) @ ''%'')"

definition dmi_cooling_device_speed :: "u16 \<Rightarrow> string" where
  "dmi_cooling_device_speed code =
     (if code = 0x8000 then '' Unknown Or Non-rotating'' else '' '' @ pu code @ '' rpm'')"

definition dmi_temperature_probe_value :: "u16 \<Rightarrow> string" where
  "dmi_temperature_probe_value code =
     (if code = 0x8000 then '' Unknown'' else '' '' @ pfix 1 (sint code) @ '' deg C'')"

definition dmi_temperature_probe_resolution :: "u16 \<Rightarrow> string" where
  "dmi_temperature_probe_resolution code =
     (if code = 0x8000 then '' Unknown'' else '' '' @ pfix 3 (uint code) @ '' deg C'')"

definition dmi_current_probe_value :: "u16 \<Rightarrow> string" where
  "dmi_current_probe_value code =
     (if code = 0x8000 then '' Unknown'' else '' '' @ pfix 3 (sint code) @ '' A'')"

definition dmi_current_probe_resolution :: "u16 \<Rightarrow> string" where
  "dmi_current_probe_resolution code =
     (if code = 0x8000 then '' Unknown'' else '' '' @ pfix 1 (uint code) @ '' mA'')"

section \<open>Management devices and channels (types 33 to 39)\<close>

definition dmi_64bit_memory_error_address :: "dmi_u64 \<Rightarrow> string" where
  "dmi_64bit_memory_error_address code =
     (if hi32 code = 0x80000000 \<and> lo32 code = 0 then '' Unknown''
      else '' 0x'' @ pX 8 (hi32 code) @ pX 8 (lo32 code))"

text \<open>\<open>dmi_fixup_type_34\<close> returns the header and what is written to standard error.\<close>

definition dmi_fixup_type_34 ::
  "opt \<Rightarrow> dmi_header \<Rightarrow> bool \<Rightarrow> (dmi_header \<times> string) option" where
  "dmi_fixup_type_34 o' h display =
     (if dm_length h = 0x10 then do {
        ok \<leftarrow> is_printable (drop 0x0B (dm_data h)) (0x10 - 0x0B);
        Some (if ok then
                (h\<lparr>dm_length := 0x0B\<rparr>,
                 if \<not> FLAG_QUIET o' \<and> display
                 then ''Invalid entry length ('' @ dec 0x10 @ ''). Fixed up to '' @ dec 0x0B
                        @ ''.'' @ nl
                 else [])
              else (h, [])) }
      else Some (h, []))"

definition dmi_memory_channel_devices ::
  "opt \<Rightarrow> u8 \<Rightarrow> u8 list \<Rightarrow> string \<Rightarrow> string option" where
  "dmi_memory_channel_devices o' count p prefix =
     for_lines 1 (Suc (unat count))
       (\<lambda>i. do {
          load \<leftarrow> rd p (3 * i);
          prints
            [pline prefix (Some (''Device '' @ dec i @ '' Load: '' @ pu load)),
             if \<not> FLAG_QUIET o' then do {
               w \<leftarrow> WORD p (3 * i + 1);
               pline prefix (Some (''Device '' @ dec i @ '' Handle: 0x'' @ pX 4 w)) }
             else nothing] })"

definition dmi_ipmi_base_address :: "u8 \<Rightarrow> u8 list \<Rightarrow> u8 \<Rightarrow> string option" where
  "dmi_ipmi_base_address type p lsb =
     (if type = 0x04 then do {
        b \<leftarrow> rd p 0;
        Some (''0x'' @ pX 2 (drop_bit 1 b) @ '' (SMBus)'') }
      else do {
        address \<leftarrow> QWORD p 0;
        Some (''0x'' @ pX 8 (hi32 address)
          @ pX 8 ((lo32 address AND NOT 1) OR ucast lsb)
          @ '' ('' @ (if lo32 address AND 1 \<noteq> 0 then ''I/O'' else ''Memory-mapped'') @ '')'') })"

definition dmi_power_supply_power :: "u16 \<Rightarrow> string" where
  "dmi_power_supply_power code =
     (if code = 0x8000 then '' Unknown'' else '' '' @ pu code @ '' W'')"

section \<open>Additional Information (type 40)\<close>

text \<open>
  The loop over the entries; \<open>offset\<close> is the position of \<^verbatim>\<open>p\<close> in the structure, \<open>n\<close> the
  number of rounds left and \<open>i\<close> their counter.
\<close>

fun additional_info_loop ::
  "bool \<Rightarrow> dmi_header \<Rightarrow> string \<Rightarrow> u8 list \<Rightarrow> nat \<Rightarrow> nat \<Rightarrow> nat \<Rightarrow> string option" where
  "additional_info_loop dump h prefix p offset i 0 = nothing"
| "additional_info_loop dump h prefix p offset i (Suc n) =
     prints
       [pline prefix (Some (''Additional Information '' @ dec (i + 1))),
        if len h < offset + 1 then nothing
        else do {
          length' \<leftarrow> rd p 0x00;
          if length' < 0x05 \<or> len h < offset + unat length' then nothing
          else do {
            w \<leftarrow> WORD p 0x01;
            off \<leftarrow> rd p 0x03;
            s \<leftarrow> rd p 0x04;
            prints
              [pline (prefix @ tab) (Some (''Referenced Handle: 0x'' @ px 4 w)),
               pline (prefix @ tab) (Some (''Referenced Offset: 0x'' @ px 2 off)),
               pline (prefix @ tab @ ''String: '') (dmi_string dump h s),
               pline (prefix @ tab @ ''Value: '')
                 (if length' = 0x05 + 1 then do { b \<leftarrow> rd p 0x05; Some (''0x'' @ px 2 b) }
                  else if length' = 0x05 + 2 then do { v \<leftarrow> WORD p 0x05; Some (''0x'' @ px 4 v) }
                  else if length' = 0x05 + 4 then do { v \<leftarrow> DWORD p 0x05; Some (''0x'' @ px 8 v) }
                  else Some ''Unexpected size''),
               additional_info_loop dump h prefix (drop (unat length') p)
                 (offset + unat length') (Suc i) n] } }]"

definition dmi_additional_info :: "bool \<Rightarrow> dmi_header \<Rightarrow> string \<Rightarrow> string option" where
  "dmi_additional_info dump h prefix = do {
     count \<leftarrow> rd (dm_data h) 4;
     additional_info_loop dump h prefix (drop 5 (dm_data h)) 5 0 (unat count) }"

section \<open>Management Controller Host Interface (type 42)\<close>

definition inet_ntop4 :: "u8 list \<Rightarrow> string" where
  "inet_ntop4 b = pu (b ! 0) @ ''.'' @ pu (b ! 1) @ ''.'' @ pu (b ! 2) @ ''.'' @ pu (b ! 3)"

text \<open>
  \<^verbatim>\<open>inet_ntop(AF_INET6, ...)\<close> of the C library: the first longest run of at least two zero
  groups is written as two colons, and the last two groups of an IPv4-compatible or
  IPv4-mapped address in dotted decimal.
\<close>

definition groups6 :: "u8 list \<Rightarrow> u16 list" where
  "groups6 b = map (\<lambda>i. push_bit 8 (ucast (b ! (2 * i))) + ucast (b ! (2 * i + 1))) [0..<8]"

definition zero_run :: "u16 list \<Rightarrow> nat \<Rightarrow> nat" where
  "zero_run g i = length (takeWhile (\<lambda>w. w = 0) (drop i g))"

definition best_run :: "u16 list \<Rightarrow> nat \<times> nat" where
  "best_run g =
     foldl (\<lambda>(b, l) i. if zero_run g i > l then (i, zero_run g i) else (b, l)) (0, 0) [0..<8]"

definition colons :: "string list \<Rightarrow> string" where
  "colons xs = concat (map (\<lambda>(i, s). (if i = 0 then [] else '':'') @ s) (enumerate 0 xs))"

definition inet_ntop6 :: "u8 list \<Rightarrow> string" where
  "inet_ntop6 b =
     (let g = groups6 b; (at, n) = best_run g;
          v4 = n \<ge> 2 \<and> at = 0 \<and> (n = 6 \<or> (n = 5 \<and> g ! 5 = 0xFFFF));
          groups = map (px 1) (if v4 then take 6 g else g) @ (if v4 then [inet_ntop4 (drop 12 b)] else [])
      in if n \<ge> 2
         then colons (take at groups) @ ''::'' @ colons (drop (at + n) groups)
         else colons groups)"

definition dmi_address_decode :: "u8 list \<Rightarrow> u8 \<Rightarrow> string option" where
  "dmi_address_decode data addrtype =
     (if addrtype = 0x1 then map_option inet_ntop4 (read_bytes data 4)
      else if addrtype = 0x2 then map_option inet_ntop6 (read_bytes data 16)
      else Some out_of_spec)"

text \<open>The host and the service half of a Redfish record, at different offsets.\<close>

definition redfish_host :: "string \<Rightarrow> u8 list \<Rightarrow> string option" where
  "redfish_host prefix rdata = do {
     assign_val \<leftarrow> rd rdata 16;
     addrtype \<leftarrow> rd rdata 17;
     addrstr \<leftarrow> dmi_address_type addrtype;
     prints
       [pline (prefix @ tab @ tab @ ''Host IP Assignment Type: '')
          (dmi_protocol_assignment_type assign_val),
        pline (prefix @ tab @ tab @ ''Host IP Address Format: '') (Some addrstr),
        if assign_val = 0x1 \<or> assign_val = 0x3 then
          prints
            [pline (prefix @ tab @ tab @ addrstr @ '' Address: '')
               (dmi_address_decode (drop 18 rdata) addrtype),
             pline (prefix @ tab @ tab @ addrstr @ '' Mask: '')
               (dmi_address_decode (drop 34 rdata) addrtype)]
        else nothing] }"

definition redfish_service :: "string \<Rightarrow> u8 list \<Rightarrow> string option" where
  "redfish_service prefix rdata = do {
     assign_val \<leftarrow> rd rdata 50;
     addrtype \<leftarrow> rd rdata 51;
     addrstr \<leftarrow> dmi_address_type addrtype;
     prints
       [pline (prefix @ tab @ tab @ ''Redfish Service IP Discovery Type: '')
          (dmi_protocol_assignment_type assign_val),
        pline (prefix @ tab @ tab @ ''Redfish Service IP Address Format: '') (Some addrstr),
        if assign_val = 0x1 \<or> assign_val = 0x3 then do {
          port \<leftarrow> WORD rdata 84;
          vlan \<leftarrow> DWORD rdata 86;
          prints
            [pline (prefix @ tab @ tab @ addrstr @ '' Redfish Service Address: '')
               (dmi_address_decode (drop 52 rdata) addrtype),
             pline (prefix @ tab @ tab @ addrstr @ '' Redfish Service Mask: '')
               (dmi_address_decode (drop 68 rdata) addrtype),
             pline (prefix @ tab @ tab) (Some (''Redfish Service Port: '' @ pu port)),
             pline (prefix @ tab @ tab) (Some (''Redfish Service Vlan: '' @ pu vlan))] }
        else nothing] }"

text \<open>
  \<^verbatim>\<open>%*s\<close> pads the host name on the left to \<^verbatim>\<open>hlen\<close> characters; it prints the whole string up
  to its NUL byte.
\<close>

definition dmi_parse_protocol_record :: "string \<Rightarrow> u8 list \<Rightarrow> string option" where
  "dmi_parse_protocol_record prefix rec = do {
     rid \<leftarrow> rd rec 0x0;
     rlen \<leftarrow> rd rec 0x1;
     let rdata = drop 0x2 rec;
     name \<leftarrow> dmi_protocol_record_type rid;
     prints
       [pline (prefix @ tab) (Some (''Protocol ID: '' @ px 2 rid @ '' ('' @ name @ '')'')),
        if rid \<noteq> 0x4 \<or> rlen < 91 then nothing
        else do {
          hlen \<leftarrow> rd rdata 90;
          hname \<leftarrow> (if unat hlen + 91 > unat rlen then Some out_of_spec
                   else cstring (drop 91 rdata));
          let width = (if unat hlen + 91 > unat rlen then length out_of_spec else unat hlen);
          prints
            [pline (prefix @ tab @ tab @ ''Service UUID: '') (dmi_system_uuid rdata 0x311),
             redfish_host prefix rdata,
             redfish_service prefix rdata,
             pline (prefix @ tab @ tab @ ''Redfish Service Hostname: '')
               (Some (replicate (width - length hname) (CHR '' '') @ hname))] }] }"

definition controller_device :: "dmi_header \<Rightarrow> string \<Rightarrow> u8 \<Rightarrow> string option" where
  "controller_device h prefix len' = (let data = dm_data h; dev = drop 0x7 data in do {
     type \<leftarrow> rd data 0x6;
     prints
       [pline (prefix @ ''Device Type: '') (dmi_parse_device_type type),
        if type = 0x2 \<and> len' \<ge> 5 then do {
          v \<leftarrow> WORD dev 0x0;
          q \<leftarrow> WORD dev 0x2;
          prints
            [pline (prefix @ tab) (Some (''idVendor: 0x'' @ px 4 v)),
             pline (prefix @ tab) (Some (''idProduct: 0x'' @ px 4 q))] }
        else if type = 0x3 \<and> len' \<ge> 9 then do {
          v \<leftarrow> WORD dev 0x0;
          d \<leftarrow> WORD dev 0x2;
          sv \<leftarrow> WORD dev 0x4;
          sd \<leftarrow> WORD dev 0x6;
          prints
            [pline (prefix @ tab) (Some (''VendorID: 0x'' @ px 4 v)),
             pline (prefix @ tab) (Some (''DeviceID: 0x'' @ px 4 d)),
             pline (prefix @ tab) (Some (''SubVendorID: 0x'' @ px 4 sv)),
             pline (prefix @ tab) (Some (''SubDeviceID: 0x'' @ px 4 sd))] }
        else if type = 0x4 \<and> len' \<ge> 5 then do {
          b0 \<leftarrow> rd dev 0x0;
          b1 \<leftarrow> rd dev 0x1;
          b2 \<leftarrow> rd dev 0x2;
          b3 \<leftarrow> rd dev 0x3;
          pline (prefix @ tab)
            (Some (''Vendor ID: 0x'' @ px 2 b0 @ '':0x'' @ px 2 b1 @ '':0x'' @ px 2 b2
               @ '':0x'' @ px 2 b3)) }
        else nothing] })"

definition overrun_warning :: "string \<Rightarrow> nat \<Rightarrow> dmi_header \<Rightarrow> string option" where
  "overrun_warning prefix total_read h =
     pline (prefix @ tab)
       (Some (''WARN: Total read length '' @ dec total_read @ '' exceeds total structure length ''
          @ dec (len h)))"

fun controller_records ::
  "dmi_header \<Rightarrow> string \<Rightarrow> u8 list \<Rightarrow> nat \<Rightarrow> nat \<Rightarrow> string option" where
  "controller_records h prefix rec total_read 0 = nothing"
| "controller_records h prefix rec total_read (Suc n) = do {
     b \<leftarrow> rd rec 1;
     let total_read = total_read + unat b + 2;
     if total_read > len h then overrun_warning prefix total_read h
     else prints
       [dmi_parse_protocol_record prefix rec,
        controller_records h prefix (drop (unat b + 2) rec) total_read n] }"

definition dmi_parse_controller_structure :: "dmi_header \<Rightarrow> string \<Rightarrow> string option" where
  "dmi_parse_controller_structure h prefix =
     (if len h < 0xB then nothing
      else do {
        len' \<leftarrow> rd (dm_data h) 0x5;
        let total_read = unat len' + 0x6;
        if total_read > len h then nothing
        else do {
          type \<leftarrow> rd (dm_data h) 0x4;
          prints
            [pline (prefix @ ''Host Interface Type: '') (dmi_management_controller_host_type type),
             if type \<noteq> 0x40 then nothing
             else prints
               [if len' \<noteq> 0 then controller_device h prefix len' else nothing,
                if total_read + 1 > len h then overrun_warning prefix (total_read + 1) h
                else do {
                  count \<leftarrow> rd (drop total_read (dm_data h)) 0x0;
                  controller_records h prefix (drop (total_read + 1) (dm_data h))
                    (total_read + 1) (unat count) }]] } })"

section \<open>TPM Device (type 43)\<close>

fun tpm_vendor_chars :: "u8 list \<Rightarrow> nat \<Rightarrow> nat \<Rightarrow> string option" where
  "tpm_vendor_chars p i 0 = Some []"
| "tpm_vendor_chars p i (Suc n) = do {
     b \<leftarrow> rd p i;
     if b = 0 then Some []
     else do {
       rest \<leftarrow> tpm_vendor_chars p (Suc i) n;
       Some ((if b < 32 \<or> b \<ge> 127 then CHR ''.'' else char_of_byte b) # rest) } }"

definition dmi_tpm_vendor_id :: "u8 list \<Rightarrow> string option" where
  "dmi_tpm_vendor_id p = do { s \<leftarrow> tpm_vendor_chars p 0 4; Some ('' '' @ s) }"

definition dmi_tpm_characteristics :: "dmi_u64 \<Rightarrow> string \<Rightarrow> string option" where
  \<open>dmi_tpm_characteristics code prefix =
     (let characteristics =
         [''TPM Device characteristics not supported'',
          ''Family configurable via firmware update'',
          ''Family configurable via platform software support'',
          ''Family configurable via OEM proprietary mechanism'']
      in if bit (lo32 code) 2 then pline prefix (idx characteristics 0)
         else flag_lines 3 5 (bit (lo32 code))
                (\<lambda>i. pline prefix (idx characteristics (i - 2))))\<close>

section \<open>Reads stay in bounds\<close>

lemma safe_checksum_loop: "a + n \<le> length buf \<Longrightarrow> safe (checksum_loop buf a n acc)"
  by (induction buf a n acc rule: checksum_loop.induct) (auto simp: dmi_safe)

lemma safe_checksum [dmi_safe]: "n \<le> length buf \<Longrightarrow> safe (checksum buf n)"
  by (simp add: checksum_def dmi_safe safe_checksum_loop)

lemma safe_dmi_on_board_devices [dmi_safe]:
  assumes "structure_ok h"
  shows "safe (dmi_on_board_devices dump h indent)"
proof -
  have "2 * i + 1 < len h - 4" if "i < (len h - 4) div 2" for i
    using that by presburger
  then show ?thesis
    using assms structure_ok_length [OF assms]
    by (fastforce simp: dmi_on_board_devices_def Let_def dmi_safe)
qed

lemma safe_string_lists [dmi_safe]:
  assumes "structure_ok h" and "5 \<le> len h"
  shows "safe (dmi_oem_strings dump h indent)"
    and "safe (dmi_system_configuration_options dump h indent)"
    and "safe (dmi_bios_languages dump h indent)"
  using assms structure_ok_length [OF assms(1)]
  by (auto simp: dmi_oem_strings_def dmi_system_configuration_options_def
      dmi_bios_languages_def dmi_safe)

lemma safe_dmi_group_associations_items [dmi_safe]:
  "3 * unat n \<le> length p \<Longrightarrow> safe (dmi_group_associations_items n p indent)"
  by (auto simp: dmi_group_associations_items_def dmi_safe)

lemma safe_dmi_event_log_status [dmi_safe]: "safe (dmi_event_log_status b)"
proof -
  have "unat (x AND 1) < Suc (Suc 0)" for x :: u8
    using unat_and_mask_less [of x 1] by simp
  then show ?thesis
    by (simp add: dmi_event_log_status_def Let_def dmi_safe)
qed

lemma safe_dmi_event_log_address [dmi_safe]:
  "4 \<le> length p \<Longrightarrow> safe (dmi_event_log_address m p)"
  by (auto simp: dmi_event_log_address_def dmi_safe)

lemma safe_dmi_event_log_descriptors [dmi_safe]:
  assumes "unat n * unat m \<le> length p"
  shows "safe (dmi_event_log_descriptors n m p indent)"
proof -
  have "j + i * unat m < length p" if "i < unat n" and "2 \<le> m" and "j \<le> 1" for i j
    using element_bound [OF \<open>i < unat n\<close> assms, of j] that by (simp add: word_le_nat_alt)
  from this [of _ 0] this [of _ 1] show ?thesis
    by (auto simp: dmi_event_log_descriptors_def dmi_safe)
qed

lemma safe_memory_printers [dmi_safe]:
  "safe (dmi_memory_device_type_detail w)"
  "safe (dmi_memory_technology b)"
  "safe (dmi_memory_operating_mode_capability w)"
  "safe (dmi_memory_size q)"
  "safe (dmi_mapped_address_size d)"
  "safe (dmi_mapped_address_extended_size q q')"
  "safe (dmi_tpm_characteristics q indent)"
  by (auto simp: dmi_memory_device_type_detail_def dmi_memory_technology_def
      dmi_memory_operating_mode_capability_def dmi_memory_size_def dmi_mapped_address_size_def
      dmi_mapped_address_extended_size_def dmi_tpm_characteristics_def Let_def dmi_safe)

lemma safe_dmi_power_controls_power_on [dmi_safe]:
  "5 \<le> length p \<Longrightarrow> safe (dmi_power_controls_power_on p)"
  by (auto simp: dmi_power_controls_power_on_def dmi_safe)

lemma safe_dmi_fixup_type_34 [dmi_safe]:
  "structure_ok h \<Longrightarrow> safe (dmi_fixup_type_34 o' h display)"
  using structure_ok_length [of h] by (auto simp: dmi_fixup_type_34_def dmi_safe)

lemma safe_dmi_ipmi_base_address [dmi_safe]:
  "8 \<le> length p \<Longrightarrow> safe (dmi_ipmi_base_address t p lsb)"
  by (auto simp: dmi_ipmi_base_address_def dmi_safe)

text \<open>The loop of type 40 keeps \<open>p\<close> at \<open>offset\<close> bytes from the start of the structure.\<close>

lemma safe_additional_info_loop:
  assumes "structure_ok h"
  shows "safe (additional_info_loop dump h indent (drop offset (dm_data h)) offset i n)"
proof (induction n arbitrary: offset i)
  case 0
  then show ?case by simp
next
  case (Suc n)
  have "len h + 2 \<le> length (dm_data h)" by (rule structure_ok_length [OF assms])
  moreover have "safe (additional_info_loop dump h indent
      (drop (unat b) (drop offset (dm_data h))) (offset + unat b) (Suc i) n)" for b :: u8
    using Suc.IH [of "offset + unat b" "Suc i"] by (simp add: add.commute)
  ultimately show ?case
    using assms by (auto simp: dmi_safe not_less word_le_nat_alt word_unat_eq_iff)
qed

lemma safe_dmi_additional_info [dmi_safe]:
  "structure_ok h \<Longrightarrow> 5 \<le> len h \<Longrightarrow> safe (dmi_additional_info dump h indent)"
  using structure_ok_length [of h] safe_additional_info_loop [of h dump indent 5]
  by (auto simp: dmi_additional_info_def dmi_safe)

lemma safe_dmi_address_decode [dmi_safe]:
  "16 \<le> length p \<Longrightarrow> safe (dmi_address_decode p t)"
  by (auto simp: dmi_address_decode_def dmi_safe)

lemma safe_redfish [dmi_safe]:
  "91 \<le> length p \<Longrightarrow> safe (redfish_host indent p)"
  "91 \<le> length p \<Longrightarrow> safe (redfish_service indent p)"
  by (auto simp: redfish_host_def redfish_service_def dmi_safe)

text \<open>A string that starts before the end of the string area is terminated.\<close>

lemma safe_cstring:
  assumes "structure_ok h" and "n \<le> len h"
  shows "safe (cstring (drop n (dm_data h)))"
proof -
  obtain k where k: "len h \<le> k" "k < length (dm_data h)" "dm_data h ! k = 0"
    using assms(1) by (auto simp: structure_ok_def)
  then have "k - n < length (drop n (dm_data h))" "drop n (dm_data h) ! (k - n) = 0"
    using assms(2) by (auto simp: nth_drop)
  from strlen_exists [OF this] show ?thesis by (auto simp: cstring_def)
qed

lemma safe_dmi_parse_protocol_record:
  assumes ok: "structure_ok h" and b: "rd (drop at (dm_data h)) 1 = Some b"
    and fits: "at + unat b + 2 \<le> len h"
  shows "safe (dmi_parse_protocol_record indent (drop at (dm_data h)))"
proof -
  have n: "len h + 2 \<le> length (dm_data h)" by (rule structure_ok_length [OF ok])
  show ?thesis
  proof (cases "b < 91")
    case True
    then show ?thesis
      using n fits b by (auto simp: dmi_parse_protocol_record_def Let_def dmi_safe)
  next
    case False
    then have b91: "91 \<le> unat b" by (simp add: not_less word_le_nat_alt)
    then have "safe (cstring (drop (at + 93) (dm_data h)))"
      using safe_cstring [OF ok, of "at + 93"] fits by simp
    then show ?thesis
      using n fits b b91 by (auto simp: dmi_parse_protocol_record_def Let_def dmi_safe add.commute)
  qed
qed

lemma safe_controller_records:
  assumes ok: "structure_ok h"
  shows "at \<le> len h \<Longrightarrow>
    safe (controller_records h indent (drop at (dm_data h)) at n)"
proof (induction n arbitrary: at)
  case 0
  then show ?case by simp
next
  case (Suc n)
  have len: "len h + 2 \<le> length (dm_data h)" by (rule structure_ok_length [OF ok])
  then obtain b where b: "rd (drop at (dm_data h)) 1 = Some b"
    using Suc.prems by (cases "rd (drop at (dm_data h)) 1") (auto simp: rd_def split: if_splits)
  show ?case
  proof (cases "at + unat b + 2 > len h")
    case True
    then show ?thesis
      using len Suc.prems b by (auto simp: Let_def overrun_warning_def dmi_safe)
  next
    case False
    then have "safe (dmi_parse_protocol_record indent (drop at (dm_data h)))"
      using safe_dmi_parse_protocol_record [OF ok b] by simp
    moreover have "safe (controller_records h indent (drop (unat b + 2) (drop at (dm_data h)))
        (at + unat b + 2) n)"
      using Suc.IH [of "at + unat b + 2"] False by (simp add: add.commute add.left_commute)
    ultimately show ?thesis
      using len Suc.prems False b by (auto simp: Let_def dmi_safe)
  qed
qed

lemma safe_controller_device:
  "structure_ok h \<Longrightarrow> m \<noteq> 0 \<Longrightarrow> unat m + 6 \<le> len h \<Longrightarrow> safe (controller_device h indent m)"
  using structure_ok_length [of h]
  by (auto simp: controller_device_def Let_def dmi_safe word_le_nat_alt)

lemma safe_dmi_parse_controller_structure [dmi_safe]:
  assumes ok: "structure_ok h"
  shows "safe (dmi_parse_controller_structure h indent)"
proof -
  have "len h + 2 \<le> length (dm_data h)" by (rule structure_ok_length [OF ok])
  then show ?thesis
    by (auto simp: dmi_parse_controller_structure_def Let_def dmi_safe not_less
        overrun_warning_def safe_controller_device [OF ok] safe_controller_records [OF ok])
qed

lemma safe_tpm_vendor_chars: "i + n \<le> length p \<Longrightarrow> safe (tpm_vendor_chars p i n)"
  by (induction p i n rule: tpm_vendor_chars.induct) (auto simp: dmi_safe)

lemma safe_dmi_tpm_vendor_id [dmi_safe]: "4 \<le> length p \<Longrightarrow> safe (dmi_tpm_vendor_id p)"
  by (simp add: dmi_tpm_vendor_id_def dmi_safe safe_tpm_vendor_chars)

end
