(* ===== verification/Dmi_Oem.thy ===== *)
theory Dmi_Oem
  imports Dmi_Print2
begin

text \<open>
  dmioem.c: the vendor-specific decoders. Their state is the vendor remembered from the
  system structure and the counter that numbers network interfaces without an id. A decoder
  returns the text it prints, or \<open>None\<close> inside when it does not handle the structure.
\<close>

unbundle bit_operations_syntax

datatype DMI_VENDORS =
    VENDOR_UNKNOWN | VENDOR_ACER | VENDOR_HP | VENDOR_HPE | VENDOR_IBM | VENDOR_LENOVO

record oem_state =
  dmi_vendor :: DMI_VENDORS
  nic_ctr :: u8

definition oem_init :: oem_state where
  "oem_init = \<lparr>dmi_vendor = VENDOR_UNKNOWN, nic_ctr = 0\<rparr>"

fun trimmed_length :: "string \<Rightarrow> nat \<Rightarrow> nat" where
  "trimmed_length s 0 = 0"
| "trimmed_length s (Suc n) = (if s ! n = CHR '' '' then trimmed_length s n else Suc n)"

text \<open>\<^verbatim>\<open>strncmp(s, t, len) == 0\<close> for a \<open>len\<close> not above the length of \<open>s\<close>.\<close>

definition dmi_set_vendor :: "string \<Rightarrow> oem_state \<Rightarrow> oem_state" where
  "dmi_set_vendor s st =
     (let n = trimmed_length s (length s)
      in if strncmp_eq s ''Acer'' n then st\<lparr>dmi_vendor := VENDOR_ACER\<rparr>
         else if strncmp_eq s ''HP'' n \<or> strncmp_eq s ''Hewlett-Packard'' n
           then st\<lparr>dmi_vendor := VENDOR_HP\<rparr>
         else if strncmp_eq s ''HPE'' n \<or> strncmp_eq s ''Hewlett Packard Enterprise'' n
           then st\<lparr>dmi_vendor := VENDOR_HPE\<rparr>
         else if strncmp_eq s ''IBM'' n then st\<lparr>dmi_vendor := VENDOR_IBM\<rparr>
         else if strncmp_eq s ''LENOVO'' n then st\<lparr>dmi_vendor := VENDOR_LENOVO\<rparr>
         else st)"

definition yes_no :: "bool \<Rightarrow> string" where
  "yes_no b = (if b then ''Yes'' else ''No'')"

section \<open>Acer\<close>

definition dmi_decode_acer :: "dmi_header \<Rightarrow> string option option" where
  "dmi_decode_acer h =
     (let word = (\<lambda>label k. attr (label @ ''0x'') (map_option (px 4) (WORD (dm_data h) k)))
      in if dm_type h = 170 then map_option Some (prints
        [line ''Acer Hotkey Function'',
         if len h < 0x0F then nothing
         else do {
           cap \<leftarrow> WORD (dm_data h) 0x04;
           prints
             [word ''Function bitmap for Communication Button: '' 0x04,
              attr (tab @ ''WiFi: '') (Some (yes_no (cap AND 0x0001 \<noteq> 0))),
              attr (tab @ ''3G: '') (Some (yes_no (cap AND 0x0040 \<noteq> 0))),
              attr (tab @ ''WiMAX: '') (Some (yes_no (cap AND 0x0080 \<noteq> 0))),
              attr (tab @ ''Bluetooth: '') (Some (yes_no (cap AND 0x0800 \<noteq> 0))),
              word ''Function bitmap for Application Button: '' 0x06,
              word ''Function bitmap for Media Button: '' 0x08,
              word ''Function bitmap for Display Button: '' 0x0A,
              word ''Function bitmap for Others Button: '' 0x0C,
              attr ''Communication Function Key Number: ''
                (map_option pu (rd (dm_data h) 0x0E))] }])
      else Some None)"

section \<open>HP and HPE\<close>

definition dmi_print_hp_net_iface_rec ::
  "oem_state \<Rightarrow> u8 \<Rightarrow> u8 \<Rightarrow> u8 \<Rightarrow> u8 list \<Rightarrow> (string \<times> oem_state) option" where
  "dmi_print_hp_net_iface_rec st id' bus dev mac =
     (let st' = (if id' = 0xFF then st\<lparr>nic_ctr := nic_ctr st + 1\<rparr> else st);
          nic = (if id' = 0xFF then nic_ctr st' else id')
      in if dev = 0x00 \<and> bus = 0x00 then
           Some (tab @ ''NIC '' @ pu nic @ '': Disabled'' @ nl, st')
         else if dev = 0xFF \<and> bus = 0xFF then
           Some (tab @ ''NIC '' @ pu nic @ '': Not Installed'' @ nl, st')
         else do {
           m \<leftarrow> read_bytes mac 6;
           Some (tab @ ''NIC '' @ pu nic @ '': PCI device '' @ px 2 bus @ '':''
             @ px 2 (drop_bit 3 dev) @ ''.'' @ px 1 (dev AND 7) @ '', MAC address ''
             @ colons (map (pX 2) m) @ nl, st') })"

text \<open>The loop over the 8-byte records of types 209 and 221; \<open>nic\<close> counts from 1.\<close>

function hp_nic_loop ::
  "oem_state \<Rightarrow> dmi_header \<Rightarrow> nat \<Rightarrow> nat \<Rightarrow> (string \<times> oem_state) option" where
  "hp_nic_loop st h nic ptr =
     (if len h \<ge> ptr + 8 then do {
        bus \<leftarrow> rd (dm_data h) (ptr + 0x01);
        dev \<leftarrow> rd (dm_data h) ptr;
        (s, st') \<leftarrow> dmi_print_hp_net_iface_rec st (word_of_nat nic) bus dev
                     (drop (ptr + 0x02) (dm_data h));
        (t, st'') \<leftarrow> hp_nic_loop st' h (nic + 1) (ptr + 8);
        Some (s @ t, st'') }
      else Some ([], st))"
  by pat_completeness auto
termination
  by (relation "measure (\<lambda>(st, h, nic, ptr). len h - ptr)") auto

declare hp_nic_loop.simps [simp del]

definition hp_company :: "oem_state \<Rightarrow> string" where
  "hp_company st = (if dmi_vendor st = VENDOR_HP then ''HP'' else ''HPE'')"

definition dmi_decode_hp_text :: "bool \<Rightarrow> oem_state \<Rightarrow> dmi_header \<Rightarrow> string option option" where
  "dmi_decode_hp_text dump st h =
     (let data = dm_data h; company = hp_company st;
          str = (\<lambda>k. rd data k \<bind> dmi_string dump h);
          hex32 = (\<lambda>k. map_option (px 8) (DWORD data k))
      in if dm_type h = 204 then map_option Some (prints
           [line (company @ '' ProLiant System/Rack Locator''),
            if len h < 0x0B then nothing
            else prints
              [attr ''Rack Name: '' (str 0x04),
               attr ''Enclosure Name: '' (str 0x05),
               attr ''Enclosure Model: '' (str 0x06),
               attr ''Enclosure Serial: '' (str 0x0A),
               attr ''Enclosure Bays: '' (map_option pu (rd data 0x08)),
               attr ''Server Bay: '' (str 0x07),
               attr ''Bays Filled: '' (map_option pu (rd data 0x09))]])
      else if dm_type h = 212 then map_option Some (prints
           [line (company @ '' 64-bit CRU Information''),
            if len h < 0x18 then nothing
            else do {
              sig \<leftarrow> DWORD data 0x04;
              printable \<leftarrow> is_printable (drop 0x04 data) 4;
              b \<leftarrow> read_bytes (drop 0x04 data) 4;
              prints
                [attr ''Signature: 0x''
                   (Some (px 8 sig
                      @ (if printable then '' ('' @ map char_of_byte b @ '')'' else []))),
                 if sig = 0x55524324 then do {
                   base \<leftarrow> QWORD data 0x08;
                   off \<leftarrow> DWORD data 0x14;
                   let l = lo32 base + off;
                   let u = (if l < off then hi32 base + 1 else hi32 base);
                   prints
                     [attr ''Physical Address: 0x'' (Some (px 8 u @ px 8 l)),
                      attr ''Length: 0x'' (hex32 0x10)] }
                 else nothing] }])
      else if dm_type h = 219 then map_option Some (prints
           [line (company @ '' ProLiant Information''),
            if len h < 0x08 then nothing
            else prints
              [attr ''Power Features: 0x'' (hex32 0x04),
               if len h < 0x0C then nothing
               else prints
                 [attr ''Omega Features: 0x'' (hex32 0x08),
                  if len h < 0x14 then nothing
                  else do {
                    feat \<leftarrow> DWORD data 0x10;
                    prints
                      [attr ''Misc. Features: 0x'' (Some (px 8 feat)),
                       attr (tab @ ''iCRU: '') (Some (yes_no (feat AND 0x0001 \<noteq> 0))),
                       attr (tab @ ''UEFI: '') (Some (yes_no (feat AND 0x1400 \<noteq> 0)))] }]]])
      else Some None)"

definition dmi_decode_hp ::
  "bool \<Rightarrow> oem_state \<Rightarrow> dmi_header \<Rightarrow> (string option \<times> oem_state) option" where
  "dmi_decode_hp dump st h =
     (let company = hp_company st
      in if dm_type h = 209 \<or> dm_type h = 221 then do {
           (s, st') \<leftarrow> hp_nic_loop st h 1 4;
           Some (Some (company @ '' ''
             @ (if dm_type h = 221 then ''BIOS iSCSI NIC PCI and MAC Information''
                else ''BIOS PXE NIC PCI and MAC Information'') @ nl @ s), st') }
         else if dm_type h = 233 then
           (let title = company @ '' BIOS PXE NIC PCI and MAC Information'' @ nl
            in if len h < 0x0E then Some (Some title, st)
               else do {
                 nic \<leftarrow> (if len h > 0x28 then rd (dm_data h) 0x28 else Some 0xFF);
                 bus \<leftarrow> rd (dm_data h) 0x06;
                 dev \<leftarrow> rd (dm_data h) 0x07;
                 (s, st') \<leftarrow> dmi_print_hp_net_iface_rec st nic bus dev (drop 0x08 (dm_data h));
                 Some (Some (title @ s), st') })
         else do { r \<leftarrow> dmi_decode_hp_text dump st h; Some (r, st) })"

section \<open>IBM and Lenovo\<close>

definition bytes_of :: "string \<Rightarrow> u8 list" where
  "bytes_of s = map (\<lambda>c. word_of_nat (of_char c)) s"

definition dmi_decode_ibm_lenovo :: "bool \<Rightarrow> dmi_header \<Rightarrow> string option option" where
  "dmi_decode_ibm_lenovo dump h =
     (let data = dm_data h
      in if dm_type h = 131 then
           (if dm_length h \<noteq> 0x16 then Some None
            else do {
              s \<leftarrow> dmi_string dump h 1;
              if s \<noteq> ''TVT-Enablement'' then Some None
              else map_option Some (prints
                [line ''ThinkVantage Technologies'',
                 attr ''Version: '' (map_option pu (rd data 0x04)),
                 attr ''Diagnostics: ''
                   (do { b \<leftarrow> rd data 0x14; Some (if b AND 0x80 \<noteq> 0 then ''Available'' else ''No'') })]) })
         else if dm_type h = 135 then
           (if len h < 0x0A then Some None
            else do {
              b \<leftarrow> read_bytes data 0x0A;
              if drop 4 b \<noteq> bytes_of ''TP'' @ [0x07, 0x03, 0x01, b ! 9] then Some None
              else map_option Some (prints
                [line ''ThinkPad Device Presence Detection'',
                 attr ''Fingerprint Reader: ''
                   (Some (if b ! 9 AND 0x01 \<noteq> 0 then ''Present'' else ''No''))]) })
         else if dm_type h = 140 then
           (if len h < 0x0F then Some None
            else do {
              b \<leftarrow> read_bytes data 0x0D;
              if drop 4 b \<noteq> bytes_of ''LENOVO'' @ [0x0B, 0x07, 0x01] then Some None
              else map_option Some (prints
                [line ''ThinkPad Embedded Controller Program'',
                 attr ''Version ID: '' (dmi_string dump h 1),
                 attr ''Release Date: '' (dmi_string dump h 2)]) })
         else Some None)"

definition dmi_decode_oem ::
  "bool \<Rightarrow> oem_state \<Rightarrow> dmi_header \<Rightarrow> (string option \<times> oem_state) option" where
  "dmi_decode_oem dump st h =
     (case dmi_vendor st of
        VENDOR_HP \<Rightarrow> dmi_decode_hp dump st h
      | VENDOR_HPE \<Rightarrow> dmi_decode_hp dump st h
      | VENDOR_ACER \<Rightarrow> do { r \<leftarrow> dmi_decode_acer h; Some (r, st) }
      | VENDOR_IBM \<Rightarrow> do { r \<leftarrow> dmi_decode_ibm_lenovo dump h; Some (r, st) }
      | VENDOR_LENOVO \<Rightarrow> do { r \<leftarrow> dmi_decode_ibm_lenovo dump h; Some (r, st) }
      | VENDOR_UNKNOWN \<Rightarrow> Some (None, st))"

section \<open>Reads stay in bounds\<close>

lemma safe_dmi_print_hp_net_iface_rec [dmi_safe]:
  "6 \<le> length mac \<Longrightarrow> safe (dmi_print_hp_net_iface_rec st id' bus dev mac)"
  by (auto simp: dmi_print_hp_net_iface_rec_def Let_def dmi_safe)

lemma safe_hp_nic_loop: "structure_ok h \<Longrightarrow> safe (hp_nic_loop st h nic ptr)"
proof (induction "len h - ptr" arbitrary: st nic ptr rule: less_induct)
  case less
  show ?case
  proof (cases "len h \<ge> ptr + 8")
    case True
    have len: "len h + 2 \<le> length (dm_data h)" by (rule structure_ok_length [OF less.prems])
    have "safe (hp_nic_loop st' h (nic + 1) (ptr + 8))" for st'
      using less True by simp
    then show ?thesis
      using True len
      by (subst hp_nic_loop.simps) (auto simp: dmi_safe case_prod_beta)
  qed (simp add: hp_nic_loop.simps)
qed

lemma safe_dmi_decode_acer: "structure_ok h \<Longrightarrow> safe (dmi_decode_acer h)"
  using structure_ok_length [of h] by (auto simp: dmi_decode_acer_def Let_def dmi_safe)

lemma safe_dmi_decode_hp_text: "structure_ok h \<Longrightarrow> safe (dmi_decode_hp_text dump st h)"
  using structure_ok_length [of h] by (auto simp: dmi_decode_hp_text_def Let_def dmi_safe)

lemma safe_dmi_decode_hp: "structure_ok h \<Longrightarrow> safe (dmi_decode_hp dump st h)"
  using structure_ok_length [of h]
  by (auto simp: dmi_decode_hp_def Let_def dmi_safe safe_hp_nic_loop safe_dmi_decode_hp_text
      case_prod_beta)

lemma safe_dmi_decode_ibm_lenovo: "structure_ok h \<Longrightarrow> safe (dmi_decode_ibm_lenovo dump h)"
  using structure_ok_length [of h]
  by (auto simp: dmi_decode_ibm_lenovo_def Let_def dmi_safe word_unat_eq_iff)

lemma safe_dmi_decode_oem [dmi_safe]: "structure_ok h \<Longrightarrow> safe (dmi_decode_oem dump st h)"
  by (auto simp: dmi_decode_oem_def dmi_safe safe_dmi_decode_acer safe_dmi_decode_hp
      safe_dmi_decode_ibm_lenovo split: DMI_VENDORS.split)

section \<open>Recognizing the vendor\<close>

lemma trimmed_length_append:
  assumes "name \<noteq> [] \<longrightarrow> last name \<noteq> CHR '' ''"
  shows "trimmed_length (name @ replicate n (CHR '' '')) (length name + n) = length name"
proof (induction n)
  case 0
  then show ?case
    using assms by (cases name rule: rev_cases) auto
next
  case (Suc n)
  have "trimmed_length (name @ replicate (Suc n) (CHR '' '')) (length name + n)
      = trimmed_length (name @ replicate n (CHR '' '')) (length name + n)"
  proof -
    have "k \<le> length name + n \<Longrightarrow>
        trimmed_length (name @ replicate (Suc n) (CHR '' '')) k
          = trimmed_length (name @ replicate n (CHR '' '')) k" for k
      by (induction k) (auto simp: nth_append nth_Cons')
    then show ?thesis by simp
  qed
  moreover have "replicate (Suc n) (CHR '' '') ! n = CHR '' ''" by (rule nth_replicate) simp
  ultimately show ?case using Suc by (simp add: nth_append)
qed

lemma dmi_set_vendor_trimmed:
  assumes "name \<noteq> [] \<longrightarrow> last name \<noteq> CHR '' ''"
  shows "dmi_set_vendor (name @ replicate n (CHR '' '')) st =
    (let eq = (\<lambda>t. name = take (length name) t)
     in if eq ''Acer'' then st\<lparr>dmi_vendor := VENDOR_ACER\<rparr>
        else if eq ''HP'' \<or> eq ''Hewlett-Packard'' then st\<lparr>dmi_vendor := VENDOR_HP\<rparr>
        else if eq ''HPE'' \<or> eq ''Hewlett Packard Enterprise'' then st\<lparr>dmi_vendor := VENDOR_HPE\<rparr>
        else if eq ''IBM'' then st\<lparr>dmi_vendor := VENDOR_IBM\<rparr>
        else if eq ''LENOVO'' then st\<lparr>dmi_vendor := VENDOR_LENOVO\<rparr>
        else st)"
  using trimmed_length_append [OF assms, of n]
  by (simp add: dmi_set_vendor_def strncmp_eq_def Let_def)

definition known_vendors :: "(string \<times> DMI_VENDORS) list" where
  "known_vendors =
     [(''Acer'', VENDOR_ACER), (''HP'', VENDOR_HP), (''Hewlett-Packard'', VENDOR_HP),
      (''HPE'', VENDOR_HPE), (''Hewlett Packard Enterprise'', VENDOR_HPE),
      (''IBM'', VENDOR_IBM), (''LENOVO'', VENDOR_LENOVO)]"

lemma set_vendor_names:
  "list_all (\<lambda>(name, v). \<forall>n st. dmi_vendor (dmi_set_vendor (name @ replicate n (CHR '' '')) st) = v)
     known_vendors"
  unfolding known_vendors_def list.pred_inject prod.case
  by (intro conjI allI; rule list.pred_inject(1) trans [OF arg_cong [OF dmi_set_vendor_trimmed]])
    (simp_all add: Let_def)

text \<open>
  Every known vendor name is recognized, also with any number of trailing spaces, and
  selects its own vendor although some of the names are prefixes of others.
\<close>

theorem set_vendor_known:
  assumes "(name, v) \<in> set known_vendors"
  shows "dmi_vendor (dmi_set_vendor (name @ replicate n (CHR '' '')) st) = v"
  using assms set_vendor_names by (auto simp: list_all_iff)

theorem set_vendor_known_witness:
  "dmi_vendor (dmi_set_vendor (''HPE'' @ replicate 3 (CHR '' '')) oem_init) = VENDOR_HPE"
  by (rule set_vendor_known) (simp add: known_vendors_def)

text \<open>
  A manufacturer string that consists of spaces is taken for Acer: with all characters
  trimmed, the comparison of zero characters succeeds.
\<close>

theorem set_vendor_blank:
  "dmi_vendor (dmi_set_vendor (replicate n (CHR '' '')) st) = VENDOR_ACER"
  using dmi_set_vendor_trimmed [of "[]" n st] by simp

end
