(* ===== verification/Dmi_Decode.thy ===== *)
theory Dmi_Decode
  imports Dmi_String Dmi_Oem
begin

text \<open>
  \<^verbatim>\<open>dmi_decode\<close>: the decoder of one structure. Every case of its \<^verbatim>\<open>switch\<close> is a definition
  \<open>decode_<n>\<close>; a \<^verbatim>\<open>break\<close> on a short structure is \<open>brk h n rest\<close>, which prints nothing more
  when the structure has fewer than \<open>n\<close> bytes. \<open>dmi_decode\<close> selects the case and prints the
  final newline.

  The main result is \<open>decode_stays_inside\<close>: on every structure that the table walk hands over
  (\<open>structure_ok\<close>), whatever its bytes are, decoding reads only bytes of the structure and of
  its terminated string area, for every type but one. The exception is type 37, whose loop
  starts one entry too late (\<open>memory_channel_reads_past_structure\<close>).
\<close>

unbundle bit_operations_syntax

section \<open>Reading fields\<close>

abbreviation B :: "dmi_header \<Rightarrow> nat \<Rightarrow> u8 option" where
  "B h k \<equiv> rd (dm_data h) k"

abbreviation W :: "dmi_header \<Rightarrow> nat \<Rightarrow> u16 option" where
  "W h k \<equiv> WORD (dm_data h) k"

abbreviation D :: "dmi_header \<Rightarrow> nat \<Rightarrow> u32 option" where
  "D h k \<equiv> DWORD (dm_data h) k"

abbreviation Q :: "dmi_header \<Rightarrow> nat \<Rightarrow> dmi_u64 option" where
  "Q h k \<equiv> QWORD (dm_data h) k"

definition str :: "opt \<Rightarrow> dmi_header \<Rightarrow> nat \<Rightarrow> string option" where
  "str o' h k = do { s \<leftarrow> B h k; dmi_string (FLAG_DUMP o') h s }"

definition brk :: "dmi_header \<Rightarrow> nat \<Rightarrow> string option list \<Rightarrow> string option" where
  "brk h n rest = (if len h < n then nothing else prints rest)"

text \<open>Output that is left out in quiet mode.\<close>

definition unless_quiet :: "opt \<Rightarrow> string option list \<Rightarrow> string option" where
  "unless_quiet o' xs = (if \<not> FLAG_QUIET o' then prints xs else nothing)"

abbreviation handle_text :: "u16 \<Rightarrow> string" where
  "handle_text w \<equiv> ''0x'' @ pX 4 w"

section \<open>Types 0 to 9\<close>

definition decode_0 :: "opt \<Rightarrow> dmi_header \<Rightarrow> string option" where
  "decode_0 o' h = prints
     [line ''BIOS Information'',
      brk h 0x12
       [attr ''Vendor: '' (str o' h 0x04),
        attr ''Version: '' (str o' h 0x05),
        attr ''Release Date: '' (str o' h 0x08),
        do {
          base \<leftarrow> W h 0x06;
          if base \<noteq> 0 then prints
            [attr ''Address: 0x'' (Some (pX 4 base @ ''0'')),
             attr ''Runtime Size:''
               (Some (dmi_bios_runtime_size (push_bit 4 (0x10000 - ucast base))))]
          else nothing },
        attr ''ROM Size:''
          (do {
             code1 \<leftarrow> B h 0x09;
             code2 \<leftarrow> (if len h < 0x1A then Some 16 else W h 0x18);
             dmi_bios_rom_size code1 code2 }),
        attr ''Characteristics:'' nothing,
        Q h 0x0A \<bind> (\<lambda>q. dmi_bios_characteristics q (tab @ tab)),
        brk h 0x13
         [B h 0x12 \<bind> (\<lambda>b. dmi_bios_characteristics_x1 b (tab @ tab)),
          brk h 0x14
           [B h 0x13 \<bind> (\<lambda>b. dmi_bios_characteristics_x2 b (tab @ tab)),
            brk h 0x18
             [do {
                major \<leftarrow> B h 0x14;
                minor \<leftarrow> B h 0x15;
                if major \<noteq> 0xFF \<and> minor \<noteq> 0xFF
                then attr ''BIOS Revision: '' (Some (pu major @ ''.'' @ pu minor))
                else nothing },
              do {
                major \<leftarrow> B h 0x16;
                minor \<leftarrow> B h 0x17;
                if major \<noteq> 0xFF \<and> minor \<noteq> 0xFF
                then attr ''Firmware Revision: '' (Some (pu major @ ''.'' @ pu minor))
                else nothing }]]]]]"

definition decode_1 :: "opt \<Rightarrow> dmi_header \<Rightarrow> u16 \<Rightarrow> string option" where
  "decode_1 o' h ver = prints
     [line ''System Information'',
      brk h 0x08
       [attr ''Manufacturer: '' (str o' h 0x04),
        attr ''Product Name: '' (str o' h 0x05),
        attr ''Version: '' (str o' h 0x06),
        attr ''Serial Number: '' (str o' h 0x07),
        brk h 0x19
         [attr ''UUID: '' (dmi_system_uuid (drop 0x08 (dm_data h)) ver),
          attr ''Wake-up Type: '' (B h 0x18 \<bind> dmi_system_wake_up_type),
          brk h 0x1B
           [attr ''SKU Number: '' (str o' h 0x19),
            attr ''Family: '' (str o' h 0x1A)]]]]"

definition decode_2 :: "opt \<Rightarrow> dmi_header \<Rightarrow> string option" where
  "decode_2 o' h = prints
     [line ''Base Board Information'',
      brk h 0x08
       [attr ''Manufacturer: '' (str o' h 0x04),
        attr ''Product Name: '' (str o' h 0x05),
        attr ''Version: '' (str o' h 0x06),
        attr ''Serial Number: '' (str o' h 0x07),
        brk h 0x09
         [attr ''Asset Tag: '' (str o' h 0x08),
          brk h 0x0A
           [Some (tab @ ''Features:''),
            B h 0x09 \<bind> (\<lambda>b. dmi_base_board_features b (tab @ tab)),
            brk h 0x0E
             [attr ''Location In Chassis: '' (str o' h 0x0A),
              unless_quiet o' [attr ''Chassis Handle: '' (map_option handle_text (W h 0x0B))],
              attr ''Type: '' (B h 0x0D \<bind> dmi_base_board_type),
              brk h 0x0F
               [do {
                  n \<leftarrow> B h 0x0E;
                  brk h (0x0F + unat n * 2)
                    [unless_quiet o'
                       [dmi_base_board_handles n (drop 0x0F (dm_data h)) tab]] }]]]]]]"

definition decode_3 :: "opt \<Rightarrow> dmi_header \<Rightarrow> string option" where
  "decode_3 o' h = prints
     [line ''Chassis Information'',
      brk h 0x09
       [attr ''Manufacturer: '' (str o' h 0x04),
        attr ''Type: '' (B h 0x05 \<bind> dmi_chassis_type),
        attr ''Lock: '' (B h 0x05 \<bind> (\<lambda>b. dmi_chassis_lock (drop_bit 7 b))),
        attr ''Version: '' (str o' h 0x06),
        attr ''Serial Number: '' (str o' h 0x07),
        attr ''Asset Tag: '' (str o' h 0x08),
        brk h 0x0D
         [attr ''Boot-up State: '' (B h 0x09 \<bind> dmi_chassis_state),
          attr ''Power Supply State: '' (B h 0x0A \<bind> dmi_chassis_state),
          attr ''Thermal State: '' (B h 0x0B \<bind> dmi_chassis_state),
          attr ''Security Status: '' (B h 0x0C \<bind> dmi_chassis_security_status),
          brk h 0x11
           [attr ''OEM Information: 0x'' (map_option (pX 8) (D h 0x0D)),
            brk h 0x13
             [attr ''Height:'' (map_option dmi_chassis_height (B h 0x11)),
              attr ''Number Of Power Cords:'' (map_option dmi_chassis_power_cords (B h 0x12)),
              brk h 0x15
               [do {
                  n \<leftarrow> B h 0x13;
                  m \<leftarrow> B h 0x14;
                  brk h (0x15 + unat n * unat m)
                    [dmi_chassis_elements n m (drop 0x15 (dm_data h)) tab,
                     brk h (0x16 + unat n * unat m)
                       [attr ''SKU Number: '' (str o' h (0x15 + unat n * unat m))]] }]]]]]]"

definition count_or_extended :: "dmi_header \<Rightarrow> nat \<Rightarrow> nat \<Rightarrow> nat \<Rightarrow> string \<Rightarrow> string option" where
  "count_or_extended h at n ext label = do {
     b \<leftarrow> B h at;
     if b \<noteq> 0
     then attr label
       (if len h \<ge> n \<and> b = 0xFF then map_option pu (W h ext) else Some (pu b))
     else nothing }"

definition decode_4 :: "opt \<Rightarrow> dmi_header \<Rightarrow> u16 \<Rightarrow> string option" where
  "decode_4 o' h ver = prints
     [line ''Processor Information'',
      brk h 0x1A
       [attr ''Socket Designation: '' (str o' h 0x04),
        attr ''Type: '' (B h 0x05 \<bind> dmi_processor_type),
        attr ''Family: '' (dmi_processor_family (FLAG_DUMP o') h ver),
        attr ''Manufacturer: '' (str o' h 0x07),
        dmi_processor_id (FLAG_DUMP o') h tab,
        attr ''Version: '' (str o' h 0x10),
        attr ''Voltage:'' (B h 0x11 \<bind> dmi_processor_voltage),
        attr ''External Clock: '' (dmi_processor_frequency (dm_data h) 0x12),
        attr ''Max Speed: '' (dmi_processor_frequency (dm_data h) 0x14),
        attr ''Current Speed: '' (dmi_processor_frequency (dm_data h) 0x16),
        do {
          b \<leftarrow> B h 0x18;
          if bit b 6 then attr ''Status: Populated, '' (dmi_processor_status (b AND 0x07))
          else attr ''Status: Unpopulated'' nothing },
        attr ''Upgrade: '' (B h 0x19 \<bind> dmi_processor_upgrade),
        brk h 0x20
         [unless_quiet o'
           [attr ''L1 Cache Handle:''
              (map_option (\<lambda>w. dmi_processor_cache w ''L1'' ver) (W h 0x1A)),
            attr ''L2 Cache Handle:''
              (map_option (\<lambda>w. dmi_processor_cache w ''L2'' ver) (W h 0x1C)),
            attr ''L3 Cache Handle:''
              (map_option (\<lambda>w. dmi_processor_cache w ''L3'' ver) (W h 0x1E))],
          brk h 0x23
           [attr ''Serial Number: '' (str o' h 0x20),
            attr ''Asset Tag: '' (str o' h 0x21),
            attr ''Part Number: '' (str o' h 0x22),
            brk h 0x28
             [count_or_extended h 0x23 0x2C 0x2A ''Core Count: '',
              count_or_extended h 0x24 0x2E 0x2C ''Core Enabled: '',
              count_or_extended h 0x25 0x30 0x2E ''Thread Count: '',
              Some (tab @ ''Characteristics:''),
              W h 0x26 \<bind> (\<lambda>w. dmi_processor_characteristics w (tab @ tab))]]]]]"

definition decode_5 :: "(nat \<Rightarrow> u32) \<Rightarrow> dmi_header \<Rightarrow> string option" where
  "decode_5 shift h = prints
     [line ''Memory Controller Information'',
      brk h 0x0F
       [attr ''Error Detecting Method: '' (B h 0x04 \<bind> dmi_memory_controller_ed_method),
        Some (tab @ ''Error Correcting Capabilities:''),
        B h 0x05 \<bind> (\<lambda>b. dmi_memory_controller_ec_capabilities b (tab @ tab)),
        attr ''Supported Interleave: '' (B h 0x06 \<bind> dmi_memory_controller_interleave),
        attr ''Current Interleave: '' (B h 0x07 \<bind> dmi_memory_controller_interleave),
        attr ''Maximum Memory Module Size: ''
          (do { b \<leftarrow> B h 0x08; Some (pu (shift (unat b)) @ '' MB'') }),
        attr ''Maximum Total Memory Size: ''
          (do {
             n \<leftarrow> B h 0x0E;
             b \<leftarrow> B h 0x08;
             Some (pu (ucast n * shift (unat b)) @ '' MB'') }),
        Some (tab @ ''Supported Speeds:''),
        W h 0x09 \<bind> (\<lambda>w. dmi_memory_controller_speeds w (tab @ tab)),
        attr ''Supported Memory Types:''
          (W h 0x0B \<bind> (\<lambda>w. dmi_memory_module_types w (nl @ tab @ tab))),
        attr ''Memory Module Voltage:'' (B h 0x0D \<bind> dmi_processor_voltage),
        do {
          n \<leftarrow> B h 0x0E;
          brk h (0x0F + unat n * 2)
            [dmi_memory_controller_slots n (drop 0x0F (dm_data h)) tab,
             brk h (0x10 + unat n * 2)
               [Some (tab @ ''Enabled Error Correcting Capabilities:''),
                B h (0x0F + unat n * 2)
                  \<bind> (\<lambda>b. dmi_memory_controller_ec_capabilities b (tab @ tab))]] }]]"

definition decode_6 :: "(nat \<Rightarrow> u32) \<Rightarrow> opt \<Rightarrow> dmi_header \<Rightarrow> string option" where
  "decode_6 shift o' h = prints
     [line ''Memory Module Information'',
      brk h 0x0C
       [attr ''Socket Designation: '' (str o' h 0x04),
        attr ''Bank Connections:'' (map_option dmi_memory_module_connections (B h 0x05)),
        attr ''Current Speed:'' (map_option dmi_memory_module_speed (B h 0x06)),
        attr ''Type:'' (W h 0x07 \<bind> (\<lambda>w. dmi_memory_module_types w '' '')),
        attr ''Installed Size:'' (map_option (dmi_memory_module_size shift) (B h 0x09)),
        attr ''Enabled Size:'' (map_option (dmi_memory_module_size shift) (B h 0x0A)),
        Some (tab @ ''Error Status:''),
        map_option (\<lambda>b. dmi_memory_module_error b (tab @ tab)) (B h 0x0B)]]"

definition decode_7 :: "opt \<Rightarrow> dmi_header \<Rightarrow> string option" where
  "decode_7 o' h = prints
     [line ''Cache Information'',
      brk h 0x0F
       [attr ''Socket Designation: '' (str o' h 0x04),
        do {
          w \<leftarrow> W h 0x05;
          prints
            [attr ''Configuration: ''
               (Some ((if w AND 0x0080 \<noteq> 0 then ''Enabled'' else ''Disabled'') @ '', ''
                  @ (if w AND 0x0008 \<noteq> 0 then ''Socketed'' else ''Not Socketed'')
                  @ '', Level '' @ pu ((w AND 0x0007) + 1))),
             attr ''Operational Mode: '' (dmi_cache_mode (ucast (drop_bit 8 w AND 0x0003))),
             attr ''Location: '' (dmi_cache_location (ucast (drop_bit 5 w AND 0x0003)))] },
        attr ''Installed Size:''
          (if len h \<ge> 0x1B then map_option dmi_cache_size_2 (D h 0x17)
           else map_option dmi_cache_size (W h 0x09)),
        attr ''Maximum Size:''
          (if len h \<ge> 0x17 then map_option dmi_cache_size_2 (D h 0x13)
           else map_option dmi_cache_size (W h 0x07)),
        attr ''Supported SRAM Types:''
          (W h 0x0B \<bind> (\<lambda>w. dmi_cache_types w (nl @ tab @ tab))),
        attr ''Installed SRAM Type:'' (W h 0x0D \<bind> (\<lambda>w. dmi_cache_types w '' '')),
        brk h 0x13
         [attr ''Speed:'' (map_option dmi_memory_module_speed (B h 0x0F)),
          attr ''Error Correction Type: '' (B h 0x10 \<bind> dmi_cache_ec_type),
          attr ''System Type: '' (B h 0x11 \<bind> dmi_cache_type),
          attr ''Associativity: '' (B h 0x12 \<bind> dmi_cache_associativity)]]]"

definition decode_8 :: "opt \<Rightarrow> dmi_header \<Rightarrow> string option" where
  "decode_8 o' h = prints
     [line ''Port Connector Information'',
      brk h 0x09
       [attr ''Internal Reference Designator: '' (str o' h 0x04),
        attr ''Internal Connector Type: '' (B h 0x05 \<bind> dmi_port_connector_type),
        attr ''External Reference Designator: '' (str o' h 0x06),
        attr ''External Connector Type: '' (B h 0x07 \<bind> dmi_port_connector_type),
        attr ''Port Type: '' (B h 0x08 \<bind> dmi_port_type)]]"

definition decode_9 :: "opt \<Rightarrow> dmi_header \<Rightarrow> string option" where
  "decode_9 o' h = prints
     [line ''System Slot Information'',
      brk h 0x0C
       [attr ''Designation: '' (str o' h 0x04),
        attr ''Type: '' (prints [B h 0x06 \<bind> dmi_slot_bus_width, B h 0x05 \<bind> dmi_slot_type]),
        attr ''Current Usage: '' (B h 0x07 \<bind> dmi_slot_current_usage),
        attr ''Length: '' (B h 0x08 \<bind> dmi_slot_length),
        do {
          a \<leftarrow> B h 0x09;
          b \<leftarrow> B h 0x0A;
          t \<leftarrow> B h 0x05;
          Some (dmi_slot_id a b t tab) },
        Some (tab @ ''Characteristics:''),
        do {
          a \<leftarrow> B h 0x0B;
          b \<leftarrow> (if len h < 0x0D then Some 0x00 else B h 0x0C);
          dmi_slot_characteristics a b (tab @ tab) },
        brk h 0x11
         [do {
            w \<leftarrow> W h 0x0D;
            a \<leftarrow> B h 0x0F;
            b \<leftarrow> B h 0x10;
            Some (dmi_slot_segment_bus_func w a b tab) }]]]"

section \<open>Types 10 to 20\<close>

definition decode_11 :: "opt \<Rightarrow> dmi_header \<Rightarrow> string option" where
  "decode_11 o' h = prints
     [line ''OEM Strings'', brk h 0x05 [dmi_oem_strings (FLAG_DUMP o') h tab]]"

definition decode_12 :: "opt \<Rightarrow> dmi_header \<Rightarrow> string option" where
  "decode_12 o' h = prints
     [line ''System Configuration Options'',
      brk h 0x05 [dmi_system_configuration_options (FLAG_DUMP o') h tab]]"

definition decode_13 :: "opt \<Rightarrow> dmi_header \<Rightarrow> u16 \<Rightarrow> string option" where
  "decode_13 o' h ver = prints
     [line ''BIOS Language Information'',
      brk h 0x16
       [if ver \<ge> 0x0201
        then attr ''Language Description Format: '' (map_option dmi_bios_language_format (B h 0x05))
        else nothing,
        attr ''Installable Languages: '' (map_option pu (B h 0x04)),
        dmi_bios_languages (FLAG_DUMP o') h (tab @ tab),
        attr ''Currently Installed Language: '' (str o' h 0x15)]]"

definition decode_14 :: "opt \<Rightarrow> dmi_header \<Rightarrow> string option" where
  "decode_14 o' h = prints
     [line ''Group Associations'',
      brk h 0x05
       [attr ''Name: '' (str o' h 0x04),
        attr ''Items: '' (Some (dec ((len h - 0x05) div 3))),
        dmi_group_associations_items (word_of_nat ((len h - 0x05) div 3))
          (drop 0x05 (dm_data h)) (tab @ tab)]]"

definition decode_15 :: "dmi_header \<Rightarrow> string option" where
  "decode_15 h = prints
     [line ''System Event Log'',
      brk h 0x14
       [attr ''Area Length: '' (do { w \<leftarrow> W h 0x04; Some (pu w @ '' bytes'') }),
        attr ''Header Start Offset: '' (map_option handle_text (W h 0x06)),
        do {
          e \<leftarrow> W h 0x08;
          s \<leftarrow> W h 0x06;
          let n = uint e - uint s;
          if n \<noteq> 0
          then attr ''Header Length: ''
            (Some (pu (word_of_int n :: u32) @ '' byte'' @ (if n > 1 then ''s'' else [])))
          else nothing },
        attr ''Data Start Offset: '' (map_option handle_text (W h 0x08)),
        attr ''Access Method: '' (B h 0x0A \<bind> dmi_event_log_method),
        attr ''Access Address:''
          (do { m \<leftarrow> B h 0x0A; dmi_event_log_address m (drop 0x10 (dm_data h)) }),
        attr ''Status:'' (B h 0x0B \<bind> dmi_event_log_status),
        attr ''Change Token: 0x'' (map_option (pX 8) (D h 0x0C)),
        brk h 0x17
         [attr ''Header Format: '' (B h 0x14 \<bind> dmi_event_log_header_type),
          attr ''Supported Log Type Descriptors: '' (map_option pu (B h 0x15)),
          do {
            n \<leftarrow> B h 0x15;
            m \<leftarrow> B h 0x16;
            brk h (0x17 + unat n * unat m)
              [dmi_event_log_descriptors n m (drop 0x17 (dm_data h)) tab] }]]]"

definition decode_16 :: "opt \<Rightarrow> dmi_header \<Rightarrow> string option" where
  "decode_16 o' h = prints
     [line ''Physical Memory Array'',
      brk h 0x0F
       [attr ''Location: '' (B h 0x04 \<bind> dmi_memory_array_location),
        attr ''Use: '' (B h 0x05 \<bind> dmi_memory_array_use),
        attr ''Error Correction Type: '' (B h 0x06 \<bind> dmi_memory_array_ec_type),
        attr ''Maximum Capacity:''
          (do {
             c \<leftarrow> D h 0x07;
             if c = 0x80000000 then
               (if len h < 0x17 then Some '' Unknown''
                else Q h 0x0F \<bind> (\<lambda>q. dmi_print_memory_size q 0))
             else dmi_print_memory_size \<lparr>lo32 = c, hi32 = 0\<rparr> 1 }),
        unless_quiet o'
         [attr ''Error Information Handle:''
            (map_option dmi_memory_array_error_handle (W h 0x0B))],
        attr ''Number Of Devices: '' (map_option pu (W h 0x0D))]]"

definition decode_17_extended :: "opt \<Rightarrow> dmi_header \<Rightarrow> string option" where
  "decode_17_extended o' h =
     brk h 0x34
      [attr ''Memory Technology:'' (B h 0x28 \<bind> dmi_memory_technology),
       attr ''Memory Operating Mode Capability:''
         (W h 0x29 \<bind> dmi_memory_operating_mode_capability),
       attr ''Firmware Version: '' (str o' h 0x2B),
       attr ''Module Manufacturer ID:'' (map_option dmi_memory_manufacturer_id (W h 0x2C)),
       attr ''Module Product ID:'' (map_option dmi_memory_product_id (W h 0x2E)),
       attr ''Memory Subsystem Controller Manufacturer ID:''
         (map_option dmi_memory_manufacturer_id (W h 0x30)),
       attr ''Memory Subsystem Controller Product ID:''
         (map_option dmi_memory_product_id (W h 0x32)),
       brk h 0x3C
        [attr ''Non-Volatile Size:'' (Q h 0x34 \<bind> dmi_memory_size),
         brk h 0x44
          [attr ''Volatile Size:'' (Q h 0x3C \<bind> dmi_memory_size),
           brk h 0x4C
            [attr ''Cache Size:'' (Q h 0x44 \<bind> dmi_memory_size),
             brk h 0x54
              [attr ''Logical Size:'' (Q h 0x4C \<bind> dmi_memory_size)]]]]]"

definition decode_17 :: "opt \<Rightarrow> dmi_header \<Rightarrow> string option" where
  "decode_17 o' h = prints
     [line ''Memory Device'',
      brk h 0x15
       [unless_quiet o'
         [attr ''Array Handle: '' (map_option handle_text (W h 0x04)),
          attr ''Error Information Handle:''
            (map_option dmi_memory_array_error_handle (W h 0x06))],
        attr ''Total Width:'' (map_option dmi_memory_device_width (W h 0x08)),
        attr ''Data Width:'' (map_option dmi_memory_device_width (W h 0x0A)),
        attr ''Size:''
          (do {
             w \<leftarrow> W h 0x0C;
             if len h \<ge> 0x20 \<and> w = 0x7FFF
             then map_option dmi_memory_device_extended_size (D h 0x1C)
             else Some (dmi_memory_device_size w) }),
        attr ''Form Factor: '' (B h 0x0E \<bind> dmi_memory_device_form_factor),
        attr ''Set:'' (map_option dmi_memory_device_set (B h 0x0F)),
        attr ''Locator: '' (str o' h 0x10),
        attr ''Bank Locator: '' (str o' h 0x11),
        attr ''Type: '' (B h 0x12 \<bind> dmi_memory_device_type),
        attr ''Type Detail:'' (W h 0x13 \<bind> dmi_memory_device_type_detail),
        brk h 0x17
         [attr ''Speed:'' (map_option dmi_memory_device_speed (W h 0x15)),
          brk h 0x1B
           [attr ''Manufacturer: '' (str o' h 0x17),
            attr ''Serial Number: '' (str o' h 0x18),
            attr ''Asset Tag: '' (str o' h 0x19),
            attr ''Part Number: '' (str o' h 0x1A),
            brk h 0x1C
             [attr ''Rank: ''
                (do {
                   b \<leftarrow> B h 0x1B;
                   Some (if b AND 0x0F = 0 then ''Unknown'' else pu (b AND 0x0F)) }),
              brk h 0x22
               [attr ''Configured Memory Speed:''
                  (map_option dmi_memory_device_speed (W h 0x20)),
                brk h 0x28
                 [attr ''Minimum Voltage:'' (map_option dmi_memory_voltage_value (W h 0x22)),
                  attr ''Maximum Voltage:'' (map_option dmi_memory_voltage_value (W h 0x24)),
                  attr ''Configured Voltage:'' (map_option dmi_memory_voltage_value (W h 0x26)),
                  decode_17_extended o' h]]]]]]]"

definition decode_18 :: "dmi_header \<Rightarrow> string option" where
  "decode_18 h = prints
     [line ''32-bit Memory Error Information'',
      brk h 0x17
       [attr ''Type: '' (B h 0x04 \<bind> dmi_memory_error_type),
        attr ''Granularity: '' (B h 0x05 \<bind> dmi_memory_error_granularity),
        attr ''Operation: '' (B h 0x06 \<bind> dmi_memory_error_operation),
        attr ''Vendor Syndrome:'' (map_option dmi_memory_error_syndrome (D h 0x07)),
        attr ''Memory Array Address:'' (map_option dmi_32bit_memory_error_address (D h 0x0B)),
        attr ''Device Address:'' (map_option dmi_32bit_memory_error_address (D h 0x0F)),
        attr ''Resolution:'' (map_option dmi_32bit_memory_error_address (D h 0x13))]]"

text \<open>The address range of types 19 and 20; the 64-bit fields are at \<open>ext\<close>.\<close>

definition mapped_range :: "dmi_header \<Rightarrow> nat \<Rightarrow> nat \<Rightarrow> string option" where
  "mapped_range h n ext = do {
     a \<leftarrow> D h 0x04;
     if len h \<ge> n \<and> a = 0xFFFFFFFF then do {
       start \<leftarrow> Q h ext;
       stop \<leftarrow> Q h (ext + 8);
       prints
         [attr ''Starting Address: 0x'' (Some (pX 8 (hi32 start) @ pX 8 (lo32 start) @ ''k'')),
          attr ''Ending Address: 0x'' (Some (pX 8 (hi32 stop) @ pX 8 (lo32 stop) @ ''k'')),
          attr ''Range Size:'' (dmi_mapped_address_extended_size start stop)] }
     else do {
       b \<leftarrow> D h 0x08;
       prints
         [attr ''Starting Address: 0x''
            (Some (pX 8 (drop_bit 2 a) @ pX 3 (push_bit 10 (a AND 0x3)))),
          attr ''Ending Address: 0x''
            (Some (pX 8 (drop_bit 2 b) @ pX 3 (push_bit 10 (b AND 0x3) + 0x3FF))),
          attr ''Range Size:'' (dmi_mapped_address_size (b - a + 1))] } }"

definition decode_19 :: "opt \<Rightarrow> dmi_header \<Rightarrow> string option" where
  "decode_19 o' h = prints
     [line ''Memory Array Mapped Address'',
      brk h 0x0F
       [mapped_range h 0x1F 0x0F,
        unless_quiet o' [attr ''Physical Array Handle: '' (map_option handle_text (W h 0x0C))],
        attr ''Partition Width: '' (map_option pu (B h 0x0E))]]"

definition decode_20 :: "opt \<Rightarrow> dmi_header \<Rightarrow> string option" where
  "decode_20 o' h = prints
     [line ''Memory Device Mapped Address'',
      brk h 0x13
       [mapped_range h 0x23 0x13,
        unless_quiet o'
         [attr ''Physical Device Handle: '' (map_option handle_text (W h 0x0C)),
          attr ''Memory Array Mapped Address Handle: '' (map_option handle_text (W h 0x0E))],
        attr ''Partition Row Position:''
          (map_option dmi_mapped_address_row_position (B h 0x10)),
        map_option (\<lambda>b. dmi_mapped_address_interleave_position b tab) (B h 0x11),
        map_option (\<lambda>b. dmi_mapped_address_interleaved_data_depth b tab) (B h 0x12)]]"

section \<open>Types 21 to 29\<close>

definition decode_21 :: "dmi_header \<Rightarrow> string option" where
  "decode_21 h = prints
     [line ''Built-in Pointing Device'',
      brk h 0x07
       [attr ''Type: '' (B h 0x04 \<bind> dmi_pointing_device_type),
        attr ''Interface: '' (B h 0x05 \<bind> dmi_pointing_device_interface),
        attr ''Buttons: '' (map_option pu (B h 0x06))]]"

definition decode_22 :: "opt \<Rightarrow> dmi_header \<Rightarrow> string option" where
  "decode_22 o' h = prints
     [line ''Portable Battery'',
      brk h 0x10
       [attr ''Location: '' (str o' h 0x04),
        attr ''Manufacturer: '' (str o' h 0x05),
        do {
          b \<leftarrow> B h 0x06;
          if b \<noteq> 0 \<or> len h < 0x1A then attr ''Manufacture Date: '' (str o' h 0x06) else nothing },
        do {
          b \<leftarrow> B h 0x07;
          if b \<noteq> 0 \<or> len h < 0x1A then attr ''Serial Number: '' (str o' h 0x07) else nothing },
        attr ''Name: '' (str o' h 0x08),
        do {
          b \<leftarrow> B h 0x09;
          if b \<noteq> 0x02 \<or> len h < 0x1A then attr ''Chemistry: '' (dmi_battery_chemistry b)
          else nothing },
        attr ''Design Capacity:''
          (do {
             w \<leftarrow> W h 0x0A;
             m \<leftarrow> (if len h < 0x16 then Some 1 else B h 0x15);
             Some (dmi_battery_capacity w m) }),
        attr ''Design Voltage:'' (map_option dmi_battery_voltage (W h 0x0C)),
        attr ''SBDS Version: '' (str o' h 0x0E),
        attr ''Maximum Error:'' (map_option dmi_battery_maximum_error (B h 0x0F)),
        brk h 0x1A
         [do {
            b \<leftarrow> B h 0x07;
            if b = 0 then attr ''SBDS Serial Number: '' (map_option (pX 4) (W h 0x10))
            else nothing },
          do {
            b \<leftarrow> B h 0x06;
            if b = 0 then do {
              w \<leftarrow> W h 0x12;
              attr ''SBDS Manufacture Date: ''
                (Some (dec (1980 + unat (drop_bit 9 w)) @ ''-''
                   @ pad0 2 (pu (drop_bit 5 w AND 0x0F)) @ ''-'' @ pad0 2 (pu (w AND 0x1F)))) }
            else nothing },
          do {
            b \<leftarrow> B h 0x09;
            if b = 0x02 then attr ''SBDS Chemistry: '' (str o' h 0x14) else nothing },
          attr ''OEM-specific Information: 0x'' (map_option (pX 8) (D h 0x16))]]]"

definition enabled :: "bool \<Rightarrow> string" where
  "enabled b = (if b then ''Enabled'' else ''Disabled'')"

definition decode_23 :: "dmi_header \<Rightarrow> string option" where
  "decode_23 h = prints
     [line ''System Reset'',
      brk h 0x0D
       [do {
          b \<leftarrow> B h 0x04;
          prints
            [attr ''Status: '' (Some (enabled (bit b 0))),
             attr ''Watchdog Timer: '' (Some (if bit b 5 then ''Present'' else ''Not Present'')),
             if \<not> bit b 5 then nothing
             else prints
              [attr ''Boot Option: '' (dmi_system_reset_boot_option (drop_bit 1 b AND 0x3)),
               attr ''Boot Option On Limit: ''
                 (dmi_system_reset_boot_option (drop_bit 3 b AND 0x3)),
               attr ''Reset Count:'' (map_option dmi_system_reset_count (W h 0x05)),
               attr ''Reset Limit:'' (map_option dmi_system_reset_count (W h 0x07)),
               attr ''Timer Interval:'' (map_option dmi_system_reset_timer (W h 0x09)),
               attr ''Timeout:'' (map_option dmi_system_reset_timer (W h 0x0B))]] }]]"

definition decode_24 :: "dmi_header \<Rightarrow> string option" where
  "decode_24 h = prints
     [line ''Hardware Security'',
      brk h 0x05
       [do {
          b \<leftarrow> B h 0x04;
          prints
            [attr ''Power-On Password Status: '' (dmi_hardware_security_status (drop_bit 6 b)),
             attr ''Keyboard Password Status: ''
               (dmi_hardware_security_status (drop_bit 4 b AND 0x3)),
             attr ''Administrator Password Status: ''
               (dmi_hardware_security_status (drop_bit 2 b AND 0x3)),
             attr ''Front Panel Reset Status: '' (dmi_hardware_security_status (b AND 0x3))] }]]"

definition decode_25 :: "dmi_header \<Rightarrow> string option" where
  "decode_25 h = prints
     [line (tab @ ''System Power Controls''),
      brk h 0x09
       [attr ''Next Scheduled Power-on:'' (dmi_power_controls_power_on (drop 0x04 (dm_data h)))]]"

text \<open>The common layout of the probes, types 26, 28 and 29.\<close>

definition probe_values ::
  "(u16 \<Rightarrow> string) \<Rightarrow> (u16 \<Rightarrow> string) \<Rightarrow> dmi_header \<Rightarrow> string option list" where
  "probe_values value resolution h =
     [attr ''Maximum Value:'' (map_option value (W h 0x06)),
      attr ''Minimum Value:'' (map_option value (W h 0x08)),
      attr ''Resolution:'' (map_option resolution (W h 0x0A)),
      attr ''Tolerance:'' (map_option value (W h 0x0C)),
      attr ''Accuracy:'' (map_option dmi_probe_accuracy (W h 0x0E)),
      attr ''OEM-specific Information: 0x'' (map_option (pX 8) (D h 0x10)),
      brk h 0x16 [attr ''Nominal Value:'' (map_option value (W h 0x14))]]"

definition decode_26 :: "opt \<Rightarrow> dmi_header \<Rightarrow> string option" where
  "decode_26 o' h = prints
     [line ''Voltage Probe'',
      brk h 0x14
       ([attr ''Description: '' (str o' h 0x04),
         attr ''Location: '' (B h 0x05 \<bind> (\<lambda>b. dmi_voltage_probe_location (b AND 0x1f))),
         attr ''Status: '' (B h 0x05 \<bind> (\<lambda>b. dmi_probe_status (drop_bit 5 b)))]
        @ probe_values dmi_voltage_probe_value dmi_voltage_probe_resolution h)]"

definition decode_27 :: "opt \<Rightarrow> dmi_header \<Rightarrow> string option" where
  "decode_27 o' h = prints
     [line ''Cooling Device'',
      brk h 0x0C
       [unless_quiet o'
         [do {
            w \<leftarrow> W h 0x04;
            if w \<noteq> 0xFFFF then attr ''Temperature Probe Handle: '' (Some (handle_text w))
            else nothing }],
        attr ''Type: '' (B h 0x06 \<bind> (\<lambda>b. dmi_cooling_device_type (b AND 0x1f))),
        attr ''Status: '' (B h 0x06 \<bind> (\<lambda>b. dmi_probe_status (drop_bit 5 b))),
        do {
          b \<leftarrow> B h 0x07;
          if b \<noteq> 0x00 then attr ''Cooling Unit Group: '' (Some (pu b)) else nothing },
        attr ''OEM-specific Information: 0x'' (map_option (pX 8) (D h 0x08)),
        brk h 0x0E
         [attr ''Nominal Speed:'' (map_option dmi_cooling_device_speed (W h 0x0C)),
          brk h 0x0F [attr ''Description: '' (str o' h 0x0E)]]]]"

definition decode_28 :: "opt \<Rightarrow> dmi_header \<Rightarrow> string option" where
  "decode_28 o' h = prints
     [line ''Temperature Probe'',
      brk h 0x14
       ([attr ''Description: '' (str o' h 0x04),
         attr ''Location: '' (B h 0x05 \<bind> (\<lambda>b. dmi_temperature_probe_location (b AND 0x1F))),
         attr ''Status: '' (B h 0x05 \<bind> (\<lambda>b. dmi_probe_status (drop_bit 5 b)))]
        @ probe_values dmi_temperature_probe_value dmi_temperature_probe_resolution h)]"

definition decode_29 :: "opt \<Rightarrow> dmi_header \<Rightarrow> string option" where
  "decode_29 o' h = prints
     [line ''Electrical Current Probe'',
      brk h 0x14
       ([attr ''Description: '' (str o' h 0x04),
         attr ''Location: '' (B h 0x05 \<bind> (\<lambda>b. dmi_voltage_probe_location (b AND 0x1F))),
         attr ''Status: '' (B h 0x05 \<bind> (\<lambda>b. dmi_probe_status (drop_bit 5 b)))]
        @ probe_values dmi_current_probe_value dmi_current_probe_resolution h)]"

section \<open>Types 30 to 43\<close>

definition decode_30 :: "opt \<Rightarrow> dmi_header \<Rightarrow> string option" where
  "decode_30 o' h = prints
     [line ''Out-of-band Remote Access'',
      brk h 0x06
       [attr ''Manufacturer Name: '' (str o' h 0x04),
        attr ''Inbound Connection: '' (do { b \<leftarrow> B h 0x05; Some (enabled (bit b 0)) }),
        attr ''Outbound Connection: '' (do { b \<leftarrow> B h 0x05; Some (enabled (bit b 1)) })]]"

definition decode_31 :: "dmi_header \<Rightarrow> string option" where
  "decode_31 h = prints
     [line ''Boot Integrity Services Entry Point'',
      brk h 0x1C
       [attr ''Checksum: ''
          (do { ok \<leftarrow> checksum (dm_data h) (len h); Some (if ok then ''OK'' else ''Invalid'') }),
        attr ''16-bit Entry Point Address: ''
          (do {
             a \<leftarrow> D h 0x08;
             Some (pX 4 (drop_bit 16 a) @ '':'' @ pX 4 (a AND 0xFFFF)) }),
        attr ''32-bit Entry Point Address: 0x'' (map_option (pX 8) (D h 0x0C))]]"

definition decode_32 :: "dmi_header \<Rightarrow> string option" where
  "decode_32 h = prints
     [line ''System Boot Information'',
      brk h 0x0B [attr ''Status: '' (B h 0x0A \<bind> dmi_system_boot_status)]]"

definition decode_33 :: "dmi_header \<Rightarrow> string option" where
  "decode_33 h =
     brk h 0x1F
      [line ''64-bit Memory Error Information'',
       attr ''Type: '' (B h 0x04 \<bind> dmi_memory_error_type),
       attr ''Granularity: '' (B h 0x05 \<bind> dmi_memory_error_granularity),
       attr ''Operation: '' (B h 0x06 \<bind> dmi_memory_error_operation),
       attr ''Vendor Syndrome:'' (map_option dmi_memory_error_syndrome (D h 0x07)),
       attr ''Memory Array Address:'' (map_option dmi_64bit_memory_error_address (Q h 0x0B)),
       attr ''Device Address:'' (map_option dmi_64bit_memory_error_address (Q h 0x13)),
       attr ''Resolution:'' (map_option dmi_32bit_memory_error_address (D h 0x1B))]"

definition decode_34 :: "opt \<Rightarrow> dmi_header \<Rightarrow> string option" where
  "decode_34 o' h = prints
     [line ''Management Device'',
      brk h 0x0B
       [attr ''Description: '' (str o' h 0x04),
        attr ''Type: '' (B h 0x05 \<bind> dmi_management_device_type),
        attr ''Address: 0x'' (map_option (pX 8) (D h 0x06)),
        attr ''Address Type: '' (B h 0x0A \<bind> dmi_management_device_address_type)]]"

definition decode_35 :: "opt \<Rightarrow> dmi_header \<Rightarrow> string option" where
  "decode_35 o' h = prints
     [line ''Management Device Component'',
      brk h 0x0B
       [attr ''Description: '' (str o' h 0x04),
        unless_quiet o'
         [attr ''Management Device Handle: '' (map_option handle_text (W h 0x05)),
          attr ''Component Handle: '' (map_option handle_text (W h 0x07)),
          do {
            w \<leftarrow> W h 0x09;
            if w \<noteq> 0xFFFF then attr ''Threshold Handle: '' (Some (handle_text w))
            else nothing }]]]"

definition threshold :: "dmi_header \<Rightarrow> nat \<Rightarrow> string \<Rightarrow> string option" where
  "threshold h at label = do {
     w \<leftarrow> W h at;
     if w \<noteq> 0x8000 then attr label (Some (pd (sint w))) else nothing }"

definition decode_36 :: "dmi_header \<Rightarrow> string option" where
  "decode_36 h = prints
     [line ''Management Device Threshold Data'',
      brk h 0x10
       [threshold h 0x04 ''Lower Non-critical Threshold: '',
        threshold h 0x06 ''Upper Non-critical Threshold: '',
        threshold h 0x08 ''Lower Critical Threshold: '',
        threshold h 0x0A ''Upper Critical Threshold: '',
        threshold h 0x0C ''Lower Non-recoverable Threshold: '',
        threshold h 0x0E ''Upper Non-recoverable Threshold: '']]"

definition decode_37 :: "opt \<Rightarrow> dmi_header \<Rightarrow> string option" where
  "decode_37 o' h = prints
     [line ''Memory Channel'',
      brk h 0x07
       [attr ''Type: '' (B h 0x04 \<bind> dmi_memory_channel_type),
        attr ''Maximal Load: '' (map_option pu (B h 0x05)),
        attr ''Devices: '' (map_option pu (B h 0x06)),
        do {
          n \<leftarrow> B h 0x06;
          brk h (0x07 + 3 * unat n)
            [dmi_memory_channel_devices o' n (drop 0x07 (dm_data h)) tab] }]]"

definition decode_38 :: "dmi_header \<Rightarrow> string option" where
  "decode_38 h = prints
     [line ''IPMI Device Information'',
      brk h 0x10
       [attr ''Interface Type: '' (B h 0x04 \<bind> dmi_ipmi_interface_type),
        attr ''Specification Version: ''
          (do { b \<leftarrow> B h 0x05; Some (pu (drop_bit 4 b) @ ''.'' @ pu (b AND 0x0F)) }),
        attr ''I2C Slave Address: 0x'' (do { b \<leftarrow> B h 0x06; Some (px 2 (drop_bit 1 b)) }),
        do {
          b \<leftarrow> B h 0x07;
          if b \<noteq> 0xFF then attr ''NV Storage Device Address: '' (Some (pu b))
          else attr ''NV Storage Device: Not Present'' nothing },
        attr ''Base Address: ''
          (do {
             t \<leftarrow> B h 0x04;
             lsb \<leftarrow> (if len h < 0x11 then Some 0
                    else do { b \<leftarrow> B h 0x10; Some (drop_bit 4 b AND 1) });
             dmi_ipmi_base_address t (drop 0x08 (dm_data h)) lsb }),
        brk h 0x12
         [do {
            t \<leftarrow> B h 0x04;
            b \<leftarrow> B h 0x10;
            if t \<noteq> 0x04 then prints
              [attr ''Register Spacing: '' (dmi_ipmi_register_spacing (drop_bit 6 b)),
               if bit b 3 then prints
                 [attr ''Interrupt Polarity: ''
                    (Some (if bit b 1 then ''Active High'' else ''Active Low'')),
                  attr ''Interrupt Trigger Mode: ''
                    (Some (if bit b 0 then ''Level'' else ''Edge''))]
               else nothing]
            else nothing },
          do {
            b \<leftarrow> B h 0x11;
            if b \<noteq> 0x00 then attr ''Interrupt Number: '' (Some (pu b)) else nothing }]]]"

definition probe_handle :: "dmi_header \<Rightarrow> nat \<Rightarrow> string \<Rightarrow> string option" where
  "probe_handle h at label = do {
     w \<leftarrow> W h at;
     if w \<noteq> 0xFFFF then attr label (Some (handle_text w)) else nothing }"

definition decode_39 :: "opt \<Rightarrow> dmi_header \<Rightarrow> string option" where
  "decode_39 o' h = prints
     [line ''System Power Supply'',
      brk h 0x10
       [do {
          b \<leftarrow> B h 0x04;
          if b \<noteq> 0x00 then attr ''Power Unit Group: '' (Some (pu b)) else nothing },
        attr ''Location: '' (str o' h 0x05),
        attr ''Name: '' (str o' h 0x06),
        attr ''Manufacturer: '' (str o' h 0x07),
        attr ''Serial Number: '' (str o' h 0x08),
        attr ''Asset Tag: '' (str o' h 0x09),
        attr ''Model Part Number: '' (str o' h 0x0A),
        attr ''Revision: '' (str o' h 0x0B),
        attr ''Max Power Capacity:'' (map_option dmi_power_supply_power (W h 0x0C)),
        do {
          w \<leftarrow> W h 0x0E;
          prints
            [attr ''Status:''
               (if bit w 1
                then map_option (\<lambda>s. '' Present, '' @ s)
                       (dmi_power_supply_status (ucast (drop_bit 7 w AND 0x07)))
                else Some '' Not Present''),
             attr ''Type: '' (dmi_power_supply_type (ucast (drop_bit 10 w AND 0x0F))),
             attr ''Input Voltage Range Switching: ''
               (dmi_power_supply_range_switching (ucast (drop_bit 3 w AND 0x0F))),
             attr ''Plugged: '' (Some (if bit w 2 then ''No'' else ''Yes'')),
             attr ''Hot Replaceable: '' (Some (if bit w 0 then ''Yes'' else ''No''))] },
        brk h 0x16
         [unless_quiet o'
           [probe_handle h 0x10 ''Input Voltage Probe Handle: '',
            probe_handle h 0x12 ''Cooling Device Handle: '',
            probe_handle h 0x14 ''Input Current Probe Handle: '']]]]"

definition decode_41 :: "opt \<Rightarrow> dmi_header \<Rightarrow> string option" where
  "decode_41 o' h = prints
     [line ''Onboard Device'',
      brk h 0x0B
       [attr ''Reference Designation: '' (str o' h 0x04),
        attr ''Type: '' (B h 0x05 \<bind> (\<lambda>b. dmi_on_board_devices_type (b AND 0x7F))),
        attr ''Status: '' (do { b \<leftarrow> B h 0x05; Some (enabled (b AND 0x80 \<noteq> 0)) }),
        attr ''Type Instance: '' (map_option pu (B h 0x06)),
        do {
          w \<leftarrow> W h 0x07;
          a \<leftarrow> B h 0x09;
          b \<leftarrow> B h 0x0A;
          Some (dmi_slot_segment_bus_func w a b tab) }]]"

definition decode_42 :: "dmi_header \<Rightarrow> u16 \<Rightarrow> string option" where
  "decode_42 h ver = prints
     [line ''Management Controller Host Interface'',
      if ver < 0x0302 then
        brk h 0x05
         [attr ''Interface Type: '' (B h 0x04 \<bind> dmi_management_controller_host_type),
          brk h 0x09
           [do {
              t \<leftarrow> B h 0x04;
              if t = 0xF0 then do {
                b5 \<leftarrow> B h 0x05;
                b6 \<leftarrow> B h 0x06;
                b7 \<leftarrow> B h 0x07;
                b8 \<leftarrow> B h 0x08;
                attr ''Vendor ID: 0x'' (Some (pX 2 b5 @ pX 2 b6 @ pX 2 b7 @ pX 2 b8)) }
              else nothing }]]
      else dmi_parse_controller_structure h tab]"

definition decode_43 :: "opt \<Rightarrow> dmi_header \<Rightarrow> string option" where
  "decode_43 o' h = prints
     [line ''TPM Device'',
      brk h 0x1B
       [attr ''Vendor ID:'' (dmi_tpm_vendor_id (drop 0x04 (dm_data h))),
        do {
          major \<leftarrow> B h 0x08;
          minor \<leftarrow> B h 0x09;
          prints
            [Some (tab @ ''Specification Version: '' @ pu major @ ''.'' @ pu minor),
             if major = 0x01 then do {
               a \<leftarrow> B h 0x0C;
               b \<leftarrow> B h 0x0D;
               attr ''Firmware Revision: '' (Some (pu a @ ''.'' @ pu b)) }
             else if major = 0x02 then do {
               d \<leftarrow> D h 0x0A;
               attr ''Firmware Revision: '' (Some (pu (drop_bit 16 d) @ ''.'' @ pu (d AND 0xFFFF))) }
             else nothing] },
        map_option (\<lambda>s. tab @ ''Description: '' @ s) (str o' h 0x12),
        attr ''Characteristics:'' nothing,
        Q h 0x13 \<bind> (\<lambda>q. dmi_tpm_characteristics q (tab @ tab)),
        brk h 0x1F
         [attr ''OEM-specific Information: 0x'' (map_option (pX 8) (D h 0x1B))]]]"

section \<open>The decoder\<close>

text \<open>
  The cases that print and reach the end of the \<^verbatim>\<open>switch\<close>; \<open>None\<close> inside for the types that
  the \<^verbatim>\<open>default\<close> case handles. Type 40 is left out here because it may return without the
  final newline.
\<close>

definition decode_case ::
  "(nat \<Rightarrow> u32) \<Rightarrow> opt \<Rightarrow> dmi_header \<Rightarrow> u16 \<Rightarrow> string option option" where
  "decode_case shift o' h ver = (let t = unat (dm_type h) in
     if t = 0 then Some (decode_0 o' h)
     else if t = 1 then Some (decode_1 o' h ver)
     else if t = 2 then Some (decode_2 o' h)
     else if t = 3 then Some (decode_3 o' h)
     else if t = 4 then Some (decode_4 o' h ver)
     else if t = 5 then Some (decode_5 shift h)
     else if t = 6 then Some (decode_6 shift o' h)
     else if t = 7 then Some (decode_7 o' h)
     else if t = 8 then Some (decode_8 o' h)
     else if t = 9 then Some (decode_9 o' h)
     else if t = 10 then Some (dmi_on_board_devices (FLAG_DUMP o') h [])
     else if t = 11 then Some (decode_11 o' h)
     else if t = 12 then Some (decode_12 o' h)
     else if t = 13 then Some (decode_13 o' h ver)
     else if t = 14 then Some (decode_14 o' h)
     else if t = 15 then Some (decode_15 h)
     else if t = 16 then Some (decode_16 o' h)
     else if t = 17 then Some (decode_17 o' h)
     else if t = 18 then Some (decode_18 h)
     else if t = 19 then Some (decode_19 o' h)
     else if t = 20 then Some (decode_20 o' h)
     else if t = 21 then Some (decode_21 h)
     else if t = 22 then Some (decode_22 o' h)
     else if t = 23 then Some (decode_23 h)
     else if t = 24 then Some (decode_24 h)
     else if t = 25 then Some (decode_25 h)
     else if t = 26 then Some (decode_26 o' h)
     else if t = 27 then Some (decode_27 o' h)
     else if t = 28 then Some (decode_28 o' h)
     else if t = 29 then Some (decode_29 o' h)
     else if t = 30 then Some (decode_30 o' h)
     else if t = 31 then Some (decode_31 h)
     else if t = 32 then Some (decode_32 h)
     else if t = 33 then Some (decode_33 h)
     else if t = 34 then Some (decode_34 o' h)
     else if t = 35 then Some (decode_35 o' h)
     else if t = 36 then Some (decode_36 h)
     else if t = 37 then Some (decode_37 o' h)
     else if t = 38 then Some (decode_38 h)
     else if t = 39 then Some (decode_39 o' h)
     else if t = 41 then Some (decode_41 o' h)
     else if t = 42 then Some (decode_42 h ver)
     else if t = 43 then Some (decode_43 o' h)
     else if t = 126 then Some (line ''Inactive'')
     else if t = 127 then Some (line ''End Of Table'')
     else None)"

text \<open>
  \<open>dmi_decode\<close> returns what is printed and the state of the vendor-specific decoders.
\<close>

definition dmi_decode ::
  "(nat \<Rightarrow> u32) \<Rightarrow> opt \<Rightarrow> oem_state \<Rightarrow> dmi_header \<Rightarrow> u16 \<Rightarrow> (string \<times> oem_state) option" where
  "dmi_decode shift o' st h ver =
     (case decode_case shift o' h ver of
        Some m \<Rightarrow> do { s \<leftarrow> m; Some (s @ nl, st) }
      | None \<Rightarrow>
          if dm_type h = 40 then
            (if len h < 0x0B then Some (nl, st)
             else if FLAG_QUIET o' then Some ([], st)
             else do { s \<leftarrow> dmi_additional_info (FLAG_DUMP o') h []; Some (s @ nl, st) })
          else do {
            (r, st') \<leftarrow> dmi_decode_oem (FLAG_DUMP o') st h;
            case r of
              Some s \<Rightarrow> Some (s @ nl, st')
            | None \<Rightarrow>
                if FLAG_QUIET o' then Some ([], st')
                else do {
                  s \<leftarrow> dmi_dump o' h tab;
                  Some ((if dm_type h \<ge> 128 then ''OEM-specific'' else ''Unknown'') @ '' Type'' @ nl
                        @ s @ nl, st') } })"

section \<open>Decoding stays inside the structure\<close>

lemma safe_str [dmi_safe]: "structure_ok h \<Longrightarrow> safe (str o' h k) \<longleftrightarrow> k < length (dm_data h)"
  by (auto simp: str_def dmi_safe)

lemma safe_brk [dmi_safe]: "safe (brk h n xs) \<longleftrightarrow> (n \<le> len h \<longrightarrow> safe (prints xs))"
  by (simp add: brk_def not_less)

lemma safe_unless_quiet [dmi_safe]:
  "safe (unless_quiet o' xs) \<longleftrightarrow> (\<not> FLAG_QUIET o' \<longrightarrow> safe (prints xs))"
  by (simp add: unless_quiet_def)

lemma small_codes [dmi_safe]:
  fixes b :: u8
  shows "unat (drop_bit 7 b) < 2" and "unat (drop_bit 6 b) < 4" and "unat (b AND 0x07) < 8"
    and "unat (b AND 0x3) < 4"
  using unat_drop_bit_less [of 7 1 b] unat_drop_bit_less [of 6 2 b]
    unat_and_mask_less [of b 7] unat_and_mask_less [of b 3]
  by auto

lemma small_codes_u16 [dmi_safe]:
  fixes w :: u16
  shows "unat (ucast (w AND 0x3) :: u8) < 4"
proof -
  have "unat (w AND 0x3) < 4" using unat_and_mask_less [of w 3] by auto
  moreover have "unat (ucast (w AND 0x3) :: u8) \<le> unat (w AND 0x3)"
    by (simp only: unsigned_ucast_eq unsigned_take_bit_eq take_bit_nat_less_eq_self)
  ultimately show ?thesis by linarith
qed

text \<open>
  The cases one by one: \<open>len\<close> is the bound the walk guarantees, and every \<open>brk\<close> gives the
  length that the reads after it need.
\<close>

lemma safe_decode_0_3:
  assumes "structure_ok h"
  shows "safe (decode_0 o' h)" "safe (decode_1 o' h ver)" "safe (decode_2 o' h)"
    "safe (decode_3 o' h)"
  using assms structure_ok_length [OF assms]
  by (auto simp: decode_0_def decode_1_def decode_2_def decode_3_def dmi_safe)

lemma safe_count_or_extended [dmi_safe]:
  "at < length (dm_data h) \<Longrightarrow> (n \<le> len h \<longrightarrow> ext + 1 < length (dm_data h)) \<Longrightarrow>
   safe (count_or_extended h at n ext label)"
  by (auto simp: count_or_extended_def dmi_safe)

lemma safe_decode_4_9:
  assumes "structure_ok h"
  shows "safe (decode_4 o' h ver)" "safe (decode_5 shift h)" "safe (decode_6 shift o' h)"
    "safe (decode_7 o' h)" "safe (decode_8 o' h)" "safe (decode_9 o' h)"
  using assms structure_ok_length [OF assms]
  by (auto simp: decode_4_def decode_5_def decode_6_def decode_7_def decode_8_def decode_9_def
      dmi_safe)

lemma items_bound: "3 * unat (word_of_nat (n div 3) :: u8) \<le> n"
proof -
  have "unat (word_of_nat (n div 3) :: u8) \<le> n div 3"
    by (simp add: unat_of_nat)
  then show ?thesis by linarith
qed

lemma safe_decode_11_16:
  assumes "structure_ok h"
  shows "safe (decode_11 o' h)" "safe (decode_12 o' h)" "safe (decode_13 o' h ver)"
    "safe (decode_14 o' h)" "safe (decode_15 h)" "safe (decode_16 o' h)"
  using assms structure_ok_length [OF assms] items_bound [of "len h - 5"]
  by (auto simp: decode_11_def decode_12_def decode_13_def decode_14_def decode_15_def
      decode_16_def Let_def dmi_safe)

lemma safe_mapped_range [dmi_safe]:
  "12 \<le> length (dm_data h) \<Longrightarrow> (n \<le> len h \<longrightarrow> ext + 16 \<le> length (dm_data h)) \<Longrightarrow>
   safe (mapped_range h n ext)"
  by (auto simp: mapped_range_def dmi_safe)

lemma safe_decode_17_20:
  assumes "structure_ok h"
  shows "safe (decode_17_extended o' h)" "safe (decode_17 o' h)" "safe (decode_18 h)"
    "safe (decode_19 o' h)" "safe (decode_20 o' h)"
  using assms structure_ok_length [OF assms]
  by (auto simp: decode_17_def decode_17_extended_def decode_18_def decode_19_def decode_20_def
      dmi_safe)

lemma safe_decode_21_25:
  assumes "structure_ok h"
  shows "safe (decode_21 h)" "safe (decode_22 o' h)" "safe (decode_23 h)" "safe (decode_24 h)"
    "safe (decode_25 h)"
  using assms structure_ok_length [OF assms]
  by (auto simp: decode_21_def decode_22_def decode_23_def decode_24_def decode_25_def dmi_safe)

lemma safe_decode_26_30:
  assumes "structure_ok h"
  shows "safe (decode_26 o' h)" "safe (decode_27 o' h)" "safe (decode_28 o' h)"
    "safe (decode_29 o' h)" "safe (decode_30 o' h)"
  using assms structure_ok_length [OF assms]
  by (auto simp: decode_26_def decode_27_def decode_28_def decode_29_def decode_30_def
      probe_values_def dmi_safe)

lemma safe_threshold [dmi_safe]: "at + 1 < length (dm_data h) \<Longrightarrow> safe (threshold h at label)"
  by (auto simp: threshold_def dmi_safe)

lemma safe_decode_31_36:
  assumes "structure_ok h"
  shows "safe (decode_31 h)" "safe (decode_32 h)" "safe (decode_33 h)" "safe (decode_34 o' h)"
    "safe (decode_35 o' h)" "safe (decode_36 h)"
  using assms structure_ok_length [OF assms]
  by (auto simp: decode_31_def decode_32_def decode_33_def decode_34_def decode_35_def
      decode_36_def dmi_safe)

lemma safe_probe_handle [dmi_safe]:
  "at + 1 < length (dm_data h) \<Longrightarrow> safe (probe_handle h at label)"
  by (auto simp: probe_handle_def dmi_safe)

lemma safe_decode_38_43:
  assumes "structure_ok h"
  shows "safe (decode_38 h)" "safe (decode_39 o' h)" "safe (decode_41 o' h)"
    "safe (decode_42 h ver)" "safe (decode_43 o' h)"
  using assms structure_ok_length [OF assms]
  by (auto simp: decode_38_def decode_39_def decode_41_def decode_42_def decode_43_def
      dmi_safe)

lemmas safe_decode_cases =
  safe_decode_0_3 safe_decode_4_9 safe_decode_11_16 safe_decode_17_20 safe_decode_21_25
  safe_decode_26_30 safe_decode_31_36 safe_decode_38_43

lemma safe_decode_case:
  assumes "structure_ok h" and "dm_type h \<noteq> 37" and "decode_case shift o' h ver = Some m"
  shows "safe m"
proof -
  have "unat (dm_type h) \<noteq> 37" using assms(2) by (auto simp: word_unat_eq_iff)
  then show ?thesis
    using assms(1,3)
    by (auto simp: decode_case_def Let_def safe_decode_cases dmi_safe split: if_splits)
qed

subsection \<open>The dump of unknown types\<close>

text \<open>
  A structure with fewer than 255 strings has a string number for which \<^verbatim>\<open>dmi_string\<close>
  returns \<^verbatim>\<open>bad_index\<close>.
\<close>

definition strings_end :: "bool \<Rightarrow> dmi_header \<Rightarrow> bool" where
  "strings_end dump h \<longleftrightarrow> (\<exists>s. s \<noteq> 0 \<and> dmi_string_at dump h s = Some None)"

lemma dump_strings_ends:
  assumes "structure_ok h" and "dmi_string_at (FLAG_DUMP o') h s = Some None"
  shows "i \<le> unat s \<Longrightarrow> unat s < i + fuel \<Longrightarrow> safe (dump_strings fuel o' h indent i)"
proof (induction fuel arbitrary: i)
  case 0
  then show ?case by simp
next
  case (Suc fuel)
  show ?case
  proof (cases "i = unat s")
    case True
    then show ?thesis using assms(2) by simp
  next
    case False
    then have "safe (dump_strings fuel o' h indent (Suc i))" using Suc by simp
    then show ?thesis
      using assms(1) by (auto simp: dmi_safe split: option.split)
  qed
qed

lemma dump_strings_diverges:
  assumes "structure_ok h" and "\<not> strings_end (FLAG_DUMP o') h"
  shows "dump_strings fuel o' h indent i = None"
proof (induction fuel arbitrary: i)
  case 0
  then show ?case by simp
next
  case (Suc fuel)
  have "dmi_string_at (FLAG_DUMP o') h (word_of_nat i) \<noteq> Some None"
  proof (cases "(word_of_nat i :: u8) = 0")
    case True
    then show ?thesis by (simp add: dmi_string_at_def)
  next
    case False
    then show ?thesis using assms(2) by (auto simp: strings_end_def)
  qed
  then show ?case
    using Suc.IH by (auto simp: prints.simps split: Option.bind_split option.split)
qed

lemma safe_dmi_dump:
  assumes ok: "structure_ok h" and stop: "strings_end (FLAG_DUMP o') h"
  shows "safe (dmi_dump o' h indent)"
proof -
  obtain s where "s \<noteq> 0" and s: "dmi_string_at (FLAG_DUMP o') h s = Some None"
    using stop by (auto simp: strings_end_def)
  then have "1 \<le> unat s" by (simp add: unat_gt_0 Suc_le_eq)
  moreover have "unat s < 1 + 256" using unsigned_less [of s, where ?'a = nat] by simp
  ultimately have "safe (dump_strings 256 o' h indent 1)"
    using dump_strings_ends [OF ok s] by blast
  then show ?thesis
    using structure_ok_length [OF ok] by (auto simp: dmi_dump_def dmi_safe)
qed

lemma safe_dmi_decode:
  assumes ok: "structure_ok h" and "dm_type h \<noteq> 37" and stop: "strings_end (FLAG_DUMP o') h"
  shows "safe (dmi_decode shift o' st h ver)"
proof (cases "decode_case shift o' h ver")
  case (Some m)
  then show ?thesis
    using safe_decode_case [OF ok assms(2)] by (auto simp: dmi_decode_def dmi_safe)
next
  case None
  then show ?thesis
    using safe_dmi_dump [OF ok stop]
    by (auto simp: dmi_decode_def dmi_safe ok not_less case_prod_beta split: option.split)
qed

section \<open>Properties\<close>

text \<open>
  C7. Decoding a structure never reads outside the bytes the walk vouches for: for every
  terminated structure of a type other than 37, whatever its length and contents, and for
  every option, version and vendor state, \<^verbatim>\<open>dmi_decode\<close> runs to its end with every access in
  the structure or its string area and every table lookup inside its table. The structure
  has a string number without a string, as every structure with fewer than 255 strings has.
\<close>

theorem decode_stays_inside:
  assumes "structure_ok h" and "dm_type h \<noteq> 37" and "strings_end (FLAG_DUMP o') h"
  shows "\<exists>text' st'. dmi_decode shift o' st h ver = Some (text', st')"
  using safe_dmi_decode [OF assms, of shift st ver] by (auto simp: safe_def)

definition default_opt :: opt where
  "default_opt = \<lparr>opt_flags = 0, opt_type = None, opt_string = None, opt_handle = - 1\<rparr>"

lemma sample_strings_end: "strings_end False sample_header"
proof -
  have "dmi_string_at False sample_header 3 = Some None" by code_simp
  then show ?thesis by (auto simp: strings_end_def intro!: exI [of _ 3])
qed

theorem decode_stays_inside_witness:
  "\<exists>text' st'. dmi_decode (\<lambda>n. 0) default_opt oem_init sample_header 0x0206 = Some (text', st')"
  by (rule decode_stays_inside)
    (auto simp: sample_header_ok FLAG_DUMP_def default_opt_def sample_strings_end,
     simp add: sample_header_def)

text \<open>
  Type 37 is the exception: when a memory channel structure with devices ends the table
  and the output is not quiet, \<^verbatim>\<open>dmi_memory_channel_devices\<close> reads beyond the end of the
  table. Its loop counts from 1, so it skips the first device and reads one entry after
  the last.
\<close>

theorem memory_channel_reads_past_structure:
  assumes "dm_type h = 37" and "len h = 7 + 3 * n" and "dm_data h ! 6 = word_of_nat n"
    and "0 < n" and "n < 256" and "length (dm_data h) = len h + 2" and "\<not> FLAG_QUIET o'"
  shows "dmi_decode shift o' st h ver = None"
proof -
  have n: "unat (word_of_nat n :: u8) = n" using assms(5) by (simp add: unat_of_nat)
  have "\<not> safe (dmi_memory_channel_devices o' (word_of_nat n) (drop 7 (dm_data h)) tab)"
    using assms(2,4,6,7) n
    by (auto simp: dmi_memory_channel_devices_def dmi_safe rd_Some intro!: exI [of _ n])
  then have "dmi_memory_channel_devices o' (word_of_nat n) (drop 7 (dm_data h)) tab = None"
    by (simp add: safe_def)
  then have "decode_37 o' h = None"
    using assms(2,3,6) n
    by (auto simp: decode_37_def prints.simps brk_def rd_def split: Option.bind_split)
  then show ?thesis
    using assms(1) by (simp add: dmi_decode_def decode_case_def)
qed

definition channel_header :: dmi_header where
  "channel_header = \<lparr>dm_type = 37, dm_length = 10, dm_handle = 0,
     dm_data = [37, 10, 0, 0, 3, 5, 1, 2, 0x40, 0, 0, 0]\<rparr>"

theorem memory_channel_reads_past_structure_witness:
  "structure_ok channel_header
   \<and> dmi_decode (\<lambda>n. 0) default_opt oem_init channel_header 0x0206 = None"
proof
  show "structure_ok channel_header"
    by (auto simp: structure_ok_def channel_header_def intro!: exI [of _ 10])
  show "dmi_decode (\<lambda>n. 0) default_opt oem_init channel_header 0x0206 = None"
    by (rule memory_channel_reads_past_structure [of _ 1])
      (simp_all add: channel_header_def default_opt_def FLAG_QUIET_def)
qed

text \<open>
  The dump of a structure that has a string for every number from 1 to 255 never ends:
  after number 255 the counter is converted to the byte 0, for which \<^verbatim>\<open>dmi_string\<close> returns a
  text, and the loop starts over. No number of rounds is enough.
\<close>

theorem dump_of_255_strings_diverges:
  assumes "structure_ok h"
    and "\<forall>s. s \<noteq> 0 \<longrightarrow> dmi_string_at (FLAG_DUMP o') h s \<noteq> Some None"
  shows "dump_strings fuel o' h indent 1 = None"
  by (rule dump_strings_diverges) (use assms in \<open>auto simp: strings_end_def\<close>)

definition many_strings :: dmi_header where
  "many_strings = \<lparr>dm_type = 200, dm_length = 4, dm_handle = 0,
     dm_data = [200, 4, 0, 0] @ concat (replicate 255 [65, 0]) @ [0]\<rparr>"

lemma skip_strings_replicate:
  "1 \<le> s \<Longrightarrow> s \<le> m \<Longrightarrow>
   skip_strings s (concat (replicate m [65, 0]) @ [0])
     = Some (concat (replicate (m + 1 - s) [65, 0]) @ [0])"
proof (induction s arbitrary: m)
  case (Suc s)
  then obtain k where m: "m = Suc k" by (cases m) auto
  show ?case
  proof (cases s)
    case 0
    then show ?thesis using m by (simp add: skip_strings.simps)
  next
    case (Suc t)
    then have "skip_strings s (concat (replicate k [65, 0]) @ [0])
        = Some (concat (replicate (k + 1 - s) [65, 0]) @ [0])"
      using Suc.IH [of k] Suc.prems m by simp
    then show ?thesis
      using Suc m by (subst skip_strings.simps) (simp add: rd_def)
  qed
qed simp

lemma many_strings_all: "s \<noteq> 0 \<Longrightarrow> dmi_string_at dump many_strings s \<noteq> Some None"
proof -
  assume s: "s \<noteq> 0"
  have "1 \<le> unat s" using s by (simp add: unat_gt_0 Suc_le_eq)
  moreover have "unat s \<le> 255" using unsigned_less [of s, where ?'a = nat] by simp
  ultimately have "skip_strings (unat s) (concat (replicate 255 [65, 0]) @ [0])
      = Some (concat (replicate (256 - unat s) [65, 0]) @ [0])"
    using skip_strings_replicate [of "unat s" 255] by simp
  moreover have "drop (len many_strings) (dm_data many_strings) = concat (replicate 255 [65, 0]) @ [0]"
    by (simp add: many_strings_def)
  moreover obtain k where "256 - unat s = Suc k"
    using \<open>unat s \<le> 255\<close> by (cases "256 - unat s") auto
  ultimately show ?thesis using s by (simp add: dmi_string_at_def rd_def)
qed

theorem dump_of_255_strings_diverges_witness:
  "structure_ok many_strings \<and> dump_strings 1000 default_opt many_strings tab 1 = None"
proof
  have "dm_data many_strings ! 513 = 0 \<and> dm_data many_strings ! 514 = 0
      \<and> length (dm_data many_strings) = 515 \<and> len many_strings = 4"
    by code_simp
  then show ok: "structure_ok many_strings"
    unfolding structure_ok_def by (auto intro!: exI [of _ 513])
  show "dump_strings 1000 default_opt many_strings tab 1 = None"
    by (rule dump_of_255_strings_diverges [OF ok]) (simp add: many_strings_all)
qed

text \<open>
  A PCI Express slot whose only characteristic is bit 3 of the second byte (slot
  bifurcation) is reported as having none, although the same bit is printed when another
  characteristic is set: the guard tests the bits 0 to 2 of that byte only.
\<close>

theorem slot_bifurcation_hidden:
  "dmi_slot_characteristics 0 0x08 indent = Some ('' None'' @ nl)
   \<and> dmi_slot_characteristics 0x04 0x08 indent
     = Some (nl @ indent @ ''3.3 V is provided'' @ nl
               @ indent @ ''PCIe slot bifurcation is supported'' @ nl)"
proof -
  have bits: "[1..<Suc 7] = [1, 2, 3, 4, 5, 6, 7]" "[0..<Suc 3] = [0, 1, 2, 3]"
    by code_simp+
  show ?thesis
    unfolding dmi_slot_characteristics_def flag_lines_def Let_def bits
    by (simp add: line_def pline_def prints.simps idx_def)
qed

end
