(* ===== verification/Dmi_Table.thy ===== *)
theory Dmi_Table
  imports Dmi_Walk Dmi_Decode
begin

text \<open>
  \<^verbatim>\<open>dmi_table_decode\<close> of dmidecode.c: the loop that displays the structures of a table, with
  the selection by type and handle, the quiet, dump and single-string modes, the vendor
  memory and the fixup of type 34. The state of the loop is what has been printed on the two
  output streams, the options (the loop sets the quiet flag on a broken table) and the state
  of the vendor-specific decoders.

  \<open>table_decode_safe\<close> joins the walk and the decoder: the whole table is decoded without an
  access outside the buffer. \<open>table_string_overreads\<close> shows the mode for which this fails.
\<close>

unbundle bit_operations_syntax

section \<open>Single strings\<close>

definition to_dmi_header :: "u8 list \<Rightarrow> dmi_header option" where
  "to_dmi_header data = do {
     t \<leftarrow> rd data 0;
     n \<leftarrow> rd data 1;
     handle \<leftarrow> WORD data 2;
     Some \<lparr>dm_type = t, dm_length = n, dm_handle = handle, dm_data = data\<rparr> }"

lemma to_dmi_header_eq: "to_dmi_header = to_dmi_header_ext"
  by (rule ext) (simp add: to_dmi_header_def to_dmi_header_ext_def)

text \<open>What is printed on standard output and on standard error for the option \<^verbatim>\<open>-s\<close>.\<close>

definition dmi_table_string ::
  "opt \<Rightarrow> string_keyword \<Rightarrow> dmi_header \<Rightarrow> u16 \<Rightarrow> (string \<times> string) option" where
  "dmi_table_string o' kw h ver =
     (let data = dm_data h; offset = kw_offset kw; out = map_option (\<lambda>s. (s @ nl, []))
      in if kw_type kw = 11 then
           (if len h < 5 then Some ([], ''No OEM string number '' @ pu offset @ nl)
            else do {
              count \<leftarrow> rd data 4;
              if offset > count then Some ([], ''No OEM string number '' @ pu offset @ nl)
              else if offset \<noteq> 0 then out (dmi_string (FLAG_DUMP o') h offset)
              else out (Some (pu count)) })
         else if offset \<ge> dm_length h then Some ([], [])
         else
           (let key = unat (kw_type kw) * 256 + unat offset
            in if key = 0x108 then out (dmi_system_uuid (drop (unat offset) data) ver)
               else if key = 0x305 then out (rd data (unat offset) \<bind> dmi_chassis_type)
               else if key = 0x406 then out (dmi_processor_family (FLAG_DUMP o') h ver)
               else if key = 0x416 then out (dmi_processor_frequency data (unat offset))
               else out (rd data (unat offset) \<bind> dmi_string (FLAG_DUMP o') h)))"

section \<open>The table\<close>

record table_state =
  ts_out :: string
  ts_err :: string
  ts_opt :: opt
  ts_oem :: oem_state

definition displayed :: "opt \<Rightarrow> dmi_header \<Rightarrow> bool" where
  "displayed o' h \<longleftrightarrow>
     (case opt_type o' of None \<Rightarrow> True | Some f \<Rightarrow> f (dm_type h))
     \<and> (opt_handle o' = - 1 \<or> opt_handle o' = ucast (dm_handle h))
     \<and> \<not> (FLAG_QUIET o' \<and> (dm_type h = 126 \<or> dm_type h = 127))
     \<and> opt_string o' = None"

text \<open>What the loop does with a complete structure.\<close>

definition table_entry ::
  "(nat \<Rightarrow> u32) \<Rightarrow> table_state \<Rightarrow> dmi_header \<Rightarrow> u16 \<Rightarrow> bool \<Rightarrow> table_state option" where
  "table_entry shift st h ver display = (let o' = ts_opt st in do {
     oem \<leftarrow> (if dm_type h = 1 \<and> len h \<ge> 5 then do {
               i \<leftarrow> rd (dm_data h) 0x04;
               s \<leftarrow> dmi_string (FLAG_DUMP o') h i;
               Some (dmi_set_vendor s (ts_oem st)) }
             else Some (ts_oem st));
     (h, err) \<leftarrow> (if dm_type h = 34 then dmi_fixup_type_34 o' h display else Some (h, []));
     (out, err', oem) \<leftarrow>
       (if display then
          (if FLAG_DUMP o' then do { s \<leftarrow> dmi_dump o' h tab; Some (s @ nl, [], oem) }
           else do { (s, oem') \<leftarrow> dmi_decode shift o' oem h ver; Some (s, [], oem') })
        else case opt_string o' of
               Some kw \<Rightarrow>
                 if kw_type kw = dm_type h
                 then do { (s, e) \<leftarrow> dmi_table_string o' kw h ver; Some (s, e, oem) }
                 else Some ([], [], oem)
             | None \<Rightarrow> Some ([], [], oem));
     Some (st\<lparr>ts_out := ts_out st @ out, ts_err := ts_err st @ err @ err', ts_oem := oem\<rparr>) })"

definition entry_title :: "opt \<Rightarrow> dmi_header \<Rightarrow> bool \<Rightarrow> string" where
  "entry_title o' h display =
     (if display \<and> (\<not> FLAG_QUIET o' \<or> FLAG_DUMP o')
      then ''Handle 0x'' @ pX 4 (dm_handle h) @ '', DMI type '' @ pu (dm_type h) @ '', ''
             @ pu (dm_length h) @ '' bytes'' @ nl
      else [])"

definition invalid_length :: "table_state \<Rightarrow> dmi_header \<Rightarrow> table_state" where
  "invalid_length st h =
     (if \<not> FLAG_QUIET (ts_opt st) then
        st\<lparr>ts_err := ts_err st @ ''Invalid entry length ('' @ pu (dm_length h)
               @ ''). DMI table is broken! Stop.'' @ nl @ nl,
           ts_opt := (ts_opt st)\<lparr>opt_flags := opt_flags (ts_opt st) OR 8\<rparr>\<rparr>
      else st)"

text \<open>The loop returns its state, the number of structures and the position reached.\<close>

function table_loop ::
  "(nat \<Rightarrow> u32) \<Rightarrow> u8 list \<Rightarrow> nat \<Rightarrow> u16 \<Rightarrow> u16 \<Rightarrow> u32 \<Rightarrow> nat \<Rightarrow> nat \<Rightarrow> table_state \<Rightarrow>
   (table_state \<times> nat \<times> nat) option" where
  "table_loop shift buf n num ver flags data i st =
     (if (i < unat num \<or> num = 0) \<and> data + 4 \<le> n then do {
        h \<leftarrow> to_dmi_header (drop data buf);
        let o' = ts_opt st;
        let display = displayed o' h;
        if len h < 4 then Some (invalid_length st h, i, data)
        else if FLAG_QUIET o' \<and> dm_type h = 127 then Some (st, i + 1, data)
        else do {
          let st1 = st\<lparr>ts_out := ts_out st @ entry_title o' h display\<rparr>;
          next \<leftarrow> find_next buf n (data + len h);
          if next + 2 > n then
            Some (if display \<and> \<not> FLAG_QUIET o'
                  then st1\<lparr>ts_out := ts_out st1 @ tab @ ''<TRUNCATED>'' @ nl @ nl\<rparr> else st1,
                  i + 1, next + 2)
          else do {
            st2 \<leftarrow> table_entry shift st1 h ver display;
            if dm_type h = 127 \<and> bit flags 1 then Some (st2, i + 1, next + 2)
            else table_loop shift buf n num ver flags (next + 2) (i + 1) st2 } } }
      else Some (st, i, data))"
  by pat_completeness auto
termination
  by (relation "measure (\<lambda>(shift, buf, n, num, ver, flags, data, i, st). n - data)")
    (auto dest!: find_next_ge)

declare table_loop.simps [simp del]

definition table_summary :: "nat \<Rightarrow> u16 \<Rightarrow> nat \<Rightarrow> nat \<Rightarrow> string" where
  "table_summary n num i data =
     (if num \<noteq> 0 \<and> i \<noteq> unat num then
        ''Wrong DMI structures count: '' @ pu num @ '' announced, only '' @ dec i @ '' decoded.'' @ nl
      else [])
     @ (if data > n \<or> (num \<noteq> 0 \<and> data < n) then
        ''Wrong DMI structures length: '' @ dec n @ '' bytes announced, structures occupy ''
          @ dec data @ '' bytes.'' @ nl
      else [])"

definition dmi_table_decode ::
  "(nat \<Rightarrow> u32) \<Rightarrow> u8 list \<Rightarrow> u32 \<Rightarrow> u16 \<Rightarrow> u16 \<Rightarrow> u32 \<Rightarrow> table_state \<Rightarrow> table_state option" where
  "dmi_table_decode shift buf len' num ver flags st = do {
     (st', i, data) \<leftarrow> table_loop shift buf (unat len') num ver flags 0 0 st;
     Some (if \<not> FLAG_QUIET (ts_opt st')
           then st'\<lparr>ts_err := ts_err st' @ table_summary (unat len') num i data\<rparr> else st') }"

section \<open>The whole table is decoded inside the buffer\<close>

text \<open>
  A structure that can be displayed: not of type 37, and with a string number without a
  string, also after the fixup of type 34.
\<close>

definition entry_ok :: "opt \<Rightarrow> dmi_header \<Rightarrow> bool" where
  "entry_ok o' h \<longleftrightarrow>
     dm_type h \<noteq> 37 \<and> strings_end (FLAG_DUMP o') h
     \<and> (dm_type h = 34 \<longrightarrow> strings_end (FLAG_DUMP o') (h\<lparr>dm_length := 0x0B\<rparr>))"

lemma fixup_ok:
  assumes "dmi_fixup_type_34 o' h display = Some (h', err)" and "structure_ok h"
  shows "structure_ok h' \<and> dm_type h' = dm_type h \<and> (h' = h \<or> h' = h\<lparr>dm_length := 0x0B\<rparr>)"
proof -
  have shorter: "structure_ok (h\<lparr>dm_length := 0x0B\<rparr>)" if "dm_length h = 0x10"
  proof -
    have "len h = 16" using that by simp
    then obtain k where "16 \<le> k" "Suc k < length (dm_data h)" "dm_data h ! k = 0" "dm_data h ! Suc k = 0"
      using assms(2) by (auto simp: structure_ok_def)
    then show ?thesis unfolding structure_ok_def by (intro conjI exI [of _ k]) auto
  qed
  from assms(1) have "h' = h \<or> (dm_length h = 0x10 \<and> h' = h\<lparr>dm_length := 0x0B\<rparr>)"
    by (auto simp: dmi_fixup_type_34_def split: if_splits Option.bind_splits)
  then show ?thesis using shorter assms(2) by auto
qed

lemma table_entry_opt: "table_entry shift st h ver display = Some st' \<Longrightarrow> ts_opt st' = ts_opt st"
  unfolding table_entry_def Let_def by (auto split: Option.bind_splits prod.splits)

text \<open>The loop changes no option but the quiet flag.\<close>

lemma table_loop_flags:
  assumes "table_loop shift buf n num ver flags data i st = Some (st', i', data')" and "k \<noteq> 3"
  shows "bit (opt_flags (ts_opt st')) k = bit (opt_flags (ts_opt st)) k"
  using assms(1)
proof (induction shift buf n num ver flags data i st rule: table_loop.induct)
  case (1 shift buf n num ver flags data i st)
  have quiet_bit: "bit (8 :: u32) k = False"
    using assms(2) bit_exp_iff [where ?'a = "32 word", of 3 k] by simp
  show ?case
  proof (cases "(i < unat num \<or> num = 0) \<and> data + 4 \<le> n")
    case True
    with "1.prems" obtain h where h: "to_dmi_header (drop data buf) = Some h"
      by (subst (asm) table_loop.simps) (auto simp: Option.bind_eq_Some_conv)
    show ?thesis
    proof (cases "len h < 4 \<or> FLAG_QUIET (ts_opt st) \<and> dm_type h = 127")
      case False
      define st1 where "st1 = st\<lparr>ts_out := ts_out st @ entry_title (ts_opt st) h (displayed (ts_opt st) h)\<rparr>"
      from False True h "1.prems" obtain m where m: "find_next buf n (data + len h) = Some m"
        by (subst (asm) table_loop.simps) (auto simp: Option.bind_eq_Some_conv Let_def)
      show ?thesis
      proof (cases "m + 2 > n")
        case True
        with h m False \<open>(i < unat num \<or> num = 0) \<and> data + 4 \<le> n\<close> "1.prems" show ?thesis
          by (subst (asm) table_loop.simps) (auto simp: Let_def split: if_splits)
      next
        case nt: False
        with h m False True "1.prems" obtain st2 where
          st2: "table_entry shift st1 h ver (displayed (ts_opt st) h) = Some st2"
          by (subst (asm) table_loop.simps) (auto simp: Option.bind_eq_Some_conv Let_def st1_def)
        have o2: "ts_opt st2 = ts_opt st" using table_entry_opt [OF st2] by (simp add: st1_def)
        have unf: "table_loop shift buf n num ver flags data i st =
          (if dm_type h = 127 \<and> bit flags 1 then Some (st2, i + 1, m + 2)
           else table_loop shift buf n num ver flags (m + 2) (i + 1) st2)"
          using h m False True nt st2
          by (subst table_loop.simps) (simp add: Let_def st1_def)
        show ?thesis
        proof (cases "dm_type h = 127 \<and> bit flags 1")
          case True
          with unf "1.prems" o2 show ?thesis by simp
        next
          case rec: False
          with unf "1.prems" have r: "table_loop shift buf n num ver flags (m + 2) (i + 1) st2
              = Some (st', i', data')" by (simp only: if_False)
          from "1.IH" [OF True h refl refl _ _ refl m nt st2 [unfolded st1_def] rec r] False o2
          show ?thesis by simp
        qed
      qed
    qed (use h True "1.prems" quiet_bit in
        \<open>subst (asm) table_loop.simps, auto simp: Let_def invalid_length_def bit_or_iff split: if_splits\<close>)
  qed (use "1.prems" in \<open>subst (asm) table_loop.simps, auto\<close>)
qed

lemma dmi_table_decode_flags:
  "dmi_table_decode shift buf n num ver flags st = Some st' \<Longrightarrow> k \<noteq> 3 \<Longrightarrow>
   bit (opt_flags (ts_opt st')) k = bit (opt_flags (ts_opt st)) k"
  using table_loop_flags
  by (fastforce simp: dmi_table_decode_def Option.bind_eq_Some_conv split: if_splits)

lemma table_entry_safe:
  assumes "structure_ok h" and "entry_ok (ts_opt st) h" and "opt_string (ts_opt st) = None"
  shows "\<exists>st'. table_entry shift st h ver display = Some st' \<and> ts_opt st' = ts_opt st"
proof -
  have oem: "safe (if dm_type h = 1 \<and> len h \<ge> 5 then do {
               i \<leftarrow> rd (dm_data h) 0x04;
               s \<leftarrow> dmi_string (FLAG_DUMP (ts_opt st)) h i;
               Some (dmi_set_vendor s (ts_oem st)) }
             else Some (ts_oem st))"
    using structure_ok_length [OF assms(1)] assms(1) by (auto simp: dmi_safe)
  have fix': "safe (if dm_type h = 34 then dmi_fixup_type_34 (ts_opt st) h display else Some (h, []))"
    using assms(1) by (simp add: dmi_safe)
  have dec: "safe (dmi_dump (ts_opt st) h' tab) \<and> safe (dmi_decode shift (ts_opt st) oem h' ver)"
    if "(if dm_type h = 34 then dmi_fixup_type_34 (ts_opt st) h display else Some (h, [])) = Some (h', err)"
    for h' err oem
  proof -
    have "structure_ok h'" "dm_type h' \<noteq> 37" "strings_end (FLAG_DUMP (ts_opt st)) h'"
      using that assms(1,2) fixup_ok [of "ts_opt st" h display h' err]
      by (auto simp: entry_ok_def split: if_splits)
    then show ?thesis using safe_dmi_dump safe_dmi_decode by blast
  qed
  have "safe (table_entry shift st h ver display)"
    unfolding table_entry_def Let_def
    using oem fix' dec assms(3)
    by (auto simp only: safe_bind safe_simps split: if_split prod.split option.split)
      (auto simp: dmi_safe split: prod.split option.split)
  then show ?thesis using table_entry_opt by (auto simp: safe_def)
qed

lemma table_loop_safe:
  assumes "opt_string (ts_opt st) = None"
    and "\<forall>h\<in>set (table_structures buf data). entry_ok (ts_opt st) h"
  shows "safe (table_loop shift buf (length buf) num ver flags data i st)"
  using assms
proof (induction "length buf - data" arbitrary: data i st rule: less_induct)
  case less
  let ?h = "header_at buf data"
  show ?case
  proof (cases "data + 4 \<le> length buf \<and> 4 \<le> len ?h")
    case False
    then show ?thesis
      by (subst table_loop.simps)
        (auto simp: to_dmi_header_eq to_dmi_header_ext_eq Let_def dmi_safe)
  next
    case True
    then have hdr: "to_dmi_header (drop data buf) = Some ?h"
      by (simp add: to_dmi_header_eq to_dmi_header_ext_eq)
    show ?thesis
    proof (cases "structure_size buf data")
      case None
      then obtain m where "find_next buf (length buf) (data + len ?h) = Some m"
        and "length buf < m + 2"
        using structure_size_next [of data buf] True by auto
      then show ?thesis
        using hdr by (subst table_loop.simps) (auto simp: Let_def dmi_safe)
    next
      case (Some k)
      then have nxt: "find_next buf (length buf) (data + len ?h) = Some (data + k - 2)"
        and k: "data + k \<le> length buf" "6 \<le> k"
        using structure_size_next [of data buf] True by auto
      have ts: "table_structures buf data = ?h # table_structures buf (data + k)"
        by (simp add: table_structures.simps [of buf data] Some)
      have ok: "structure_ok ?h" by (rule header_at_ok [OF Some])
      define st1 where "st1 = st\<lparr>ts_out := ts_out st
          @ entry_title (ts_opt st) ?h (displayed (ts_opt st) ?h)\<rparr>"
      have st1: "ts_opt st1 = ts_opt st" by (simp add: st1_def)
      then obtain st2 where st2: "table_entry shift st1 ?h ver (displayed (ts_opt st) ?h) = Some st2"
        and o2: "ts_opt st2 = ts_opt st"
        using table_entry_safe [OF ok, of st1 shift ver "displayed (ts_opt st) ?h"] less.prems ts
        by auto
      have "safe (table_loop shift buf (length buf) num ver flags (data + k) (i + 1) st2)"
        by (rule less.hyps) (use k less.prems ts o2 in auto)
      moreover have "\<not> data + k - 2 + 2 > length buf" "data + k - 2 + 2 = data + k"
        using k by auto
      ultimately show ?thesis
        using hdr nxt st2
        by (subst table_loop.simps) (simp add: Let_def st1_def [symmetric] dmi_safe)
    qed
  qed
qed

section \<open>Properties\<close>

text \<open>
  C2. Decoding a whole table of the announced length ends and never accesses memory outside
  the buffer, whatever the bytes are and whatever types, handles, quiet or dump mode are
  selected, as long as the table has no structure of type 37 and none with 255 strings, and
  no single string is asked for.
\<close>

theorem table_decode_safe:
  assumes "length buf = unat len'" and "opt_string (ts_opt st) = None"
    and "\<forall>h\<in>set (table_structures buf 0). entry_ok (ts_opt st) h"
  shows "\<exists>st'. dmi_table_decode shift buf len' num ver flags st = Some st'"
proof -
  have "safe (table_loop shift buf (unat len') num ver flags 0 0 st)"
    using table_loop_safe [OF assms(2,3)] assms(1) by simp
  then show ?thesis by (auto simp: dmi_table_decode_def safe_def)
qed

definition initial_state :: table_state where
  "initial_state = \<lparr>ts_out = [], ts_err = [], ts_opt = default_opt, ts_oem = oem_init\<rparr>"

theorem table_decode_safe_witness:
  "\<exists>st'. dmi_table_decode (\<lambda>n. 0) two_structures 15 2 0x0206 0 initial_state = Some st'"
proof (rule table_decode_safe)
  have "strings_end False h" if "dmi_string_at False h 2 = Some None" for h
    using that by (auto simp: strings_end_def intro!: exI [of _ 2])
  moreover have "list_all (\<lambda>h. dmi_string_at False h 2 = Some None \<and> dm_type h \<noteq> 37
      \<and> dm_type h \<noteq> 34) (table_structures two_structures 0)"
    by code_simp
  ultimately show "\<forall>h\<in>set (table_structures two_structures 0). entry_ok (ts_opt initial_state) h"
    by (auto simp: entry_ok_def list_all_iff initial_state_def default_opt_def FLAG_DUMP_def)
qed (simp_all add: two_structures_def initial_state_def default_opt_def)

text \<open>
  The option that prints a single string reads outside the buffer on a short structure:
  for the system UUID only the first byte of the field is checked against the length of the
  structure. A table that ends with a system structure of 9 to 20 bytes without strings is
  read beyond its end.
\<close>

theorem table_string_overreads:
  assumes "dm_type h = 1" and "9 \<le> len h" and "length (dm_data h) = len h + 2"
    and "length (dm_data h) < 24" and "\<forall>i < length (dm_data h). 8 \<le> i \<longrightarrow> dm_data h ! i = 0"
  shows "dmi_table_string o' \<lparr>kw_type = 1, kw_offset = 8\<rparr> h ver = None"
proof -
  have scan: "uuid_scan p i n True False = None"
    if "i \<le> length p" "length p < i + n" "\<forall>j < length p. p ! j = 0" for p i n
    using that
  proof (induction n arbitrary: i)
    case (Suc n)
    then show ?case by (cases "i < length p") (auto simp: rd_def)
  qed simp
  let ?p = "drop 8 (dm_data h)"
  have p: "0 < length ?p" "length ?p < 16" "\<forall>j < length ?p. ?p ! j = 0"
    using assms by auto
  have first: "dm_data h ! 8 = 0" using assms by simp
  have "uuid_scan ?p (Suc 0) 15 True False = None"
    by (rule scan) (use p in auto)
  moreover have "uuid_scan ?p 0 (Suc 15) True True = uuid_scan ?p (Suc 0) 15 True False"
    unfolding uuid_scan.simps using p by (simp add: rd_def first)
  ultimately have "uuid_scan ?p 0 16 True True = None" by simp
  then have "dmi_system_uuid ?p ver = None" by (simp add: dmi_system_uuid_def)
  then show ?thesis
    using assms(2) by (simp add: dmi_table_string_def Let_def word_le_nat_alt)
qed

definition short_system :: dmi_header where
  "short_system = \<lparr>dm_type = 1, dm_length = 9, dm_handle = 1,
     dm_data = [1, 9, 1, 0, 0, 0, 0, 0, 0, 0, 0]\<rparr>"

theorem table_string_overreads_witness:
  "structure_ok short_system
   \<and> dmi_table_string default_opt \<lparr>kw_type = 1, kw_offset = 8\<rparr> short_system 0x0206 = None"
proof
  show "structure_ok short_system"
    by (auto simp: structure_ok_def short_system_def intro!: exI [of _ 9])
  show "dmi_table_string default_opt \<lparr>kw_type = 1, kw_offset = 8\<rparr> short_system 0x0206 = None"
  proof (rule table_string_overreads)
    show "\<forall>i < length (dm_data short_system). 8 \<le> i \<longrightarrow> dm_data short_system ! i = 0"
      by (auto simp: short_system_def nth_Cons' )
  qed (simp_all add: short_system_def)
qed

end
