(* ===== verification/Dmi_Sizes.thy ===== *)
theory Dmi_Sizes
  imports Dmi_Print2
begin

text \<open>
  Arithmetic of the printers: the memory size printer against division by powers of 1024,
  \<^verbatim>\<open>u64_range\<close> against 64-bit subtraction, the checksum against the sum of the bytes, and the
  processor family search against the table.
\<close>

unbundle bit_operations_syntax

section \<open>The 64-bit value of a pair of words\<close>

definition value64 :: "dmi_u64 \<Rightarrow> u64" where
  "value64 q = push_bit 32 (ucast (hi32 q)) OR ucast (lo32 q)"

lemma mask_forms:
  "(0x3FF :: u32) = mask 10" "(0x3FF :: u64) = mask 10" "(0x3FC :: u32) = push_bit 2 (mask 8)"
  by (simp_all add: mask_eq_exp_minus_1)

lemma digit_words:
  fixes q :: dmi_u64
  shows "ucast (lo32 q AND 0x3FF) = drop_bit 0 (value64 q) AND 0x3FF"
    and "ucast (drop_bit 10 (lo32 q) AND 0x3FF) = drop_bit 10 (value64 q) AND 0x3FF"
    and "ucast (drop_bit 20 (lo32 q) AND 0x3FF) = drop_bit 20 (value64 q) AND 0x3FF"
    and "ucast ((push_bit 2 (hi32 q) AND 0x3FC) OR drop_bit 30 (lo32 q))
           = drop_bit 30 (value64 q) AND 0x3FF"
    and "ucast (drop_bit 8 (hi32 q) AND 0x3FF) = drop_bit 40 (value64 q) AND 0x3FF"
    and "ucast (drop_bit 18 (hi32 q) AND 0x3FF) = drop_bit 50 (value64 q) AND 0x3FF"
    and "ucast (drop_bit 28 (hi32 q)) = drop_bit 60 (value64 q) AND 0x3FF"
  unfolding mask_forms value64_def
  by (rule bit_word_eqI; auto simp: bit_simps dest: bit_imp_le_length)+

lemma value64_add: "value64 q = push_bit 32 (ucast (hi32 q)) + ucast (lo32 q)"
proof -
  have "push_bit 32 (ucast (hi32 q)) AND ucast (lo32 q) = (0 :: u64)"
    by (rule bit_word_eqI) (auto simp: bit_simps dest: bit_imp_le_length)
  then show ?thesis
    unfolding value64_def by (rule disjunctive_add_eq_or [symmetric])
qed

definition size_value :: "dmi_u64 \<Rightarrow> nat" where
  "size_value q = unat (hi32 q) * 2 ^ 32 + unat (lo32 q)"

lemma unat_value64: "unat (value64 q) = size_value q"
proof -
  have "value64 q = word_of_nat (size_value q)"
    by (simp add: value64_add size_value_def push_bit_eq_mult)
  then have "unat (value64 q) = size_value q mod 2 ^ 64"
    by (simp add: unat_of_nat)
  moreover have "unat (hi32 q) < 2 ^ 32" "unat (lo32 q) < 2 ^ 32"
    using unsigned_less [of "hi32 q", where ?'a = nat]
      unsigned_less [of "lo32 q", where ?'a = nat] by auto
  then have "size_value q < 2 ^ 64" by (simp add: size_value_def)
  ultimately show ?thesis by simp
qed

section \<open>Memory sizes\<close>

text \<open>The array \<^verbatim>\<open>split\<close> holds the digits of the value in base 1024.\<close>

lemma unat_digit:
  fixes x :: u32
  assumes "ucast x = drop_bit n (value64 q) AND 0x3FF"
  shows "unat x = size_value q div 2 ^ n mod 1024"
proof -
  have "unat x = unat (ucast x :: u64)"
    by (simp add: unsigned_ucast_eq unsigned_take_bit_eq take_bit_nat_eq_self
        order.strict_trans2 [OF unsigned_less])
  also have "\<dots> = unat (take_bit 10 (drop_bit n (value64 q)))"
    unfolding assms mask_forms by (simp add: take_bit_eq_mask)
  also have "\<dots> = take_bit 10 (drop_bit n (unat (value64 q)))"
    by (simp only: unsigned_take_bit_eq unat_drop_bit_eq)
  also have "\<dots> = size_value q div 2 ^ n mod 1024"
    by (simp add: unat_value64 take_bit_eq_mod drop_bit_eq_div)
  finally show ?thesis .
qed

lemma size_split_digit:
  assumes "j \<le> 6"
  shows "size_split q ! j = size_value q div 1024 ^ j mod 1024"
proof -
  have p: "(1024 :: nat) ^ j = 2 ^ (10 * j)" by (simp add: power_mult)
  note d = digit_words [of q, THEN unat_digit]
  consider "j = 0" | "j = 1" | "j = 2" | "j = 3" | "j = 4" | "j = 5" | "j = 6"
    using assms by linarith
  then show ?thesis
    unfolding p by cases (simp_all only: size_split_def d list.map nth_Cons_numeral
        nth_Cons_0 One_nat_def nth_Cons_Suc mult_0_right, simp_all)
qed

lemma size_value_less: "size_value q < 1024 ^ 7"
proof -
  have "size_value q < 2 ^ 64"
    using unsigned_less [of "value64 q", where ?'a = nat] by (simp add: unat_value64)
  then show ?thesis by simp
qed

lemma highest_unit_top:
  "(\<forall>j. highest_unit sp n < j \<and> j \<le> n \<longrightarrow> sp ! j = 0)
   \<and> (0 < highest_unit sp n \<longrightarrow> sp ! highest_unit sp n \<noteq> 0)"
  by (induction n) (auto simp: le_Suc_eq)

lemma top_digit_bound:
  fixes v :: nat
  assumes "v < 1024 ^ 7" and "\<forall>j. i < j \<and> j \<le> 6 \<longrightarrow> v div 1024 ^ j mod 1024 = 0" and "i \<le> 6"
  shows "v < 1024 ^ Suc i"
  using assms(3,2)
proof (induction i rule: inc_induct)
  case base
  then show ?case using assms(1) by simp
next
  case (step i)
  then have "v < 1024 ^ Suc (Suc i)" by simp
  then have "v div 1024 ^ Suc i < 1024" by (simp add: less_mult_imp_div_less mult.commute)
  moreover have "v div 1024 ^ Suc i mod 1024 = 0"
    using step.prems step.hyps by (metis Suc_leI lessI)
  ultimately have "v div 1024 ^ Suc i = 0" by simp
  then show ?case by (simp add: div_eq_0_iff)
qed

lemma size_capacity_value:
  assumes "size_capacity q = (i, c)"
  shows "i \<le> 6 \<and> c = size_value q div 1024 ^ i \<and> c < 1024 * 1024
    \<and> (0 < i \<longrightarrow> 0 < c)"
proof -
  define v where "v = size_value q"
  define t where "t = highest_unit (size_split q) 6"
  have t6: "t \<le> 6" by (simp add: t_def highest_unit_le)
  have dig: "size_split q ! j = v div 1024 ^ j mod 1024" if "j \<le> 6" for j
    using size_split_digit [OF that] by (simp add: v_def)
  have "\<forall>j. t < j \<and> j \<le> 6 \<longrightarrow> v div 1024 ^ j mod 1024 = 0"
    using highest_unit_top [of "size_split q" 6] dig by (auto simp: t_def)
  then have v: "v < 1024 ^ Suc t"
    by (intro top_digit_bound size_value_less [of q, folded v_def] t6)
  have top: "0 < t \<Longrightarrow> size_split q ! t \<noteq> 0"
    using highest_unit_top [of "size_split q" 6] by (simp add: t_def)
  have dt: "v div 1024 ^ t < 1024" using v by (simp add: less_mult_imp_div_less mult.commute)
  show ?thesis
  proof (cases "0 < t \<and> size_split q ! (t - 1) \<noteq> 0")
    case True
    then obtain u where u: "t = Suc u" by (cases t) auto
    have i: "i = u"
      using assms True u by (auto simp: size_capacity_def Let_def t_def)
    have "c = size_split q ! u + 1024 * size_split q ! t"
      using assms True u by (auto simp: size_capacity_def Let_def t_def push_bit_eq_mult)
    also have "\<dots> = v div 1024 ^ u mod 1024 + 1024 * (v div 1024 ^ t)"
      using dig [of u] dig [of t] t6 u dt by simp
    also have "v div 1024 ^ t = v div 1024 ^ u div 1024"
      by (simp only: u power_Suc2 div_mult2_eq)
    finally have c: "c = v div 1024 ^ u" by simp
    moreover have "c < 1024 * 1024"
      using v u by (simp add: c less_mult_imp_div_less mult.assoc mult.commute)
    moreover have "0 < c" using True u dig [of u] t6 by (auto simp: c)
    ultimately show ?thesis using i t6 u by (simp add: v_def)
  next
    case False
    then have "i = t" "c = size_split q ! t"
      using assms by (auto simp: size_capacity_def Let_def t_def)
    then show ?thesis using dig [OF t6] dt top t6 by (auto simp: v_def)
  qed
qed

section \<open>Address ranges\<close>

lemma ucast_sub:
  fixes a b :: u32
  shows "(ucast (a - b) :: u64) = ucast a - ucast b + (if a < b then 2 ^ 32 else 0)"
proof -
  have "(ucast (a - b) :: u64) = word_of_int (uint (a - b))" by simp
  also have "uint (a - b) = uint a - uint b + (if a < b then 2 ^ 32 else 0)"
    by (auto simp: uint_sub_if' word_less_def)
  finally show ?thesis by simp
qed

lemma ucast_inc:
  fixes a :: u32
  shows "(ucast (a + 1) :: u64) = ucast a + 1 - (if a + 1 = 0 then 2 ^ 32 else 0)"
proof -
  have sum: "uint (a + 1) = (if uint a + 1 < 2 ^ 32 then uint a + 1 else uint a + 1 - 2 ^ 32)"
    by (simp add: uint_plus_if')
  have "a + 1 = 0 \<longleftrightarrow> uint (a + 1) = 0" by (simp only: uint_0_iff)
  moreover have pos: "0 \<le> uint a" by simp
  moreover have "uint a < 2 ^ 32" using uint_lt2p [of a] by simp
  ultimately have "uint (a + 1) = uint a + 1 - (if a + 1 = 0 then 2 ^ 32 else 0)"
    using sum by (cases "a + 1 = 0"; cases "uint a + 1 < 2 ^ 32"; simp only: if_True if_False simp_thms; linarith)
  moreover have "(ucast (a + 1) :: u64) = word_of_int (uint (a + 1))" by simp
  ultimately show ?thesis by simp
qed

definition high64 :: "u32 \<Rightarrow> u64" where
  "high64 x = push_bit 32 (ucast x)"

lemma exp_64: "(2 ^ 32 * 2 ^ 32 :: u64) = 0"
proof -
  have "(2 ^ (32 + 32) :: u64) = 0"
    using word_exp_length_eq_0 [where 'a = 64] by simp
  then show ?thesis by (simp only: power_add)
qed

lemma high64_mult: "high64 x = ucast x * 2 ^ 32"
  by (simp only: high64_def push_bit_eq_mult)

lemma high64_sub: "high64 (x - y) = high64 x - high64 y"
  by (simp add: high64_mult ucast_sub distrib_right left_diff_distrib exp_64 del: power_numeral)

lemma high64_inc: "high64 (x + 1) = high64 x + 2 ^ 32"
  by (simp add: high64_mult ucast_inc distrib_right left_diff_distrib exp_64 del: power_numeral)

lemma high64_one: "high64 1 = 2 ^ 32"
  by (simp add: high64_mult)

lemma value64_high: "value64 q = high64 (hi32 q) + ucast (lo32 q)"
  by (simp only: value64_add high64_def)

section \<open>Checksums\<close>

lemma checksum_loop_sum:
  "a + n \<le> length buf \<Longrightarrow> checksum_loop buf a n acc = Some (acc + sum_list (take n (drop a buf)))"
proof (induction n arbitrary: a acc)
  case 0
  then show ?case by simp
next
  case (Suc n)
  then have "drop a buf = buf ! a # drop (Suc a) buf"
    by (simp add: Cons_nth_drop_Suc)
  then show ?case using Suc by (simp add: rd_def add.assoc)
qed

section \<open>Properties\<close>

text \<open>
  \<^verbatim>\<open>dmi_print_memory_size\<close> prints the 64-bit value divided by a power of 1024, rounded down,
  with the unit of that power: the number printed has at most 20 bits, and it is not 0
  unless the size is below 1 kB. No access to the array of units is out of bounds for the
  two shifts the program uses.
\<close>

theorem memory_size_correct:
  assumes "shift \<le> 1"
  shows "\<exists>i c. dmi_print_memory_size q shift
            = Some ('' '' @ dec c @ '' '' @ size_units ! (i + shift))
    \<and> i \<le> 6 \<and> c = size_value q div 1024 ^ i \<and> c < 1024 * 1024 \<and> (0 < i \<longrightarrow> 0 < c)"
proof -
  obtain i c where ic: "size_capacity q = (i, c)" by (cases "size_capacity q")
  note v = size_capacity_value [OF ic]
  then have "idx size_units (i + shift) = Some (size_units ! (i + shift))"
    using assms by (simp add: idx_def size_units_def)
  then show ?thesis
    using v by (intro exI [of _ i] exI [of _ c]) (auto simp only: dmi_print_memory_size_def ic Let_def prod.case bind.bind_lunit)
qed

theorem memory_size_correct_witness:
  "dmi_print_memory_size \<lparr>lo32 = 0x60000000, hi32 = 0\<rparr> 0 = Some '' 1536 MB'' \<and>
   (\<exists>i c. dmi_print_memory_size \<lparr>lo32 = 0x60000000, hi32 = 0\<rparr> 0
            = Some ('' '' @ dec c @ '' '' @ size_units ! (i + 0))
     \<and> i \<le> 6 \<and> c = size_value \<lparr>lo32 = 0x60000000, hi32 = 0\<rparr> div 1024 ^ i
     \<and> c < 1024 * 1024 \<and> (0 < i \<longrightarrow> 0 < c))"
proof
  show "dmi_print_memory_size \<lparr>lo32 = 0x60000000, hi32 = 0\<rparr> 0 = Some '' 1536 MB''"
    by code_simp
qed (rule memory_size_correct, simp)

text \<open>
  \<^verbatim>\<open>u64_range\<close>, which works on two 32-bit halves with explicit borrow and carry, computes
  \<open>end - start + 1\<close> in 64-bit arithmetic for every pair of addresses.
\<close>

theorem u64_range_correct: "value64 (u64_range start end) = value64 end - value64 start + 1"
proof -
  have "high64 (x - 1) = high64 x - 2 ^ 32" for x
    by (simp only: high64_sub high64_one)
  then show ?thesis
    by (simp add: value64_high u64_range_def Let_def high64_sub high64_inc ucast_inc)
      (simp add: ucast_sub)
qed

text \<open>
  \<^verbatim>\<open>checksum\<close> accepts a buffer exactly when the sum of its first \<open>n\<close> bytes is 0 modulo 256,
  and it reads only these bytes.
\<close>

theorem checksum_correct:
  assumes "n \<le> length buf"
  shows "checksum buf n = Some (sum_list (map unat (take n buf)) mod 256 = 0)"
proof -
  have "unat (sum_list xs) = sum_list (map unat xs) mod 256" for xs :: "u8 list"
    by (induction xs) (simp_all add: unat_word_ariths mod_simps)
  then have "sum_list (take n buf) = 0 \<longleftrightarrow> sum_list (map unat (take n buf)) mod 256 = 0"
    by (metis unsigned_eq_0_iff)
  then show ?thesis
    using checksum_loop_sum [of 0 n buf 0] assms by (simp add: checksum_def)
qed

theorem checksum_correct_witness: "checksum [0x5F, 0xA1, 7] 2 = Some True"
  using checksum_correct [of 2 "[0x5F, 0xA1, 7]"] by simp

text \<open>
  The binary search of \<^verbatim>\<open>dmi_processor_family\<close> ends and agrees with a plain lookup in the
  table: it returns the name of every code in the table and the out-of-spec text for every
  other code.
\<close>

theorem family_search_correct:
  "family_search 0 (length family2 - 1) code =
     Some (case map_of family2 code of Some name \<Rightarrow> name | None \<Rightarrow> out_of_spec)"
  using family_search_total [of code] by (simp add: family_name_def)

end
