(* ===== verification/Dmi_Entry.thy ===== *)
theory Dmi_Entry
  imports Dmi_Table Dmi_Sizes
begin

text \<open>
  Entry points: the three kinds of SMBIOS and DMI entry structures, the reading of the table
  they announce, and the patching of an entry point for a binary dump. The files and the
  physical memory are arguments (\<open>entry_env\<close>): what \<^verbatim>\<open>read_file\<close> and \<^verbatim>\<open>mem_chunk\<close> of util.c
  return for a position and a length, with the messages they print; \<^verbatim>\<open>read_file\<close> also returns the
  size it has set. What is written to the dump file is collected as a list of positions and
  bytes.

  The patching of the table address is shown to keep both checksums valid. For an entry
  buffer of 32 bytes the entry point functions stay inside it; the buffer that is read from
  sysfs can be shorter, and then a dump reads beyond it
  (\<open>smbios3_overreads_sysfs_buffer\<close>).
\<close>

unbundle bit_operations_syntax

section \<open>Patching an entry point\<close>

text \<open>The result is \<open>None\<close> when a byte that is read or written is outside the array.\<close>

definition overwrite_dmi_address :: "u8 list \<Rightarrow> u8 list option" where
  "overwrite_dmi_address buf =
     (if length buf < 0x0C then None
      else Some (buf
        [0x05 := buf ! 0x05 + (buf ! 0x08 + buf ! 0x09 + buf ! 0x0A + buf ! 0x0B - 32),
         0x08 := 32, 0x09 := 0, 0x0A := 0, 0x0B := 0]))"

definition overwrite_smbios3_address :: "u8 list \<Rightarrow> u8 list option" where
  "overwrite_smbios3_address buf =
     (if length buf < 0x18 then None
      else Some (buf
        [0x05 := buf ! 0x05 + (buf ! 0x10 + buf ! 0x11 + buf ! 0x12 + buf ! 0x13
                                + buf ! 0x14 + buf ! 0x15 + buf ! 0x16 + buf ! 0x17 - 32),
         0x10 := 32, 0x11 := 0, 0x12 := 0, 0x13 := 0,
         0x14 := 0, 0x15 := 0, 0x16 := 0, 0x17 := 0]))"

section \<open>Reading the table\<close>

record entry_env =
  env_read_file :: "u64 \<Rightarrow> nat \<Rightarrow> nat \<times> u8 list option \<times> string"
  env_mem_chunk :: "u64 \<Rightarrow> nat \<Rightarrow> u8 list option \<times> string"
  env_dumpfile :: string

record entry_state =
  es_table :: table_state
  es_writes :: "(nat \<times> u8 list) list"

abbreviation quiet :: "entry_state \<Rightarrow> bool" where
  "quiet s \<equiv> FLAG_QUIET (ts_opt (es_table s))"

definition FLAG_DUMP_BIN :: "entry_state \<Rightarrow> bool" where
  "FLAG_DUMP_BIN s = bit (opt_flags (ts_opt (es_table s))) 4"

definition FLAG_FROM_DUMP :: "entry_state \<Rightarrow> bool" where
  "FLAG_FROM_DUMP s = bit (opt_flags (ts_opt (es_table s))) 5"

definition put :: "string \<Rightarrow> entry_state \<Rightarrow> entry_state" where
  "put t s = s\<lparr>es_table := (es_table s)\<lparr>ts_out := ts_out (es_table s) @ t\<rparr>\<rparr>"

definition put_err :: "string \<Rightarrow> entry_state \<Rightarrow> entry_state" where
  "put_err t s = s\<lparr>es_table := (es_table s)\<lparr>ts_err := ts_err (es_table s) @ t\<rparr>\<rparr>"

definition put_unless_quiet :: "string \<Rightarrow> entry_state \<Rightarrow> entry_state" where
  "put_unless_quiet t s = (if quiet s then s else put t s)"

definition writing :: "nat \<Rightarrow> entry_env \<Rightarrow> string" where
  "writing n env = ''# Writing '' @ dec n @ '' bytes to '' @ env_dumpfile env @ ''.'' @ nl"

definition dmi_table_dump :: "entry_env \<Rightarrow> u8 list \<Rightarrow> u32 \<Rightarrow> entry_state \<Rightarrow> entry_state option" where
  "dmi_table_dump env buf len' s = do {
     bytes \<leftarrow> read_bytes buf (unat len');
     let s1 = put_unless_quiet (writing (unat len') env) s;
     Some (s1\<lparr>es_writes := es_writes s1 @ [(32, bytes)]\<rparr>) }"

definition table_banner :: "u64 \<Rightarrow> u32 \<Rightarrow> u16 \<Rightarrow> u32 \<Rightarrow> entry_state \<Rightarrow> entry_state" where
  "table_banner base len' num ver s =
     (let o' = ts_opt (es_table s);
          newer = (if ver > 0x030200
                   then ''# SMBIOS implementations newer than version 3.2.0 are not'' @ nl
                          @ ''# fully supported by this version of dmidecode.'' @ nl
                   else []);
          counts = (if opt_type o' = None
                    then (if num \<noteq> 0 then pu num @ '' structures occupying '' @ pu len' @ '' bytes.'' @ nl
                          else [])
                       @ (if \<not> FLAG_FROM_DUMP s then ''Table at 0x'' @ pX 8 base @ ''.'' @ nl else [])
                    else [])
      in put_unless_quiet (newer @ counts @ nl) s)"

definition dmi_table ::
  "(nat \<Rightarrow> u32) \<Rightarrow> entry_env \<Rightarrow> u64 \<Rightarrow> u32 \<Rightarrow> u16 \<Rightarrow> u32 \<Rightarrow> u32 \<Rightarrow> entry_state \<Rightarrow> entry_state option"
where
  "dmi_table shift env base len' num ver flags s =
     (let s1 = table_banner base len' num ver s;
          from_file = (bit flags 0 \<or> FLAG_FROM_DUMP s);
          (size', buf, err) = (if from_file
                 then env_read_file env (if bit flags 0 then 0 else base) (unat len')
                 else (unat len', env_mem_chunk env base (unat len')));
          len'' = word_of_nat size';
          s1 = put_err err s1;
          s2 = (if from_file \<and> \<not> quiet s1 \<and> num \<noteq> 0 \<and> size' \<noteq> unat len'
                then put_err (''Wrong DMI structures length: '' @ pu len' @ '' bytes announced, only ''
                       @ dec size' @ '' bytes available.'' @ nl) s1
                else s1)
      in case buf of
           None \<Rightarrow> Some (put_err (''Failed to read table, sorry.'' @ nl) s2)
         | Some b \<Rightarrow>
             if FLAG_DUMP_BIN s2 then dmi_table_dump env b len'' s2
             else do {
               t \<leftarrow> dmi_table_decode shift b len'' num (ucast (drop_bit 8 ver)) flags (es_table s2);
               Some (s2\<lparr>es_table := t\<rparr>) })"

section \<open>Entry point structures\<close>

text \<open>
  The functions return whether the entry point was accepted. \<open>off64\<close> is false on a platform
  whose \<^verbatim>\<open>off_t\<close> has fewer than 8 bytes.
\<close>

definition smbios3_decode ::
  "(nat \<Rightarrow> u32) \<Rightarrow> entry_env \<Rightarrow> bool \<Rightarrow> u8 list \<Rightarrow> u32 \<Rightarrow> entry_state \<Rightarrow> (bool \<times> entry_state) option"
where
  "smbios3_decode shift env off64 buf flags s = do {
     n \<leftarrow> rd buf 0x06;
     if n > 0x20 then
       Some (False, put_err (''Entry point length too large ('' @ pu n @ '' bytes, expected ''
         @ dec 0x18 @ '').'' @ nl) s)
     else do {
       ok \<leftarrow> checksum buf (unat n);
       if \<not> ok then Some (False, s)
       else do {
         v1 \<leftarrow> rd buf 0x07;
         v2 \<leftarrow> rd buf 0x08;
         v3 \<leftarrow> rd buf 0x09;
         offset \<leftarrow> QWORD buf 0x10;
         len' \<leftarrow> DWORD buf 0x0C;
         let s1 = put_unless_quiet (''SMBIOS '' @ pu v1 @ ''.'' @ pu v2 @ ''.'' @ pu v3
                    @ '' present.'' @ nl) s;
         if \<not> bit flags 0 \<and> hi32 offset \<noteq> 0 \<and> \<not> off64 then
           Some (False, put_err (''64-bit addresses not supported, sorry.'' @ nl) s1)
         else do {
           s2 \<leftarrow> dmi_table shift env (value64 offset) len' 0
                   (push_bit 16 (ucast v1) + push_bit 8 (ucast v2) + ucast v3) (flags OR 2) s1;
           if FLAG_DUMP_BIN s2 then do {
             copy \<leftarrow> read_bytes buf 32;
             crafted \<leftarrow> overwrite_smbios3_address copy;
             let k = unat (crafted ! 0x06);
             let s3 = put_unless_quiet (writing k env) s2;
             Some (True, s3\<lparr>es_writes := es_writes s3 @ [(0, take k crafted)]\<rparr>) }
           else Some (True, s2) } } } }"

text \<open>Some BIOSes report weird versions, which are fixed up.\<close>

definition version_fixup :: "u16 \<Rightarrow> entry_state \<Rightarrow> u16 \<times> entry_state" where
  "version_fixup ver s =
     (let msg = (\<lambda>a b. if quiet s then s
                  else put_err (''SMBIOS version fixup (2.'' @ dec a @ '' -> 2.'' @ dec b @ '').'' @ nl) s)
      in if ver = 0x021F \<or> ver = 0x0221 then (0x0203, msg (unat (ver AND 0xFF)) 3)
         else if ver = 0x0233 then (0x0206, msg 51 6)
         else (ver, s))"

definition smbios_decode ::
  "(nat \<Rightarrow> u32) \<Rightarrow> entry_env \<Rightarrow> u8 list \<Rightarrow> u32 \<Rightarrow> entry_state \<Rightarrow> (bool \<times> entry_state) option"
where
  "smbios_decode shift env buf flags s = do {
     n \<leftarrow> rd buf 0x05;
     if n > 0x20 then
       Some (False, put_err (''Entry point length too large ('' @ pu n @ '' bytes, expected ''
         @ dec 0x1F @ '').'' @ nl) s)
     else do {
       ok \<leftarrow> checksum buf (unat n);
       if \<not> ok then Some (False, s)
       else do {
         anchor \<leftarrow> read_bytes (drop 0x10 buf) 5;
         if anchor \<noteq> bytes_of ''_DMI_'' then Some (False, s)
         else do {
           ok' \<leftarrow> checksum (drop 0x10 buf) 0x0F;
           if \<not> ok' then Some (False, s)
           else do {
             major \<leftarrow> rd buf 0x06;
             minor \<leftarrow> rd buf 0x07;
             base \<leftarrow> DWORD buf 0x18;
             len' \<leftarrow> WORD buf 0x16;
             num \<leftarrow> WORD buf 0x1C;
             let (ver, s1) = version_fixup (push_bit 8 (ucast major) + ucast minor) s;
             let s2 = put_unless_quiet (''SMBIOS '' @ pu (drop_bit 8 ver) @ ''.''
                        @ pu (ver AND 0xFF) @ '' present.'' @ nl) s1;
             s3 \<leftarrow> dmi_table shift env (ucast base) (ucast len') num (push_bit 8 (ucast ver)) flags s2;
             if FLAG_DUMP_BIN s3 then do {
               copy \<leftarrow> read_bytes buf 32;
               patched \<leftarrow> overwrite_dmi_address (drop 0x10 copy);
               let crafted = take 0x10 copy @ patched;
               let k = unat (crafted ! 0x05);
               let s4 = put_unless_quiet (writing k env) s3;
               Some (True, s4\<lparr>es_writes := es_writes s4 @ [(0, take k crafted)]\<rparr>) }
             else Some (True, s3) } } } } }"

definition legacy_decode ::
  "(nat \<Rightarrow> u32) \<Rightarrow> entry_env \<Rightarrow> u8 list \<Rightarrow> u32 \<Rightarrow> entry_state \<Rightarrow> (bool \<times> entry_state) option"
where
  "legacy_decode shift env buf flags s = do {
     ok \<leftarrow> checksum buf 0x0F;
     if \<not> ok then Some (False, s)
     else do {
       v \<leftarrow> rd buf 0x0E;
       base \<leftarrow> DWORD buf 0x08;
       len' \<leftarrow> WORD buf 0x06;
       num \<leftarrow> WORD buf 0x0C;
       let s1 = put_unless_quiet (''Legacy DMI '' @ pu (drop_bit 4 v) @ ''.'' @ pu (v AND 0x0F)
                  @ '' present.'' @ nl) s;
       s2 \<leftarrow> dmi_table shift env (ucast base) (ucast len') num
               (push_bit 12 (ucast (v AND 0xF0)) + push_bit 8 (ucast (v AND 0x0F))) flags s1;
       if FLAG_DUMP_BIN s2 then do {
         copy \<leftarrow> read_bytes buf 16;
         crafted \<leftarrow> overwrite_dmi_address copy;
         let s3 = put_unless_quiet (writing 0x0F env) s2;
         Some (True, s3\<lparr>es_writes := es_writes s3 @ [(0, take 0x0F crafted)]\<rparr>) }
       else Some (True, s2) } }"

section \<open>Patching keeps the checksums\<close>

lemma sum_list_update_word:
  fixes xs :: "'a::len word list"
  shows "k < length xs \<Longrightarrow> sum_list (xs[k := x]) = sum_list xs - xs ! k + x"
proof (induction xs arbitrary: k)
  case (Cons a xs)
  then show ?case by (cases k) (auto simp: algebra_simps)
qed simp

lemma checksum_sum:
  "n \<le> length buf \<Longrightarrow> checksum buf n = Some (sum_list (take n buf) = 0)"
  using checksum_loop_sum [of 0 n buf 0] by (simp add: checksum_def)

lemma overwrite_dmi_sum:
  assumes "overwrite_dmi_address buf = Some buf'" and "0x0C \<le> n" and "n \<le> length buf"
  shows "length buf' = length buf \<and> sum_list (take n buf') = sum_list (take n buf)"
proof -
  have "\<not> length buf < 0x0C" using assms(2,3) by simp
  then show ?thesis
    using assms
    by (auto simp: overwrite_dmi_address_def take_update_swap sum_list_update_word
        nth_list_update)
qed

lemma overwrite_smbios3_sum:
  assumes "overwrite_smbios3_address buf = Some buf'" and "0x18 \<le> n" and "n \<le> length buf"
  shows "length buf' = length buf \<and> sum_list (take n buf') = sum_list (take n buf)"
proof -
  have "\<not> length buf < 0x18" using assms(2,3) by simp
  then show ?thesis
    using assms
    by (auto simp: overwrite_smbios3_address_def take_update_swap sum_list_update_word
        nth_list_update)
qed

section \<open>Reads of an entry point\<close>

text \<open>
  What file access guarantees: a buffer of the size that is reported, for positions that the
  signed type \<^verbatim>\<open>off_t\<close> can represent.
\<close>

definition env_ok :: "entry_env \<Rightarrow> bool" where
  "env_ok env \<longleftrightarrow>
     (\<forall>base n size' b err. env_read_file env base n = (size', Some b, err) \<longrightarrow>
        length b = size' \<and> size' \<le> n)
     \<and> (\<forall>base n b err. 0 \<le> sint base \<longrightarrow> env_mem_chunk env base n = (Some b, err) \<longrightarrow>
        length b = n)"

lemma put_unless_quiet_dump [simp]: "FLAG_DUMP_BIN (put_unless_quiet t s) = FLAG_DUMP_BIN s"
  by (simp add: put_unless_quiet_def put_def FLAG_DUMP_BIN_def)

lemma put_err_dump [simp]: "FLAG_DUMP_BIN (put_err t s) = FLAG_DUMP_BIN s"
  by (simp add: put_err_def FLAG_DUMP_BIN_def)

lemma table_banner_dump [simp]: "FLAG_DUMP_BIN (table_banner base n num ver s) = FLAG_DUMP_BIN s"
  by (simp add: table_banner_def Let_def)

lemma dmi_table_keeps_dump:
  assumes "dmi_table shift env base len' num ver flags s = Some s'" and "FLAG_DUMP_BIN s"
  shows "FLAG_DUMP_BIN s'"
proof -
  have "FLAG_DUMP_BIN s2" if "dmi_table_dump env b n s1 = Some s2" "FLAG_DUMP_BIN s1" for b n s1 s2
    using that by (auto simp: dmi_table_dump_def Let_def Option.bind_eq_Some_conv FLAG_DUMP_BIN_def
        put_unless_quiet_def put_def)
  with assms show ?thesis
    by (auto simp: dmi_table_def Let_def split: prod.splits option.splits if_splits)
qed

lemma dmi_table_dump_bin:
  assumes "env_ok env" and "FLAG_DUMP_BIN s" and "0 \<le> sint base"
  shows "\<exists>s'. dmi_table shift env base len' num ver flags s = Some s' \<and> FLAG_DUMP_BIN s'"
proof -
  define from_file where "from_file = (bit flags 0 \<or> FLAG_FROM_DUMP s)"
  obtain size' buf err where r: "(if from_file
      then env_read_file env (if bit flags 0 then 0 else base) (unat len')
      else (unat len', env_mem_chunk env base (unat len'))) = (size', buf, err)"
    by (metis surj_pair)
  have size: "length b = size' \<and> size' \<le> unat len'" if "buf = Some b" for b
    using r assms(1,3) that unfolding env_ok_def by (fastforce split: if_splits)
  have "unat (word_of_nat size' :: u32) = size'" if "buf = Some b" for b
  proof -
    have "size' < 2 ^ 32"
      using size [OF that] unsigned_less [of len', where ?'a = nat] by simp
    then show ?thesis by (simp add: unat_of_nat)
  qed
  then have "\<exists>s'. dmi_table_dump env b (word_of_nat size') s = Some s' \<and> FLAG_DUMP_BIN s'"
    if "buf = Some b" "FLAG_DUMP_BIN s" for b s
    using size [OF that(1)] that
    by (auto simp: dmi_table_dump_def read_bytes_def Let_def put_unless_quiet_def put_def
        FLAG_DUMP_BIN_def)
  then show ?thesis
    using assms(2)
    by (cases buf) (simp_all add: dmi_table_def Let_def r [unfolded from_file_def])
qed

lemma safe_overwrite [dmi_safe]:
  "safe (overwrite_dmi_address buf) \<longleftrightarrow> 0x0C \<le> length buf"
  "safe (overwrite_smbios3_address buf) \<longleftrightarrow> 0x18 \<le> length buf"
  by (simp_all add: overwrite_dmi_address_def overwrite_smbios3_address_def)

lemma read_bytes_length: "read_bytes p n = Some q \<Longrightarrow> length q = n"
  by (auto simp: read_bytes_def split: if_splits)

lemma entry_length: "\<not> n > 0x20 \<Longrightarrow> unat (n :: u8) \<le> 32"
  by (simp add: not_less word_le_nat_alt)

lemma checksum_beyond: "length buf < n \<Longrightarrow> checksum buf n = None"
proof -
  have "a \<le> length buf \<Longrightarrow> length buf < a + n \<Longrightarrow> checksum_loop buf a n acc = None" for a n acc
    by (induction n arbitrary: a acc) (auto simp: rd_def)
  from this [of 0 n 0] show "length buf < n \<Longrightarrow> checksum buf n = None"
    by (simp add: checksum_def)
qed

lemma safe_dmi_table_dump_bin:
  "env_ok env \<Longrightarrow> FLAG_DUMP_BIN s \<Longrightarrow> 0 \<le> sint base \<Longrightarrow>
   safe (dmi_table shift env base n num ver flags s)"
  using dmi_table_dump_bin [of env s base shift n num ver flags] by auto

lemma version_fixup_dump: "version_fixup ver s = (v, s') \<Longrightarrow> FLAG_DUMP_BIN s' = FLAG_DUMP_BIN s"
  by (auto simp: version_fixup_def Let_def split: if_splits)

lemma sint_ucast32: "0 \<le> sint (ucast (x :: u32) :: u64)"
  by (simp add: sint_uint signed_take_bit_nonnegative_iff bit_uint_iff bit_ucast_iff)
    (auto dest: bit_imp_le_length)

text \<open>The address of a 64-bit entry point is one that \<^verbatim>\<open>off_t\<close> can represent.\<close>

definition low_address_ok :: "u8 list \<Rightarrow> bool" where
  "low_address_ok buf \<longleftrightarrow> (\<forall>q. QWORD buf 0x10 = Some q \<longrightarrow> 0 \<le> sint (value64 q))"

lemma safe_smbios3_decode:
  assumes "32 \<le> length buf" and "env_ok env" and "FLAG_DUMP_BIN s" and "low_address_ok buf"
  shows "safe (smbios3_decode shift env off64 buf flags s)"
  using assms(1,3) le_trans [OF entry_length assms(1)]
  using assms(4) unfolding low_address_ok_def
  by (auto simp: smbios3_decode_def Let_def dmi_safe safe_dmi_table_dump_bin [OF assms(2)]
      dest!: read_bytes_length)

lemma safe_smbios_decode:
  assumes "32 \<le> length buf" and "env_ok env" and "FLAG_DUMP_BIN s"
  shows "safe (smbios_decode shift env buf flags s)"
  using assms(1,3) le_trans [OF entry_length assms(1)]
  by (auto simp: smbios_decode_def Let_def dmi_safe sint_ucast32 safe_dmi_table_dump_bin [OF assms(2)]
      split: prod.split dest!: read_bytes_length version_fixup_dump)

lemma safe_legacy_decode:
  assumes "16 \<le> length buf" and "env_ok env" and "FLAG_DUMP_BIN s"
  shows "safe (legacy_decode shift env buf flags s)"
  using assms(1,3)
  by (auto simp: legacy_decode_def Let_def dmi_safe sint_ucast32 safe_dmi_table_dump_bin [OF assms(2)]
      dest!: read_bytes_length)

section \<open>Properties\<close>

text \<open>
  Patching the table address of a DMI entry point for a dump keeps every checksum over
  the entry point unchanged, so a valid entry point stays valid, and makes the entry point
  announce the address 32.
\<close>

theorem overwrite_dmi_keeps_checksum:
  assumes "overwrite_dmi_address buf = Some buf'" and "0x0C \<le> n" and "n \<le> length buf"
  shows "checksum buf' n = checksum buf n \<and> DWORD buf' 0x08 = Some 32"
proof
  show "checksum buf' n = checksum buf n"
    using overwrite_dmi_sum [OF assms] assms(3) by (simp add: checksum_sum)
  show "DWORD buf' 0x08 = Some 32"
    using assms by (auto simp: overwrite_dmi_address_def DWORD_def rd_def split: if_splits)
qed

theorem overwrite_dmi_keeps_checksum_witness:
  "\<exists>buf'. overwrite_dmi_address [95, 68, 77, 73, 95, 7, 0, 1, 0, 0, 14, 0, 5, 0, 39] = Some buf'
     \<and> checksum buf' 0x0F = checksum [95, 68, 77, 73, 95, 7, 0, 1, 0, 0, 14, 0, 5, 0, 39] 0x0F
     \<and> DWORD buf' 0x08 = Some 32"
proof -
  let ?b = "[95, 68, 77, 73, 95, 7, 0, 1, 0, 0, 14, 0, 5, 0, 39] :: u8 list"
  obtain b' where b': "overwrite_dmi_address ?b = Some b'"
    by (simp add: overwrite_dmi_address_def)
  have "0x0C \<le> (0x0F :: nat)" "0x0F \<le> length ?b" by simp_all
  from b' overwrite_dmi_keeps_checksum [OF b' this] show ?thesis by blast
qed

text \<open>
  The same for a 64-bit SMBIOS entry point: every checksum that covers its 24 bytes is
  kept and the patched structure announces the address 32.
\<close>

theorem overwrite_smbios3_keeps_checksum:
  assumes "overwrite_smbios3_address buf = Some buf'" and "0x18 \<le> n" and "n \<le> length buf"
  shows "checksum buf' n = checksum buf n \<and> QWORD buf' 0x10 = Some \<lparr>lo32 = 32, hi32 = 0\<rparr>"
proof
  show "checksum buf' n = checksum buf n"
    using overwrite_smbios3_sum [OF assms] assms(3) by (simp add: checksum_sum)
  show "QWORD buf' 0x10 = Some \<lparr>lo32 = 32, hi32 = 0\<rparr>"
    using assms
    by (auto simp: overwrite_smbios3_address_def QWORD_def DWORD_def rd_def split: if_splits)
qed

theorem overwrite_smbios3_keeps_checksum_witness:
  "\<exists>buf'. overwrite_smbios3_address (replicate 24 1) = Some buf'
     \<and> checksum buf' 0x18 = checksum (replicate 24 1) 0x18
     \<and> QWORD buf' 0x10 = Some \<lparr>lo32 = 32, hi32 = 0\<rparr>"
proof -
  obtain b' where b': "overwrite_smbios3_address (replicate 24 1) = Some b'"
    by (simp add: overwrite_smbios3_address_def)
  have "0x18 \<le> (0x18 :: nat)" "0x18 \<le> length (replicate 24 (1 :: u8))" by simp_all
  from b' overwrite_smbios3_keeps_checksum [OF b' this] show ?thesis by blast
qed

text \<open>
  With an entry buffer of 32 bytes, which is what the program reads from memory or from a
  dump file, dumping an entry point of any of the three kinds never reads outside the entry
  buffer or the table, whatever the bytes are: the guard on the announced length keeps the
  checksum inside the buffer.
\<close>

theorem entry_points_dump_safe:
  assumes "length buf = 32" and "env_ok env" and "FLAG_DUMP_BIN s" and "low_address_ok buf"
  shows "smbios3_decode shift env off64 buf flags s \<noteq> None
    \<and> smbios_decode shift env buf flags s \<noteq> None
    \<and> legacy_decode shift env buf flags s \<noteq> None"
proof -
  have "32 \<le> length buf" "16 \<le> length buf" using assms(1) by simp_all
  then show ?thesis
    using safe_smbios3_decode [OF _ assms(2-4), of shift off64 flags]
      safe_smbios_decode [OF _ assms(2,3), of buf shift flags]
      safe_legacy_decode [OF _ assms(2,3), of buf shift flags]
    by (simp only: safe_def simp_thms)
qed

definition sample_env :: entry_env where
  "sample_env = \<lparr>env_read_file = (\<lambda>base n. (min n 9, Some (replicate (min n 9) 0), [])),
     env_mem_chunk = (\<lambda>base n. (Some (replicate n 0), [])), env_dumpfile = ''dmi.bin''\<rparr>"

definition dump_state :: entry_state where
  "dump_state = \<lparr>es_table = initial_state\<lparr>ts_opt := default_opt\<lparr>opt_flags := 16\<rparr>\<rparr>,
     es_writes = []\<rparr>"

lemma sample_env_ok: "env_ok sample_env"
  by (auto simp: env_ok_def sample_env_def)

lemma dump_state_bin: "FLAG_DUMP_BIN dump_state"
  by (simp add: FLAG_DUMP_BIN_def dump_state_def)

theorem entry_points_dump_safe_witness:
  "smbios3_decode (\<lambda>n. 0) sample_env True (replicate 32 7) 0 dump_state \<noteq> None
   \<and> smbios_decode (\<lambda>n. 0) sample_env (replicate 32 7) 0 dump_state \<noteq> None
   \<and> legacy_decode (\<lambda>n. 0) sample_env (replicate 32 7) 0 dump_state \<noteq> None"
proof (rule entry_points_dump_safe [OF _ sample_env_ok dump_state_bin])
  have "QWORD (replicate 32 7) 0x10 = Some \<lparr>lo32 = 0x07070707, hi32 = 0x07070707\<rparr>"
    and "0 \<le> sint (value64 \<lparr>lo32 = 0x07070707, hi32 = 0x07070707\<rparr>)"
    by code_simp+
  then show "low_address_ok (replicate 32 7)" by (simp add: low_address_ok_def)
qed simp

text \<open>
  The buffer read from sysfs for a 64-bit entry point has only 24 bytes, and two reads
  run beyond it: the checksum, when the announced length is between 25 and 32, and the copy
  of 32 bytes that a binary dump of an otherwise valid entry point makes.
\<close>

theorem smbios3_overreads_sysfs_buffer:
  assumes "length buf = 24" and "FLAG_DUMP_BIN s"
    and "24 < unat (buf ! 6) \<and> unat (buf ! 6) \<le> 32 \<or> checksum buf (unat (buf ! 6)) = Some True"
  shows "smbios3_decode shift env True buf flags s = None"
proof -
  have n: "rd buf 6 = Some (buf ! 6)" using assms(1) by (simp add: rd_def)
  show ?thesis
  proof (cases "24 < unat (buf ! 6) \<and> unat (buf ! 6) \<le> 32")
    case True
    then have "\<not> buf ! 6 > 0x20" by (simp add: not_less word_le_nat_alt)
    moreover have "checksum buf (unat (buf ! 6)) = None"
      using True assms(1) by (simp add: checksum_beyond)
    ultimately show ?thesis by (simp add: smbios3_decode_def n)
  next
    case False
    then have ck: "checksum buf (unat (buf ! 6)) = Some True" using assms(3) by blast
    then have le: "unat (buf ! 6) \<le> 24"
      using assms(1) checksum_beyond [of buf "unat (buf ! 6)"] by (cases "unat (buf ! 6) \<le> 24") auto
    then have "\<not> buf ! 6 > 0x20" by (simp add: not_less word_le_nat_alt)
    moreover have "read_bytes buf 32 = None" using assms(1) by (simp add: read_bytes_def)
    moreover have "FLAG_DUMP_BIN s'"
      if "dmi_table shift env base len' num ver fl (put_unless_quiet t s) = Some s'"
      for base len' num ver fl t s'
      using dmi_table_keeps_dump [OF that] assms(2) by simp
    ultimately show ?thesis
      using ck by (auto simp: smbios3_decode_def n Let_def split: Option.bind_split)
  qed
qed

theorem smbios3_overreads_sysfs_buffer_witness:
  "smbios3_decode (\<lambda>n. 0) sample_env True ((replicate 24 0) [6 := 24, 7 := 3, 8 := 229])
     1 dump_state = None"
proof (rule smbios3_overreads_sysfs_buffer [OF _ dump_state_bin])
  show "24 < unat ((replicate 24 0) [6 := 24, 7 := 3, 8 := (229 :: u8)] ! 6) \<and>
      unat ((replicate 24 0) [6 := 24, 7 := 3, 8 := (229 :: u8)] ! 6) \<le> 32 \<or>
    checksum ((replicate 24 0) [6 := 24, 7 := 3, 8 := 229])
      (unat ((replicate 24 0) [6 := 24, 7 := 3, 8 := (229 :: u8)] ! 6)) = Some True"
    by code_simp
qed simp

end
