(* ===== verification/Dmi_Libc.thy ===== *)
theory Dmi_Libc
  imports Dmi_Print2
begin

text \<open>
  What the programs of the dmidecode package use of the C library apart from memory and
  output: \<^verbatim>\<open>strtoul\<close>, \<^verbatim>\<open>strcasecmp\<close> and \<^verbatim>\<open>getopt_long\<close>. C strings are lists of characters without
  the final NUL.

  \<open>getopt_long\<close> is the list of the results of its successive calls, up to the -1 that ends
  the loop of the caller. \<open>Optval c a\<close> is the option character \<open>c\<close> with \<^verbatim>\<open>optarg\<close> \<open>a\<close> (empty for
  an option without argument), \<open>Badopt c msg\<close> is the result \<^verbatim>\<open>'?'\<close> with \<^verbatim>\<open>optopt\<close> \<open>c\<close> after \<open>msg\<close> was
  written to the standard error stream. Arguments that are not options are skipped (GNU
  permutation), \<^verbatim>\<open>--\<close> ends the options, and long names may be abbreviated as long as they are
  unique; in the option tables of the programs two different names always have different
  values, so a prefix of two names is ambiguous.
\<close>

section \<open>Numbers\<close>

definition isspace :: "char \<Rightarrow> bool" where
  "isspace c \<longleftrightarrow> c \<in> set [CHR '' '', CHR 0x09, CHR 0x0A, CHR 0x0B, CHR 0x0C, CHR 0x0D]"

text \<open>The value of a digit or letter; 36, which is no digit of any base, for the others.\<close>

definition digit_val :: "char \<Rightarrow> nat" where
  "digit_val c =
     (let k = of_char c :: nat
      in if 48 \<le> k \<and> k \<le> 57 then k - 48
         else if 97 \<le> k \<and> k \<le> 122 then k - 87
         else if 65 \<le> k \<and> k \<le> 90 then k - 55
         else 36)"

definition strtoul_sign :: "string \<Rightarrow> bool \<times> string" where
  "strtoul_sign s =
     (case s of
        c # r \<Rightarrow> if c = CHR ''-'' then (True, r) else if c = CHR ''+'' then (False, r) else (False, s)
      | [] \<Rightarrow> (False, []))"

definition hex_prefix :: "string \<Rightarrow> bool" where
  "hex_prefix s =
     (case s of
        c0 # c1 # c2 # r \<Rightarrow>
          c0 = CHR ''0'' \<and> (c1 = CHR ''x'' \<or> c1 = CHR ''X'') \<and> digit_val c2 < 16
      | _ \<Rightarrow> False)"

definition strtoul_base :: "nat \<Rightarrow> string \<Rightarrow> nat \<times> string" where
  "strtoul_base base s =
     (if (base = 0 \<or> base = 16) \<and> hex_prefix s then (16, drop 2 s)
      else if base = 0 then (if take 1 s = ''0'' then 8 else 10, s)
      else (base, s))"

definition digits_value :: "nat \<Rightarrow> string \<Rightarrow> nat" where
  "digits_value base ds = foldl (\<lambda>a c. a * base + digit_val c) 0 ds"

text \<open>
  The value and the rest of the string. Without a digit the rest is the whole string; a value
  of others than 64 bits becomes \<^verbatim>\<open>ULONG_MAX\<close>.
\<close>

definition strtoul :: "string \<Rightarrow> nat \<Rightarrow> u64 \<times> string" where
  "strtoul s base =
     (let (neg, s1) = strtoul_sign (dropWhile isspace s);
          (b, s2) = strtoul_base base s1;
          ds = takeWhile (\<lambda>c. digit_val c < b) s2;
          v = digits_value b ds
      in if ds = [] then (0, s)
         else (if v \<ge> 2 ^ 64 then - 1 else if neg then - word_of_nat v else word_of_nat v,
               dropWhile (\<lambda>c. digit_val c < b) s2))"

lemma digit_val_digit: "d < 10 \<Longrightarrow> digit_val (digit d) = d"
  by (simp add: digit_val_def digit_def)

text \<open>Reading back a printed decimal number.\<close>

lemma digits_value_append:
  "digits_value b (xs @ [c]) = digits_value b xs * b + digit_val c"
  by (simp add: digits_value_def)

lemma digits_value_dec: "digits_value 10 (dec n) = n"
proof (induction n rule: dec.induct)
  case (1 n)
  show ?case
  proof (cases "n < 10")
    case True
    then show ?thesis
      by (subst dec.simps) (simp add: digits_value_def digit_val_digit)
  next
    case False
    then have "digits_value 10 (dec n) = digits_value 10 (dec (n div 10)) * 10 + n mod 10"
      by (subst dec.simps) (simp add: digits_value_append digit_val_digit)
    also have "\<dots> = n" using 1 False by simp
    finally show ?thesis .
  qed
qed

lemma dec_digits: "c \<in> set (dec n) \<Longrightarrow> \<exists>d < 10. c = digit d"
proof (induction n rule: dec.induct)
  case (1 n)
  show ?case
  proof (cases "n < 10")
    case True
    with "1.prems" have "c = digit n" by (subst (asm) dec.simps) simp
    with True show ?thesis by blast
  next
    case False
    with "1.prems" have "c \<in> set (dec (n div 10)) \<or> c = digit (n mod 10)"
      by (subst (asm) dec.simps) auto
    moreover have "n mod 10 < 10" by simp
    ultimately show ?thesis using "1.IH" False by blast
  qed
qed

lemma dec_not_Nil: "dec n \<noteq> []"
  by (subst dec.simps) simp

lemma digit_not_space: "d < 10 \<Longrightarrow> \<not> isspace (digit d) \<and> digit d \<noteq> CHR ''-'' \<and> digit d \<noteq> CHR ''+''"
proof -
  assume "d < 10"
  then have "of_char (digit d) = (48 + d :: nat)" by (simp add: digit_def)
  then show ?thesis using \<open>d < 10\<close>
    by (auto simp: isspace_def)
qed

lemma strtoul_dec:
  assumes "n < 2 ^ 64" and "rest = [] \<or> \<not> digit_val (hd rest) < 10"
  shows "strtoul (dec n @ rest) 10 = (word_of_nat n, rest)"
proof -
  obtain c cs where c: "dec n = c # cs" using dec_not_Nil by (cases "dec n") auto
  then obtain d where d: "d < 10" "c = digit d" using dec_digits [of c n] by auto
  have sp: "dropWhile isspace (dec n @ rest) = dec n @ rest"
    using digit_not_space [OF d(1)] d(2) c by simp
  have sg: "strtoul_sign (dec n @ rest) = (False, dec n @ rest)"
    using digit_not_space [OF d(1)] d(2) c by (simp add: strtoul_sign_def)
  have ds: "\<forall>c\<in>set (dec n). digit_val c < 10"
    using dec_digits digit_val_digit by fastforce
  then have "takeWhile (\<lambda>c. digit_val c < 10) (dec n @ rest) = dec n"
    "dropWhile (\<lambda>c. digit_val c < 10) (dec n @ rest) = rest"
    using assms(2) by (cases rest; simp)+
  then show ?thesis
    using assms(1) dec_not_Nil [of n]
    by (simp add: strtoul_def sp sg strtoul_base_def digits_value_dec)
qed

section \<open>Comparison without case\<close>

definition strcaseeq :: "string \<Rightarrow> string \<Rightarrow> bool" where
  "strcaseeq s t \<longleftrightarrow> map tolower s = map tolower t"

section \<open>Command lines\<close>

datatype getopt_result = Optval char string | Badopt char string

type_synonym short_table = "(char \<times> bool) list"
type_synonym long_table = "(string \<times> bool \<times> char) list"

fun short_opts ::
  "string \<Rightarrow> short_table \<Rightarrow> string \<Rightarrow> string list \<Rightarrow> getopt_result list \<times> string list" where
  "short_opts argv0 tbl [] args = ([], args)"
| "short_opts argv0 tbl (c # cs) args =
     (case map_of tbl c of
        None \<Rightarrow>
          (let (rs, rest) = short_opts argv0 tbl cs args
           in (Badopt c (argv0 @ '': invalid option -- '' @ [CHR 0x27, c, CHR 0x27] @ nl) # rs, rest))
      | Some False \<Rightarrow>
          (let (rs, rest) = short_opts argv0 tbl cs args in (Optval c [] # rs, rest))
      | Some True \<Rightarrow>
          if cs \<noteq> [] then ([Optval c cs], args)
          else (case args of
                  [] \<Rightarrow> ([Badopt c (argv0 @ '': option requires an argument -- ''
                                     @ [CHR 0x27, c, CHR 0x27] @ nl)], [])
                | a # as \<Rightarrow> ([Optval c a], as)))"

definition quoted :: "string \<Rightarrow> string" where
  "quoted s = [CHR 0x27] @ s @ [CHR 0x27]"

definition long_opt ::
  "string \<Rightarrow> long_table \<Rightarrow> string \<Rightarrow> string list \<Rightarrow> getopt_result \<times> string list" where
  "long_opt argv0 tbl body args =
     (let name = takeWhile (\<lambda>c. c \<noteq> CHR ''='') body;
          value = dropWhile (\<lambda>c. c \<noteq> CHR ''='') body;
          exact = filter (\<lambda>e. fst e = name) tbl;
          found = (if exact \<noteq> [] then exact else filter (\<lambda>e. take (length name) (fst e) = name) tbl)
      in case found of
           [] \<Rightarrow> (Badopt (CHR 0x00) (argv0 @ '': unrecognized option '' @ quoted (''--'' @ body) @ nl), args)
         | (full, arg, c) # others \<Rightarrow>
             if exact = [] \<and> others \<noteq> [] then
               (Badopt (CHR 0x00) (argv0 @ '': option '' @ quoted (''--'' @ body)
                  @ '' is ambiguous; possibilities:''
                  @ concat (map (\<lambda>e. '' '' @ quoted (''--'' @ fst e)) found) @ nl), args)
             else if \<not> arg then
               (if value \<noteq> [] then
                  (Badopt c (argv0 @ '': option '' @ quoted (''--'' @ full)
                     @ '' doesn'' @ [CHR 0x27] @ ''t allow an argument'' @ nl), args)
                else (Optval c [], args))
             else if value \<noteq> [] then (Optval c (tl value), args)
             else (case args of
                     [] \<Rightarrow> (Badopt c (argv0 @ '': option '' @ quoted (''--'' @ full)
                              @ '' requires an argument'' @ nl), [])
                   | a # as \<Rightarrow> (Optval c a, as)))"

lemma short_opts_rest: "length (snd (short_opts argv0 tbl cs args)) \<le> length args"
  by (induction cs) (auto split: option.split bool.split list.split prod.split)

lemma long_opt_rest: "length (snd (long_opt argv0 tbl body args)) \<le> length args"
  by (auto simp: long_opt_def Let_def split: list.split)

function getopt_long ::
  "string \<Rightarrow> short_table \<Rightarrow> long_table \<Rightarrow> string list \<Rightarrow> getopt_result list" where
  "getopt_long argv0 short long [] = []"
| "getopt_long argv0 short long (a # args) =
     (if a = ''--'' then []
      else if take 2 a = ''--'' then
        (case long_opt argv0 long (drop 2 a) args of
           (r, rest) \<Rightarrow> r # getopt_long argv0 short long rest)
      else if take 1 a = ''-'' \<and> a \<noteq> ''-'' then
        (case short_opts argv0 short (drop 1 a) args of
           (rs, rest) \<Rightarrow> rs @ getopt_long argv0 short long rest)
      else getopt_long argv0 short long args)"
  by pat_completeness auto
termination
proof (relation "measure (\<lambda>(argv0, short, long, args). length args)", goal_cases)
  case (2 argv0 short long a args r rest)
  then show ?case
    using long_opt_rest [of argv0 long "drop 2 a" args] by (simp add: less_Suc_eq_le, metis snd_conv)
next
  case (3 argv0 short long a args rs rest)
  then show ?case
    using short_opts_rest [of argv0 short "drop 1 a" args] by (simp add: less_Suc_eq_le, metis snd_conv)
qed simp_all

text \<open>An option with its argument as two words, and as one word with an equals sign.\<close>

lemma long_opt_exact:
  assumes "distinct (map fst tbl)" and "(name, True, c) \<in> set tbl" and "CHR ''='' \<notin> set name"
  shows "long_opt argv0 tbl name (a # args) = (Optval c a, args)"
    and "long_opt argv0 tbl (name @ ''='' @ a) args = (Optval c a, args)"
proof -
  have tw: "takeWhile (\<lambda>c. c \<noteq> CHR ''='') name = name" "dropWhile (\<lambda>c. c \<noteq> CHR ''='') name = []"
    "takeWhile (\<lambda>c. c \<noteq> CHR ''='') (name @ CHR ''='' # a) = name"
    "dropWhile (\<lambda>c. c \<noteq> CHR ''='') (name @ CHR ''='' # a) = CHR ''='' # a"
    using assms(3) by (auto simp: takeWhile_eq_all_conv dropWhile_eq_Nil_conv
        takeWhile_append dropWhile_append)
  obtain us vs where tbl: "tbl = us @ (name, True, c) # vs"
    using assms(2) by (meson split_list)
  with assms(1) have "filter (\<lambda>e. fst e = name) us = []" "filter (\<lambda>e. fst e = name) vs = []"
    by (auto simp: filter_empty_conv image_iff)
  with tbl have "filter (\<lambda>e. fst e = name) tbl = [(name, True, c)]" by simp
  then show "long_opt argv0 tbl name (a # args) = (Optval c a, args)"
    and "long_opt argv0 tbl (name @ ''='' @ a) args = (Optval c a, args)"
    by (simp_all add: long_opt_def Let_def tw del: takeWhile_eq_all_conv dropWhile_eq_Nil_conv)
qed

end
