(* ===== verification/Dmi_Util.thy ===== *)
theory Dmi_Util
  imports Dmi_Libc
begin

text \<open>
  File and memory access of the dmidecode package (util.c). What the operating system answers
  for a file is an argument (\<open>os_file\<close>): the outcomes of \<^verbatim>\<open>open\<close>, \<^verbatim>\<open>fstat\<close>, \<^verbatim>\<open>lseek\<close> and \<^verbatim>\<open>mmap\<close>,
  and the sequence of results of \<^verbatim>\<open>read\<close> from a position on, which may deliver the data in
  pieces and be interrupted. When the sequence is used up, the end of the file is reached.

  The locale \<open>honest_file\<close> states what a regular file with a given contents answers. In it
  \<^verbatim>\<open>read_file\<close> and \<^verbatim>\<open>mem_chunk\<close> are shown to return exactly the bytes of the file, however the
  reads are split; it is interpreted on \<open>plain_file\<close>, which answers every read in one piece,
  and on \<open>slow_file\<close>, which delivers single bytes between interruptions.
\<close>

section \<open>What the operating system answers\<close>

datatype errno = ENOENT | EINTR | EOTHER string

fun strerror :: "errno \<Rightarrow> string" where
  "strerror ENOENT = ''No such file or directory''"
| "strerror EINTR = ''Interrupted system call''"
| "strerror (EOTHER s) = s"

datatype read_result = Data "u8 list" | Rerror errno

record os_file =
  fo_open :: "errno option"
  fo_stat :: "errno + int \<times> bool"
  fo_malloc :: "errno option"
  fo_lseek :: "int \<Rightarrow> errno option"
  fo_reads :: "int \<Rightarrow> read_result list"
  fo_mmap :: "int \<Rightarrow> int \<Rightarrow> u8 list option"
  fo_munmap :: "errno option"
  fo_close :: "errno option"

record os =
  os_files :: "string \<Rightarrow> os_file"
  os_pagesize :: int

definition perror :: "string \<Rightarrow> errno \<Rightarrow> string" where
  "perror prefix e = prefix @ '': '' @ strerror e @ nl"

text \<open>The message printed before \<^verbatim>\<open>perror\<close> when a call on the file fails.\<close>

definition perror2 :: "string \<Rightarrow> string \<Rightarrow> errno \<Rightarrow> string" where
  "perror2 filename call e = filename @ '': '' @ perror call e"

definition close_error :: "string \<Rightarrow> os_file \<Rightarrow> string" where
  "close_error filename f = (case fo_close f of None \<Rightarrow> [] | Some e \<Rightarrow> perror filename e)"

text \<open>How a program ends: its exit status and what it wrote to the two output streams.\<close>

record program =
  exit_status :: nat
  p_out :: string
  p_err :: string

definition VERSION :: string where
  "VERSION = ''3.2''"

definition DEFAULT_MEM_DEV :: string where
  "DEFAULT_MEM_DEV = ''/dev/mem''"

section \<open>Reading\<close>

text \<open>
  The loop of \<^verbatim>\<open>myread\<close>: \<open>buf\<close> are the bytes stored so far. The result is the buffer, or \<open>None\<close>
  for the return value -1, with what is printed on the standard error stream.
\<close>

fun myread_loop ::
  "string \<Rightarrow> nat \<Rightarrow> read_result list \<Rightarrow> u8 list \<Rightarrow> u8 list option \<times> string" where
  "myread_loop prefix count [] buf =
     (if length buf = count then (Some buf, [])
      else (None, prefix @ '': Unexpected end of file'' @ nl))"
| "myread_loop prefix count (r # rs) buf =
     (if length buf = count then (Some buf, [])
      else case r of
        Rerror e \<Rightarrow>
          if e \<noteq> EINTR then (None, perror prefix e)
          else myread_loop prefix count rs buf
      | Data bs \<Rightarrow>
          if bs = [] then (None, prefix @ '': Unexpected end of file'' @ nl)
          else myread_loop prefix count rs (buf @ take (count - length buf) bs))"

definition myread :: "read_result list \<Rightarrow> nat \<Rightarrow> string \<Rightarrow> u8 list option \<times> string" where
  "myread rs count prefix = myread_loop prefix count rs []"

text \<open>
  The result of \<open>read_file\<close>: the length it leaves in \<^verbatim>\<open>*max_len\<close>, the buffer and the messages.
\<close>

definition seek_and_read ::
  "os_file \<Rightarrow> int \<Rightarrow> nat \<Rightarrow> string \<Rightarrow> u8 list option \<times> string" where
  "seek_and_read f base n filename =
     (case fo_lseek f base of
        Some e \<Rightarrow> (None, perror2 filename ''lseek'' e)
      | None \<Rightarrow> myread (fo_reads f base) n filename)"

definition read_file :: "os \<Rightarrow> int \<Rightarrow> nat \<Rightarrow> string \<Rightarrow> nat \<times> u8 list option \<times> string" where
  "read_file os base max_len filename =
     (let f = os_files os filename in
      case fo_open f of
        Some e \<Rightarrow> (max_len, None, if e \<noteq> ENOENT then perror filename e else [])
      | None \<Rightarrow>
          (case fo_stat f of
             Inr (size', reg) \<Rightarrow>
               if base \<ge> size' then
                 (max_len, None, filename @ '': Can'' @ [CHR 0x27] @ ''t read data beyond EOF'' @ nl
                    @ close_error filename f)
               else
                 (let n = min max_len (nat ((size' - base) mod 2 ^ 64))
                  in case fo_malloc f of
                       Some e \<Rightarrow> (n, None, perror ''malloc'' e @ close_error filename f)
                     | None \<Rightarrow>
                         (case seek_and_read f base n filename of
                            (p, err) \<Rightarrow> (n, p, err @ close_error filename f)))
           | Inl _ \<Rightarrow>
               (case fo_malloc f of
                  Some e \<Rightarrow> (max_len, None, perror ''malloc'' e @ close_error filename f)
                | None \<Rightarrow>
                    (case seek_and_read f base max_len filename of
                       (p, err) \<Rightarrow> (max_len, p, err @ close_error filename f)))))"

text \<open>
  The remainder of C, with the sign of the dividend. \<open>mem_chunk\<close> is used with positions from 0
  on; for a negative one \<^verbatim>\<open>mmoffset\<close> is negative too and the code copies from before the mapping.
\<close>

definition c_rem :: "int \<Rightarrow> int \<Rightarrow> int" where
  "c_rem a b = sgn a * (\<bar>a\<bar> mod \<bar>b\<bar>)"

definition mem_chunk :: "os \<Rightarrow> int \<Rightarrow> nat \<Rightarrow> string \<Rightarrow> u8 list option \<times> string" where
  "mem_chunk os base n devmem =
     (let f = os_files os devmem in
      case fo_open f of
        Some e \<Rightarrow> (None, perror devmem e)
      | None \<Rightarrow>
          (case
             (case fo_malloc f of
                Some e \<Rightarrow> (None, perror ''malloc'' e)
              | None \<Rightarrow>
                  (case fo_stat f of
                     Inl e \<Rightarrow> (None, perror2 devmem ''stat'' e)
                   | Inr (size', reg) \<Rightarrow>
                       if reg \<and> base + int n > size' then
                         (None, ''mmap: Can'' @ [CHR 0x27] @ ''t map beyond end of file '' @ devmem @ nl)
                       else
                         (let mmoffset = c_rem base (os_pagesize os)
                          in case fo_mmap f (base - mmoffset) (mmoffset + int n) of
                               Some mmp \<Rightarrow>
                                 (Some (take n (drop (nat mmoffset) mmp)),
                                  case fo_munmap f of
                                    None \<Rightarrow> []
                                  | Some e \<Rightarrow> perror2 devmem ''munmap'' e)
                             | None \<Rightarrow> seek_and_read f base n devmem))) of
           (p, err) \<Rightarrow> (p, err @ close_error devmem f)))"

text \<open>
  Whatever the operating system does, the buffers have the length that was asked for, as long
  as a mapping is not shorter than requested.
\<close>

definition maps_whole :: "os \<Rightarrow> bool" where
  "maps_whole os \<longleftrightarrow> 0 < os_pagesize os
     \<and> (\<forall>name base n m. fo_mmap (os_files os name) base n = Some m \<longrightarrow> length m = nat n)"

lemma myread_loop_length:
  "length buf \<le> count \<Longrightarrow> myread_loop prefix count rs buf = (Some p, err) \<Longrightarrow> length p = count"
  by (induction prefix count rs buf rule: myread_loop.induct)
    (auto split: if_splits read_result.splits)

lemma seek_and_read_length: "seek_and_read f base n name = (Some p, err) \<Longrightarrow> length p = n"
  using myread_loop_length [of "[]" n name "fo_reads f base" p err]
  by (simp add: seek_and_read_def myread_def split: option.splits)

lemma c_rem_nonneg: "0 \<le> a \<Longrightarrow> 0 < b \<Longrightarrow> 0 \<le> c_rem a b"
  by (simp add: c_rem_def sgn_if)

lemma mem_chunk_length:
  assumes "maps_whole os" and "0 \<le> base" and "mem_chunk os base n name = (Some p, err)"
  shows "length p = n"
proof -
  let ?k = "c_rem base (os_pagesize os)"
  have "0 \<le> ?k" using assms(1,2) by (simp add: maps_whole_def c_rem_nonneg)
  then have "length (take n (drop (nat ?k) m)) = n"
    if "fo_mmap (os_files os name) b (?k + int n) = Some m" for b m
    using that assms(1) by (simp add: maps_whole_def nat_add_distrib)
  then show ?thesis
    using assms(3) seek_and_read_length
    by (auto simp: mem_chunk_def Let_def split: option.splits sum.splits if_splits prod.splits)
qed

lemma read_file_length:
  "read_file os base max_len name = (n, Some p, err) \<Longrightarrow> length p = n \<and> n \<le> max_len"
  using seek_and_read_length
  by (auto simp: read_file_def Let_def split: option.splits sum.splits if_splits prod.splits)

section \<open>Writing a dump\<close>

text \<open>
  \<open>dump_io\<close> are the failures of the calls. The contents of the dump file is \<open>None\<close> when the
  file does not exist. \<^verbatim>\<open>fwrite\<close> of one item of no bytes returns 0, which the code takes for a
  failure.
\<close>

record dump_io =
  dio_fopen :: "errno option"
  dio_fseek :: "errno option"
  dio_fwrite :: "errno option"
  dio_fclose :: "errno option"

definition put_at :: "nat \<Rightarrow> u8 list \<Rightarrow> u8 list \<Rightarrow> u8 list" where
  "put_at base bs c =
     take base (c @ replicate (base - length c) 0) @ bs @ drop (base + length bs) c"

definition write_dump ::
  "dump_io \<Rightarrow> nat \<Rightarrow> nat \<Rightarrow> u8 list \<Rightarrow> string \<Rightarrow> bool \<Rightarrow> u8 list option \<Rightarrow>
   int \<times> u8 list option \<times> string" where
  "write_dump io base n bs dumpfile add c =
     (let opened = (if add then c else Some [])
      in case (if add \<and> c = None then Some ENOENT else dio_fopen io) of
           Some e \<Rightarrow> (- 1, c, perror2 dumpfile ''fopen'' e)
         | None \<Rightarrow>
             (case dio_fseek io of
                Some e \<Rightarrow> (- 1, opened, perror2 dumpfile ''fseek'' e)
              | None \<Rightarrow>
                  (case (if n = 0 then Some (EOTHER ''Success'') else dio_fwrite io) of
                     Some e \<Rightarrow> (- 1, opened, perror2 dumpfile ''fwrite'' e)
                   | None \<Rightarrow>
                       (let c' = map_option (put_at base (take n bs)) opened
                        in case dio_fclose io of
                             Some e \<Rightarrow> (- 1, c', perror2 dumpfile ''fclose'' e)
                           | None \<Rightarrow> (0, c', [])))))"

definition io_ok :: dump_io where
  "io_ok = \<lparr>dio_fopen = None, dio_fseek = None, dio_fwrite = None, dio_fclose = None\<rparr>"

lemma put_at_read:
  "take (length bs) (drop base (put_at base bs c)) = bs"
  by (simp add: put_at_def)

lemma length_put_at: "length (put_at base bs c) = max (base + length bs) (length c)"
  by (cases "length c \<le> base") (simp_all add: put_at_def min_def max_def)

lemma put_at_below:
  "k + length bs \<le> base \<Longrightarrow> drop base (put_at k bs c) = drop base c"
  by (cases "length c \<le> k") (simp_all add: put_at_def min_def)

lemma put_at_above:
  "k + n \<le> base \<Longrightarrow> k + n \<le> length c \<Longrightarrow> take n (drop k (put_at base bs c)) = take n (drop k c)"
  by (simp add: put_at_def drop_take min_absorb1 le_diff_conv2)

section \<open>Honest files\<close>

text \<open>
  \<open>delivers rs c\<close>: the read results \<open>rs\<close> are the bytes \<open>c\<close> in non-empty pieces, with any
  interruptions in between.
\<close>

inductive delivers :: "read_result list \<Rightarrow> u8 list \<Rightarrow> bool" where
  delivers_end: "delivers [] []"
| delivers_piece: "delivers rs c \<Longrightarrow> bs \<noteq> [] \<Longrightarrow> delivers (Data bs # rs) (bs @ c)"
| delivers_interrupted: "delivers rs c \<Longrightarrow> delivers (Rerror EINTR # rs) c"

lemma myread_loop_delivers:
  "delivers rs c \<Longrightarrow> length buf \<le> count \<Longrightarrow>
   myread_loop prefix count rs buf =
     (if count \<le> length buf + length c then (Some (buf @ take (count - length buf) c), [])
      else (None, prefix @ '': Unexpected end of file'' @ nl))"
proof (induction arbitrary: buf rule: delivers.induct)
  case delivers_end
  then show ?case by auto
next
  case (delivers_piece rs c bs)
  show ?case
  proof (cases "length buf = count")
    case False
    with delivers_piece.prems have "length (buf @ take (count - length buf) bs) \<le> count" by auto
    from delivers_piece.IH [OF this] False delivers_piece.hyps(2) delivers_piece.prems
    show ?thesis by (auto simp: min_def)
  qed simp
next
  case (delivers_interrupted rs c)
  then show ?case by auto
qed

lemma myread_delivers:
  "delivers rs c \<Longrightarrow>
   myread rs count prefix =
     (if count \<le> length c then (Some (take count c), [])
      else (None, prefix @ '': Unexpected end of file'' @ nl))"
  using myread_loop_delivers [of rs c "[]" count prefix] by (simp add: myread_def)

locale honest_file =
  fixes f :: os_file and contents :: "u8 list"
  assumes opened: "fo_open f = None"
    and stat: "fo_stat f = Inr (int (length contents), True)"
    and memory: "fo_malloc f = None"
    and seek: "0 \<le> base \<Longrightarrow> fo_lseek f base = None"
    and reads: "0 \<le> base \<Longrightarrow> delivers (fo_reads f base) (drop (nat base) contents)"
    and mapping: "0 \<le> base \<Longrightarrow> 0 \<le> n \<Longrightarrow> nat (base + n) \<le> length contents \<Longrightarrow>
      fo_mmap f base n \<in> {None, Some (take (nat n) (drop (nat base) contents))}"
    and unmap: "fo_munmap f = None"
    and closed: "fo_close f = None"
    and size: "length contents < 2 ^ 63"
begin

lemma read_range:
  assumes "base + n \<le> length contents"
  shows "seek_and_read f (int base) n filename = (Some (take n (drop base contents)), [])"
  using assms myread_delivers [OF reads [of "int base"], of n filename]
  by (simp add: seek_and_read_def seek)

lemma read_file_contents:
  assumes "os_files os filename = f" and "base < length contents"
  shows "read_file os (int base) max_len filename =
    (let n = min max_len (length contents - base) in (n, Some (take n (drop base contents)), []))"
proof -
  have "(int (length contents) - int base) mod 2 ^ 64 = int (length contents - base)"
    using assms(2) size by (simp add: of_nat_diff)
  then have n: "nat ((int (length contents) - int base) mod 2 ^ 64) = length contents - base"
    by (simp only: nat_int)
  have "base + min max_len (length contents - base) \<le> length contents"
    using assms(2) by linarith
  from read_range [OF this, of filename] assms show ?thesis
    unfolding read_file_def
    by (simp add: opened stat memory closed close_error_def Let_def n del: power_numeral)
qed

lemma read_file_beyond:
  assumes "os_files os filename = f" and "length contents \<le> base"
  shows "\<exists>err. read_file os (int base) max_len filename = (max_len, None, err)"
  using assms by (simp add: read_file_def opened stat)

lemma mem_chunk_contents:
  assumes "os_files os devmem = f" and "base + n \<le> length contents" and "0 < os_pagesize os"
  shows "mem_chunk os (int base) n devmem = (Some (take n (drop base contents)), [])"
proof -
  define k where "k = base mod nat (os_pagesize os)"
  have k: "c_rem (int base) (os_pagesize os) = int k"
    using assms(3) by (cases "base = 0") (simp_all add: c_rem_def k_def zmod_int)
  have kb: "k \<le> base" by (simp add: k_def mod_less_eq_dividend)
  have "nat (int base - int k + (int k + int n)) \<le> length contents" using assms(2) by simp
  from mapping [OF _ _ this] kb
  have "fo_mmap f (int base - int k) (int k + int n)
      \<in> {None, Some (take (k + n) (drop (base - k) contents))}"
    by (simp add: nat_diff_distrib nat_add_distrib)
  moreover have "take n (drop k (take (k + n) (drop (base - k) contents))) = take n (drop base contents)"
    using kb by (simp add: drop_take)
  moreover have "seek_and_read f (int base) n devmem = (Some (take n (drop base contents)), [])"
    by (rule read_range) (rule assms(2))
  ultimately show ?thesis
    unfolding mem_chunk_def assms(1) using assms(2)
    by (auto simp: opened stat memory unmap closed close_error_def Let_def k)
qed

lemma mem_chunk_beyond:
  assumes "os_files os devmem = f" and "length contents < base + n"
  shows "\<exists>err. mem_chunk os (int base) n devmem = (None, err)"
  using assms by (auto simp: mem_chunk_def opened stat memory)

end

definition plain_file :: "u8 list \<Rightarrow> os_file" where
  "plain_file c =
     \<lparr>fo_open = None, fo_stat = Inr (int (length c), True), fo_malloc = None,
      fo_lseek = (\<lambda>base. if base < 0 then Some (EOTHER ''Invalid argument'') else None),
      fo_reads = (\<lambda>base. let d = drop (nat base) c in if d = [] then [] else [Data d]),
      fo_mmap = (\<lambda>base n. Some (take (nat n) (drop (nat base) c))),
      fo_munmap = None, fo_close = None\<rparr>"

definition slow_file :: "u8 list \<Rightarrow> os_file" where
  "slow_file c = (plain_file c)
     \<lparr>fo_reads := (\<lambda>base. concat (map (\<lambda>b. [Rerror EINTR, Data [b]]) (drop (nat base) c))),
      fo_mmap := (\<lambda>base n. None)\<rparr>"

lemma delivers_plain: "delivers (if d = [] then [] else [Data d]) d"
  using delivers_piece [OF delivers_end, of d] by (simp add: delivers_end)

lemma delivers_slow: "delivers (concat (map (\<lambda>b. [Rerror EINTR, Data [b]]) d)) d"
proof (induction d)
  case (Cons b d)
  from delivers_interrupted [OF delivers_piece [OF this, of "[b]"]] show ?case by simp
qed (simp add: delivers_end)

lemma honest_plain: "length c < 2 ^ 63 \<Longrightarrow> honest_file (plain_file c) c"
  by unfold_locales (simp_all add: plain_file_def Let_def delivers_plain del: drop_eq_Nil)

lemma honest_slow: "length c < 2 ^ 63 \<Longrightarrow> honest_file (slow_file c) c"
  by unfold_locales (simp_all add: slow_file_def plain_file_def delivers_slow)

definition example_bytes :: "u8 list" where
  "example_bytes = [95, 83, 77, 51, 95, 0, 24, 3, 2, 0]"

interpretation plain_example: honest_file "plain_file example_bytes" example_bytes
  by (rule honest_plain) (simp add: example_bytes_def)

interpretation slow_example: honest_file "slow_file example_bytes" example_bytes
  by (rule honest_slow) (simp add: example_bytes_def)

section \<open>Properties\<close>

text \<open>
  Reading the part of a regular file from an offset inside it returns exactly its bytes,
  at most the requested number, with their number as the new length, whether the operating
  system delivers them at once, in pieces, with interruptions, or from a mapping; a chunk
  that would leave the file is refused.
\<close>

theorem file_access_exact:
  assumes "honest_file (os_files os filename) contents" and "0 < os_pagesize os"
  shows "(base < length contents \<longrightarrow>
        fst (read_file os (int base) n filename) = min n (length contents - base)
        \<and> fst (snd (read_file os (int base) n filename))
            = Some (take (min n (length contents - base)) (drop base contents)))
    \<and> (length contents \<le> base \<longrightarrow> fst (snd (read_file os (int base) n filename)) = None)
    \<and> fst (mem_chunk os (int base) n filename) =
        (if base + n \<le> length contents then Some (take n (drop base contents)) else None)"
proof (intro conjI impI)
  assume "base < length contents"
  from honest_file.read_file_contents [OF assms(1) refl this, of n]
  show "fst (read_file os (int base) n filename) = min n (length contents - base)"
    and "fst (snd (read_file os (int base) n filename))
      = Some (take (min n (length contents - base)) (drop base contents))"
    by (simp_all add: Let_def)
next
  assume "length contents \<le> base"
  from honest_file.read_file_beyond [OF assms(1) refl this, of n]
  show "fst (snd (read_file os (int base) n filename)) = None" by auto
next
  show "fst (mem_chunk os (int base) n filename) =
      (if base + n \<le> length contents then Some (take n (drop base contents)) else None)"
    using honest_file.mem_chunk_contents [OF assms(1) refl _ assms(2), of base n]
      honest_file.mem_chunk_beyond [OF assms(1) refl, of base n] by fastforce
qed

theorem file_access_exact_witness:
  "fst (snd (read_file \<lparr>os_files = (\<lambda>name. slow_file example_bytes), os_pagesize = 4096\<rparr> 4 100 ''dump''))
     = Some [95, 0, 24, 3, 2, 0]
   \<and> fst (mem_chunk \<lparr>os_files = (\<lambda>name. slow_file example_bytes), os_pagesize = 4096\<rparr> 4 3 ''dump'')
     = Some [95, 0, 24]"
  using file_access_exact [of "\<lparr>os_files = (\<lambda>name. slow_file example_bytes), os_pagesize = 4096\<rparr>"
      "''dump''" example_bytes 4 100]
    file_access_exact [of "\<lparr>os_files = (\<lambda>name. slow_file example_bytes), os_pagesize = 4096\<rparr>"
      "''dump''" example_bytes 4 3] slow_example.honest_file_axioms
  by (simp add: example_bytes_def)

end
