(* ===== verification/Dmi_Main.thy ===== *)
theory Dmi_Main
  imports Dmi_Entry Dmi_Opt
begin

text \<open>
  The main program of dmidecode: the order in which it looks for an entry point (a dump file,
  sysfs, the EFI system table, a scan of memory) and what it does with the first one that is
  accepted. File access is that of \<open>Dmi_Util\<close>; the contents of the EFI system table are an
  argument, as is whether \<^verbatim>\<open>off_t\<close> has 64 bits.

  The theorems: a binary dump read back with \<^verbatim>\<open>--from-dump\<close> decodes the same table
  (\<open>dump_roundtrip\<close>); making a dump from memory reads only what was read from the device,
  whatever is found there; and a line of the EFI system table without an equals sign makes the
  program write through a null pointer.
\<close>

unbundle bit_operations_syntax

section \<open>Files\<close>

definition SYS_ENTRY_FILE :: string where
  "SYS_ENTRY_FILE = ''/sys/firmware/dmi/tables/smbios_entry_point''"

definition SYS_TABLE_FILE :: string where
  "SYS_TABLE_FILE = ''/sys/firmware/dmi/tables/DMI''"

text \<open>The accesses of \<^verbatim>\<open>dmi_table\<close> to the file or device \<open>devmem\<close>.\<close>

definition env_of :: "os \<Rightarrow> string \<Rightarrow> main_opt \<Rightarrow> entry_env" where
  "env_of os devmem o' =
     \<lparr>env_read_file = (\<lambda>base n. read_file os (sint base) n devmem),
      env_mem_chunk = (\<lambda>base n. mem_chunk os (sint base) n devmem),
      env_dumpfile = mo_dumpfile o'\<rparr>"

section \<open>The EFI system table\<close>

text \<open>
  \<^verbatim>\<open>fgets\<close> with a size of 63: at most 62 characters, up to and including a newline.
\<close>

function fgets_lines :: "string \<Rightarrow> string list" where
  "fgets_lines s =
     (if s = [] then []
      else let t = takeWhile (\<lambda>c. c \<noteq> CHR 0x0A) (take 62 s);
               n = (if length t < length (take 62 s) then Suc (length t) else length t)
           in take n s # fgets_lines (drop n s))"
  by pat_completeness auto
termination
proof (relation "measure length", goal_cases)
  case (2 s t n)
  then have "0 < length s" "0 < n" by (auto split: if_splits)
  then show ?case by simp
qed simp

declare fgets_lines.simps [simp del]

text \<open>
  The loop over the lines: the type and the address of the first SMBIOS entry point, if any.
  A line without an equals sign makes \<^verbatim>\<open>strchr\<close> return a null pointer, through which the code
  then writes; this is the outer \<open>None\<close>.
\<close>

fun efi_lines :: "string list \<Rightarrow> (string \<times> u64) option option" where
  "efi_lines [] = Some None"
| "efi_lines (l # ls) =
     (if CHR ''='' \<notin> set l then None
      else let name = takeWhile (\<lambda>c. c \<noteq> CHR ''='') l;
               addrp = drop (Suc (length name)) l
           in if name = ''SMBIOS3'' \<or> name = ''SMBIOS'' then Some (Some (name, fst (strtoul addrp 0)))
              else efi_lines ls)"

datatype efi_result = EFI_NOT_FOUND | EFI_NO_SMBIOS | EFI_ADDRESS u64

text \<open>
  The system table is the name and contents of the file that could be opened, if any; the
  result has the two output streams.
\<close>

definition address_from_efi ::
  "(string \<times> string) option \<Rightarrow> bool \<Rightarrow> (efi_result \<times> string \<times> string) option" where
  "address_from_efi systab quiet' =
     (case systab of
        None \<Rightarrow> Some (EFI_NOT_FOUND, [], [])
      | Some (filename, contents) \<Rightarrow> do {
          r \<leftarrow> efi_lines (fgets_lines contents);
          Some (case r of
                  None \<Rightarrow> (EFI_NO_SMBIOS, [], filename @ '': SMBIOS entry point missing'' @ nl)
                | Some (eptype, address) \<Rightarrow>
                    (EFI_ADDRESS address,
                     if quiet' then []
                     else ''# '' @ eptype @ '' entry point at 0x'' @ px 8 address @ nl, [])) })"

section \<open>Entry points\<close>

definition starts :: "u8 list \<Rightarrow> string \<Rightarrow> bool option" where
  "starts buf anchor = do { a \<leftarrow> read_bytes buf (length anchor); Some (a = bytes_of anchor) }"

text \<open>The chain of comparisons for a buffer that starts with an entry point.\<close>

definition decode_entry ::
  "(nat \<Rightarrow> u32) \<Rightarrow> entry_env \<Rightarrow> bool \<Rightarrow> bool \<Rightarrow> u8 list \<Rightarrow> u32 \<Rightarrow> nat \<Rightarrow> entry_state \<Rightarrow>
   (bool \<times> entry_state) option" where
  "decode_entry shift env off64 legacy buf flags size' s = do {
     sm3 \<leftarrow> (if size' \<ge> 24 then starts buf ''_SM3_'' else Some False);
     if sm3 then smbios3_decode shift env off64 buf flags s
     else do {
       sm \<leftarrow> (if size' \<ge> 31 then starts buf ''_SM_'' else Some False);
       if sm then smbios_decode shift env buf flags s
       else do {
         dmi \<leftarrow> (if legacy \<and> size' \<ge> 15 then starts buf ''_DMI_'' else Some False);
         if dmi then legacy_decode shift env buf flags s else Some (False, s) } } }"

text \<open>The two scans of the BIOS area; each stops at the first entry point that is accepted.\<close>

fun scan_sm3 ::
  "(nat \<Rightarrow> u32) \<Rightarrow> entry_env \<Rightarrow> bool \<Rightarrow> u8 list \<Rightarrow> nat list \<Rightarrow> entry_state \<Rightarrow> (bool \<times> entry_state) option"
where
  "scan_sm3 shift env off64 buf [] s = Some (False, s)"
| "scan_sm3 shift env off64 buf (fp # fps) s = do {
     sm3 \<leftarrow> starts (drop fp buf) ''_SM3_'';
     (hit, s1) \<leftarrow> (if sm3 then smbios3_decode shift env off64 (drop fp buf) 0 s else Some (False, s));
     if hit then Some (True, s1) else scan_sm3 shift env off64 buf fps s1 }"

fun scan_sm ::
  "(nat \<Rightarrow> u32) \<Rightarrow> entry_env \<Rightarrow> u8 list \<Rightarrow> nat list \<Rightarrow> entry_state \<Rightarrow> (bool \<times> entry_state) option"
where
  "scan_sm shift env buf [] s = Some (False, s)"
| "scan_sm shift env buf (fp # fps) s = do {
     sm \<leftarrow> starts (drop fp buf) ''_SM_'';
     (hit, s1) \<leftarrow>
       (if sm \<and> fp \<le> 0xFFE0 then smbios_decode shift env (drop fp buf) 0 s
        else do {
          dmi \<leftarrow> starts (drop fp buf) ''_DMI_'';
          if dmi then legacy_decode shift env (drop fp buf) 0 s else Some (False, s) });
     if hit then Some (True, s1) else scan_sm shift env buf fps s1 }"

definition memory_scan ::
  "(nat \<Rightarrow> u32) \<Rightarrow> entry_env \<Rightarrow> bool \<Rightarrow> u8 list \<Rightarrow> entry_state \<Rightarrow> (bool \<times> entry_state) option" where
  "memory_scan shift env off64 buf s = do {
     (hit, s1) \<leftarrow> scan_sm3 shift env off64 buf (map (\<lambda>k. 16 * k) [0..<0xFFF]) s;
     if hit then Some (True, s1)
     else scan_sm shift env buf (map (\<lambda>k. 16 * k) [0..<0x1000]) s1 }"

section \<open>Main\<close>

text \<open>The label \<^verbatim>\<open>done\<close>: the exit status is 0 even if nothing was found.\<close>

definition finish :: "bool \<times> entry_state \<Rightarrow> nat \<times> entry_state" where
  "finish r = (case r of (hit, s) \<Rightarrow>
     (0, if \<not> hit then put_unless_quiet (''# No SMBIOS nor DMI entry point found, sorry.'' @ nl) s else s))"

definition from_dump ::
  "(nat \<Rightarrow> u32) \<Rightarrow> os \<Rightarrow> bool \<Rightarrow> main_opt \<Rightarrow> entry_state \<Rightarrow> (nat \<times> entry_state) option" where
  "from_dump shift os off64 o' s =
     (let s1 = put_unless_quiet (''Reading SMBIOS/DMI data from file '' @ mo_dumpfile o' @ ''.'' @ nl) s
      in case mem_chunk os 0 0x20 (mo_dumpfile o') of
           (None, err) \<Rightarrow> Some (1, put_err err s1)
         | (Some buf, err) \<Rightarrow>
             map_option finish
               (decode_entry shift (env_of os (mo_dumpfile o') o') off64 True buf 0 0x20 (put_err err s1)))"

definition from_sysfs ::
  "(nat \<Rightarrow> u32) \<Rightarrow> os \<Rightarrow> bool \<Rightarrow> main_opt \<Rightarrow> entry_state \<Rightarrow> (bool \<times> entry_state) option" where
  "from_sysfs shift os off64 o' s =
     (case read_file os 0 0x20 SYS_ENTRY_FILE of
        (size', None, err) \<Rightarrow> Some (False, put_err err s)
      | (size', Some buf, err) \<Rightarrow> do {
          (hit, s1) \<leftarrow> decode_entry shift (env_of os SYS_TABLE_FILE o') off64 True buf 1 size'
                          (put_unless_quiet (''Getting SMBIOS data from sysfs.'' @ nl) (put_err err s));
          Some (hit, if hit then s1
                       else put_unless_quiet (''Failed to get SMBIOS data from sysfs.'' @ nl) s1) })"

definition from_efi ::
  "(nat \<Rightarrow> u32) \<Rightarrow> os \<Rightarrow> bool \<Rightarrow> main_opt \<Rightarrow> u64 \<Rightarrow> entry_state \<Rightarrow> (nat \<times> entry_state) option" where
  "from_efi shift os off64 o' fp s =
     (let s1 = put_unless_quiet (''Found SMBIOS entry point in EFI, reading table from ''
                 @ mo_devmem o' @ ''.'' @ nl) s
      in case mem_chunk os (sint fp) 0x20 (mo_devmem o') of
           (None, err) \<Rightarrow> Some (1, put_err err s1)
         | (Some buf, err) \<Rightarrow>
             map_option finish
               (decode_entry shift (env_of os (mo_devmem o') o') off64 False buf 0 0x20 (put_err err s1)))"

definition from_memory ::
  "(nat \<Rightarrow> u32) \<Rightarrow> os \<Rightarrow> bool \<Rightarrow> main_opt \<Rightarrow> entry_state \<Rightarrow> (nat \<times> entry_state) option" where
  "from_memory shift os off64 o' s =
     (let s1 = put_unless_quiet (''Scanning '' @ mo_devmem o' @ '' for entry point.'' @ nl) s
      in case mem_chunk os 0xF0000 0x10000 (mo_devmem o') of
           (None, err) \<Rightarrow> Some (1, put_err err s1)
         | (Some buf, err) \<Rightarrow>
             map_option finish (memory_scan shift (env_of os (mo_devmem o') o') off64 buf (put_err err s1)))"

definition dmidecode_run ::
  "(nat \<Rightarrow> u32) \<Rightarrow> os \<Rightarrow> bool \<Rightarrow> (string \<times> string) option \<Rightarrow> main_opt \<Rightarrow> entry_state \<Rightarrow>
   (nat \<times> entry_state) option" where
  "dmidecode_run shift os off64 systab o' s0 =
     (let s = put_unless_quiet (''# dmidecode '' @ VERSION @ nl) s0
      in if bit (opt_flags o') 5 then from_dump shift os off64 o' s
         else do {
           (hit, s1) \<leftarrow> (if \<not> bit (opt_flags o') 6 then from_sysfs shift os off64 o' s
                           else Some (False, s));
           if hit then Some (finish (True, s1))
           else do {
             (efi, out, err) \<leftarrow> address_from_efi systab (quiet s1);
             let s2 = put_err err (put out s1);
             case efi of
               EFI_NOT_FOUND \<Rightarrow> from_memory shift os off64 o' s2
             | EFI_NO_SMBIOS \<Rightarrow> Some (1, s2)
             | EFI_ADDRESS fp \<Rightarrow> from_efi shift os off64 o' fp s2 } })"

definition start_state :: "main_opt \<Rightarrow> string \<Rightarrow> entry_state" where
  "start_state o' err =
     \<lparr>es_table = \<lparr>ts_out = [], ts_err = err, ts_opt = opt.truncate o', ts_oem = oem_init\<rparr>,
      es_writes = []\<rparr>"

definition dmidecode_main ::
  "(nat \<Rightarrow> u32) \<Rightarrow> os \<Rightarrow> bool \<Rightarrow> (string \<times> string) option \<Rightarrow> string \<Rightarrow> string list \<Rightarrow>
   (nat \<times> entry_state) option" where
  "dmidecode_main shift os off64 systab argv0 args =
     (case parse_command_line argv0 args default_main_opt of
        (None, err) \<Rightarrow> Some (2, start_state default_main_opt err)
      | (Some o', err) \<Rightarrow>
          (let s = start_state o' err
           in if bit (opt_flags o') 1 then Some (0, put dmidecode_help s)
              else if bit (opt_flags o') 0 then Some (0, put (VERSION @ nl) s)
              else dmidecode_run shift os off64 systab o' s))"

section \<open>What a dump holds\<close>

text \<open>
  The contents of the dump file after the recorded writes: the table is written to a new file,
  the entry point into the existing one.
\<close>

definition dump_write :: "u8 list option \<Rightarrow> nat \<times> u8 list \<Rightarrow> u8 list option" where
  "dump_write c w = (case w of (pos, bs) \<Rightarrow>
     fst (snd (write_dump io_ok pos (length bs) bs [] (pos = 0) c)))"

definition dump_contents :: "(nat \<times> u8 list) list \<Rightarrow> u8 list option" where
  "dump_contents ws = foldl dump_write None ws"

lemma put_writes [simp]:
  "es_writes (put t s) = es_writes s" "es_writes (put_err t s) = es_writes s"
  "es_writes (put_unless_quiet t s) = es_writes s"
  "es_writes (table_banner base n num ver s) = es_writes s"
  by (simp_all add: put_def put_err_def put_unless_quiet_def table_banner_def Let_def)

lemma dmi_table_writes:
  assumes "dmi_table shift env base len' num ver flags s = Some s'" and "FLAG_DUMP_BIN s"
    and "env_ok env" and "0 \<le> sint base"
  shows "es_writes s' = es_writes s \<or> (\<exists>b. es_writes s' = es_writes s @ [(32, b)] \<and> length b \<le> unat len')"
proof -
  obtain size' buf err where r: "(if bit flags 0 \<or> FLAG_FROM_DUMP s
      then env_read_file env (if bit flags 0 then 0 else base) (unat len')
      else (unat len', env_mem_chunk env base (unat len'))) = (size', buf, err)"
    by (metis surj_pair)
  have size: "length b = size' \<and> size' \<le> unat len'" if "buf = Some b" for b
    using r assms(3,4) that unfolding env_ok_def by (fastforce split: if_splits)
  have le: "unat (word_of_nat n :: u32) \<le> n" for n
    by (simp add: unat_of_nat)
  show ?thesis
  proof (cases buf)
    case None
    with assms(1) r show ?thesis by (auto simp: dmi_table_def Let_def)
  next
    case (Some b)
    with assms(1,2) r show ?thesis
      using size [OF Some] le [of size']
      by (auto simp: dmi_table_def Let_def dmi_table_dump_def read_bytes_def Option.bind_eq_Some_conv
          split: if_splits)
  qed
qed

lemma dump_contents_two:
  assumes "table \<noteq> []" and "entry \<noteq> []" and "length entry \<le> 32"
  shows "dump_contents [(32, table), (0, entry)] = Some (entry @ replicate (32 - length entry) 0 @ table)"
  using assms
  by (simp add: dump_contents_def dump_write_def write_dump_def io_ok_def put_at_def Let_def)

section \<open>The entry point in a dump\<close>

lemma rd_prefix: "take n p = take n q \<Longrightarrow> i < n \<Longrightarrow> rd p i = rd q i"
proof -
  assume eq: "take n p = take n q" and i: "i < n"
  have "rd (take n r) i = rd r i" for r using i by (simp add: rd_def)
  with eq show ?thesis by metis
qed

lemma DWORD_prefix: "take n p = take n q \<Longrightarrow> i + 3 < n \<Longrightarrow> DWORD p i = DWORD q i"
  using rd_prefix [of n p q] by (simp add: DWORD_def)

lemma QWORD_prefix: "take n p = take n q \<Longrightarrow> i + 7 < n \<Longrightarrow> QWORD p i = QWORD q i"
  using DWORD_prefix [of n p q] by (simp add: QWORD_def)

text \<open>What a patched 64-bit entry point keeps of the original.\<close>

lemma patched_smbios3:
  assumes "overwrite_smbios3_address copy = Some crafted" and "length copy = 32"
  shows "length crafted = 32" and "take 5 crafted = take 5 copy"
    and "rd crafted 6 = rd copy 6" and "rd crafted 7 = rd copy 7" and "rd crafted 8 = rd copy 8"
    and "rd crafted 9 = rd copy 9" and "DWORD crafted 0x0C = DWORD copy 0x0C"
    and "QWORD crafted 0x10 = Some \<lparr>lo32 = 32, hi32 = 0\<rparr>"
proof -
  obtain x where cr: "crafted = copy[5 := x, 0x10 := 32, 0x11 := 0, 0x12 := 0, 0x13 := 0,
      0x14 := 0, 0x15 := 0, 0x16 := 0, 0x17 := 0]"
    using assms by (auto simp only: overwrite_smbios3_address_def option.inject split: if_splits)
  show "length crafted = 32" "take 5 crafted = take 5 copy"
    by (simp_all add: cr assms(2) take_update_swap list_update_beyond)
  show "rd crafted 6 = rd copy 6" "rd crafted 7 = rd copy 7" "rd crafted 8 = rd copy 8"
    "rd crafted 9 = rd copy 9"
    by (simp_all add: cr rd_def)
  show "DWORD crafted 0x0C = DWORD copy 0x0C" "QWORD crafted 0x10 = Some \<lparr>lo32 = 32, hi32 = 0\<rparr>"
    by (simp_all add: cr DWORD_def QWORD_def rd_def assms(2))
qed

lemma smbios3_decode_accepts:
  assumes "smbios3_decode shift env off64 buf flags s = Some (True, s')"
  obtains n t ver q len' s2 where "rd buf 6 = Some n" and "\<not> n > 0x20"
    and "checksum buf (unat n) = Some True" and "QWORD buf 0x10 = Some q" and "DWORD buf 0x0C = Some len'"
    and "dmi_table shift env (value64 q) len' 0 ver (flags OR 2) (put_unless_quiet t s) = Some s2"
    and "FLAG_DUMP_BIN s2 \<Longrightarrow> \<exists>crafted. overwrite_smbios3_address (take 32 buf) = Some crafted
          \<and> 32 \<le> length buf \<and> es_writes s' = es_writes s2 @ [(0, take (unat (crafted ! 6)) crafted)]"
proof -
  note step = Option.bind.simps option.inject option.distinct prod.inject if_True if_False simp_thms
    option.sel
  obtain n where n: "rd buf 6 = Some n" "\<not> n > 0x20"
    using assms unfolding smbios3_decode_def
    by (cases "rd buf 6"; cases "the (rd buf 6) > 0x20"; simp only: step)
  have ck: "checksum buf (unat n) = Some True"
    using assms n unfolding smbios3_decode_def
    by (cases "checksum buf (unat n)"; cases "the (checksum buf (unat n))"; simp only: step)
  obtain v1 v2 v3 where v': "rd buf 7 = Some v1" "rd buf 8 = Some v2" "rd buf 9 = Some v3"
    using assms n ck unfolding smbios3_decode_def
    by (cases "rd buf 7"; cases "rd buf 8"; cases "rd buf 9"; simp only: step)
  obtain q len' where v'': "QWORD buf 0x10 = Some q" "DWORD buf 0x0C = Some len'"
    using assms n ck v' unfolding smbios3_decode_def
    by (cases "QWORD buf 0x10"; cases "DWORD buf 0x0C"; simp only: step)
  note v = v' v''
  define t where "t = ''SMBIOS '' @ pu v1 @ ''.'' @ pu v2 @ ''.'' @ pu v3 @ '' present.'' @ nl"
  define ver :: u32 where "ver = push_bit 16 (ucast v1) + push_bit 8 (ucast v2) + ucast v3"
  let ?tail = "\<lambda>s2. if FLAG_DUMP_BIN s2 then do {
      copy \<leftarrow> read_bytes buf 32;
      crafted \<leftarrow> overwrite_smbios3_address copy;
      let k = unat (crafted ! 0x06);
      let s3 = put_unless_quiet (writing k env) s2;
      Some (True, s3\<lparr>es_writes := es_writes s3 @ [(0, take k crafted)]\<rparr>) }
    else Some (True, s2)"
  have red: "smbios3_decode shift env off64 buf flags s =
    (if \<not> bit flags 0 \<and> hi32 q \<noteq> 0 \<and> \<not> off64
     then Some (False, put_err (''64-bit addresses not supported, sorry.'' @ nl) (put_unless_quiet t s))
     else do {
       s2 \<leftarrow> dmi_table shift env (value64 q) len' 0 ver (flags OR 2) (put_unless_quiet t s);
       ?tail s2 })"
    unfolding smbios3_decode_def n(1) t_def ver_def Let_def bind.bind_lunit
    by (simp add: n(2) ck v)
  with assms obtain s2 where
    s2: "dmi_table shift env (value64 q) len' 0 ver (flags OR 2) (put_unless_quiet t s) = Some s2"
      and tail: "?tail s2 = Some (True, s')"
    by (simp only: Option.bind_eq_Some_conv split: if_splits) auto
  have "\<exists>crafted. overwrite_smbios3_address (take 32 buf) = Some crafted \<and> 32 \<le> length buf
      \<and> es_writes s' = es_writes s2 @ [(0, take (unat (crafted ! 6)) crafted)]" if "FLAG_DUMP_BIN s2"
    using tail that by (auto simp: Let_def Option.bind_eq_Some_conv read_bytes_def split: if_splits)
  with n ck v(4,5) s2 show ?thesis by (rule that)
qed

lemma smbios3_dump_writes:
  assumes "smbios3_decode shift env off64 buf flags s = Some (True, s')"
    and "FLAG_DUMP_BIN s" and "env_ok env" and "low_address_ok buf"
    and "es_writes s = []" and "es_writes s' = [(32, table), e]"
  obtains n crafted len' where "rd buf 6 = Some n" and "unat n \<le> 32"
    and "checksum buf (unat n) = Some True" and "32 \<le> length buf"
    and "overwrite_smbios3_address (take 32 buf) = Some crafted"
    and "e = (0, take (unat n) crafted)" and "DWORD buf 0x0C = Some len'"
    and "length table \<le> unat len'"
proof -
  from assms(1) obtain n t ver q len' s2 where
    n: "rd buf 6 = Some n" "\<not> n > 0x20" "checksum buf (unat n) = Some True"
      "QWORD buf 0x10 = Some q" "DWORD buf 0x0C = Some len'" and
    s2: "dmi_table shift env (value64 q) len' 0 ver (flags OR 2) (put_unless_quiet t s) = Some s2" and
    out: "FLAG_DUMP_BIN s2 \<Longrightarrow> \<exists>crafted. overwrite_smbios3_address (take 32 buf) = Some crafted
        \<and> 32 \<le> length buf \<and> es_writes s' = es_writes s2 @ [(0, take (unat (crafted ! 6)) crafted)]"
    by (rule smbios3_decode_accepts) blast
  have low: "0 \<le> sint (value64 q)" using assms(4) n(4) by (simp add: low_address_ok_def)
  have "FLAG_DUMP_BIN s2" using dmi_table_keeps_dump [OF s2] assms(2) by simp
  from out [OF this] obtain crafted where cr:
    "overwrite_smbios3_address (take 32 buf) = Some crafted" "32 \<le> length buf"
    "es_writes s' = es_writes s2 @ [(0, take (unat (crafted ! 6)) crafted)]" by blast
  from dmi_table_writes [OF s2 _ assms(3) low] assms(2,5,6) cr(3)
  have tb: "length table \<le> unat len'" "e = (0, take (unat (crafted ! 6)) crafted)" by auto
  have "rd crafted 6 = rd (take 32 buf) 6" "length crafted = 32"
    using patched_smbios3 [OF cr(1)] cr(2) by simp_all
  then have "crafted ! 6 = n" using n(1) cr(2) by (simp add: rd_def)
  with tb cr n show ?thesis
    by (intro that [of n crafted len']) (auto simp: entry_length)
qed

text \<open>The version that the 64-bit entry point passes to the decoder.\<close>

definition smbios3_version :: "u8 list \<Rightarrow> u16" where
  "smbios3_version buf = ucast (drop_bit 8
     (push_bit 16 (ucast (buf ! 7)) + push_bit 8 (ucast (buf ! 8)) + ucast (buf ! 9) :: u32))"

definition same_settings :: "entry_state \<Rightarrow> entry_state \<Rightarrow> bool" where
  "same_settings s s' \<longleftrightarrow>
     ts_opt (es_table s') = ts_opt (es_table s) \<and> ts_oem (es_table s') = ts_oem (es_table s)
     \<and> es_writes s' = es_writes s"

lemma same_settings_put [simp]:
  "same_settings s (put t s') = same_settings s s'" "same_settings s (put_err t s') = same_settings s s'"
  "same_settings s (put_unless_quiet t s') = same_settings s s'"
  "same_settings s (table_banner base n num ver s') = same_settings s s'" "same_settings s s"
  by (simp_all add: same_settings_def put_def put_err_def put_unless_quiet_def table_banner_def Let_def)

lemma same_settings_flags:
  "same_settings s s' \<Longrightarrow> FLAG_DUMP_BIN s' = FLAG_DUMP_BIN s"
  "same_settings s s' \<Longrightarrow> FLAG_FROM_DUMP s' = FLAG_FROM_DUMP s"
  by (simp_all add: same_settings_def FLAG_DUMP_BIN_def FLAG_FROM_DUMP_def)

text \<open>Reading the table of a dump: the file holds it from position 32 on.\<close>

lemma dmi_table_from_dump:
  assumes "honest_file (os_files os name) (entry @ table)" and "length entry = 32" and "table \<noteq> []"
    and "length table \<le> unat len'" and "FLAG_FROM_DUMP s" and "\<not> FLAG_DUMP_BIN s"
  shows "\<exists>s1. same_settings s s1 \<and>
    dmi_table shift (env_of os name o') 32 len' num ver 2 s =
      map_option (\<lambda>t. s1\<lparr>es_table := t\<rparr>)
        (dmi_table_decode shift table (word_of_nat (length table)) num (ucast (drop_bit 8 ver)) 2 (es_table s1))"
proof -
  have "int 32 = sint (32 :: u64)" by simp
  then have "read_file os (sint (32 :: u64)) (unat len') name = (length table, Some table, [])"
    using honest_file.read_file_contents [OF assms(1) refl, of 32 "unat len'"] assms(2-4)
    by (simp add: Let_def)
  then have env: "env_read_file (env_of os name o') 32 (unat len') = (length table, Some table, [])"
    by (simp add: env_of_def)
  let ?s1 = "put_err [] (table_banner 32 len' num ver s)"
  define s2 where "s2 = (if \<not> quiet ?s1 \<and> num \<noteq> 0 \<and> length table \<noteq> unat len'
    then put_err (''Wrong DMI structures length: '' @ pu len' @ '' bytes announced, only ''
           @ dec (length table) @ '' bytes available.'' @ nl) ?s1 else ?s1)"
  have s2: "same_settings s s2" by (simp add: s2_def)
  then have nd: "\<not> FLAG_DUMP_BIN s2" using assms(6) by (simp add: same_settings_flags)
  have "dmi_table shift (env_of os name o') 32 len' num ver 2 s =
    (dmi_table_decode shift table (word_of_nat (length table)) num (ucast (drop_bit 8 ver)) 2 (es_table s2)
      \<bind> (\<lambda>t. Some (s2\<lparr>es_table := t\<rparr>)))"
    using nd unfolding dmi_table_def Let_def s2_def
    by (simp add: assms(5) env bit_numeral_rec)
  with s2 show ?thesis by (auto simp: map_conv_bind_option comp_def)
qed

lemma value64_32: "value64 \<lparr>lo32 = 32, hi32 = 0\<rparr> = 32"
  by (simp add: value64_def)

text \<open>The entry point of a dump is accepted and leads to the table in the dump.\<close>

lemma smbios3_from_dump:
  assumes buf: "32 \<le> length buf" and n: "rd buf 6 = Some n" "24 \<le> unat n" "unat n \<le> 32"
    and ck: "checksum buf (unat n) = Some True"
    and cr: "overwrite_smbios3_address (take 32 buf) = Some crafted"
    and len': "DWORD buf 0x0C = Some len'" "length table \<le> unat len'"
    and entry: "entry = take (unat n) crafted @ replicate (32 - unat n) 0"
    and image: "honest_file (os_files os name) (entry @ table)" "table \<noteq> []"
    and flags: "FLAG_FROM_DUMP s" "\<not> FLAG_DUMP_BIN s"
  shows "\<exists>s1. same_settings s s1 \<and>
    smbios3_decode shift (env_of os name o') off64 entry 0 s =
      map_option (\<lambda>t. (True, s1\<lparr>es_table := t\<rparr>))
        (dmi_table_decode shift table (word_of_nat (length table)) 0 (smbios3_version buf) 2 (es_table s1))"
proof -
  let ?copy = "take 32 buf"
  have lc: "length ?copy = 32" using buf by simp
  note pt = patched_smbios3 [OF cr lc]
  have pre: "take 24 entry = take 24 crafted" using n(2) pt(1) by (simp add: entry)
  have cp: "rd ?copy i = rd buf i" if "i < 32" for i using that by (simp add: rd_def)
  have v: "rd entry 6 = Some n" "rd entry 7 = Some (buf ! 7)" "rd entry 8 = Some (buf ! 8)"
    "rd entry 9 = Some (buf ! 9)"
    using rd_prefix [OF pre] pt(3-6) cp n(1) buf by (simp_all add: rd_Some)
  have "DWORD ?copy 0x0C = DWORD buf 0x0C" by (rule DWORD_prefix [of 32]) simp_all
  then have w: "DWORD entry 0x0C = Some len'" "QWORD entry 0x10 = Some \<lparr>lo32 = 32, hi32 = 0\<rparr>"
    using DWORD_prefix [OF pre, of "0x0C"] QWORD_prefix [OF pre, of "0x10"] pt(7,8) len'(1) by simp_all
  have le: "unat n \<le> length ?copy" using n(3) lc by simp
  have sums: "sum_list (take (unat n) crafted) = sum_list (take (unat n) ?copy)"
    using overwrite_smbios3_sum [OF cr _ le] n(2) by simp
  have "sum_list (take (unat n) entry) = sum_list (take (unat n) buf)"
    using sums n(3) pt(1) by (simp add: entry min_def)
  then have ck': "checksum entry (unat n) = Some True"
    using ck n(3) buf pt(1) by (simp add: checksum_sum entry)
  have small: "\<not> n > 0x20" using n(3) by (simp add: not_less word_le_nat_alt)
  have el: "length entry = 32" using n(3) pt(1) by (simp add: entry)
  define t where "t = ''SMBIOS '' @ pu (buf ! 7) @ ''.'' @ pu (buf ! 8) @ ''.'' @ pu (buf ! 9)
    @ '' present.'' @ nl"
  define ver :: u32 where
    "ver = push_bit 16 (ucast (buf ! 7)) + push_bit 8 (ucast (buf ! 8)) + ucast (buf ! 9)"
  have "FLAG_FROM_DUMP (put_unless_quiet t s)" "\<not> FLAG_DUMP_BIN (put_unless_quiet t s)"
    using flags same_settings_flags [of s "put_unless_quiet t s"] by simp_all
  from dmi_table_from_dump [OF image(1) el image(2) len'(2) this, of shift o' 0 ver]
  obtain s1 where s1: "same_settings (put_unless_quiet t s) s1"
    "dmi_table shift (env_of os name o') 32 len' 0 ver 2 (put_unless_quiet t s) =
      map_option (\<lambda>t. s1\<lparr>es_table := t\<rparr>)
        (dmi_table_decode shift table (word_of_nat (length table)) 0 (ucast (drop_bit 8 ver)) 2 (es_table s1))"
    by blast
  have st: "same_settings s s1"
    using s1(1) same_settings_put(3) [of s t s] by (simp add: same_settings_def)
  have nd: "\<not> FLAG_DUMP_BIN (s1\<lparr>es_table := x\<rparr>)"
    if "dmi_table_decode shift table m 0 u 2 (es_table s1) = Some x" for x m u
    using dmi_table_decode_flags [OF that, of 4] st flags(2)
    by (simp add: FLAG_DUMP_BIN_def same_settings_def)
  have "smbios3_decode shift (env_of os name o') off64 entry 0 s =
    (dmi_table shift (env_of os name o') 32 len' 0 ver 2 (put_unless_quiet t s) \<bind>
      (\<lambda>s2. if FLAG_DUMP_BIN s2 then do {
             copy \<leftarrow> read_bytes entry 32;
             crafted \<leftarrow> overwrite_smbios3_address copy;
             let k = unat (crafted ! 0x06);
             let s3 = put_unless_quiet (writing k (env_of os name o')) s2;
             Some (True, s3\<lparr>es_writes := es_writes s3 @ [(0, take k crafted)]\<rparr>) }
           else Some (True, s2)))"
    unfolding smbios3_decode_def v(1) t_def ver_def Let_def bind.bind_lunit
    by (simp add: small ck' v w value64_32)
  also have "\<dots> = map_option (\<lambda>t. (True, s1\<lparr>es_table := t\<rparr>))
      (dmi_table_decode shift table (word_of_nat (length table)) 0 (ucast (drop_bit 8 ver)) 2 (es_table s1))"
    using nd by (simp add: s1(2) map_conv_bind_option) (simp split: Option.bind_split)
  finally show ?thesis using st unfolding smbios3_version_def ver_def by blast
qed

section \<open>Looking for an entry point\<close>

lemma rejected_keeps_dump:
  "smbios3_decode shift env off64 buf flags s = Some (False, s1) \<Longrightarrow> FLAG_DUMP_BIN s1 = FLAG_DUMP_BIN s"
  "smbios_decode shift env buf flags s = Some (False, s2) \<Longrightarrow> FLAG_DUMP_BIN s2 = FLAG_DUMP_BIN s"
  "legacy_decode shift env buf flags s = Some (False, s3) \<Longrightarrow> FLAG_DUMP_BIN s3 = FLAG_DUMP_BIN s"
  unfolding smbios3_decode_def smbios_decode_def legacy_decode_def Let_def
  by (auto simp only: Option.bind_eq_Some_conv option.inject prod.inject put_err_dump simp_thms
      put_unless_quiet_dump case_prod_beta split: if_splits)

lemma env_of_ok: "maps_whole os \<Longrightarrow> env_ok (env_of os name o')"
  using read_file_length mem_chunk_length by (fastforce simp: env_ok_def env_of_def)

lemma safe_starts [dmi_safe]: "safe (starts buf a) \<longleftrightarrow> length a \<le> length buf"
  by (simp add: starts_def dmi_safe)

lemma safe_decode_entry:
  assumes "32 \<le> length buf" and "env_ok env" and "FLAG_DUMP_BIN s" and "low_address_ok buf"
  shows "safe (decode_entry shift env off64 legacy buf flags size' s)"
proof -
  have "16 \<le> length buf" using assms(1) by simp
  then show ?thesis
    using assms safe_smbios3_decode [OF assms] safe_smbios_decode [OF assms(1-3)]
      safe_legacy_decode [OF _ assms(2,3), of buf]
    by (auto simp: decode_entry_def dmi_safe)
qed

text \<open>The EFI system table has no line without an equals sign and no negative address.\<close>

definition efi_ok :: "(string \<times> string) option \<Rightarrow> bool" where
  "efi_ok systab \<longleftrightarrow> (\<forall>name contents. systab = Some (name, contents) \<longrightarrow>
     (\<exists>r. efi_lines (fgets_lines contents) = Some r \<and> (\<forall>t a. r = Some (t, a) \<longrightarrow> 0 \<le> sint a)))"

definition addresses_low :: "os \<Rightarrow> string \<Rightarrow> bool" where
  "addresses_low os devmem \<longleftrightarrow> (\<forall>base n buf err k. mem_chunk os base n devmem = (Some buf, err) \<longrightarrow>
     low_address_ok (drop k buf))"

lemma addresses_lowD:
  "addresses_low os devmem \<Longrightarrow> mem_chunk os base n devmem = (Some buf, err) \<Longrightarrow> low_address_ok (drop k buf)"
  unfolding addresses_low_def by blast

text \<open>With a proper EFI system table the lookup returns, and an address it finds is not negative.\<close>

lemma address_from_efi_ok:
  assumes "efi_ok systab"
  obtains r out err where "address_from_efi systab q = Some (r, out, err)"
    and "\<And>a. r = EFI_ADDRESS a \<Longrightarrow> 0 \<le> sint a"
proof (cases systab)
  case None
  then show ?thesis by (intro that) (auto simp: address_from_efi_def)
next
  case (Some sc)
  obtain name contents where sc: "sc = (name, contents)" by (cases sc)
  with assms Some obtain r where "efi_lines (fgets_lines contents) = Some r"
    "\<forall>t a. r = Some (t, a) \<longrightarrow> 0 \<le> sint a" by (auto simp: efi_ok_def)
  then show ?thesis
    using Some sc by (cases r) (auto simp: address_from_efi_def intro: that)
qed

lemma scan_sm3_safe:
  assumes "length buf = 0x10000" and "env_ok env" and "\<And>k. low_address_ok (drop k buf)"
    and "FLAG_DUMP_BIN s" and "\<forall>fp\<in>set fps. fp \<le> 0xFFE0"
  shows "\<exists>r s'. scan_sm3 shift env off64 buf fps s = Some (r, s') \<and> (\<not> r \<longrightarrow> FLAG_DUMP_BIN s')"
  using assms(4,5)
proof (induction fps arbitrary: s)
  case (Cons fp fps)
  have len: "32 \<le> length (drop fp buf)" using assms(1) Cons.prems(2) by auto
  then obtain b where b: "starts (drop fp buf) ''_SM3_'' = Some b"
    using safe_starts [of "drop fp buf" "''_SM3_''"] by (auto simp: safe_def)
  obtain r s1 where r: "smbios3_decode shift env off64 (drop fp buf) 0 s = Some (r, s1)"
    using safe_smbios3_decode [OF len assms(2) Cons.prems(1) assms(3), of shift off64 0]
    by (auto simp: safe_def)
  with Cons.prems(1) have "\<not> r \<longrightarrow> FLAG_DUMP_BIN s1" using rejected_keeps_dump(1) by fastforce
  with Cons b r show ?case by auto
qed auto

lemma scan_sm_safe:
  assumes "length buf = 0x10000" and "env_ok env" and "FLAG_DUMP_BIN s" and "\<forall>fp\<in>set fps. fp \<le> 0xFFF0"
  shows "safe (scan_sm shift env buf fps s)"
  using assms(3,4)
proof (induction fps arbitrary: s)
  case (Cons fp fps)
  have len: "16 \<le> length (drop fp buf)" using assms(1) Cons.prems(2) by auto
  then obtain b d where b: "starts (drop fp buf) ''_SM_'' = Some b" "starts (drop fp buf) ''_DMI_'' = Some d"
    using safe_starts [of "drop fp buf" "''_SM_''"] safe_starts [of "drop fp buf" "''_DMI_''"]
    by (auto simp: safe_def)
  have sm: "safe (smbios_decode shift env (drop fp buf) 0 s)" if "fp \<le> 0xFFE0"
    using that assms(1) by (intro safe_smbios_decode [OF _ assms(2) Cons.prems(1)]) simp
  have lg: "safe (legacy_decode shift env (drop fp buf) 0 s)"
    by (rule safe_legacy_decode [OF len assms(2) Cons.prems(1)])
  have "safe (scan_sm shift env buf fps s1)" if "FLAG_DUMP_BIN s1" for s1
    using Cons that by simp
  with b sm lg Cons.prems(1) rejected_keeps_dump(2,3) show ?case
    by (auto simp: dmi_safe split: prod.splits)
qed simp

lemma memory_scan_safe:
  assumes "length buf = 0x10000" and "env_ok env" and "\<And>k. low_address_ok (drop k buf)" and "FLAG_DUMP_BIN s"
  shows "safe (memory_scan shift env off64 buf s)"
proof -
  obtain r s' where "scan_sm3 shift env off64 buf (map (\<lambda>k. 16 * k) [0..<0xFFF]) s = Some (r, s')"
    "\<not> r \<longrightarrow> FLAG_DUMP_BIN s'"
    using scan_sm3_safe [OF assms, of "map (\<lambda>k. 16 * k) [0..<0xFFF]" shift off64] by auto
  then show ?thesis
    using scan_sm_safe [OF assms(1,2), of s' "map (\<lambda>k. 16 * k) [0..<0x1000]" shift]
    by (auto simp: memory_scan_def simp del: upt_Suc)
qed

lemma finish_status: "fst (finish x) \<le> 1"
  by (simp add: finish_def split: prod.split)

lemma from_memory_dump:
  assumes "maps_whole os" and "addresses_low os (mo_devmem o')" and "FLAG_DUMP_BIN s"
  shows "\<exists>r s'. from_memory shift os off64 o' s = Some (r, s') \<and> r \<le> 1"
proof -
  obtain b e where m: "mem_chunk os 0xF0000 0x10000 (mo_devmem o') = (b, e)" by fastforce
  define s1 where "s1 = put_err e (put_unless_quiet (''Scanning '' @ mo_devmem o'
    @ '' for entry point.'' @ nl) s)"
  show ?thesis
  proof (cases b)
    case None
    then show ?thesis by (simp add: from_memory_def m)
  next
    case (Some buf)
    have "length buf = 0x10000" using mem_chunk_length [OF assms(1) _ m [unfolded Some]] by simp
    moreover have "FLAG_DUMP_BIN s1" using assms(3) by (simp add: s1_def)
    ultimately obtain x where
      x: "memory_scan shift (env_of os (mo_devmem o') o') off64 buf s1 = Some x"
      using memory_scan_safe [OF _ env_of_ok [OF assms(1)] addresses_lowD [OF assms(2) m [unfolded Some]]]
      by (metis safe_def not_None_eq)
    then have "from_memory shift os off64 o' s = Some (finish x)"
      unfolding from_memory_def Let_def m Some by (simp add: s1_def)
    with finish_status [of x] show ?thesis by (metis prod.collapse)
  qed
qed

lemma from_efi_dump:
  assumes "maps_whole os" and "addresses_low os (mo_devmem o')" and "FLAG_DUMP_BIN s" and "0 \<le> sint fp"
  shows "\<exists>r s'. from_efi shift os off64 o' fp s = Some (r, s') \<and> r \<le> 1"
proof -
  obtain b e where m: "mem_chunk os (sint fp) 0x20 (mo_devmem o') = (b, e)" by fastforce
  define s1 where "s1 = put_err e (put_unless_quiet (''Found SMBIOS entry point in EFI, reading table from ''
    @ mo_devmem o' @ ''.'' @ nl) s)"
  show ?thesis
  proof (cases b)
    case None
    then show ?thesis by (simp add: from_efi_def m)
  next
    case (Some buf)
    have "32 \<le> length buf" using mem_chunk_length [OF assms(1,4) m [unfolded Some]] by simp
    moreover have "FLAG_DUMP_BIN s1" using assms(3) by (simp add: s1_def)
    moreover have "low_address_ok buf"
      using addresses_lowD [OF assms(2) m [unfolded Some], of 0] by simp
    ultimately obtain x where
      x: "decode_entry shift (env_of os (mo_devmem o') o') off64 False buf 0 0x20 s1 = Some x"
      using safe_decode_entry [OF _ env_of_ok [OF assms(1)]] by (metis safe_def not_None_eq)
    then have "from_efi shift os off64 o' fp s = Some (finish x)"
      unfolding from_efi_def Let_def m Some by (simp add: s1_def)
    with finish_status [of x] show ?thesis by (metis prod.collapse)
  qed
qed

section \<open>Properties\<close>

text \<open>
  C9. A binary dump is a faithful copy: if a 64-bit entry point whose length byte is at least 24 is
  accepted with \<^verbatim>\<open>--dump-bin\<close> and its table, not empty and at an address below 2^63, is written, then
  reading the dump back with \<^verbatim>\<open>--from-dump\<close> accepts the patched entry point and runs the table
  decoder on exactly the table bytes that were dumped, with the version of the original entry point
  and the user's own settings. (\<^verbatim>\<open>smbios3_decode\<close> accepts shorter entry points too and writes only
  that many bytes of the patched one, which loses the table address and its part of the checksum,
  so their dumps need not be readable.)
\<close>

theorem dump_roundtrip:
  assumes "smbios3_decode shift env off64 buf flags s = Some (True, s')"
    and "starts buf ''_SM3_'' = Some True" and "24 \<le> unat (buf ! 6)"
    and "FLAG_DUMP_BIN s" and "es_writes s = []" and "env_ok env" and "low_address_ok buf"
    and "es_writes s' = [(32, table), e]" and "table \<noteq> []"
    and "dump_contents (es_writes s') = Some c"
    and "honest_file (os_files os (mo_dumpfile o')) c" and "0 < os_pagesize os"
    and "FLAG_FROM_DUMP s0" and "\<not> FLAG_DUMP_BIN s0"
  shows "\<exists>s1. same_settings s0 s1 \<and>
    from_dump shift' os off64' o' s0 =
      map_option (\<lambda>t. (0, s1\<lparr>es_table := t\<rparr>))
        (dmi_table_decode shift' table (word_of_nat (length table)) 0 (smbios3_version buf) 2 (es_table s1))"
proof -
  from assms(1,4,6,7,5,8) obtain n crafted len' where
    n: "rd buf 6 = Some n" "unat n \<le> 32" "checksum buf (unat n) = Some True" "32 \<le> length buf"
      "overwrite_smbios3_address (take 32 buf) = Some crafted"
      "e = (0, take (unat n) crafted)" "DWORD buf 0x0C = Some len'" "length table \<le> unat len'"
    by (rule smbios3_dump_writes) blast
  have n24: "24 \<le> unat n" using n(1) assms(3) by (simp add: rd_def split: if_splits)
  have lc: "length (take 32 buf) = 32" using n(4) by simp
  note pt = patched_smbios3 [OF n(5) lc]
  define entry where "entry = take (unat n) crafted @ replicate (32 - unat n) 0"
  have el: "length entry = 32" using n(2) pt(1) by (simp add: entry_def)
  have "length (take (unat n) crafted) = unat n" "crafted \<noteq> []" using n(2) pt(1) by auto
  then have c: "c = entry @ table"
    using assms(8,9,10) n24 n(2) dump_contents_two [of table "take (unat n) crafted"]
    by (auto simp: n(6) entry_def)
  note file' = assms(11) [unfolded c]
  have mem: "mem_chunk os 0 0x20 (mo_dumpfile o') = (Some entry, [])"
    using honest_file.mem_chunk_contents [OF file' refl _ assms(12), of 0 "0x20"] el by simp
  have "take 5 entry = take 5 crafted" using n24 n(2) pt(1) by (simp add: entry_def)
  also have "\<dots> = take 5 buf" using pt(2) by simp
  finally have sm3: "starts entry ''_SM3_'' = Some True"
    using assms(2) el n(4) by (simp add: starts_def read_bytes_def eval_nat_numeral)
  define s2 where "s2 = put_err [] (put_unless_quiet (''Reading SMBIOS/DMI data from file ''
    @ mo_dumpfile o' @ ''.'' @ nl) s0)"
  have s2: "same_settings s0 s2" by (simp add: s2_def)
  from smbios3_from_dump [OF n(4,1) n24 n(2,3,5,7,8) entry_def file' assms(9), of s2 shift' o' off64']
    same_settings_flags [OF s2] assms(13,14)
  obtain s1 where s1: "same_settings s2 s1"
    "smbios3_decode shift' (env_of os (mo_dumpfile o') o') off64' entry 0 s2 =
      map_option (\<lambda>t. (True, s1\<lparr>es_table := t\<rparr>))
        (dmi_table_decode shift' table (word_of_nat (length table)) 0 (smbios3_version buf) 2 (es_table s1))"
    by blast
  have "from_dump shift' os off64' o' s0 = map_option finish
      (smbios3_decode shift' (env_of os (mo_dumpfile o') o') off64' entry 0 s2)"
    by (simp add: from_dump_def mem decode_entry_def sm3 s2_def)
  then show ?thesis
    using s1 s2 by (auto simp: option.map_comp comp_def finish_def same_settings_def)
qed

definition sample_entry :: "u8 list" where
  "sample_entry = [95, 83, 77, 51, 95, 59, 24, 3, 2, 0, 1, 0, 6, 0, 0, 0, 0, 16, 0, 0, 0, 0, 0, 0, 0, 0, 0, 0, 0, 0, 0, 0]"

definition sample_table :: "u8 list" where
  "sample_table = [127, 4, 0, 0, 0, 0]"

definition table_env :: entry_env where
  "table_env = \<lparr>env_read_file = (\<lambda>base n. (min n 6, Some (take n sample_table), [])),
     env_mem_chunk = (\<lambda>base n. (if n = 6 then Some sample_table else None, [])), env_dumpfile = ''dmi.bin''\<rparr>"

definition sample_dump :: "u8 list" where
  "sample_dump = [95, 83, 77, 51, 95, 43, 24, 3, 2, 0, 1, 0, 6, 0, 0, 0, 32, 0, 0, 0, 0, 0, 0, 0] @ replicate 8 0 @ sample_table"

definition read_opt :: main_opt where
  "read_opt = default_main_opt\<lparr>opt_flags := 32, mo_dumpfile := ''dmi.bin''\<rparr>"

definition sample_os :: os where
  "sample_os = \<lparr>os_files = (\<lambda>name. plain_file sample_dump), os_pagesize = 4096\<rparr>"

lemma sample_entry_reads:
  "rd sample_entry 6 = Some 24" "rd sample_entry 7 = Some 3" "rd sample_entry 8 = Some 2"
  "rd sample_entry 9 = Some 0" "DWORD sample_entry 0x0C = Some 6"
  "QWORD sample_entry 0x10 = Some \<lparr>lo32 = 4096, hi32 = 0\<rparr>"
  "checksum sample_entry 24 = Some True" "read_bytes sample_entry 32 = Some sample_entry"
  "overwrite_smbios3_address sample_entry = Some (take 24 sample_dump @ replicate 8 0)"
  by code_simp+

lemma sample_table_written:
  "\<exists>s2. dmi_table (\<lambda>n. 0) table_env 4096 6 0 ver 2 (put_unless_quiet t dump_state) = Some s2
     \<and> FLAG_DUMP_BIN s2 \<and> es_writes s2 = [(32, sample_table)]"
proof -
  let ?s = "put_unless_quiet t dump_state"
  have "\<not> FLAG_FROM_DUMP dump_state" by (simp add: FLAG_FROM_DUMP_def dump_state_def bit_numeral_rec)
  then have "\<not> FLAG_FROM_DUMP ?s" using same_settings_flags(2) [of dump_state ?s] by simp
  moreover have "env_mem_chunk table_env 4096 6 = (Some sample_table, [])" by (simp add: table_env_def)
  moreover have "read_bytes sample_table 6 = Some sample_table" by (simp add: read_bytes_def sample_table_def)
  moreover have "es_writes dump_state = []" by (simp add: dump_state_def)
  ultimately have "\<exists>s2. dmi_table (\<lambda>n. 0) table_env 4096 6 0 ver 2 ?s = Some s2
      \<and> es_writes s2 = [(32, sample_table)]"
    using dump_state_bin by (simp add: dmi_table_def Let_def dmi_table_dump_def bit_numeral_rec)
  moreover have "FLAG_DUMP_BIN ?s" using dump_state_bin by simp
  ultimately show ?thesis using dmi_table_keeps_dump by blast
qed

lemma sample_dump_writes:
  "\<exists>s'. smbios3_decode (\<lambda>n. 0) table_env True sample_entry 0 dump_state = Some (True, s')
     \<and> es_writes s' = [(32, sample_table), (0, take 24 sample_dump)]"
proof -
  define t where "t = ''SMBIOS '' @ pu (3 :: u8) @ ''.'' @ pu (2 :: u8) @ ''.'' @ pu (0 :: u8)
    @ '' present.'' @ nl"
  obtain s2 where "dmi_table (\<lambda>n. 0) table_env 4096 6 0 0x030200 2 (put_unless_quiet t dump_state) = Some s2"
    "FLAG_DUMP_BIN s2" "es_writes s2 = [(32, sample_table)]"
    using sample_table_written by blast
  moreover have "unat ((take 24 sample_dump @ replicate 8 0) ! 6) = 24"
    "take 24 (take 24 sample_dump @ replicate 8 0) = take 24 sample_dump" by code_simp+
  ultimately show ?thesis
    unfolding smbios3_decode_def sample_entry_reads bind.bind_lunit Let_def t_def
    by (simp add: sample_entry_reads value64_def)
qed

lemma table_env_ok: "env_ok table_env"
  by (auto simp: env_ok_def table_env_def sample_table_def split: if_splits)

lemma sample_entry_low: "low_address_ok sample_entry"
  by (simp add: low_address_ok_def value64_def sample_entry_reads)

lemma sample_dump_contents:
  "dump_contents [(32, sample_table), (0, take 24 sample_dump)] = Some sample_dump"
  by (simp add: dump_contents_two sample_table_def sample_dump_def)

theorem dump_roundtrip_witness:
  "\<exists>s1. from_dump (\<lambda>n. 0) sample_os True read_opt (start_state read_opt []) =
      map_option (\<lambda>t. (0, s1\<lparr>es_table := t\<rparr>))
        (dmi_table_decode (\<lambda>n. 0) sample_table 6 0 (smbios3_version sample_entry) 2 (es_table s1))"
proof -
  obtain s' where s': "smbios3_decode (\<lambda>n. 0) table_env True sample_entry 0 dump_state = Some (True, s')"
    "es_writes s' = [(32, sample_table), (0, take 24 sample_dump)]"
    using sample_dump_writes by blast
  have sm3: "starts sample_entry ''_SM3_'' = Some True" "24 \<le> unat (sample_entry ! 6)" by code_simp+
  have flags: "FLAG_FROM_DUMP (start_state read_opt [])" "\<not> FLAG_DUMP_BIN (start_state read_opt [])"
    by code_simp+
  have "es_writes dump_state = []" by (simp add: dump_state_def)
  moreover have "sample_table \<noteq> []" by (simp add: sample_table_def)
  moreover have "dump_contents (es_writes s') = Some sample_dump"
    unfolding s'(2) by (rule sample_dump_contents)
  moreover have "honest_file (os_files sample_os (mo_dumpfile read_opt)) sample_dump"
    using honest_plain [of sample_dump] by (simp add: sample_os_def sample_dump_def sample_table_def)
  moreover have "0 < os_pagesize sample_os" by (simp add: sample_os_def)
  ultimately show ?thesis
    using dump_roundtrip [OF s'(1) sm3 dump_state_bin _ table_env_ok sample_entry_low s'(2), of
        sample_dump sample_os read_opt "start_state read_opt []" "\<lambda>n. 0" True] flags
    by (auto simp: sample_table_def)
qed

text \<open>
  Making a binary dump (\<^verbatim>\<open>--dump-bin\<close> with \<^verbatim>\<open>--no-sysfs\<close>) from physical memory ends with exit
  status 0 or 1 and never reads outside the buffers that were read from the device, whatever
  entry points and tables the memory holds and however reads fail, as long as the announced
  addresses are below 2 ^ 63 and the EFI system table, if there is one, has an equals sign in
  every line.
\<close>

theorem dump_bin_stays_inside:
  assumes "maps_whole os" and "bit (opt_flags o') 4" and "\<not> bit (opt_flags o') 5" and "bit (opt_flags o') 6"
    and "efi_ok systab" and "addresses_low os (mo_devmem o')"
  shows "\<exists>r s. dmidecode_run shift os off64 systab o' (start_state o' err) = Some (r, s) \<and> r \<le> 1"
proof -
  let ?s = "put_unless_quiet (''# dmidecode '' @ VERSION @ nl) (start_state o' err)"
  have "FLAG_DUMP_BIN (start_state o' err)"
    using assms(2) by (simp add: FLAG_DUMP_BIN_def start_state_def opt.defs)
  then have "FLAG_DUMP_BIN ?s" by simp
  then have bin: "FLAG_DUMP_BIN (put_err e (put t ?s))" for e t
    by (simp add: FLAG_DUMP_BIN_def put_def put_err_def)
  obtain r out e where r: "address_from_efi systab (quiet ?s) = Some (r, out, e)"
    "\<And>a. r = EFI_ADDRESS a \<Longrightarrow> 0 \<le> sint a"
    by (rule address_from_efi_ok [OF assms(5), where q = "quiet ?s"]) blast
  have "dmidecode_run shift os off64 systab o' (start_state o' err) =
    (case r of EFI_NOT_FOUND \<Rightarrow> from_memory shift os off64 o' (put_err e (put out ?s))
     | EFI_NO_SMBIOS \<Rightarrow> Some (1, put_err e (put out ?s))
     | EFI_ADDRESS fp \<Rightarrow> from_efi shift os off64 o' fp (put_err e (put out ?s)))"
    using assms(3,4) r(1) by (simp add: dmidecode_run_def Let_def del: append_Cons append_Nil)
  then show ?thesis
    using from_memory_dump [OF assms(1,6) bin] from_efi_dump [OF assms(1,6) bin] r(2)
    by (cases r) (simp_all only: efi_result.case, auto)
qed

definition empty_os :: os where
  "empty_os = \<lparr>os_files = \<lambda>name. (plain_file [])\<lparr>fo_mmap := \<lambda>b n. None\<rparr>, os_pagesize = 4096\<rparr>"

lemma empty_os_ok: "maps_whole empty_os" "addresses_low empty_os name"
proof -
  show "maps_whole empty_os" by (simp add: maps_whole_def empty_os_def)
  have "buf = []" if "mem_chunk empty_os base n name = (Some buf, err)" for base n buf err
    using that by (auto simp: mem_chunk_def empty_os_def plain_file_def seek_and_read_def myread_def
        Let_def split: if_splits prod.splits)
  then show "addresses_low empty_os name"
    by (fastforce simp: addresses_low_def low_address_ok_def QWORD_def DWORD_def rd_def)
qed

theorem dump_bin_stays_inside_witness:
  "\<exists>r s. dmidecode_run (\<lambda>n. 0) empty_os True
      (Some (''/sys/firmware/efi/systab'', ''ACPI20=0x8cb00014'' @ nl @ ''SMBIOS=0xf0480'' @ nl))
      (default_main_opt\<lparr>opt_flags := 80\<rparr>) (start_state (default_main_opt\<lparr>opt_flags := 80\<rparr>) []) = Some (r, s)
    \<and> r \<le> 1"
proof (rule dump_bin_stays_inside [OF empty_os_ok(1)])
  have "efi_lines (fgets_lines (''ACPI20=0x8cb00014'' @ nl @ ''SMBIOS=0xf0480'' @ nl)) =
      Some (Some (''SMBIOS'', 0xf0480))"
  proof -
    have lines: "fgets_lines (''ACPI20=0x8cb00014'' @ nl @ ''SMBIOS=0xf0480'' @ nl) =
        [''ACPI20=0x8cb00014'' @ nl, ''SMBIOS=0xf0480'' @ nl]" by code_simp
    have "fst (strtoul (''0xf0480'' @ nl) 0) = 0xf0480"
      by (simp add: strtoul_def strtoul_sign_def strtoul_base_def hex_prefix_def digit_val_def
          digits_value_def isspace_def)
    then show ?thesis unfolding lines by simp
  qed
  then show "efi_ok (Some (''/sys/firmware/efi/systab'', ''ACPI20=0x8cb00014'' @ nl @ ''SMBIOS=0xf0480'' @ nl))"
    by (simp add: efi_ok_def)
qed (simp_all add: empty_os_ok bit_numeral_rec)

text \<open>
  The EFI lookup writes through a null pointer when a line of the system table that it
  reaches has no equals sign: this happens for an empty line and for the second part of a line
  of more than 62 characters.
\<close>

theorem efi_line_without_equals:
  assumes "\<forall>l\<in>set before. CHR ''='' \<in> set l \<and> takeWhile (\<lambda>c. c \<noteq> CHR ''='') l \<notin> {''SMBIOS'', ''SMBIOS3''}"
    and "CHR ''='' \<notin> set bad" and "fgets_lines contents = before @ bad # rest"
  shows "address_from_efi (Some (filename, contents)) q = None"
proof -
  have "efi_lines (before @ bad # rest) = None"
    using assms(1,2) by (induction before) (auto simp: Let_def)
  then show ?thesis by (simp add: address_from_efi_def assms(3))
qed

theorem efi_line_without_equals_witness:
  "address_from_efi (Some (''/sys/firmware/efi/systab'', ''ACPI20=0x8cb00014'' @ nl @ nl @ ''SMBIOS=0xf0480'' @ nl)) False
     = None"
proof (rule efi_line_without_equals)
  show "fgets_lines (''ACPI20=0x8cb00014'' @ nl @ nl @ ''SMBIOS=0xf0480'' @ nl) =
      [''ACPI20=0x8cb00014'' @ nl] @ nl # [''SMBIOS=0xf0480'' @ nl]"
    by code_simp
qed simp_all

end
