(* ===== verification/Vpd_Decode.thy ===== *)
theory Vpd_Decode
  imports Dmi_Util Dmi_Oem
begin

text \<open>
  The program vpddecode (vpddecode.c and vpdopt.c): it looks for IBM vital product data
  records in the BIOS area, at every fourth address, and prints or dumps them.

  The scan has a fixed number of rounds, so the program always ends. The theorem says that it
  never reads outside the memory and that its standard output holds printable characters
  only, whatever the firmware has put into the record.
\<close>

unbundle bit_operations_syntax

section \<open>Command line\<close>

record vpd_keyword =
  vk_name :: string
  vk_offset :: nat
  vk_len :: nat

record vpd_opt =
  vo_devmem :: string
  vo_flags :: u32
  vo_string :: "vpd_keyword option"

definition vpd_string_keyword :: "vpd_keyword list" where
  "vpd_string_keyword =
     [\<lparr>vk_name = ''bios-build-id'', vk_offset = 0x0D, vk_len = 9\<rparr>,
      \<lparr>vk_name = ''box-serial-number'', vk_offset = 0x16, vk_len = 7\<rparr>,
      \<lparr>vk_name = ''motherboard-serial-number'', vk_offset = 0x1D, vk_len = 11\<rparr>,
      \<lparr>vk_name = ''machine-type-model'', vk_offset = 0x28, vk_len = 7\<rparr>,
      \<lparr>vk_name = ''bios-release-date'', vk_offset = 0x30, vk_len = 8\<rparr>]"

definition vpd_print_opt_string_list :: string where
  "vpd_print_opt_string_list =
     ''Valid string keywords are:'' @ nl
     @ concat (map (\<lambda>k. ''  '' @ vk_name k @ nl) vpd_string_keyword)"

text \<open>The options after a successful parse, or \<open>None\<close> for -1, and the messages.\<close>

definition vpd_parse_opt_string :: "string \<Rightarrow> vpd_opt \<Rightarrow> vpd_opt option \<times> string" where
  "vpd_parse_opt_string arg o' =
     (if vo_string o' \<noteq> None then (None, ''Only one string can be specified'' @ nl)
      else case find (\<lambda>k. strcaseeq arg (vk_name k)) vpd_string_keyword of
             Some k \<Rightarrow> (Some (o'\<lparr>vo_string := Some k\<rparr>), [])
           | None \<Rightarrow> (None, ''Invalid string keyword: '' @ arg @ nl @ vpd_print_opt_string_list))"

definition vpddecode_short :: short_table where
  "vpddecode_short =
     [(CHR ''d'', True), (CHR ''h'', False), (CHR ''s'', True), (CHR ''u'', False), (CHR ''V'', False)]"

definition vpddecode_long :: long_table where
  "vpddecode_long =
     [(''dev-mem'', True, CHR ''d''), (''help'', False, CHR ''h''), (''string'', True, CHR ''s''),
      (''dump'', False, CHR ''u''), (''version'', False, CHR ''V'')]"

fun vpd_parse_loop :: "getopt_result list \<Rightarrow> vpd_opt \<Rightarrow> vpd_opt option \<times> string" where
  "vpd_parse_loop [] o' = (Some o', [])"
| "vpd_parse_loop (Badopt c msg # rs) o' =
     (None, msg @ (if c = CHR ''s'' then ''String keyword expected'' @ nl @ vpd_print_opt_string_list else []))"
| "vpd_parse_loop (Optval c a # rs) o' =
     (if c = CHR ''s'' then
        (case vpd_parse_opt_string a o' of
           (None, err) \<Rightarrow> (None, err)
         | (Some o1, err) \<Rightarrow> vpd_parse_loop rs (o1\<lparr>vo_flags := vo_flags o1 OR 8\<rparr>))
      else vpd_parse_loop rs
        (if c = CHR ''d'' then o'\<lparr>vo_devmem := a\<rparr>
         else if c = CHR ''h'' then o'\<lparr>vo_flags := vo_flags o' OR 2\<rparr>
         else if c = CHR ''u'' then o'\<lparr>vo_flags := vo_flags o' OR 4\<rparr>
         else if c = CHR ''V'' then o'\<lparr>vo_flags := vo_flags o' OR 1\<rparr>
         else o'))"

definition vpd_parse_command_line ::
  "string \<Rightarrow> string list \<Rightarrow> vpd_opt \<Rightarrow> vpd_opt option \<times> string" where
  "vpd_parse_command_line argv0 args o' =
     (case vpd_parse_loop (getopt_long argv0 vpddecode_short vpddecode_long args) o' of
        (None, err) \<Rightarrow> (None, err)
      | (Some o1, err) \<Rightarrow>
          if bit (vo_flags o1) 2 \<and> vo_string o1 \<noteq> None then
            (None, err @ ''Options --string and --dump are mutually exclusive'' @ nl)
          else (Some o1, err))"

definition vpddecode_help :: string where
  "vpddecode_help =
     ''Usage: vpddecode [OPTIONS]'' @ nl @ ''Options are:'' @ nl
     @ '' -d, --dev-mem FILE     Read memory from device FILE (default: '' @ DEFAULT_MEM_DEV @ '')'' @ nl
     @ '' -h, --help             Display this help text and exit'' @ nl
     @ '' -s, --string KEYWORD   Only display the value of the given VPD string'' @ nl
     @ '' -u, --dump             Do not decode the VPD records'' @ nl
     @ '' -V, --version          Display the version and exit'' @ nl"

section \<open>Records\<close>

definition vpd_filter :: "u8 \<Rightarrow> string" where
  "vpd_filter b = (if 32 \<le> b \<and> b < 127 then [char_of_byte b] else if b \<noteq> 0 then ''.'' else [])"

definition print_entry :: "string option \<Rightarrow> u8 list \<Rightarrow> nat \<Rightarrow> string option" where
  "print_entry name p n = do {
     bs \<leftarrow> read_bytes p n;
     Some ((case name of None \<Rightarrow> [] | Some s \<Rightarrow> s @ '': '') @ concat (map vpd_filter bs) @ nl) }"

definition dump_row :: "u8 list \<Rightarrow> nat \<Rightarrow> nat \<Rightarrow> string option" where
  "dump_row p n done' = do {
     bs \<leftarrow> read_bytes (drop done' p) (min (n - done') 16);
     Some (pad0 2 (hex True done') @ '':'' @ concat (map (\<lambda>b. '' '' @ pX 2 b) bs)
       @ concat (replicate (16 - length bs) ''   '') @ ''     ''
       @ map (\<lambda>b. if 32 \<le> b \<and> b < 127 then char_of_byte b else CHR ''.'') bs @ nl) }"

definition vpd_dump :: "u8 list \<Rightarrow> u8 \<Rightarrow> string option" where
  "vpd_dump p n = for_lines 0 ((unat n + 15) div 16) (\<lambda>k. dump_row p (unat n) (16 * k))"

text \<open>Whether one of the three checksums is right; they are tried in turn.\<close>

definition vpd_checksum :: "u8 list \<Rightarrow> u8 \<Rightarrow> bool option" where
  "vpd_checksum p n = do {
     long \<leftarrow> (if n \<ge> 0x45 then checksum p (unat n) else Some False);
     netvista \<leftarrow> (if long then Some True else checksum p 0x30);
     if netvista then Some True else checksum (drop 0x0D p) (0x30 - 0x0D) }"

text \<open>What is printed for a record of length \<open>n\<close>: one string, or all of them.\<close>

definition vpd_entries :: "vpd_opt \<Rightarrow> u8 list \<Rightarrow> u8 \<Rightarrow> string option" where
  "vpd_entries o' p n =
     (case vo_string o' of
        Some k \<Rightarrow>
          if vk_offset k + vk_len k < unat n
          then print_entry None (drop (vk_offset k) p) (vk_len k) else nothing
      | None \<Rightarrow> prints
         [print_entry (Some ''BIOS Build ID'') (drop 0x0D p) 9,
          print_entry (Some ''Box Serial Number'') (drop 0x16 p) 7,
          print_entry (Some ''Motherboard Serial Number'') (drop 0x1D p) 11,
          print_entry (Some ''Machine Type/Model'') (drop 0x28 p) 7,
          if n < 0x44 then nothing
          else prints
           [print_entry (Some ''BIOS Release Date'') (drop 0x30 p) 8,
            print_entry (Some ''Default Flash Image File Name'') (drop 0x38 p) 12,
            if n \<ge> 0x46 then do {
              r \<leftarrow> rd p 0x44;
              if r \<noteq> 0 then line (''BIOS Revision: '' @ pu r) else nothing }
            else nothing]])"

definition vpddecode_decode :: "vpd_opt \<Rightarrow> u8 list \<Rightarrow> (bool \<times> string) option" where
  "vpddecode_decode o' p = do {
     n \<leftarrow> rd p 5;
     if n < 0x30 then Some (False, [])
     else do {
       ok \<leftarrow> vpd_checksum p n;
       out \<leftarrow> vpd_entries o' p n;
       Some (True, (if \<not> ok \<and> \<not> bit (vo_flags o') 3 then ''# Bad checksum!'' @ nl else []) @ out) } }"

section \<open>Main\<close>

text \<open>
  One address of the scan: whether a record was found, and the text. The comparison with the
  end of the area is on unsigned 32-bit numbers.
\<close>

definition vpd_at :: "vpd_opt \<Rightarrow> u8 list \<Rightarrow> nat \<Rightarrow> (bool \<times> string) option" where
  "vpd_at o' buf fp = (let p = drop fp buf in do {
     a \<leftarrow> read_bytes p 5;
     if a \<noteq> [0xAA, 0x55] @ bytes_of ''VPD'' then Some (False, [])
     else do {
       n \<leftarrow> rd p 5;
       if \<not> (word_of_nat fp + ucast n - 1 :: u32) \<le> 0xFFFF then Some (False, [])
       else do {
         let head = (if fp mod 16 \<noteq> 0 \<and> \<not> bit (vo_flags o') 3
                     then ''# Unaligned address (0x'' @ hex False (0xf0000 + fp) @ '')'' @ nl else []);
         (found, out) \<leftarrow> (if bit (vo_flags o') 2 then map_option (Pair True) (vpd_dump p n)
                          else vpddecode_decode o' p);
         Some (found, head @ out) } } })"

fun vpd_scan :: "vpd_opt \<Rightarrow> u8 list \<Rightarrow> nat list \<Rightarrow> (bool \<times> string) option" where
  "vpd_scan o' buf [] = Some (False, [])"
| "vpd_scan o' buf (fp # fps) = do {
     (found, t) \<leftarrow> vpd_at o' buf fp;
     (found', t') \<leftarrow> vpd_scan o' buf fps;
     Some (found \<or> found', t @ t') }"

definition vpddecode_main :: "os \<Rightarrow> string \<Rightarrow> string list \<Rightarrow> program option" where
  "vpddecode_main os argv0 args =
     (case vpd_parse_command_line argv0 args \<lparr>vo_devmem = DEFAULT_MEM_DEV, vo_flags = 0, vo_string = None\<rparr> of
        (None, err) \<Rightarrow> Some \<lparr>exit_status = 2, p_out = [], p_err = err\<rparr>
      | (Some o', err) \<Rightarrow>
          if bit (vo_flags o') 1 then Some \<lparr>exit_status = 0, p_out = vpddecode_help, p_err = err\<rparr>
          else if bit (vo_flags o') 0 then Some \<lparr>exit_status = 0, p_out = VERSION @ nl, p_err = err\<rparr>
          else
            (let quiet = bit (vo_flags o') 3;
                 head = (if quiet then [] else ''# vpddecode '' @ VERSION @ nl)
             in case mem_chunk os 0xF0000 0x10000 (vo_devmem o') of
                  (None, err') \<Rightarrow> Some \<lparr>exit_status = 1, p_out = head, p_err = err @ err'\<rparr>
                | (Some buf, err') \<Rightarrow> do {
                    (found, out) \<leftarrow> vpd_scan o' buf (map (\<lambda>k. 4 * k) [0..<0x3FFD]);
                    Some \<lparr>exit_status = 0,
                          p_out = head @ out @ (if \<not> found \<and> \<not> quiet
                                    then ''# No VPD structure found, sorry.'' @ nl else []),
                          p_err = err @ err'\<rparr> }))"

section \<open>Reads and output\<close>

definition printable :: "char \<Rightarrow> bool" where
  "printable c \<longleftrightarrow> c = CHR 0x0A \<or> (32 \<le> (of_char c :: nat) \<and> (of_char c :: nat) < 127)"

lemma printable_Char [simp]:
  "printable (Char b0 b1 b2 b3 b4 b5 b6 b7) \<longleftrightarrow>
     \<not> b7 \<and> (b5 \<or> b6) \<and> \<not> (b0 \<and> b1 \<and> b2 \<and> b3 \<and> b4 \<and> b5 \<and> b6)
     \<or> \<not> b0 \<and> b1 \<and> \<not> b2 \<and> b3 \<and> \<not> b4 \<and> \<not> b5 \<and> \<not> b6 \<and> \<not> b7"
  by (cases b0; cases b1; cases b2; cases b3; cases b4; cases b5; cases b6; cases b7;
      simp add: printable_def)

abbreviation clean :: "string \<Rightarrow> bool" where
  "clean s \<equiv> list_all printable s"

text \<open>\<open>prints_clean m\<close>: no read is outside the memory and the text is printable.\<close>

definition prints_clean :: "string option \<Rightarrow> bool" where
  "prints_clean m \<longleftrightarrow> (\<exists>s. m = Some s \<and> clean s)"

named_theorems clean_out

lemma prints_clean_Some [clean_out]: "prints_clean (Some s) \<longleftrightarrow> clean s"
  by (simp add: prints_clean_def)

lemma prints_clean_prints [clean_out]:
  "prints_clean (prints []) \<longleftrightarrow> True"
  "prints_clean x \<Longrightarrow> prints_clean (prints xs) \<Longrightarrow> prints_clean (prints (x # xs))"
  by (auto simp: prints_clean_def prints.simps)

lemma printable_digit: "d < 10 \<Longrightarrow> printable (digit d)"
  by (simp add: printable_def digit_def)

lemma clean_dec [clean_out]: "clean (dec n)"
  using dec_digits printable_digit by (fastforce simp: list_all_iff)

lemma printable_hex_digit: "d < 16 \<Longrightarrow> printable (hex_digit u d)"
  by (auto simp: hex_digit_def printable_digit) (auto simp: printable_def)

lemma clean_hex [clean_out]: "clean (hex u n)"
proof (induction u n rule: hex.induct)
  case (1 u n)
  then show ?case
    by (subst hex.simps) (auto simp: printable_hex_digit)
qed

lemma clean_pad0 [clean_out]: "clean (pad0 w s) \<longleftrightarrow> clean s"
  by (auto simp: pad0_def list_all_iff)

lemma clean_pX [clean_out]: "clean (pX w x)" "clean (pu y)"
  by (simp_all add: pX_def pu_def clean_out)

lemma printable_byte: "32 \<le> b \<Longrightarrow> b < 127 \<Longrightarrow> printable (char_of_byte b)"
  by (simp add: printable_def char_of_byte_def word_le_nat_alt word_less_nat_alt)

lemma clean_filter [clean_out]: "clean (vpd_filter b)"
  by (simp add: vpd_filter_def printable_byte)

lemma clean_concat: "(\<And>x. clean (f x)) \<Longrightarrow> clean (concat (map f xs))"
  by (auto simp: list_all_iff)

lemma print_entry_clean [clean_out]:
  "n \<le> length p \<Longrightarrow> (\<And>s. name = Some s \<Longrightarrow> clean s) \<Longrightarrow> prints_clean (print_entry name p n)"
  by (cases name)
    (auto simp: print_entry_def read_bytes_def prints_clean_def clean_concat clean_filter)

lemma dump_row_clean:
  assumes "k \<le> n" and "n \<le> length p"
  shows "prints_clean (dump_row p n k)"
proof -
  have "clean (concat (map (\<lambda>b. '' '' @ pX 2 b) bs))" for bs :: "u8 list"
    by (rule clean_concat) (simp add: clean_out)
  moreover have "clean (map (\<lambda>b. if 32 \<le> b \<and> b < 127 then char_of_byte b else CHR ''.'') bs)"
    "clean (concat (replicate m ''   ''))" for bs :: "u8 list" and m
    by (auto simp: printable_byte list_all_iff)
  moreover have "min (n - k) 16 \<le> length (drop k p)" using assms by simp
  ultimately show ?thesis
    by (simp add: dump_row_def read_bytes_def prints_clean_def clean_out del: length_drop)
qed

lemma prints_clean_set: "(\<And>x. x \<in> set xs \<Longrightarrow> prints_clean x) \<Longrightarrow> prints_clean (prints xs)"
  by (induction xs) (auto simp: clean_out)

lemma vpd_dump_clean: "unat n \<le> length p \<Longrightarrow> prints_clean (vpd_dump p n)"
  unfolding vpd_dump_def for_lines_def
  by (rule prints_clean_set) (auto intro!: dump_row_clean)

lemma vpd_checksum_total:
  assumes "0x30 \<le> n" and "unat n \<le> length p"
  shows "\<exists>b. vpd_checksum p n = Some b"
proof -
  have "0x30 \<le> length p" using assms by (simp add: word_le_nat_alt)
  with assms(2) have "safe (vpd_checksum p n)" by (auto simp: vpd_checksum_def dmi_safe)
  then show ?thesis by (simp add: safe_def)
qed

lemma vpd_entries_clean:
  assumes "0x30 \<le> unat n" and "unat n \<le> length p"
  shows "prints_clean (vpd_entries o' p n)"
proof (cases "vo_string o'")
  case None
  let ?rev = "if n \<ge> 0x46 then do {
      r \<leftarrow> rd p 0x44;
      if r \<noteq> 0 then line (''BIOS Revision: '' @ pu r) else nothing } else nothing"
  have big: "unat n \<ge> 0x44" if "\<not> n < 0x44" using that by (simp add: word_le_nat_alt not_less)
  have "prints_clean ?rev"
    using assms(2) by (auto simp: rd_def line_def clean_out word_le_nat_alt)
  then have "prints_clean (prints
      [print_entry (Some ''BIOS Release Date'') (drop 0x30 p) 8,
       print_entry (Some ''Default Flash Image File Name'') (drop 0x38 p) 12, ?rev])"
    if "\<not> n < 0x44"
    using big [OF that] assms(2) by (intro clean_out) (auto simp: clean_out)
  then show ?thesis
    unfolding vpd_entries_def None option.case
    using assms by (intro clean_out) (auto simp: clean_out)
next
  case (Some k)
  with assms show ?thesis
    by (auto simp: vpd_entries_def prints_clean_Some intro!: print_entry_clean)
qed

lemma vpddecode_decode_clean:
  assumes "5 < length p" and "unat (p ! 5) \<le> length p"
  shows "\<exists>b s. vpddecode_decode o' p = Some (b, s) \<and> clean s"
proof (cases "p ! 5 < 0x30")
  case True
  with assms show ?thesis by (auto simp: vpddecode_decode_def rd_Some)
next
  case False
  then have n: "0x30 \<le> unat (p ! 5)" by (simp add: word_le_nat_alt not_less)
  obtain ok where ok: "vpd_checksum p (p ! 5) = Some ok"
    using vpd_checksum_total [of "p ! 5" p] False assms(2) by (auto simp: not_less)
  obtain s where "vpd_entries o' p (p ! 5) = Some s" "clean s"
    using vpd_entries_clean [OF n assms(2), of o'] by (auto simp: prints_clean_def)
  with ok assms(1) False show ?thesis by (auto simp: vpddecode_decode_def rd_Some)
qed

lemma record_end:
  assumes "(word_of_nat fp + ucast (n :: u8) - 1 :: u32) \<le> 0xFFFF" and "fp \<le> 0xFFF0"
  shows "unat n \<le> 0x10000 - fp"
proof (rule ccontr)
  assume neg: "\<not> ?thesis"
  have "unat n < 256" using unsigned_less [of n, where ?'a = nat] by simp
  moreover from this have "take_bit 32 (unat n) = unat n" by (simp add: take_bit_nat_eq_self_iff)
  ultimately have "unat (word_of_nat fp + ucast n - 1 :: u32) = fp + unat n - 1"
    using neg assms(2)
    by (subst unat_sub_if') (simp add: unat_word_ariths unat_of_nat unsigned_ucast_eq word_le_nat_alt)
  with assms(1) neg assms(2) show False by (simp add: word_le_nat_alt)
qed

lemma vpd_at_clean:
  assumes "length buf = 0x10000" and "fp \<le> 0xFFF0"
  shows "\<exists>b s. vpd_at o' buf fp = Some (b, s) \<and> clean s"
proof -
  let ?p = "drop fp buf"
  have len: "length ?p = 0x10000 - fp" "16 \<le> length ?p" using assms by simp_all
  then have p5: "rd ?p 5 = Some (?p ! 5)" "read_bytes ?p 5 = Some (take 5 ?p)"
    by (simp_all add: rd_Some read_bytes_def)
  have head: "clean (hex False (0xf0000 + fp))" by (rule clean_hex)
  show ?thesis
  proof (cases "(word_of_nat fp + ucast (?p ! 5) - 1 :: u32) \<le> 0xFFFF")
    case True
    then have n: "unat (?p ! 5) \<le> length ?p"
      unfolding len(1) using assms(2) by (rule record_end)
    obtain b s where "vpddecode_decode o' ?p = Some (b, s)" "clean s"
      using vpddecode_decode_clean [OF _ n, of o'] len(2) by auto
    moreover obtain d where "vpd_dump ?p (?p ! 5) = Some d" "clean d"
      using vpd_dump_clean [OF n] by (auto simp: prints_clean_def)
    ultimately show ?thesis using head by (auto simp: vpd_at_def Let_def p5)
  next
    case False
    then show ?thesis by (auto simp: vpd_at_def Let_def p5)
  qed
qed

lemma vpd_scan_clean:
  assumes "length buf = 0x10000" and "\<forall>fp\<in>set fps. fp \<le> 0xFFF0"
  shows "\<exists>b s. vpd_scan o' buf fps = Some (b, s) \<and> clean s"
  using assms(2)
proof (induction fps)
  case (Cons fp fps)
  from Cons obtain b s where "vpd_scan o' buf fps = Some (b, s)" "clean s" by auto
  moreover from vpd_at_clean [OF assms(1), of fp o'] Cons.prems obtain b' s' where
    "vpd_at o' buf fp = Some (b', s')" "clean s'" by auto
  ultimately show ?case by simp
qed auto

section \<open>Properties\<close>

text \<open>
  C38. vpddecode always ends, with exit status 0, 1 or 2, never reads outside the 64 KiB it has
  read, and writes only printable characters and line ends to its standard output, whatever
  the memory holds and whatever the command line is.
\<close>

theorem vpddecode_safe_output:
  assumes "maps_whole os"
  shows "\<exists>p. vpddecode_main os argv0 args = Some p \<and> exit_status p \<le> 2
    \<and> list_all printable (p_out p)"
proof -
  have scan: "\<exists>b s. vpd_scan o' buf (map (\<lambda>k. 4 * k) [0..<0x3FFD]) = Some (b, s) \<and> clean s"
    if "mem_chunk os 0xF0000 0x10000 name = (Some buf, err)" for name buf err o'
  proof (rule vpd_scan_clean)
    show "length buf = 0x10000" using mem_chunk_length [OF assms _ that] by simp
  qed auto
  have texts: "clean vpddecode_help" "clean VERSION"
    by (simp_all add: vpddecode_help_def VERSION_def DEFAULT_MEM_DEV_def)
  obtain r err where r: "vpd_parse_command_line argv0 args
      \<lparr>vo_devmem = DEFAULT_MEM_DEV, vo_flags = 0, vo_string = None\<rparr> = (r, err)" by (metis surj_pair)
  show ?thesis
  proof (cases r)
    case None
    then show ?thesis by (simp add: vpddecode_main_def r)
  next
    case (Some o')
    obtain m err' where m: "mem_chunk os 0xF0000 0x10000 (vo_devmem o') = (m, err')" by (metis surj_pair)
    show ?thesis
    proof (cases m)
      case None
      then show ?thesis using texts by (simp add: vpddecode_main_def r Some m Let_def)
    next
      case (Some buf)
      from scan [OF m [unfolded Some], of o'] obtain b s where
        "vpd_scan o' buf (map (\<lambda>k. 4 * k) [0..<0x3FFD]) = Some (b, s)" "clean s" by blast
      then show ?thesis
        using texts by (simp add: vpddecode_main_def r \<open>r = Some o'\<close> m Some Let_def del: upt_Suc)
    qed
  qed
qed

definition vpd_memory :: os where
  "vpd_memory = \<lparr>os_files = (\<lambda>name. (plain_file (replicate 0x100000 7))\<lparr>fo_mmap := \<lambda>b n. None\<rparr>),
     os_pagesize = 4096\<rparr>"

lemma vpd_memory_whole: "maps_whole vpd_memory"
  by (simp add: maps_whole_def vpd_memory_def)

theorem vpddecode_safe_output_witness:
  "\<exists>p. vpddecode_main vpd_memory ''vpddecode'' [''-d'', ''/dev/mem''] = Some p \<and> exit_status p \<le> 2
    \<and> list_all printable (p_out p)"
  by (rule vpddecode_safe_output [OF vpd_memory_whole])

end
