(* ===== verification/Bios_Decode.thy ===== *)
theory Bios_Decode
  imports Dmi_Util Dmi_Oem
begin

text \<open>
  The program biosdecode (biosdecode.c): it scans the BIOS area of physical memory in steps
  of 16 bytes for the anchors of thirteen kinds of structures and prints what it finds.

  A decoder returns whether it accepted the structure, with the text it printed; some print
  before they reject. As in \<open>Dmi_Base\<close>, \<open>None\<close> stands for a read outside the buffer. The scan
  itself may not end: it is a \<^verbatim>\<open>partial_function\<close> whose value is \<open>None\<close> if it runs forever,
  \<open>Some None\<close> if it reads outside the buffer and \<open>Some (Some out)\<close> if it ends.

  The locale \<open>bios_scanner\<close> is the contract between the scan and the table of structures: a
  length function needs the 16 bytes of the anchor line only, a decoder needs the length that
  was announced. It is interpreted on \<open>bios_entries\<close>. The theorems: no read leaves the
  buffer whatever the memory holds; the scan ends unless a Sony or multiprocessor structure
  announces the length 0, and then it never ends.
\<close>

unbundle bit_operations_syntax

type_synonym decoded = "(bool \<times> string) option"

abbreviation reject :: decoded where
  "reject \<equiv> Some (False, [])"

definition accept :: "string option list \<Rightarrow> decoded" where
  "accept xs = map_option (Pair True) (prints xs)"

lemma safe_accept [dmi_safe]: "safe (accept xs) \<longleftrightarrow> safe (prints xs)"
  by (simp add: accept_def dmi_safe)

section \<open>SMBIOS\<close>

definition smbios3_length :: "u8 list \<Rightarrow> nat option" where
  "smbios3_length p = map_option unat (rd p 0x06)"

definition bios_smbios3_decode :: "u8 list \<Rightarrow> nat \<Rightarrow> decoded" where
  "bios_smbios3_decode p n =
     (if n < 0x18 then reject
      else do {
        k \<leftarrow> rd p 0x06;
        ok \<leftarrow> checksum p (unat k);
        if \<not> ok then reject
        else accept
         [do { a \<leftarrow> rd p 0x07; b \<leftarrow> rd p 0x08; c \<leftarrow> rd p 0x09;
               line (''SMBIOS '' @ pu a @ ''.'' @ pu b @ ''.'' @ pu c @ '' present.'') },
          attr ''Structure Table Maximum Length: '' (map_option (\<lambda>x. pu x @ '' bytes'') (DWORD p 0x0C)),
          attr ''Structure Table 64-bit Address: 0x''
            (map_option (\<lambda>q. pX 8 (hi32 q) @ pX 8 (lo32 q)) (QWORD p 0x10))] })"

definition smbios_length :: "u8 list \<Rightarrow> nat option" where
  "smbios_length p = map_option (\<lambda>b. if b = 0x1E then 0x1F else unat b) (rd p 0x05)"

definition bios_smbios_decode :: "u8 list \<Rightarrow> nat \<Rightarrow> decoded" where
  "bios_smbios_decode p n =
     (if n < 0x1F then reject
      else do {
        k \<leftarrow> rd p 0x05;
        ok \<leftarrow> checksum p (unat k);
        if \<not> ok then reject
        else do {
          anchor \<leftarrow> read_bytes (drop 0x10 p) 5;
          if bytes_of ''_DMI_'' \<noteq> anchor then reject
          else do {
            ok' \<leftarrow> checksum (drop 0x10 p) 0x0F;
            if \<not> ok' then reject
            else accept
             [do { a \<leftarrow> rd p 0x06; b \<leftarrow> rd p 0x07;
                   line (''SMBIOS '' @ pu a @ ''.'' @ pu b @ '' present.'') },
              attr ''Structure Table Length: '' (map_option (\<lambda>x. pu x @ '' bytes'') (WORD p 0x16)),
              attr ''Structure Table Address: 0x'' (map_option (pX 8) (DWORD p 0x18)),
              attr ''Number Of Structures: '' (map_option pu (WORD p 0x1C)),
              attr ''Maximum Structure Size: ''
                (map_option (\<lambda>x. pu x @ '' bytes'') (WORD p 0x08))] } } })"

definition dmi_length :: "u8 list \<Rightarrow> nat option" where
  "dmi_length p = Some 0x0F"

definition bios_dmi_decode :: "u8 list \<Rightarrow> nat \<Rightarrow> decoded" where
  "bios_dmi_decode p n =
     (if n < 0x0F then reject
      else do {
        ok \<leftarrow> checksum p n;
        if \<not> ok then reject
        else accept
         [do { v \<leftarrow> rd p 0x0E;
               line (''Legacy DMI '' @ pu (drop_bit 4 v) @ ''.'' @ pu (v AND 0x0F) @ '' present.'') },
          attr ''Structure Table Length: '' (map_option (\<lambda>x. pu x @ '' bytes'') (WORD p 0x06)),
          attr ''Structure Table Address: 0x'' (map_option (pX 8) (DWORD p 0x08)),
          attr ''Number Of Structures: '' (map_option pu (WORD p 0x0C))] })"

section \<open>SYSID and Plug and Play\<close>

definition sysid_length :: "u8 list \<Rightarrow> nat option" where
  "sysid_length p = map_option unat (WORD p 0x08)"

definition sysid_decode :: "u8 list \<Rightarrow> nat \<Rightarrow> decoded" where
  "sysid_decode p n =
     (if n < 0x11 then reject
      else do {
        k \<leftarrow> WORD p 0x08;
        ok \<leftarrow> checksum p (unat k);
        if \<not> ok then reject
        else accept
         [line ''SYSID present.'',
          attr ''Revision: '' (map_option pu (rd p 0x10)),
          attr ''Structure Table Address: 0x'' (map_option (pX 8) (DWORD p 0x0A)),
          attr ''Number Of Structures: '' (map_option pu (WORD p 0x0E))] })"

definition pnp_length :: "u8 list \<Rightarrow> nat option" where
  "pnp_length p = map_option unat (rd p 0x05)"

definition pnp_event_notification :: "u16 \<Rightarrow> string option" where
  "pnp_event_notification code =
     idx [''Not Supported'', ''Polling'', ''Asynchronous'', ''Unknown''] (unat code)"

text \<open>The letters of the device identifier; \<open>b2\<close> and \<open>b3\<close> are the bytes 0x19 and 0x20.\<close>

definition pnp_device_id :: "u8 \<Rightarrow> u8 \<Rightarrow> u8 \<Rightarrow> u8 \<Rightarrow> string" where
  "pnp_device_id b0 b1 b2 b3 =
     [char_of_byte (0x40 + (drop_bit 2 b0 AND 0x1F)),
      char_of_byte (0x40 + push_bit 3 (b0 AND 0x03) + (drop_bit 5 b1 AND 0x07)),
      char_of_byte (0x40 + (b1 AND 0x1F))] @ pX 2 b2 @ pX 2 b3"

definition pnp_decode :: "u8 list \<Rightarrow> nat \<Rightarrow> decoded" where
  "pnp_decode p n =
     (if n < 0x21 then reject
      else do {
        k \<leftarrow> rd p 0x05;
        ok \<leftarrow> checksum p (unat k);
        if \<not> ok then reject
        else accept
         [do { v \<leftarrow> rd p 0x04;
               line (''PNP BIOS '' @ pu (drop_bit 4 v) @ ''.'' @ pu (v AND 0x0F) @ '' present.'') },
          attr ''Event Notification: '' (WORD p 0x06 \<bind> (\<lambda>w. pnp_event_notification (w AND 0x03))),
          do { w \<leftarrow> WORD p 0x06;
               if w AND 0x03 = 0x01
               then attr ''Event Notification Flag Address: 0x'' (map_option (pX 8) (DWORD p 0x09))
               else nothing },
          attr ''Real Mode 16-bit Code Address: ''
            (do { a \<leftarrow> WORD p 0x0F; b \<leftarrow> WORD p 0x0D; Some (pX 4 a @ '':'' @ pX 4 b) }),
          attr ''Real Mode 16-bit Data Address: '' (map_option (\<lambda>a. pX 4 a @ '':0000'') (WORD p 0x1B)),
          attr ''16-bit Protected Mode Code Address: 0x''
            (do { a \<leftarrow> DWORD p 0x13; b \<leftarrow> WORD p 0x11; Some (pX 8 (a + ucast b)) }),
          attr ''16-bit Protected Mode Data Address: 0x'' (map_option (pX 8) (DWORD p 0x1D)),
          do { id \<leftarrow> DWORD p 0x17;
               if id \<noteq> 0
               then attr ''OEM Device Identifier: ''
                      (do { b0 \<leftarrow> rd p 0x17; b1 \<leftarrow> rd p 0x18; b2 \<leftarrow> rd p 0x19; b3 \<leftarrow> rd p 0x20;
                            Some (pnp_device_id b0 b1 b2 b3) })
               else nothing }] })"

section \<open>ACPI, Sony and BIOS32\<close>

definition acpi_length :: "u8 list \<Rightarrow> nat option" where
  "acpi_length p = map_option (\<lambda>b. if b = 2 then 36 else 20) (rd p 15)"

definition acpi_revision :: "u8 \<Rightarrow> string" where
  "acpi_revision code = (if code = 0 then '' 1.0'' else if code = 2 then '' 2.0'' else [])"

definition acpi_decode :: "u8 list \<Rightarrow> nat \<Rightarrow> decoded" where
  "acpi_decode p n =
     (if n < 20 then reject
      else do {
        ok \<leftarrow> checksum p 20;
        if \<not> ok then reject
        else do {
          head \<leftarrow> prints
           [do { r \<leftarrow> rd p 15; line (''ACPI'' @ acpi_revision r @ '' present.'') },
            attr ''OEM Identifier: ''
              (do { a \<leftarrow> rd p 9; b \<leftarrow> rd p 10; c \<leftarrow> rd p 11; d \<leftarrow> rd p 12; e \<leftarrow> rd p 13; f \<leftarrow> rd p 14;
                    Some (map char_of_byte [a, b, c, d, e, f]) }),
            attr ''RSD Table 32-bit Address: 0x'' (map_option (pX 8) (DWORD p 16))];
          if n < 36 then Some (True, head)
          else do {
            k \<leftarrow> DWORD p 20;
            if unat k > n then Some (False, head)
            else do {
              ok' \<leftarrow> checksum p (unat k);
              if \<not> ok' then Some (False, head)
              else if k < 32 then Some (True, head)
              else do {
                t \<leftarrow> attr ''XSD Table 64-bit Address: 0x''
                       (map_option (\<lambda>q. pX 8 (hi32 q) @ pX 8 (lo32 q)) (QWORD p 24));
                Some (True, head @ t) } } } } })"

definition sony_length :: "u8 list \<Rightarrow> nat option" where
  "sony_length p = map_option unat (rd p 0x05)"

definition sony_decode :: "u8 list \<Rightarrow> nat \<Rightarrow> decoded" where
  "sony_decode p n = do {
     ok \<leftarrow> checksum p n;
     if \<not> ok then reject else accept [line ''Sony system detected.''] }"

definition bios32_length :: "u8 list \<Rightarrow> nat option" where
  "bios32_length p = map_option (\<lambda>b. unat b * 16) (rd p 0x09)"

definition bios32_decode :: "u8 list \<Rightarrow> nat \<Rightarrow> decoded" where
  "bios32_decode p n =
     (if n < 0x0A then reject
      else do {
        k \<leftarrow> rd p 0x09;
        ok \<leftarrow> checksum p (unat k * 16);
        if \<not> ok then reject
        else accept
         [line ''BIOS32 Service Directory present.'',
          attr ''Revision: '' (map_option pu (rd p 0x08)),
          attr ''Calling Interface Address: 0x'' (map_option (pX 8) (DWORD p 0x04))] })"

section \<open>PCI interrupt routing\<close>

definition pir_irqs :: "u16 \<Rightarrow> string" where
  "pir_irqs code =
     (if code = 0 then '' None''
      else concat (map (\<lambda>i. if bit code i then '' '' @ dec i else []) [0..<16]))"

definition pir_slot_number :: "u8 \<Rightarrow> string" where
  "pir_slot_number code = (if code = 0 then '' on-board'' else '' slot '' @ pu code)"

definition pir_length :: "u8 list \<Rightarrow> nat option" where
  "pir_length p = map_option unat (WORD p 6)"

definition pir_link_bitmap :: "char \<Rightarrow> u8 list \<Rightarrow> string option" where
  "pir_link_bitmap letter p = do {
     l \<leftarrow> rd p 0;
     if l = 0 then nothing
     else do {
       w \<leftarrow> WORD p 1;
       line (tab @ tab @ ''INT'' @ [letter] @ ''#: Link 0x'' @ px 2 l @ '', IRQ Bitmap'' @ pir_irqs w) } }"

definition pir_device :: "bool \<Rightarrow> u8 list \<Rightarrow> string option" where
  "pir_device full p = prints
     [do { a \<leftarrow> rd p 0; b \<leftarrow> rd p 1; s \<leftarrow> rd p 14;
           line (tab @ ''Device: '' @ px 2 a @ '':'' @ px 2 (drop_bit 3 b) @ '','' @ pir_slot_number s) },
      if full then prints
        [pir_link_bitmap (CHR ''A'') (drop 2 p), pir_link_bitmap (CHR ''B'') (drop 5 p),
         pir_link_bitmap (CHR ''C'') (drop 8 p), pir_link_bitmap (CHR ''D'') (drop 11 p)]
      else nothing]"

definition pir_decode :: "bool \<Rightarrow> u8 list \<Rightarrow> nat \<Rightarrow> decoded" where
  "pir_decode full p n =
     (if n < 32 then reject
      else do {
        k \<leftarrow> WORD p 6;
        ok \<leftarrow> checksum p (unat k);
        if \<not> ok then reject
        else accept
         [do { a \<leftarrow> rd p 5; b \<leftarrow> rd p 4;
               line (''PCI Interrupt Routing '' @ pu a @ ''.'' @ pu b @ '' present.'') },
          attr ''Router Device: ''
            (do { a \<leftarrow> rd p 8; b \<leftarrow> rd p 9;
                  Some (px 2 a @ '':'' @ px 2 (drop_bit 3 b) @ ''.'' @ px 1 (b AND 0x07)) }),
          attr ''Exclusive IRQs:'' (map_option pir_irqs (WORD p 10)),
          do { d \<leftarrow> DWORD p 12;
               if d \<noteq> 0
               then attr ''Compatible Router: ''
                      (do { a \<leftarrow> WORD p 12; b \<leftarrow> WORD p 14; Some (px 4 a @ '':'' @ px 4 b) })
               else nothing },
          do { d \<leftarrow> DWORD p 16;
               if d \<noteq> 0 then attr ''Miniport Data: 0x'' (Some (pX 8 d)) else nothing },
          for_lines 0 ((n - 32) div 16) (\<lambda>i. pir_device full (drop (32 + 16 * i) p))] })"

section \<open>Compaq, IBM, Fujitsu and multiprocessor\<close>

definition compaq_length :: "u8 list \<Rightarrow> nat option" where
  "compaq_length p = map_option (\<lambda>b. unat b * 10 + 5) (rd p 4)"

definition upper_case :: "u8 \<Rightarrow> bool" where
  "upper_case b \<longleftrightarrow> 65 \<le> b \<and> b \<le> 90"

text \<open>The integrity check of the records from number \<open>i\<close> on: the first abnormal name, if any.\<close>

fun compaq_check :: "u8 list \<Rightarrow> nat \<Rightarrow> nat \<Rightarrow> (u8 \<times> u8 \<times> u8 \<times> u8) option option" where
  "compaq_check p i 0 = Some None"
| "compaq_check p i (Suc k) = do {
     a \<leftarrow> rd p (5 + i * 10);
     b \<leftarrow> rd p (6 + i * 10);
     c \<leftarrow> rd p (7 + i * 10);
     d \<leftarrow> rd p (8 + i * 10);
     if a \<noteq> 36 \<or> \<not> upper_case b \<or> \<not> upper_case c \<or> \<not> upper_case d then Some (Some (a, b, c, d))
     else compaq_check p (Suc i) k }"

definition compaq_decode :: "u8 list \<Rightarrow> nat \<Rightarrow> decoded" where
  "compaq_decode p n = do {
     k \<leftarrow> rd p 4;
     bad \<leftarrow> compaq_check p 0 (unat k);
     let head = ''Compaq-specific entries present.'' @ nl;
     case bad of
       Some (a, b, c, d) \<Rightarrow>
         Some (False, head @ tab @ '' Abnormal entry! Please report. ['' @ pX 2 a @ '' '' @ pX 2 b
           @ '' '' @ pX 2 c @ '' '' @ pX 2 d @ '']'' @ nl)
     | None \<Rightarrow> accept
         [Some head,
          for_lines 0 (unat k)
            (\<lambda>i. do {
               name \<leftarrow> read_bytes (drop (5 + i * 10) p) 4;
               address \<leftarrow> DWORD p (9 + i * 10);
               size' \<leftarrow> WORD p (13 + i * 10);
               line (tab @ ''Entry '' @ dec (i + 1) @ '': '' @ map char_of_byte name @ '' at 0x''
                 @ pX 8 address @ '' ('' @ pu size' @ '' bytes)'') })] }"

definition vpd_text :: "u8 list \<Rightarrow> string" where
  "vpd_text bs = map char_of_byte (filter (\<lambda>b. 32 \<le> b \<and> b < 127) bs)"

definition vpd_print_entry :: "string \<Rightarrow> u8 list \<Rightarrow> nat \<Rightarrow> string option" where
  "vpd_print_entry name p n = map_option (\<lambda>bs. tab @ name @ '': '' @ vpd_text bs @ nl) (read_bytes p n)"

definition vpd_length :: "u8 list \<Rightarrow> nat option" where
  "vpd_length p = map_option unat (rd p 5)"

definition vpd_decode :: "u8 list \<Rightarrow> nat \<Rightarrow> decoded" where
  "vpd_decode p n =
     (if n < 0x30 then reject
      else do {
        long \<leftarrow> (if n \<ge> 0x45 then checksum p n else Some False);
        netvista \<leftarrow> (if long then Some True else checksum p 0x30);
        ok \<leftarrow> (if netvista then Some True else checksum (drop 0x0D p) (0x30 - 0x0D));
        if \<not> ok then reject
        else accept
         [line ''VPD present.'',
          vpd_print_entry ''BIOS Build ID'' (drop 0x0D p) 9,
          vpd_print_entry ''Box Serial Number'' (drop 0x16 p) 7,
          vpd_print_entry ''Motherboard Serial Number'' (drop 0x1D p) 11,
          vpd_print_entry ''Machine Type/Model'' (drop 0x28 p) 7,
          if n < 0x45 then nothing else vpd_print_entry ''BIOS Release Date'' (drop 0x30 p) 8] })"

definition fjkeyinf_length :: "u8 list \<Rightarrow> nat option" where
  "fjkeyinf_length p = Some 32"

fun fjkeyinf_devices :: "u8 list \<Rightarrow> nat \<Rightarrow> nat \<Rightarrow> string option" where
  "fjkeyinf_devices p i 0 = nothing"
| "fjkeyinf_devices p i (Suc k) = do {
     t \<leftarrow> rd p (8 + i * 4);
     if t = 0 then nothing
     else do {
       access \<leftarrow> rd p (8 + i * 4 + 1);
       chip \<leftarrow> rd p (8 + i * 4 + 2);
       address \<leftarrow> (if access \<noteq> 0
                   then map_option (\<lambda>a. '', SMBus address 0x'' @ px 1 (drop_bit 1 a)) (rd p (8 + i * 4 + 3))
                   else nothing);
       rest \<leftarrow> fjkeyinf_devices p (Suc i) k;
       Some (tab @ ''Device '' @ dec (i + 1) @ '': type '' @ pu t @ '', chip '' @ pu chip
             @ address @ nl @ rest) } }"

definition fjkeyinf_decode :: "u8 list \<Rightarrow> nat \<Rightarrow> decoded" where
  "fjkeyinf_decode p n =
     accept [line ''Fujitsu application panel present.'', fjkeyinf_devices p 0 6]"

definition mp_length :: "u8 list \<Rightarrow> nat option" where
  "mp_length p = map_option (\<lambda>b. 16 * unat b) (rd p 8)"

definition mp_decode :: "u8 list \<Rightarrow> nat \<Rightarrow> decoded" where
  "mp_decode p n = do {
     ok \<leftarrow> checksum p n;
     if \<not> ok then reject
     else accept
      [line ''Intel Multiprocessor present.'',
       attr ''Specification Revision: ''
         (map_option (\<lambda>r. if r = 1 then ''1.1'' else if r = 4 then ''1.4'' else ''Invalid'') (rd p 9)),
       do { c \<leftarrow> rd p 11;
            if c \<noteq> 0 then attr ''Default Configuration: #'' (Some (pu c))
            else attr ''Configuration Table Address: 0x'' (map_option (pX 8) (DWORD p 4)) },
       attr ''Mode: ''
         (map_option (\<lambda>m. if bit m 7 then ''IMCR and PIC'' else ''Virtual Wire'') (rd p 12))] }"

section \<open>The scan\<close>

record bios_entry =
  anchor :: "u8 list"
  low_address :: int
  high_address :: int
  be_length :: "u8 list \<Rightarrow> nat option"
  be_decode :: "u8 list \<Rightarrow> nat \<Rightarrow> decoded"

definition bios_entries :: "bool \<Rightarrow> bios_entry list" where
  "bios_entries full = map
     (\<lambda>(a, low, len', dec'). \<lparr>anchor = a, low_address = low, high_address = 0xFFFFF,
        be_length = len', be_decode = dec'\<rparr>)
     [(bytes_of ''_SM3_'', 0xF0000, smbios3_length, bios_smbios3_decode),
      (bytes_of ''_SM_'', 0xF0000, smbios_length, bios_smbios_decode),
      (bytes_of ''_DMI_'', 0xF0000, dmi_length, bios_dmi_decode),
      (bytes_of ''_SYSID_'', 0xE0000, sysid_length, sysid_decode),
      (bytes_of ''$PnP'', 0xF0000, pnp_length, pnp_decode),
      (bytes_of ''RSD PTR '', 0xE0000, acpi_length, acpi_decode),
      (bytes_of ''$SNY'', 0xE0000, sony_length, sony_decode),
      (bytes_of ''_32_'', 0xE0000, bios32_length, bios32_decode),
      (bytes_of ''$PIR'', 0xF0000, pir_length, pir_decode full),
      (bytes_of ''32OS'', 0xE0000, compaq_length, compaq_decode),
      ([0xAA, 0x55] @ bytes_of ''VPD'', 0xF0000, vpd_length, vpd_decode),
      (bytes_of ''FJKEYINF'', 0xF0000, fjkeyinf_length, fjkeyinf_decode),
      (bytes_of ''_MP_'', 0xE0000, mp_length, mp_decode)]"

fun anchor_match :: "u8 list \<Rightarrow> u8 list \<Rightarrow> nat \<Rightarrow> bool option" where
  "anchor_match [] p i = Some True"
| "anchor_match (a # as) p i = do {
     b \<leftarrow> rd p i;
     if a \<noteq> b then Some False else anchor_match as p (Suc i) }"

text \<open>
  One entry at address \<open>fp\<close>, and the loop over the entries: the length of the structure that
  was accepted, if any, and the text.
\<close>

definition try_entry :: "bios_entry \<Rightarrow> u8 list \<Rightarrow> int \<Rightarrow> (nat option \<times> string) option" where
  "try_entry e p fp = do {
     m \<leftarrow> anchor_match (anchor e) p 0;
     if m \<and> fp \<ge> low_address e \<and> fp < high_address e then do {
       n \<leftarrow> be_length e p;
       if fp + int n - 1 \<le> high_address e then do {
         (ok, t) \<leftarrow> be_decode e p n;
         Some (if ok then Some n else None, t) }
       else Some (None, []) }
     else Some (None, []) }"

fun try_entries :: "bios_entry list \<Rightarrow> u8 list \<Rightarrow> int \<Rightarrow> (nat option \<times> string) option" where
  "try_entries [] p fp = Some (None, [])"
| "try_entries (e # es) p fp = do {
     (r, t) \<leftarrow> try_entry e p fp;
     case r of
       Some n \<Rightarrow> Some (Some n, t)
     | None \<Rightarrow> do { (r', t') \<leftarrow> try_entries es p fp; Some (r', t @ t') } }"

text \<open>
  One iteration of the outer loop with the increment of the \<^verbatim>\<open>for\<close>: the next address and the
  text. \<^verbatim>\<open>((len - 1) >> 4) << 4\<close> is computed on a signed number.
\<close>

definition scan_step :: "bios_entry list \<Rightarrow> u8 list \<Rightarrow> int \<Rightarrow> (int \<times> string) option" where
  "scan_step es mem fp = do {
     (r, t) \<leftarrow> try_entries es (drop (nat (fp - 0xE0000)) mem) fp;
     Some ((case r of
              None \<Rightarrow> fp
            | Some n \<Rightarrow> fp + push_bit 4 (drop_bit 4 (int n - 1))) + 16, t) }"

partial_function (option) scan ::
  "(int \<Rightarrow> (int \<times> string) option) \<Rightarrow> int \<Rightarrow> string \<Rightarrow> string option option" where
  "scan step fp out =
     (if fp \<le> 0xFFFF0 then
        (case step fp of
           None \<Rightarrow> Some None
         | Some (fp', t) \<Rightarrow> scan step fp' (out @ t))
      else Some (Some out))"

section \<open>Command line and main\<close>

record bios_opt =
  bo_devmem :: string
  bo_flags :: u32
  bo_pir_full :: bool

definition biosdecode_short :: short_table where
  "biosdecode_short = [(CHR ''d'', True), (CHR ''h'', False), (CHR ''V'', False)]"

definition biosdecode_long :: long_table where
  "biosdecode_long =
     [(''dev-mem'', True, CHR ''d''), (''pir'', True, CHR ''P''), (''help'', False, CHR ''h''),
      (''version'', False, CHR ''V'')]"

text \<open>The loop over the options; \<open>None\<close> is the return value -1.\<close>

fun biosdecode_parse :: "getopt_result list \<Rightarrow> bios_opt \<Rightarrow> bios_opt option \<times> string" where
  "biosdecode_parse [] o' = (Some o', [])"
| "biosdecode_parse (Badopt c msg # rs) o' = (None, msg)"
| "biosdecode_parse (Optval c a # rs) o' = biosdecode_parse rs
     (if c = CHR ''d'' then o'\<lparr>bo_devmem := a\<rparr>
      else if c = CHR ''P'' then (if a = ''full'' then o'\<lparr>bo_pir_full := True\<rparr> else o')
      else if c = CHR ''h'' then o'\<lparr>bo_flags := bo_flags o' OR 2\<rparr>
      else if c = CHR ''V'' then o'\<lparr>bo_flags := bo_flags o' OR 1\<rparr>
      else o')"

definition biosdecode_help :: string where
  "biosdecode_help =
     ''Usage: biosdecode [OPTIONS]'' @ nl @ ''Options are:'' @ nl
     @ '' -d, --dev-mem FILE     Read memory from device FILE (default: '' @ DEFAULT_MEM_DEV @ '')'' @ nl
     @ ''     --pir full         Decode the details of the PCI IRQ routing table'' @ nl
     @ '' -h, --help             Display this help text and exit'' @ nl
     @ '' -V, --version          Display the version and exit'' @ nl"

definition biosdecode_main :: "os \<Rightarrow> string \<Rightarrow> string list \<Rightarrow> program option option" where
  "biosdecode_main os argv0 args =
     (case biosdecode_parse (getopt_long argv0 biosdecode_short biosdecode_long args)
             \<lparr>bo_devmem = DEFAULT_MEM_DEV, bo_flags = 0, bo_pir_full = False\<rparr> of
        (None, err) \<Rightarrow> Some (Some \<lparr>exit_status = 2, p_out = [], p_err = err\<rparr>)
      | (Some o', err) \<Rightarrow>
          if bit (bo_flags o') 1 then
            Some (Some \<lparr>exit_status = 0, p_out = biosdecode_help, p_err = err\<rparr>)
          else if bit (bo_flags o') 0 then
            Some (Some \<lparr>exit_status = 0, p_out = VERSION @ nl, p_err = err\<rparr>)
          else
            (let head = ''# biosdecode '' @ VERSION @ nl
             in case mem_chunk os 0xE0000 0x20000 (bo_devmem o') of
                  (None, err') \<Rightarrow> Some (Some \<lparr>exit_status = 1, p_out = head, p_err = err @ err'\<rparr>)
                | (Some buf, err') \<Rightarrow>
                    map_option (map_option (\<lambda>out. \<lparr>exit_status = 0, p_out = out, p_err = err @ err'\<rparr>))
                      (scan (scan_step (bios_entries (bo_pir_full o')) buf) 0xE0000 head)))"

text \<open>A step that stays at its address is repeated forever.\<close>

lemma scan_stuck:
  assumes "step fp = Some (fp, t)" and "fp \<le> 0xFFFF0"
  shows "scan step fp out = None"
proof -
  have "scan step fp out = Some y \<Longrightarrow> \<not> (\<exists>t. step fp = Some (fp, t) \<and> fp \<le> 0xFFFF0)"
    for step fp out y
  proof (erule scan.raw_induct [rotated])
    fix scan' step fp out y
    assume ih: "\<And>step fp out y. scan' step fp out = Some y \<Longrightarrow>
        \<not> (\<exists>t. step fp = Some (fp, t) \<and> fp \<le> 0xFFFF0)"
      and body: "(if fp \<le> 0xFFFF0 then
        (case step fp of None \<Rightarrow> Some None | Some (fp', t) \<Rightarrow> scan' step fp' (out @ t))
        else Some (Some out)) = Some y"
    show "\<not> (\<exists>t. step fp = Some (fp, t) \<and> fp \<le> 0xFFFF0)"
      using ih body by fastforce
  qed
  with assms show ?thesis by (metis not_None_eq)
qed

section \<open>The contract between the scan and the table of structures\<close>

lemma anchor_match_safe:
  "i + length a \<le> length p \<Longrightarrow> \<exists>b. anchor_match a p i = Some b"
  by (induction a p i rule: anchor_match.induct) (auto simp: rd_def)

locale bios_scanner =
  fixes es :: "bios_entry list"
  assumes short_anchors: "e \<in> set es \<Longrightarrow> length (anchor e) \<le> 16"
    and low: "e \<in> set es \<Longrightarrow> 0xE0000 \<le> low_address e"
    and high: "e \<in> set es \<Longrightarrow> high_address e = 0xFFFFF"
    and length_safe: "e \<in> set es \<Longrightarrow> 16 \<le> length p \<Longrightarrow> safe (be_length e p)"
    and decode_safe: "e \<in> set es \<Longrightarrow> 16 \<le> length p \<Longrightarrow> be_length e p = Some n \<Longrightarrow> n \<le> length p \<Longrightarrow>
      safe (be_decode e p n)"
begin

lemma try_entry_safe:
  assumes "e \<in> set es" and "16 \<le> length p" and "fp + int (length p) = 0x100000"
  shows "\<exists>r t. try_entry e p fp = Some (r, t)"
proof -
  obtain m where m: "anchor_match (anchor e) p 0 = Some m"
    using anchor_match_safe [of 0 "anchor e" p] short_anchors [OF assms(1)] assms(2) by auto
  obtain n where n: "be_length e p = Some n"
    using length_safe [OF assms(1,2)] by (auto elim: safe_elim)
  have "\<exists>x. be_decode e p n = Some x" if "fp + int n - 1 \<le> high_address e"
  proof -
    have "n \<le> length p" using that assms(3) high [OF assms(1)] by simp
    from decode_safe [OF assms(1,2) n this] show ?thesis by (auto simp: safe_def)
  qed
  then show ?thesis by (auto simp: try_entry_def m n)
qed

lemma try_entries_safe:
  assumes "16 \<le> length p" and "fp + int (length p) = 0x100000"
  shows "\<exists>r t. try_entries es p fp = Some (r, t)"
proof -
  have "set xs \<subseteq> set es \<Longrightarrow> \<exists>r t. try_entries xs p fp = Some (r, t)" for xs
  proof (induction xs)
    case (Cons e xs)
    then have "e \<in> set es" by simp
    from try_entry_safe [OF this assms] obtain r t where "try_entry e p fp = Some (r, t)" by blast
    with Cons show ?case by (cases r) fastforce+
  qed simp
  then show ?thesis by simp
qed

text \<open>Addresses stay multiples of 16 in the scanned range, so 16 bytes are always readable.\<close>

lemma scan_step_safe:
  assumes "length mem = 0x20000" and "0xE0000 \<le> fp" and "fp \<le> 0xFFFF0"
  shows "\<exists>r t. try_entries es (drop (nat (fp - 0xE0000)) mem) fp = Some (r, t)
    \<and> scan_step es mem fp =
        Some ((case r of None \<Rightarrow> fp | Some n \<Rightarrow> fp + push_bit 4 (drop_bit 4 (int n - 1))) + 16, t)"
proof -
  let ?p = "drop (nat (fp - 0xE0000)) mem"
  have len: "length ?p = 0x20000 - nat (fp - 0xE0000)" using assms(1) by simp
  have "16 \<le> length ?p" and "fp + int (length ?p) = 0x100000"
    using assms(2,3) unfolding len by linarith+
  from try_entries_safe [OF this] obtain r t where "try_entries es ?p fp = Some (r, t)" by blast
  then show ?thesis by (auto simp: scan_step_def)
qed

lemma scan_step_forward:
  assumes "length mem = 0x20000" and "0xE0000 \<le> fp" and "fp \<le> 0xFFFF0"
  shows "\<exists>fp' t. scan_step es mem fp = Some (fp', t) \<and> fp \<le> fp' \<and> (fp' \<noteq> fp \<longrightarrow> fp + 16 \<le> fp')"
proof -
  from scan_step_safe [OF assms] obtain r t where
    st: "scan_step es mem fp =
      Some ((case r of None \<Rightarrow> fp | Some n \<Rightarrow> fp + push_bit 4 (drop_bit 4 (int n - 1))) + 16, t)"
    by blast
  have "0 \<le> push_bit 4 (drop_bit 4 (int n - 1)) + 16"
    "push_bit 4 (drop_bit 4 (int n - 1)) + 16 = 0 \<or> 16 \<le> push_bit 4 (drop_bit 4 (int n - 1)) + 16"
    for n
    by (auto simp: push_bit_eq_mult drop_bit_eq_div)
  with st show ?thesis by (auto split: option.splits)
qed

lemma scan_result:
  assumes "length mem = 0x20000" and "0xE0000 \<le> fp"
  shows "scan (scan_step es mem) fp out \<noteq> Some None
    \<and> ((\<forall>a t. 0xE0000 \<le> a \<longrightarrow> a \<le> 0xFFFF0 \<longrightarrow> scan_step es mem a \<noteq> Some (a, t)) \<longrightarrow>
         (\<exists>out'. scan (scan_step es mem) fp out = Some (Some out')))"
  using assms(2)
proof (induction "nat (0x100000 - fp)" arbitrary: fp out rule: less_induct)
  case less
  show ?case
  proof (cases "fp \<le> 0xFFFF0")
    case True
    from scan_step_forward [OF assms(1) less.prems True] obtain fp' t where
      st: "scan_step es mem fp = Some (fp', t)" "fp \<le> fp'" "fp' \<noteq> fp \<longrightarrow> fp + 16 \<le> fp'"
      by blast
    have unf: "scan (scan_step es mem) fp out = scan (scan_step es mem) fp' (out @ t)"
      by (subst scan.simps) (simp add: True st(1))
    show ?thesis
    proof (cases "fp' = fp")
      case True
      with st(1) have "scan (scan_step es mem) fp out = None"
        using scan_stuck \<open>fp \<le> 0xFFFF0\<close> by metis
      then show ?thesis using st(1) True less.prems \<open>fp \<le> 0xFFFF0\<close> by auto
    next
      case False
      with st(3) True have "nat (0x100000 - fp') < nat (0x100000 - fp)" by linarith
      from less.hyps [OF this, of "out @ t"] st(2) less.prems show ?thesis
        unfolding unf by simp
    qed
  next
    case False
    then show ?thesis by (subst scan.simps) (simp add: scan.simps)
  qed
qed

end

section \<open>The table fulfils the contract\<close>

lemma smbios_decoders_safe:
  assumes "n \<le> length p" and "16 \<le> length p"
  shows "smbios3_length p = Some n \<Longrightarrow> safe (bios_smbios3_decode p n)"
    and "smbios_length p = Some n \<Longrightarrow> safe (bios_smbios_decode p n)"
    and "safe (bios_dmi_decode p n)"
  using assms
  by (auto simp: bios_smbios3_decode_def smbios3_length_def bios_smbios_decode_def
      smbios_length_def bios_dmi_decode_def dmi_safe rd_Some split: if_splits)

lemma system_decoders_safe:
  assumes "n \<le> length p" and "16 \<le> length p"
  shows "sysid_length p = Some n \<Longrightarrow> safe (sysid_decode p n)"
    and "acpi_length p = Some n \<Longrightarrow> safe (acpi_decode p n)"
    and "safe (sony_decode p n)"
    and "bios32_length p = Some n \<Longrightarrow> safe (bios32_decode p n)"
    and "safe (vpd_decode p n)"
    and "safe (mp_decode p n)"
  using assms
  by (auto simp: sysid_decode_def sysid_length_def acpi_decode_def acpi_length_def sony_decode_def
      bios32_decode_def bios32_length_def vpd_decode_def vpd_print_entry_def mp_decode_def
      dmi_safe rd_Some split: if_splits)

lemma pnp_event_safe: "safe (pnp_event_notification (w AND 0x03))"
proof -
  have "w AND 0x03 \<le> 0x03" by (rule word_and_le1)
  then have "unat (w AND 0x03) \<le> 3" by (simp add: word_le_nat_alt)
  then show ?thesis by (simp add: pnp_event_notification_def dmi_safe)
qed

lemma pnp_decode_safe:
  "n \<le> length p \<Longrightarrow> pnp_length p = Some n \<Longrightarrow> safe (pnp_decode p n)"
  by (auto simp: pnp_decode_def pnp_length_def pnp_event_safe dmi_safe rd_Some split: if_splits)

lemma pir_device_safe: "16 \<le> length p \<Longrightarrow> safe (pir_device full p)"
  by (auto simp: pir_device_def pir_link_bitmap_def dmi_safe)

lemma pir_decode_safe:
  "n \<le> length p \<Longrightarrow> pir_length p = Some n \<Longrightarrow> safe (pir_decode full p n)"
proof -
  assume n: "n \<le> length p" "pir_length p = Some n"
  have "safe (pir_device full (drop (32 + 16 * i) p))" if "i < (n - 32) div 16" for i
  proof (rule pir_device_safe)
    have "Suc i * 16 \<le> n - 32"
      using that by (metis Suc_leI div_times_less_eq_dividend le_trans mult_le_mono1)
    then show "16 \<le> length (drop (32 + 16 * i) p)" using n by simp
  qed
  with n show ?thesis
    by (auto simp: pir_decode_def pir_length_def dmi_safe split: if_splits)
qed

lemma compaq_check_safe:
  "5 + (i + k) * 10 \<le> length p \<Longrightarrow> safe (compaq_check p i k)"
  by (induction p i k rule: compaq_check.induct) (auto simp: dmi_safe)

lemma compaq_decode_safe:
  "n \<le> length p \<Longrightarrow> compaq_length p = Some n \<Longrightarrow> safe (compaq_decode p n)"
  using compaq_check_safe [of 0 "unat (p ! 4)" p]
  by (auto simp: compaq_decode_def compaq_length_def Let_def dmi_safe rd_def
      split: if_splits option.split)

lemma fjkeyinf_devices_safe:
  "8 + (i + k) * 4 \<le> length p \<Longrightarrow> safe (fjkeyinf_devices p i k)"
  by (induction p i k rule: fjkeyinf_devices.induct) (auto simp: dmi_safe)

lemma fjkeyinf_decode_safe:
  "n \<le> length p \<Longrightarrow> fjkeyinf_length p = Some n \<Longrightarrow> safe (fjkeyinf_decode p n)"
  using fjkeyinf_devices_safe [of 0 6 p] by (simp add: fjkeyinf_decode_def fjkeyinf_length_def dmi_safe)

lemmas bios_lengths = smbios3_length_def smbios_length_def dmi_length_def sysid_length_def
  pnp_length_def acpi_length_def sony_length_def bios32_length_def pir_length_def
  compaq_length_def vpd_length_def fjkeyinf_length_def mp_length_def

interpretation bios: bios_scanner "bios_entries full" for full
proof
  fix e p and n :: nat
  assume e: "e \<in> set (bios_entries full)"
  then show "length (anchor e) \<le> 16" "0xE0000 \<le> low_address e" "high_address e = 0xFFFFF"
    by (auto simp: bios_entries_def bytes_of_def)
  show "safe (be_length e p)" if "16 \<le> length p"
    using e that by (auto simp: bios_entries_def bios_lengths dmi_safe)
  show "safe (be_decode e p n)" if "16 \<le> length p" "be_length e p = Some n" "n \<le> length p"
    using e that smbios_decoders_safe [OF that(3,1)] system_decoders_safe [OF that(3,1)]
      pnp_decode_safe [OF that(3)] pir_decode_safe [OF that(3)] compaq_decode_safe [OF that(3)]
      fjkeyinf_decode_safe [OF that(3)]
    by (auto simp: bios_entries_def)
qed

section \<open>When the scan ends\<close>

text \<open>A Sony or multiprocessor structure at the address that announces the length 0.\<close>

definition zero_length_at :: "u8 list \<Rightarrow> int \<Rightarrow> bool" where
  "zero_length_at mem fp \<longleftrightarrow>
     (let p = drop (nat (fp - 0xE0000)) mem
      in take 4 p = bytes_of ''$SNY'' \<and> p ! 5 = 0 \<or> take 4 p = bytes_of ''_MP_'' \<and> p ! 8 = 0)"

lemma anchor_match_take:
  "i + length a \<le> length p \<Longrightarrow> anchor_match a p i = Some (take (length a) (drop i p) = a)"
proof (induction a p i rule: anchor_match.induct)
  case (2 a as p i)
  then have "drop i p = p ! i # drop (Suc i) p" by (intro Cons_nth_drop_Suc [symmetric]) simp
  with 2 show ?case by (auto simp: rd_def)
qed simp

text \<open>Only the two kinds of structures without a lower bound on the length accept length 0.\<close>

lemma accepted_length:
  assumes "e \<in> set (bios_entries full)" and "be_length e p = Some n" and "be_decode e p n = Some (True, t)"
  shows "0 < n \<or> anchor e = bytes_of ''$SNY'' \<and> rd p 5 = Some 0 \<or> anchor e = bytes_of ''_MP_'' \<and> rd p 8 = Some 0"
proof (rule ccontr)
  assume neg: "\<not> ?thesis"
  then have n: "n = 0" by simp
  from assms(1) consider
      "be_decode e \<in> {bios_smbios3_decode, bios_smbios_decode, bios_dmi_decode, sysid_decode,
         pnp_decode, acpi_decode, bios32_decode, pir_decode full, vpd_decode}"
    | "be_length e \<in> {compaq_length, fjkeyinf_length}"
    | "anchor e = bytes_of ''$SNY''" "be_length e = sony_length"
    | "anchor e = bytes_of ''_MP_''" "be_length e = mp_length"
    by (auto simp: bios_entries_def)
  then show False
  proof cases
    case 1
    then show False
      using assms(3) n
      by (auto simp: bios_smbios3_decode_def bios_smbios_decode_def bios_dmi_decode_def
          sysid_decode_def pnp_decode_def acpi_decode_def bios32_decode_def pir_decode_def
          vpd_decode_def)
  next
    case 2
    then show False using assms(2) n by (auto simp: compaq_length_def fjkeyinf_length_def)
  next
    case 3
    then show False using assms(2) n neg by (auto simp: sony_length_def unsigned_eq_0_iff)
  next
    case 4
    then show False using assms(2) n neg by (auto simp: mp_length_def unsigned_eq_0_iff)
  qed
qed

lemma try_entries_accepts:
  "try_entries es p fp = Some (Some n, t) \<Longrightarrow>
   \<exists>e\<in>set es. \<exists>t'. anchor_match (anchor e) p 0 = Some True \<and> be_length e p = Some n
     \<and> be_decode e p n = Some (True, t')"
proof (induction es arbitrary: t)
  case (Cons e es)
  from Cons.prems obtain r t1 where r: "try_entry e p fp = Some (r, t1)"
    by (auto simp: Option.bind_eq_Some_conv)
  show ?case
  proof (cases r)
    case None
    with Cons.prems r obtain t' where "try_entries es p fp = Some (Some n, t')"
      by (auto simp: Option.bind_eq_Some_conv)
    from Cons.IH [OF this] show ?thesis by auto
  next
    case (Some m)
    with Cons.prems r have "m = n" by simp
    with r Some show ?thesis
      by (auto simp: try_entry_def Option.bind_eq_Some_conv split: if_splits)
  qed
qed simp

lemma scan_step_stuck:
  assumes "length mem = 0x20000" and "0xE0000 \<le> fp" and "fp \<le> 0xFFFF0"
    and "scan_step (bios_entries full) mem fp = Some (fp, t)"
  shows "zero_length_at mem fp"
proof -
  let ?p = "drop (nat (fp - 0xE0000)) mem"
  have len: "16 \<le> length ?p" using assms(1-3) by simp
  from bios.scan_step_safe [OF assms(1-3), of full] obtain r t' where
    r: "try_entries (bios_entries full) ?p fp = Some (r, t')" and
    "(case r of None \<Rightarrow> fp | Some n \<Rightarrow> fp + push_bit 4 (drop_bit 4 (int n - 1))) + 16 = fp"
    using assms(4) by auto
  then obtain n where n: "r = Some n" "push_bit 4 (drop_bit 4 (int n - 1)) + 16 = 0"
    by (cases r) auto
  have "n = 0"
  proof (rule ccontr)
    assume "n \<noteq> 0"
    then have "0 \<le> (int n - 1) div 16" by simp
    with n(2) show False by (simp add: push_bit_eq_mult drop_bit_eq_div)
  qed
  from try_entries_accepts [OF r [unfolded n(1)]] obtain e t'' where
    e: "e \<in> set (bios_entries full)" "anchor_match (anchor e) ?p 0 = Some True"
      "be_length e ?p = Some n" "be_decode e ?p n = Some (True, t'')" by blast
  have "take (length (anchor e)) ?p = anchor e"
    using anchor_match_take [of 0 "anchor e" ?p] bios.short_anchors [OF e(1)] len e(2) by simp
  moreover have "length (bytes_of ''$SNY'') = 4" "length (bytes_of ''_MP_'') = 4"
    by (simp_all add: bytes_of_def)
  ultimately show ?thesis
    using accepted_length [OF e(1,3,4)] \<open>n = 0\<close> len
    by (auto simp: zero_length_at_def Let_def rd_Some)
qed

lemma try_entries_first:
  assumes "16 \<le> length p" and "\<forall>u\<in>set us. length (anchor u) \<le> 16 \<and> take (length (anchor u)) p \<noteq> anchor u"
    and "try_entry e p fp = Some (Some n, t)"
  shows "try_entries (us @ e # vs) p fp = Some (Some n, t)"
  using assms(2,3)
proof (induction us)
  case (Cons u us)
  have "anchor_match (anchor u) p 0 = Some False"
    using anchor_match_take [of 0 "anchor u" p] assms(1) Cons.prems(1) by simp
  then have "try_entry u p fp = Some (None, [])" by (simp add: try_entry_def)
  with Cons show ?case by simp
qed simp

lemma anchor_differs:
  assumes "take 4 p = x" and "take 4 a \<noteq> x" and "4 \<le> length a"
  shows "take (length a) p \<noteq> a"
  using assms by (metis min_absorb1 take_take)

lemma four_byte_anchor_first:
  assumes "16 \<le> length p" and "bios_entries full = us @ e # vs" and "take 4 p = anchor e"
    and "list_all (\<lambda>u. 4 \<le> length u \<and> length u \<le> 16 \<and> take 4 u \<noteq> anchor e) (map anchor us)"
    and "0xE0000 \<le> fp" and "fp \<le> 0xFFFF0" and "low_address e = 0xE0000" and "length (anchor e) = 4"
    and "be_length e p = Some 0" and "be_decode e p 0 = Some (True, t)"
  shows "try_entries (bios_entries full) p fp = Some (Some 0, t)"
  unfolding assms(2)
proof (rule try_entries_first [OF assms(1)])
  show "\<forall>u\<in>set us. length (anchor u) \<le> 16 \<and> take (length (anchor u)) p \<noteq> anchor u"
    using assms(4) anchor_differs [OF assms(3)] by (auto simp: list_all_iff)
  have "high_address e = 0xFFFFF" using bios.high [of e full] assms(2) by simp
  moreover have "anchor_match (anchor e) p 0 = Some True"
    using anchor_match_take [of 0 "anchor e" p] assms(1,3,8) by simp
  ultimately show "try_entry e p fp = Some (Some 0, t)"
    using assms(5-10) by (simp add: try_entry_def)
qed

lemma zero_length_stuck:
  assumes "length mem = 0x20000" and "0xE0000 \<le> fp" and "fp \<le> 0xFFFF0" and "zero_length_at mem fp"
  shows "\<exists>t. scan_step (bios_entries full) mem fp = Some (fp, t)"
proof -
  let ?p = "drop (nat (fp - 0xE0000)) mem"
  have len: "16 \<le> length ?p" using assms(1-3) by simp
  have ck: "checksum q 0 = Some True" for q by (simp add: checksum_def)
  have anchors: "list_all (\<lambda>u. 4 \<le> length u \<and> length u \<le> 16 \<and> take 4 u \<noteq> bytes_of ''$SNY'')
      (map anchor (take 6 (bios_entries full)))"
    "list_all (\<lambda>u. 4 \<le> length u \<and> length u \<le> 16 \<and> take 4 u \<noteq> bytes_of ''_MP_'')
      (map anchor (take 12 (bios_entries full)))"
    by (simp_all add: bios_entries_def bytes_of_def)
  have split: "bios_entries full = take 6 (bios_entries full) @ bios_entries full ! 6 # drop 7 (bios_entries full)"
    "bios_entries full = take 12 (bios_entries full) @ bios_entries full ! 12 # drop 13 (bios_entries full)"
    by (simp_all add: bios_entries_def)
  have "\<exists>t. try_entries (bios_entries full) ?p fp = Some (Some 0, t)"
  proof (cases "take 4 ?p = bytes_of ''$SNY'' \<and> ?p ! 5 = 0")
    case True
    with len have "be_length (bios_entries full ! 6) ?p = Some 0"
      "be_decode (bios_entries full ! 6) ?p 0 = Some (True, ''Sony system detected.'' @ nl)"
      by (simp_all add: bios_entries_def sony_length_def sony_decode_def ck rd_Some accept_def
          line_def prints.simps)
    from four_byte_anchor_first [OF len split(1) _ _ assms(2,3) _ _ this] True anchors(1)
    show ?thesis by (auto simp: bios_entries_def bytes_of_def)
  next
    case False
    then have mp: "take 4 ?p = bytes_of ''_MP_''" "?p ! 8 = 0"
      using assms(4) by (auto simp: zero_length_at_def Let_def)
    have "safe (mp_decode ?p 0)" by (rule system_decoders_safe) (use len in auto)
    then obtain t where "mp_decode ?p 0 = Some (True, t)"
      by (auto simp: mp_decode_def ck accept_def safe_def)
    with len mp have "be_length (bios_entries full ! 12) ?p = Some 0"
      "be_decode (bios_entries full ! 12) ?p 0 = Some (True, t)"
      by (simp_all add: bios_entries_def mp_length_def rd_Some)
    from four_byte_anchor_first [OF len split(2) _ _ assms(2,3) _ _ this] mp anchors(2)
    show ?thesis by (auto simp: bios_entries_def bytes_of_def)
  qed
  then show ?thesis by (auto simp: scan_step_def push_bit_eq_mult drop_bit_eq_div)
qed

section \<open>Properties\<close>

text \<open>
  C10. biosdecode never reads outside the memory it has read, whatever the 128 KiB hold and
  whatever the command line is: the length that a structure announces is checked against the
  end of the area before it is decoded, and every decoder stays within that length.
\<close>

theorem biosdecode_stays_inside:
  assumes "maps_whole os"
  shows "biosdecode_main os argv0 args \<noteq> Some None"
proof -
  have "length buf = 0x20000" if "mem_chunk os 0xE0000 0x20000 name = (Some buf, err)" for name buf err
    using mem_chunk_length [OF assms _ that] by simp
  then have "scan (scan_step (bios_entries full) buf) 0xE0000 out \<noteq> Some None"
    if "mem_chunk os 0xE0000 0x20000 name = (Some buf, err)" for name buf err full out
    using that bios.scan_result [of buf "0xE0000" full out] by simp
  then show ?thesis
    by (auto simp: biosdecode_main_def Let_def split: prod.splits option.splits)
qed

definition quiet_memory :: os where
  "quiet_memory = \<lparr>os_files = (\<lambda>name. (plain_file (replicate 0x100000 0))\<lparr>fo_mmap := \<lambda>b n. None\<rparr>),
     os_pagesize = 4096\<rparr>"

lemma quiet_memory_whole: "maps_whole quiet_memory"
  by (simp add: maps_whole_def quiet_memory_def)

lemma quiet_memory_honest: "honest_file (os_files quiet_memory name) (replicate 0x100000 0)"
  using honest_plain [of "replicate 0x100000 0"]
  by (simp add: quiet_memory_def honest_file_def plain_file_def)

lemma quiet_memory_chunk:
  "mem_chunk quiet_memory 0xE0000 0x20000 name = (Some (replicate 0x20000 0), [])"
  using honest_file.mem_chunk_contents [OF quiet_memory_honest refl, of "0xE0000" "0x20000" name]
  by (simp add: quiet_memory_def min_def)

theorem biosdecode_stays_inside_witness:
  "biosdecode_main quiet_memory ''biosdecode'' [''--pir'', ''full''] \<noteq> Some None"
  by (rule biosdecode_stays_inside [OF quiet_memory_whole])

text \<open>
  C11. biosdecode ends, with one of the exit statuses 0, 1 and 2, if no Sony or multiprocessor
  structure in the scanned memory announces the length 0.
\<close>

theorem biosdecode_terminates:
  assumes "maps_whole os"
    and "\<And>name buf err fp. mem_chunk os 0xE0000 0x20000 name = (Some buf, err) \<Longrightarrow>
      0xE0000 \<le> fp \<Longrightarrow> fp \<le> 0xFFFF0 \<Longrightarrow> \<not> zero_length_at buf fp"
  shows "\<exists>p. biosdecode_main os argv0 args = Some (Some p) \<and> exit_status p \<le> 2"
proof -
  have "\<exists>out'. scan (scan_step (bios_entries full) buf) 0xE0000 out = Some (Some out')"
    if m: "mem_chunk os 0xE0000 0x20000 name = (Some buf, err)" for name buf err full out
  proof -
    have "length buf = 0x20000" using mem_chunk_length [OF assms(1) _ m] by simp
    then show ?thesis
      using bios.scan_result [of buf "0xE0000" full out] scan_step_stuck [of buf _ full]
        assms(2) [OF m] by force
  qed
  then show ?thesis
    by (fastforce simp: biosdecode_main_def Let_def split: prod.splits option.splits)
qed

lemma replicate_4: "replicate 4 x = [x, x, x, x]"
  by (simp add: eval_nat_numeral)

theorem biosdecode_terminates_witness:
  "\<exists>p. biosdecode_main quiet_memory ''biosdecode'' [] = Some (Some p) \<and> exit_status p \<le> 2"
  by (rule biosdecode_terminates [OF quiet_memory_whole])
    (auto simp: quiet_memory_chunk zero_length_at_def bytes_of_def Let_def replicate_4)

text \<open>
  C40. A Sony structure whose length byte is 0, or a multiprocessor structure of length 0, is
  accepted, the address is advanced by -16 and then by 16, and the scan repeats it forever:
  once it reaches such a structure, biosdecode never ends.
\<close>

theorem biosdecode_hangs:
  assumes "length mem = 0x20000" and "0xE0000 \<le> fp" and "fp \<le> 0xFFFF0" and "zero_length_at mem fp"
  shows "scan (scan_step (bios_entries full) mem) fp out = None"
  using zero_length_stuck [OF assms, of full] scan_stuck assms(3) by blast

theorem biosdecode_hangs_witness:
  "scan (scan_step (bios_entries False) (bytes_of ''$SNY'' @ replicate 0x1FFFC 0)) 0xE0000 [] = None"
  by (rule biosdecode_hangs) (simp_all add: zero_length_at_def bytes_of_def)

end
