(* ===== verification/Ownership.thy ===== *)
theory Ownership
  imports Bios_Decode
begin

text \<open>
  The program ownership (ownership.c): it finds the table of Compaq entries in the BIOS area,
  reads the ownership tag that the entry \<^verbatim>\<open>$ERB\<close> points to, and prints it without trailing
  blanks. The records have the format that biosdecode checks too, so \<open>compaq_check\<close> is
  shared; only the first matching table that yields a non-zero address is used.
\<close>

unbundle bit_operations_syntax

section \<open>The tag\<close>

text \<open>The loop that chops trailing garbage; the argument is \<^verbatim>\<open>i + 1\<close>.\<close>

fun chop :: "u8 list \<Rightarrow> nat \<Rightarrow> nat option" where
  "chop buf 0 = Some 0"
| "chop buf (Suc i) = do {
     b \<leftarrow> rd buf i;
     if b = 0x20 \<or> b = 0x00 then chop buf i else Some (Suc i) }"

definition own_filter :: "u8 \<Rightarrow> u8" where
  "own_filter b = (if b < 32 \<or> 127 \<le> b \<and> b < 160 then 63 else b)"

text \<open>What is printed for the buffer: the filter and the final NUL are written in place.\<close>

definition own_text :: "u8 list \<Rightarrow> string option" where
  "own_text buf = do {
     k \<leftarrow> chop buf 0x50;
     if k < length buf then
       (if k > 0 then map_option (\<lambda>s. s @ nl)
                        (cstring (map own_filter (take k buf) @ 0 # drop (Suc k) buf))
        else nothing)
     else None }"

text \<open>\<open>e\<close> is the error that the second \<^verbatim>\<open>perror\<close> reports when the tag cannot be read.\<close>

definition ownership :: "os \<Rightarrow> errno \<Rightarrow> u32 \<Rightarrow> string \<Rightarrow> string \<Rightarrow> (string \<times> string) option" where
  "ownership os e base pname devmem =
     (case mem_chunk os (uint base) 0x51 devmem of
        (None, err) \<Rightarrow> Some ([], err @ perror pname e)
      | (Some buf, err) \<Rightarrow> map_option (\<lambda>out. (out, err)) (own_text buf))"

section \<open>The table\<close>

fun find_erb :: "u8 list \<Rightarrow> nat \<Rightarrow> nat \<Rightarrow> u32 option" where
  "find_erb p i 0 = Some 0"
| "find_erb p i (Suc k) = do {
     name \<leftarrow> read_bytes (drop (5 + i * 10) p) 4;
     if name = bytes_of ''$ERB'' then DWORD p (9 + i * 10) else find_erb p (Suc i) k }"

definition own_decode :: "u8 list \<Rightarrow> (u32 \<times> string) option" where
  "own_decode p = do {
     k \<leftarrow> rd p 4;
     bad \<leftarrow> compaq_check p 0 (unat k);
     case bad of
       Some (a, b, c, d) \<Rightarrow>
         Some (0, tab @ '' Abnormal Entry! Please report. ['' @ px 2 a @ '' '' @ px 2 b @ '' ''
                    @ px 2 c @ '' '' @ px 2 d @ '']'' @ nl)
     | None \<Rightarrow> map_option (\<lambda>base. (base, [])) (find_erb p 0 (unat k)) }"

fun own_scan :: "os \<Rightarrow> errno \<Rightarrow> string \<Rightarrow> string \<Rightarrow> u8 list \<Rightarrow> nat list \<Rightarrow> (string \<times> string) option" where
  "own_scan os e pname devmem buf [] = Some ([], [])"
| "own_scan os e pname devmem buf (fp # fps) = (let p = drop fp buf in do {
     a \<leftarrow> read_bytes p 4;
     (base, t) \<leftarrow>
       (if a = bytes_of ''32OS'' then do {
          n \<leftarrow> rd p 4;
          if fp + (unat n * 10 + 5) - 1 \<le> 0x1FFFF then own_decode p else Some (0, []) }
        else Some (0, []));
     (out, err) \<leftarrow> (if base \<noteq> 0 then ownership os e base pname devmem
                    else own_scan os e pname devmem buf fps);
     Some (t @ out, err) })"

section \<open>Command line and main\<close>

definition ownership_long :: long_table where
  "ownership_long =
     [(''dev-mem'', True, CHR ''d''), (''help'', False, CHR ''h''), (''version'', False, CHR ''V'')]"

text \<open>The options are the device and the flags.\<close>

fun ownership_parse :: "getopt_result list \<Rightarrow> string \<times> u32 \<Rightarrow> (string \<times> u32) option \<times> string" where
  "ownership_parse [] o' = (Some o', [])"
| "ownership_parse (Badopt c msg # rs) o' = (None, msg)"
| "ownership_parse (Optval c a # rs) (devmem, flags) = ownership_parse rs
     (if c = CHR ''d'' then (a, flags)
      else if c = CHR ''h'' then (devmem, flags OR 2)
      else if c = CHR ''V'' then (devmem, flags OR 1)
      else (devmem, flags))"

definition ownership_help :: string where
  "ownership_help =
     ''Usage: ownership [OPTIONS]'' @ nl @ ''Options are:'' @ nl
     @ '' -d, --dev-mem FILE     Read memory from device FILE (default: '' @ DEFAULT_MEM_DEV @ '')'' @ nl
     @ '' -h, --help             Display this help text and exit'' @ nl
     @ '' -V, --version          Display the version and exit'' @ nl"

definition ownership_main :: "os \<Rightarrow> errno \<Rightarrow> string \<Rightarrow> string list \<Rightarrow> program option" where
  "ownership_main os e argv0 args =
     (case ownership_parse (getopt_long argv0 biosdecode_short ownership_long args) (DEFAULT_MEM_DEV, 0) of
        (None, err) \<Rightarrow> Some \<lparr>exit_status = 2, p_out = [], p_err = err\<rparr>
      | (Some (devmem, flags), err) \<Rightarrow>
          if bit flags 1 then Some \<lparr>exit_status = 0, p_out = ownership_help, p_err = err\<rparr>
          else if bit flags 0 then Some \<lparr>exit_status = 0, p_out = VERSION @ nl, p_err = err\<rparr>
          else
            (case mem_chunk os 0xE0000 0x20000 devmem of
               (None, err') \<Rightarrow> Some \<lparr>exit_status = 1, p_out = [], p_err = err @ err'\<rparr>
             | (Some buf, err') \<Rightarrow> do {
                 (out, err'') \<leftarrow> own_scan os e argv0 devmem buf (map (\<lambda>k. 16 * k) [0..<0x2000]);
                 Some \<lparr>exit_status = 0, p_out = out, p_err = err @ err' @ err''\<rparr> }))"

section \<open>What is read and printed\<close>

definition blank :: "u8 \<Rightarrow> bool" where
  "blank b \<longleftrightarrow> b = 0x20 \<or> b = 0"

lemma chop_spec:
  "n \<le> length buf \<Longrightarrow>
   chop buf n = Some (length (dropWhile blank (rev (take n buf))))"
  by (induction n) (simp_all add: rd_def take_Suc_conv_app_nth blank_def)

lemma trimmed_prefix:
  "take (length (dropWhile blank (rev xs))) xs = rev (dropWhile blank (rev xs))"
proof -
  have "rev (takeWhile blank (rev xs) @ dropWhile blank (rev xs)) = xs" by simp
  then have "xs = rev (dropWhile blank (rev xs)) @ rev (takeWhile blank (rev xs))"
    by (simp only: rev_append)
  then show ?thesis by (metis append_eq_conv_conj length_rev)
qed

lemma cstring_append:
  "0 \<notin> set xs \<Longrightarrow> cstring (xs @ 0 # ys) = Some (map char_of_byte xs)"
proof -
  assume "0 \<notin> set xs"
  then have "strlen (xs @ 0 # ys) = Some (length xs)"
    by (induction xs) auto
  then show ?thesis by (simp add: cstring_def)
qed

text \<open>The tag without its trailing blanks.\<close>

definition tag_of :: "u8 list \<Rightarrow> u8 list" where
  "tag_of buf = rev (dropWhile blank (rev (take 0x50 buf)))"

lemma own_text_spec:
  assumes "length buf = 0x51"
  shows "own_text buf = Some (if tag_of buf = [] then []
    else map (\<lambda>b. char_of_byte (own_filter b)) (tag_of buf) @ nl)"
proof -
  let ?k = "length (dropWhile blank (rev (take 0x50 buf)))"
  have ch: "chop buf 0x50 = Some ?k" using assms by (intro chop_spec) simp
  have k: "?k \<le> 0x50" using assms length_dropWhile_le [of blank "rev (take 0x50 buf)"] by simp
  then have "take ?k buf = take ?k (take 0x50 buf)" by (simp add: min_def)
  then have tk: "take ?k buf = tag_of buf"
    using trimmed_prefix [of "take 0x50 buf"] by (simp only: tag_of_def)
  have nz: "0 \<notin> set (map own_filter bs)" for bs by (auto simp: own_filter_def)
  have "?k = length (tag_of buf)" by (simp add: tag_of_def)
  with ch tk k assms cstring_append [OF nz [of "tag_of buf"]] show ?thesis
    by (simp add: own_text_def)
qed

lemma find_erb_safe: "5 + (i + k) * 10 \<le> length p \<Longrightarrow> safe (find_erb p i k)"
  by (induction p i k rule: find_erb.induct) (auto simp: dmi_safe)

lemma own_decode_safe:
  "4 < length p \<Longrightarrow> unat (p ! 4) * 10 + 5 \<le> length p \<Longrightarrow> safe (own_decode p)"
  using compaq_check_safe [of 0 "unat (p ! 4)" p] find_erb_safe [of 0 "unat (p ! 4)" p]
  by (auto simp: own_decode_def dmi_safe rd_def split: option.split)

lemma ownership_safe: "maps_whole os \<Longrightarrow> safe (ownership os e base pname devmem)"
proof -
  assume os: "maps_whole os"
  have "\<exists>t. own_text buf = Some t" if "mem_chunk os (uint base) 0x51 devmem = (Some buf, err)" for buf err
    using own_text_spec mem_chunk_length [OF os _ that] by simp
  then show ?thesis by (auto simp: ownership_def dmi_safe split: prod.split option.split)
qed

lemma own_scan_safe:
  assumes "maps_whole os" and "length buf = 0x20000" and "\<forall>fp\<in>set fps. fp \<le> 0x1FFF0"
  shows "safe (own_scan os e pname devmem buf fps)"
  using assms(3)
proof (induction fps)
  case (Cons fp fps)
  let ?p = "drop fp buf"
  have "16 \<le> length ?p" "length ?p = 0x20000 - fp" using assms(2) Cons.prems by auto
  then have "safe (own_decode ?p)" if "fp + (unat (?p ! 4) * 10 + 5) - 1 \<le> 0x1FFFF"
    using that by (intro own_decode_safe) auto
  with Cons \<open>16 \<le> length ?p\<close> show ?case
    by (auto simp: Let_def dmi_safe ownership_safe [OF assms(1)] rd_Some)
qed simp

section \<open>Properties\<close>

text \<open>
  The program ownership always ends without a read outside its buffers, and the tag it
  prints is the first 80 bytes at the address of the entry without trailing blanks and NUL
  bytes, with control characters shown as question marks.
\<close>

theorem ownership_prints_tag:
  assumes "maps_whole os"
  shows "(\<exists>p. ownership_main os e argv0 args = Some p)
    \<and> (\<forall>base devmem buf err. mem_chunk os (uint base) 0x51 devmem = (Some buf, err) \<longrightarrow>
        ownership os e base argv0 devmem =
          Some (if tag_of buf = [] then []
                else map (\<lambda>b. char_of_byte (own_filter b)) (tag_of buf) @ nl, err))"
proof (intro conjI allI impI)
  have "\<exists>r. own_scan os e argv0 name buf (map (\<lambda>k. 16 * k) [0..<0x2000]) = Some r"
    if "mem_chunk os 0xE0000 0x20000 name = (Some buf, err)" for name buf err
  proof -
    have "safe (own_scan os e argv0 name buf (map (\<lambda>k. 16 * k) [0..<0x2000]))"
      using mem_chunk_length [OF assms _ that] by (intro own_scan_safe [OF assms]) auto
    then show ?thesis by (simp add: safe_def)
  qed
  then show "\<exists>p. ownership_main os e argv0 args = Some p"
    by (fastforce simp: ownership_main_def split: prod.splits option.splits)
next
  fix base :: u32 and devmem buf err
  assume m: "mem_chunk os (uint base) 0x51 devmem = (Some buf, err)"
  then have "length buf = 0x51" using mem_chunk_length [OF assms _ m] by simp
  with m show "ownership os e base argv0 devmem =
      Some (if tag_of buf = [] then []
            else map (\<lambda>b. char_of_byte (own_filter b)) (tag_of buf) @ nl, err)"
    by (simp add: ownership_def own_text_spec)
qed

lemma quiet_memory_tag:
  "mem_chunk quiet_memory (uint (0 :: u32)) 0x51 name = (Some (replicate 0x51 0), [])"
  using honest_file.mem_chunk_contents [OF quiet_memory_honest refl, of 0 "0x51" name]
  by (simp add: quiet_memory_def min_def)

theorem ownership_prints_tag_witness:
  "(\<exists>p. ownership_main quiet_memory ENOENT ''ownership'' [] = Some p)
   \<and> ownership quiet_memory ENOENT 0 ''ownership'' ''/dev/mem'' = Some ([], [])"
proof -
  note tag = ownership_prints_tag [OF quiet_memory_whole, of ENOENT "''ownership''"]
  have "tag_of (replicate 0x51 0) = []" by (simp add: tag_of_def blank_def)
  with tag [of "[]", THEN conjunct2, rule_format, OF quiet_memory_tag [of "''/dev/mem''"]]
    tag [of "[]", THEN conjunct1]
  show ?thesis by simp
qed

end
