(* ===== verification/Nm_Ascii.thy ===== *)
theory Nm_Ascii
  imports Dmi_Libc
begin

text \<open>
  Characters, C strings and numbers as the helpers of NetworkManager use them
  (\<^verbatim>\<open>shared/nm-glib-aux/nm-shared-utils.c\<close>). A C string is the list of its characters without
  the final NUL; \<open>c_string\<close> says that a list is one, and \<open>cstr\<close> is what remains of a buffer when
  it is used as a C string. \<^verbatim>\<open>char\<close> is signed, as on x86 (\<open>schar\<close>).

  The character classes and number parsers of GLib are the ones of the C locale: the
  definitions \<open>g_ascii_isspace\<close> and so on state their documented results (the white space of
  GLib leaves out the vertical tab). \<open>g_ascii_strtoll\<close> gives the value, the rest of the string and
  whether \<^verbatim>\<open>errno\<close> was set to \<^verbatim>\<open>ERANGE\<close>.

  The lemmas show that \<open>nm_utils_ascii_str_to_int64\<close> stays inside the range it was given and
  reads back every printed number.
\<close>

section \<open>Characters\<close>

abbreviation NUL :: char where
  "NUL \<equiv> CHR 0x00"

definition schar :: "char \<Rightarrow> int" where
  "schar c = (let k = of_char c :: int in if k < 128 then k else k - 256)"

definition g_ascii_isspace :: "char \<Rightarrow> bool" where
  "g_ascii_isspace c \<longleftrightarrow> c \<in> set [CHR '' '', CHR 0x09, CHR 0x0A, CHR 0x0C, CHR 0x0D]"

definition g_ascii_isdigit :: "char \<Rightarrow> bool" where
  "g_ascii_isdigit c \<longleftrightarrow> (let k = of_char c :: nat in 48 \<le> k \<and> k \<le> 57)"

definition g_ascii_isalpha :: "char \<Rightarrow> bool" where
  "g_ascii_isalpha c \<longleftrightarrow> (let k = of_char c :: nat in 65 \<le> k \<and> k \<le> 90 \<or> 97 \<le> k \<and> k \<le> 122)"

definition g_ascii_isalnum :: "char \<Rightarrow> bool" where
  "g_ascii_isalnum c \<longleftrightarrow> g_ascii_isalpha c \<or> g_ascii_isdigit c"

definition g_ascii_isxdigit :: "char \<Rightarrow> bool" where
  "g_ascii_isxdigit c \<longleftrightarrow> digit_val c < 16"

definition g_ascii_strcasecmp_eq :: "string \<Rightarrow> string \<Rightarrow> bool" where
  "g_ascii_strcasecmp_eq s t \<longleftrightarrow> map tolower s = map tolower t"

section \<open>C strings\<close>

definition c_string :: "string \<Rightarrow> bool" where
  "c_string s \<longleftrightarrow> NUL \<notin> set s"

definition cstr :: "string \<Rightarrow> string" where
  "cstr s = takeWhile (\<lambda>c. c \<noteq> NUL) s"

lemma cstr_c_string [simp]: "c_string s \<Longrightarrow> cstr s = s"
  by (auto simp: c_string_def cstr_def takeWhile_eq_all_conv)

lemma c_string_cstr [simp]: "c_string (cstr s)"
  by (auto simp: c_string_def cstr_def dest: set_takeWhileD)

lemma c_string_simps [simp]:
  "c_string []" "c_string (c # s) \<longleftrightarrow> c \<noteq> NUL \<and> c_string s"
  "c_string (s @ t) \<longleftrightarrow> c_string s \<and> c_string t"
  by (auto simp: c_string_def)

lemma c_string_take: "c_string s \<Longrightarrow> c_string (take n s)"
  by (auto simp: c_string_def dest: in_set_takeD)

text \<open>\<^verbatim>\<open>nm_str_skip_leading_spaces\<close>.\<close>

definition nm_str_skip_leading_spaces :: "string \<Rightarrow> string" where
  "nm_str_skip_leading_spaces s = dropWhile g_ascii_isspace s"

lemma skip_leading_spaces_append:
  "\<forall>c\<in>set us. g_ascii_isspace c \<Longrightarrow>
   nm_str_skip_leading_spaces (us @ s) = nm_str_skip_leading_spaces s"
  by (simp add: nm_str_skip_leading_spaces_def dropWhile_append2)

lemma skip_leading_spaces_id:
  "s = [] \<or> \<not> g_ascii_isspace (hd s) \<Longrightarrow> nm_str_skip_leading_spaces s = s"
  by (cases s) (auto simp: nm_str_skip_leading_spaces_def)

section \<open>Numbers\<close>

datatype nm_errno = E_NONE | EINVAL | ERANGE | ENOKEY

abbreviation G_MAXINT64 :: int where "G_MAXINT64 \<equiv> 2 ^ 63 - 1"
abbreviation G_MININT64 :: int where "G_MININT64 \<equiv> - (2 ^ 63)"

text \<open>
  The sign, the magnitude and the rest that \<^verbatim>\<open>strtoll\<close> and \<^verbatim>\<open>strtoull\<close> have in common; the
  magnitude is \<open>None\<close> when there is no digit.
\<close>

definition parse_long_long :: "string \<Rightarrow> nat \<Rightarrow> bool \<times> nat option \<times> string" where
  "parse_long_long s base =
     (let (neg, s1) = strtoul_sign (dropWhile isspace s);
          (b, s2) = strtoul_base base s1;
          ds = takeWhile (\<lambda>c. digit_val c < b) s2
      in if ds = [] then (neg, None, s)
         else (neg, Some (digits_value b ds), dropWhile (\<lambda>c. digit_val c < b) s2))"

definition g_ascii_strtoll :: "string \<Rightarrow> nat \<Rightarrow> int \<times> string \<times> bool" where
  "g_ascii_strtoll s base =
     (case parse_long_long s base of
        (neg, None, r) \<Rightarrow> (0, r, False)
      | (neg, Some v, r) \<Rightarrow>
          if neg \<and> v > 2 ^ 63 then (G_MININT64, r, True)
          else if \<not> neg \<and> v > 2 ^ 63 - 1 then (G_MAXINT64, r, True)
          else (if neg then - int v else int v, r, False))"

definition g_ascii_strtoull :: "string \<Rightarrow> nat \<Rightarrow> nat \<times> string \<times> bool" where
  "g_ascii_strtoull s base =
     (case parse_long_long s base of
        (neg, None, r) \<Rightarrow> (0, r, False)
      | (neg, Some v, r) \<Rightarrow>
          if v \<ge> 2 ^ 64 then (2 ^ 64 - 1, r, True)
          else (if neg then (2 ^ 64 - v) mod 2 ^ 64 else v, r, False))"

text \<open>
  \<^verbatim>\<open>_nm_utils_ascii_str_to_int64\<close> and \<^verbatim>\<open>_nm_utils_ascii_str_to_uint64\<close>: the result and \<^verbatim>\<open>errno\<close>.
  The string may be \<^verbatim>\<open>NULL\<close>.
\<close>

definition nm_utils_ascii_str_to_int64 ::
  "string option \<Rightarrow> nat \<Rightarrow> int \<Rightarrow> int \<Rightarrow> int \<Rightarrow> int \<times> nm_errno" where
  "nm_utils_ascii_str_to_int64 str base mn mx fallback =
     (case map_option nm_str_skip_leading_spaces str of
        None \<Rightarrow> (fallback, EINVAL)
      | Some str \<Rightarrow>
          if str = [] then (fallback, EINVAL)
          else
            (let (v, s, erange) = g_ascii_strtoll str base
             in if erange then (fallback, ERANGE)
                else if s \<noteq> [] \<and> nm_str_skip_leading_spaces s \<noteq> [] then (fallback, EINVAL)
                else if v > mx \<or> v < mn then (fallback, ERANGE)
                else (v, E_NONE)))"

definition nm_utils_ascii_str_to_uint64 ::
  "string option \<Rightarrow> nat \<Rightarrow> nat \<Rightarrow> nat \<Rightarrow> nat \<Rightarrow> nat \<times> nm_errno" where
  "nm_utils_ascii_str_to_uint64 str base mn mx fallback =
     (case map_option (dropWhile g_ascii_isspace) str of
        None \<Rightarrow> (fallback, EINVAL)
      | Some str \<Rightarrow>
          if str = [] then (fallback, EINVAL)
          else
            (let (v, s, erange) = g_ascii_strtoull str base
             in if erange then (fallback, ERANGE)
                else if s \<noteq> [] \<and> dropWhile g_ascii_isspace s \<noteq> [] then (fallback, EINVAL)
                else if v > mx \<or> v < mn then (fallback, ERANGE)
                else (v, E_NONE)))"

text \<open>\<^verbatim>\<open>printf("%ld")\<close> of a 64-bit number.\<close>

definition dec_int :: "int \<Rightarrow> string" where
  "dec_int v = (if v < 0 then CHR ''-'' # dec (nat (- v)) else dec (nat v))"

subsection \<open>Reading back a printed number\<close>

lemma isspace_g_ascii: "g_ascii_isspace c \<Longrightarrow> isspace c"
  by (auto simp: g_ascii_isspace_def isspace_def)

lemma dec_hd:
  obtains d cs where "dec n = digit d # cs" "d < 10"
  using dec_not_Nil [of n] dec_digits [of "hd (dec n)" n] by (cases "dec n") auto

lemma dec_all_digits: "\<forall>c\<in>set (dec n). digit_val c < 10"
  using dec_digits digit_val_digit by fastforce

lemma dec_int_hd:
  obtains c cs where "dec_int v = c # cs" "\<not> isspace c" "\<not> g_ascii_isspace c"
proof (cases "v < 0")
  case True
  then show ?thesis
    by (intro that [of "CHR ''-''"]) (simp_all add: dec_int_def isspace_def g_ascii_isspace_def)
next
  case False
  obtain d cs where d: "dec (nat v) = digit d # cs" "d < 10" by (rule dec_hd)
  then have "\<not> isspace (digit d)" using digit_not_space by blast
  then show ?thesis
    using d(1) False isspace_g_ascii by (intro that [of "digit d" cs]) (auto simp: dec_int_def)
qed

lemma space_no_digit: "g_ascii_isspace c \<Longrightarrow> \<not> digit_val c < 10"
  by (auto simp: g_ascii_isspace_def digit_val_def Let_def)

lemma digits_then_spaces:
  assumes "\<forall>c\<in>set ds. digit_val c < 10" and "\<forall>c\<in>set ws. g_ascii_isspace c"
  shows "takeWhile (\<lambda>c. digit_val c < 10) (ds @ ws) = ds"
    and "dropWhile (\<lambda>c. digit_val c < 10) (ds @ ws) = ws"
  using assms space_no_digit by (cases ws; simp)+

lemma parse_long_long_dec_int:
  assumes "\<forall>c\<in>set ws. g_ascii_isspace c"
  shows "parse_long_long (dec_int v @ ws) 10 = (v < 0, Some (nat \<bar>v\<bar>), ws)"
proof -
  obtain c cs where c: "dec_int v = c # cs" "\<not> isspace c" by (rule dec_int_hd)
  have sp: "dropWhile isspace (dec_int v @ ws) = dec_int v @ ws" using c by simp
  obtain d ds where d: "dec (nat \<bar>v\<bar>) = digit d # ds" "d < 10" by (rule dec_hd)
  have sg: "strtoul_sign (dec_int v @ ws) = (v < 0, dec (nat \<bar>v\<bar>) @ ws)"
    using d digit_not_space [OF d(2)] by (auto simp: dec_int_def strtoul_sign_def)
  note all = digits_then_spaces [OF dec_all_digits [of "nat \<bar>v\<bar>"] assms]
  show ?thesis
    unfolding parse_long_long_def sp sg
    by (simp add: strtoul_base_def all dec_not_Nil digits_value_dec)
qed

lemma strtoll_dec_int:
  assumes "G_MININT64 \<le> v" and "v \<le> G_MAXINT64" and "\<forall>c\<in>set ws. g_ascii_isspace c"
  shows "g_ascii_strtoll (dec_int v @ ws) 10 = (v, ws, False)"
proof -
  have "\<not> (v < 0 \<and> nat \<bar>v\<bar> > 2 ^ 63)" "\<not> (\<not> v < 0 \<and> nat \<bar>v\<bar> > 2 ^ 63 - 1)"
    using assms(1,2) by (auto simp: nat_le_iff not_less)
  then show ?thesis
    using parse_long_long_dec_int [OF assms(3), of v] by (simp add: g_ascii_strtoll_def)
qed

lemma str_to_int64_dec_int:
  assumes "G_MININT64 \<le> v" and "v \<le> G_MAXINT64"
    and "list_all g_ascii_isspace us" and "list_all g_ascii_isspace ws"
  shows "nm_utils_ascii_str_to_int64 (Some (us @ dec_int v @ ws)) 10 mn mx fallback =
           (if mn \<le> v \<and> v \<le> mx then (v, E_NONE) else (fallback, ERANGE))"
proof -
  obtain c cs where c: "dec_int v = c # cs" "\<not> g_ascii_isspace c" by (rule dec_int_hd)
  have "nm_str_skip_leading_spaces (us @ dec_int v @ ws) = dec_int v @ ws"
    using c assms(3) by (subst skip_leading_spaces_append)
      (simp_all add: list_all_iff skip_leading_spaces_id)
  moreover have "nm_str_skip_leading_spaces ws = []"
    using assms(4) by (simp add: nm_str_skip_leading_spaces_def list_all_iff)
  ultimately show ?thesis
    using c(1) strtoll_dec_int [OF assms(1,2), of ws] assms(4)
    by (auto simp: nm_utils_ascii_str_to_int64_def list_all_iff)
qed

text \<open>
  Every 64-bit number printed by \<^verbatim>\<open>%ld\<close>, with any white space around it, is read back by
  \<^verbatim>\<open>_nm_utils_ascii_str_to_int64\<close> in base 10, with \<^verbatim>\<open>errno\<close> 0, when it is inside the range the
  caller allows; outside that range the result is the fallback and \<^verbatim>\<open>errno\<close> is \<^verbatim>\<open>ERANGE\<close>.
\<close>

theorem ascii_str_to_int64_roundtrip:
  assumes "G_MININT64 \<le> v" and "v \<le> G_MAXINT64"
    and "list_all g_ascii_isspace us" and "list_all g_ascii_isspace ws"
  shows "nm_utils_ascii_str_to_int64 (Some (us @ dec_int v @ ws)) 10 mn mx fallback =
           (if mn \<le> v \<and> v \<le> mx then (v, E_NONE) else (fallback, ERANGE))"
  using assms by (rule str_to_int64_dec_int)

theorem ascii_str_to_int64_roundtrip_witness:
  "nm_utils_ascii_str_to_int64 (Some ([CHR '' ''] @ dec_int (-12) @ [CHR 0x09])) 10 (-20) 5 7 =
   (-12, E_NONE)"
  using ascii_str_to_int64_roundtrip [of "-12" "[CHR '' '']" "[CHR 0x09]" "-20" 5 7]
  by (simp add: g_ascii_isspace_def)

text \<open>The promise of the comment: a result inside the range or the fallback, with \<^verbatim>\<open>errno\<close> set.\<close>

lemma ascii_str_to_int64_range:
  "nm_utils_ascii_str_to_int64 str base mn mx fallback = (v, e) \<Longrightarrow>
   (e = E_NONE \<and> mn \<le> v \<and> v \<le> mx) \<or> (e \<noteq> E_NONE \<and> v = fallback)"
  by (auto simp: nm_utils_ascii_str_to_int64_def Let_def split: option.splits prod.splits if_splits)

lemma ascii_str_to_uint64_range:
  "nm_utils_ascii_str_to_uint64 str base mn mx fallback = (v, e) \<Longrightarrow>
   (e = E_NONE \<and> mn \<le> v \<and> v \<le> mx) \<or> (e \<noteq> E_NONE \<and> v = fallback)"
  by (auto simp: nm_utils_ascii_str_to_uint64_def Let_def split: option.splits prod.splits if_splits)

end
