(* ===== verification/Shvar_Quote.thy ===== *)
theory Shvar_Quote
  imports Nm_Ascii
begin

text \<open>
  The quoting of values in ifcfg files, \<^verbatim>\<open>svEscape\<close> and \<^verbatim>\<open>svUnescape\<close> of
  \<^verbatim>\<open>src/settings/plugins/ifcfg-rh/shvar.c\<close>.

  A value is what follows \<^verbatim>\<open>KEY=\<close> on a line. \<^verbatim>\<open>svUnescape\<close> reads it as bash does: plain
  characters, backslash escapes, single and double quotes, ANSI-C quotes and a trailing
  comment; \<open>None\<close> is the \<^verbatim>\<open>NULL\<close> it returns for what it does not support. The scanners of the
  quoted parts (\<open>sv_single\<close>, \<open>sv_double\<close>, \<open>sv_ansic\<close>) take the text from the position of the scan
  and give the characters they append and the rest; the end of the list is the final NUL, so no
  scanner looks beyond it. The buffer \<^verbatim>\<open>str\<close> of the code is created at the first quote; before
  that the result is a prefix of the value itself. Whether a result is a new string or a pointer
  into the old one (\<^verbatim>\<open>to_free\<close>) is left out. The buffer may contain NUL characters from escapes;
  the caller sees it as a C string (\<open>cstr\<close>).

  The encoding of a code point by \<^verbatim>\<open>g_string_append_unichar\<close> is the argument \<open>uc\<close>.

  The theorems: every string is read back from its escaped form, the escaped form is one line,
  and values quoted by the rules of older versions are still read back.
\<close>

abbreviation SQ :: char where "SQ \<equiv> CHR 0x27"
abbreviation DQ :: char where "DQ \<equiv> CHR 0x22"
abbreviation BSL :: char where "BSL \<equiv> CHR 0x5C"
abbreviation BTICK :: char where "BTICK \<equiv> CHR 0x60"

section \<open>Escaping\<close>

definition octal3 :: "char \<Rightarrow> string" where
  "octal3 c = map (\<lambda>k. char_of (48 + nat (k mod 8))) [schar c div 64, schar c div 8, schar c]"

definition ansic_char :: "char \<Rightarrow> string" where
  "ansic_char c =
     (if c = CHR 0x08 then [BSL, CHR ''b'']
      else if c = CHR 0x0C then [BSL, CHR ''f'']
      else if c = CHR 0x0A then [BSL, CHR ''n'']
      else if c = CHR 0x0D then [BSL, CHR ''r'']
      else if c = CHR 0x09 then [BSL, CHR ''t'']
      else if c = CHR 0x0B then [BSL, CHR ''v'']
      else if c \<in> set [BSL, DQ, SQ] then [BSL, c]
      else if schar c < 32 \<or> schar c \<ge> 127 then BSL # octal3 c
      else [c])"

definition escape_ansic :: "string \<Rightarrow> string" where
  "escape_ansic source = CHR ''$'' # SQ # concat (map ansic_char source) @ [SQ]"

definition char_req_escape :: "char \<Rightarrow> bool" where
  "char_req_escape c \<longleftrightarrow> c \<in> set [DQ, BSL, CHR ''$'', BTICK]"

definition char_req_escape_old :: "char \<Rightarrow> bool" where
  "char_req_escape_old c \<longleftrightarrow> c \<in> set [DQ, BSL, SQ, CHR ''$'', BTICK, CHR ''~'']"

definition char_req_quotes :: "char \<Rightarrow> bool" where
  "char_req_quotes c \<longleftrightarrow>
     c \<in> set [CHR '' '', SQ, CHR ''~'', CHR 0x09, CHR ''|'', CHR ''&'', CHR '';'', CHR ''('', CHR '')'',
              CHR ''<'', CHR ''>'']"

text \<open>
  The first loop of \<^verbatim>\<open>svEscape\<close>: the number of characters to escape and whether quotes are
  needed, or \<open>None\<close> when a control character is found (the early return).
\<close>

fun sv_scan :: "string \<Rightarrow> nat \<Rightarrow> bool \<Rightarrow> (nat \<times> bool) option" where
  "sv_scan [] mangle requires_quotes = Some (mangle, requires_quotes)"
| "sv_scan (c # cs) mangle requires_quotes =
     (if char_req_escape c then sv_scan cs (mangle + 1) requires_quotes
      else if char_req_quotes c then sv_scan cs mangle True
      else if schar c < 32 then None
      else sv_scan cs mangle requires_quotes)"

definition dq_char :: "char \<Rightarrow> string" where
  "dq_char c = (if char_req_escape c then [BSL, c] else [c])"

definition svEscape :: "string \<Rightarrow> string" where
  "svEscape s =
     (case sv_scan s 0 False of
        None \<Rightarrow> escape_ansic s
      | Some (mangle, requires_quotes) \<Rightarrow>
          if mangle = 0 \<and> \<not> requires_quotes then s
          else DQ # concat (map dq_char s) @ [DQ])"

section \<open>Unescaping\<close>

fun old_svescaped_from :: "string \<Rightarrow> bool" where
  "old_svescaped_from [] = False"
| "old_svescaped_from (c # cs) =
     (if \<not> char_req_escape_old c then old_svescaped_from cs
      else if c = DQ then cs = []
      else if c = BSL then
        (case cs of [] \<Rightarrow> False
         | d # ds \<Rightarrow> if \<not> char_req_escape_old d then False else old_svescaped_from ds)
      else False)"

definition looks_like_old_svescaped :: "string \<Rightarrow> bool" where
  "looks_like_old_svescaped value =
     (case value of c # cs \<Rightarrow> c = DQ \<and> old_svescaped_from cs | [] \<Rightarrow> False)"

definition ch_octal_is :: "char \<Rightarrow> bool" where
  "ch_octal_is c \<longleftrightarrow> 48 \<le> schar c \<and> schar c < 56"

definition ch_octal_get :: "char \<Rightarrow> nat" where
  "ch_octal_get c = of_char c - 48"

definition ch_hex_is :: "char \<Rightarrow> bool" where
  "ch_hex_is c \<longleftrightarrow> g_ascii_isxdigit c"

definition ch_hex_get :: "char \<Rightarrow> nat" where
  "ch_hex_get c = (if of_char c \<le> (57 :: nat) then of_char c - 48
                   else and (of_char c) 0x4F - 65 + 10)"

text \<open>The characters an ANSI-C escape appends, and the rest; \<open>d\<close> follows the backslash.\<close>

definition ansic_simple :: "char \<Rightarrow> char option" where
  "ansic_simple d = map_of
     [(CHR ''a'', CHR 0x07), (CHR ''b'', CHR 0x08), (CHR ''e'', CHR 0x1B), (CHR ''E'', CHR 0x1B),
      (CHR ''f'', CHR 0x0C), (CHR ''n'', CHR 0x0A), (CHR ''r'', CHR 0x0D), (CHR ''t'', CHR 0x09),
      (CHR ''v'', CHR 0x0B), (CHR ''?'', CHR ''?''), (DQ, DQ), (BSL, BSL), (SQ, SQ)] d"

definition ansic_octal :: "string \<Rightarrow> string \<times> string" where
  "ansic_octal ds =
     (let os = takeWhile ch_octal_is (take 3 ds);
          v = foldl (\<lambda>v c. v * 8 + ch_octal_get c) 0 os
      in ([char_of (v mod 256)], drop (length os) ds))"

definition ansic_hex :: "(u32 \<Rightarrow> string) \<Rightarrow> char \<Rightarrow> string \<Rightarrow> string \<times> string" where
  "ansic_hex uc escape_type ds =
     (let max_digits = (if escape_type = CHR ''x'' then 2 else if escape_type = CHR ''u'' then 4 else 8);
          hs = takeWhile ch_hex_is (take max_digits ds);
          v = foldl (\<lambda>v c. v * 16 + ch_hex_get c) 0 hs
      in if hs = [] then ([BSL, escape_type], ds)
         else (if escape_type = CHR ''x'' then [char_of (v mod 256)] else uc (word_of_nat v),
               drop (length hs) ds))"

definition ansic_escape :: "(u32 \<Rightarrow> string) \<Rightarrow> char \<Rightarrow> string \<Rightarrow> string \<times> string" where
  "ansic_escape uc d ds =
     (case ansic_simple d of
        Some c \<Rightarrow> ([c], ds)
      | None \<Rightarrow>
          if ch_octal_is d then ansic_octal (d # ds)
          else if d \<in> set [CHR ''x'', CHR ''u'', CHR ''U''] then ansic_hex uc d ds
          else ([BSL, d], ds))"

text \<open>Appending to the characters a scanner gives.\<close>

definition scan_app :: "string \<Rightarrow> (string \<times> string) option \<Rightarrow> (string \<times> string) option" where
  "scan_app out r = map_option (\<lambda>(a, rest). (out @ a, rest)) r"

lemma scan_app_simps [simp]:
  "scan_app out None = None" "scan_app out (Some (a, rest)) = Some (out @ a, rest)"
  by (simp_all add: scan_app_def)

fun sv_single :: "string \<Rightarrow> (string \<times> string) option" where
  "sv_single [] = None"
| "sv_single (c # cs) = (if c = SQ then Some ([], cs) else scan_app [c] (sv_single cs))"

text \<open>What a backslash and the character after it stand for in double quotes.\<close>

definition dq_unescape :: "bool \<Rightarrow> char \<Rightarrow> string" where
  "dq_unescape old d =
     (if d \<in> set [CHR ''$'', BTICK, DQ, BSL] then [d]
      else if d \<in> set [SQ, CHR ''~''] then (if old then [d] else [BSL, d])
      else [BSL, d])"

fun sv_double :: "bool \<Rightarrow> string \<Rightarrow> (string \<times> string) option" where
  "sv_double old [] = None"
| "sv_double old (c # cs) =
     (if c = DQ then Some ([], cs)
      else if c \<in> set [BTICK, CHR ''$''] then None
      else if c = BSL then
        (case cs of
           [] \<Rightarrow> None
         | d # ds \<Rightarrow> scan_app (dq_unescape old d) (sv_double old ds))
      else scan_app [c] (sv_double old cs))"

lemma ansic_escape_rest: "length (snd (ansic_escape uc d ds)) \<le> length ds"
proof -
  have "ch_octal_is d \<Longrightarrow> length (snd (ansic_octal (d # ds))) \<le> length ds"
    by (simp add: ansic_octal_def Let_def)
  moreover have "length (snd (ansic_hex uc d ds)) \<le> length ds"
    by (simp add: ansic_hex_def Let_def)
  ultimately show ?thesis
    by (auto simp: ansic_escape_def split: option.split)
qed

function sv_ansic :: "(u32 \<Rightarrow> string) \<Rightarrow> string \<Rightarrow> (string \<times> string) option" where
  "sv_ansic uc [] = None"
| "sv_ansic uc (c # cs) =
     (if c = SQ then Some ([], cs)
      else if c = BSL then
        (case cs of
           [] \<Rightarrow> None
         | d # ds \<Rightarrow> scan_app (fst (ansic_escape uc d ds)) (sv_ansic uc (snd (ansic_escape uc d ds))))
      else scan_app [c] (sv_ansic uc cs))"
  by pat_completeness auto
termination
  by (relation "measure (\<lambda>(uc, s). length s)")
    (auto simp: less_Suc_eq_le intro: le_SucI ansic_escape_rest)

lemma sv_single_rest: "sv_single s = Some (a, r) \<Longrightarrow> length r < length s"
  by (induction s arbitrary: a) (auto simp: scan_app_def split: if_splits)

lemma sv_double_rest: "sv_double old s = Some (a, r) \<Longrightarrow> length r < length s"
proof (induction s arbitrary: a rule: length_induct)
  case (1 s)
  then obtain c cs where s: "s = c # cs" by (cases s) auto
  have "c = DQ \<and> cs = r \<or> (\<exists>t a'. sv_double old t = Some (a', r) \<and> length t \<le> length cs)"
    using "1.prems" s by (auto simp: scan_app_def split: if_splits list.splits)
  then show ?case
  proof (elim disjE exE conjE)
    fix t a' assume "sv_double old t = Some (a', r)" and le: "length t \<le> length cs"
    with "1.IH" s have "length r < length t" by auto
    with le s show ?thesis by simp
  qed (simp add: s)
qed

lemma sv_ansic_rest: "sv_ansic uc s = Some (a, r) \<Longrightarrow> length r < length s"
proof (induction uc s arbitrary: a rule: sv_ansic.induct)
  case (2 uc c cs)
  show ?case
  proof (cases "c = BSL")
    case True
    with "2.prems" obtain d ds a' where d: "cs = d # ds"
      and r: "sv_ansic uc (snd (ansic_escape uc d ds)) = Some (a', r)"
      by (auto simp: scan_app_def split: list.splits)
    have "length r < length (snd (ansic_escape uc d ds))"
      using "2.IH"(1) [OF _ True d r] True by simp
    also have "\<dots> \<le> length ds" by (rule ansic_escape_rest)
    finally show ?thesis by (simp add: d)
  next
    case False
    with 2 show ?thesis by (fastforce simp: scan_app_def split: if_splits)
  qed
qed simp

text \<open>
  The white space, comment and semicolon that may end a value: \<open>skip_tail\<close> is the loop over
  \<^verbatim>\<open>j\<close>, \<open>tail_ok\<close> the check after it.
\<close>

fun skip_tail :: "bool \<Rightarrow> string \<Rightarrow> string" where
  "skip_tail has_semicolon [] = []"
| "skip_tail has_semicolon (c # cs) =
     (if g_ascii_isspace c then skip_tail has_semicolon cs
      else if \<not> has_semicolon \<and> c = CHR '';'' then skip_tail True cs
      else c # cs)"

definition tail_ok :: "bool \<Rightarrow> string \<Rightarrow> bool" where
  "tail_ok has_semicolon cs =
     (case skip_tail has_semicolon cs of [] \<Rightarrow> True | d # ds \<Rightarrow> d = CHR ''#'')"

text \<open>
  The main loop. \<open>rest\<close> is the text from position \<^verbatim>\<open>i\<close> on, so \<^verbatim>\<open>i\<close> is the difference of the
  lengths; \<open>gstr_init\<close> and \<open>sv_out_value\<close> are \<^verbatim>\<open>_gstr_init\<close> and the code at the label
  \<^verbatim>\<open>out_value\<close>.
\<close>

definition sv_pos :: "string \<Rightarrow> string \<Rightarrow> nat" where
  "sv_pos value rest = length value - length rest"

definition gstr_init :: "string option \<Rightarrow> string \<Rightarrow> nat \<Rightarrow> string" where
  "gstr_init str value i = (case str of None \<Rightarrow> take i value | Some s \<Rightarrow> s)"

definition sv_out_value :: "string \<Rightarrow> string \<Rightarrow> string option \<Rightarrow> string" where
  "sv_out_value value rest str =
     (if sv_pos value rest = 0 then []
      else case str of
          Some s \<Rightarrow> if s = [] \<or> hd s = NUL then [] else cstr s
        | None \<Rightarrow> if rest \<noteq> [] then take (sv_pos value rest) value else value)"

function sv_loop1 :: "(u32 \<Rightarrow> string) \<Rightarrow> string \<Rightarrow> string \<Rightarrow> string option \<Rightarrow> string option" where
  "sv_loop1 uc value [] str = Some (sv_out_value value [] str)"
| "sv_loop1 uc value (c # cs) str =
     (let i = sv_pos value (c # cs) in
      if g_ascii_isspace c \<or> c = CHR '';'' then
        (if tail_ok (c = CHR '';'') cs then Some (sv_out_value value (c # cs) str) else None)
      else if c = BSL then
        (case cs of
           [] \<Rightarrow> None
         | d # ds \<Rightarrow> sv_loop1 uc value ds (Some (gstr_init str value i @ [d])))
      else if c = SQ then
        (case sv_single cs of
           None \<Rightarrow> None
         | Some (a, rest) \<Rightarrow> sv_loop1 uc value rest (Some (gstr_init str value i @ a)))
      else if c = DQ then
        (case sv_double (looks_like_old_svescaped value) cs of
           None \<Rightarrow> None
         | Some (a, rest) \<Rightarrow> sv_loop1 uc value rest (Some (gstr_init str value i @ a)))
      else if c = CHR ''$'' \<and> cs \<noteq> [] \<and> hd cs = SQ then
        (case sv_ansic uc (tl cs) of
           None \<Rightarrow> None
         | Some (a, rest) \<Rightarrow> sv_loop1 uc value rest (Some (gstr_init str value i @ a)))
      else if c \<in> set [CHR ''|'', CHR ''&'', CHR ''('', CHR '')'', CHR ''<'', CHR ''>''] then None
      else sv_loop1 uc value cs (map_option (\<lambda>s. s @ [c]) str))"
  by pat_completeness auto
termination
  by (relation "measure (\<lambda>(uc, value, rest, str). length rest)")
    (auto dest!: sv_single_rest sv_double_rest sv_ansic_rest)

definition svUnescape :: "(u32 \<Rightarrow> string) \<Rightarrow> string \<Rightarrow> string option" where
  "svUnescape uc value = sv_loop1 uc value value None"

section \<open>Reading back what was escaped\<close>

text \<open>Characters that neither \<^verbatim>\<open>svEscape\<close> nor \<^verbatim>\<open>svUnescape\<close> treats specially.\<close>

definition plain_char :: "char \<Rightarrow> bool" where
  "plain_char c \<longleftrightarrow> \<not> char_req_escape c \<and> \<not> char_req_quotes c \<and> \<not> schar c < 32"

lemma sv_scan_eq:
  "sv_scan s m q =
   (if \<exists>c\<in>set s. \<not> char_req_escape c \<and> \<not> char_req_quotes c \<and> schar c < 32 then None
    else Some (m + length (filter char_req_escape s),
               q \<or> (\<exists>c\<in>set s. \<not> char_req_escape c \<and> char_req_quotes c)))"
  by (induction s arbitrary: m q) auto

lemma svEscape_cases:
  obtains (plain) "\<forall>c\<in>set s. plain_char c" "svEscape s = s"
  | (double) "\<forall>c\<in>set s. char_req_escape c \<or> char_req_quotes c \<or> \<not> schar c < 32"
      "svEscape s = DQ # concat (map dq_char s) @ [DQ]"
  | (ansic) "svEscape s = escape_ansic s"
proof (cases "\<exists>c\<in>set s. \<not> char_req_escape c \<and> \<not> char_req_quotes c \<and> schar c < 32")
  case True
  then show ?thesis by (intro ansic) (simp add: svEscape_def sv_scan_eq)
next
  case False
  then have *: "sv_scan s 0 False =
    Some (length (filter char_req_escape s), \<exists>c\<in>set s. \<not> char_req_escape c \<and> char_req_quotes c)"
    by (simp add: sv_scan_eq)
  show ?thesis
  proof (cases "\<forall>c\<in>set s. plain_char c")
    case True
    then have "length (filter char_req_escape s) = 0"
      and "\<not> (\<exists>c\<in>set s. \<not> char_req_escape c \<and> char_req_quotes c)"
      by (auto simp: plain_char_def)
    with * have "svEscape s = s" unfolding svEscape_def by simp
    with True show ?thesis by (rule plain)
  next
    case notplain: False
    have "\<not> (length (filter char_req_escape s) = 0 \<and>
             \<not> (\<exists>c\<in>set s. \<not> char_req_escape c \<and> char_req_quotes c))"
      using notplain False by (auto simp: plain_char_def filter_empty_conv)
    with * have "svEscape s = DQ # concat (map dq_char s) @ [DQ]"
      unfolding svEscape_def by (simp only: option.case prod.case if_False)
    with False show ?thesis by (intro double) auto
  qed
qed

lemma space_not_plain: "g_ascii_isspace c \<Longrightarrow> char_req_quotes c \<or> schar c < 32"
  unfolding g_ascii_isspace_def
  by (simp, elim disjE) (simp_all add: char_req_quotes_def schar_def)

lemma plain_charD:
  assumes "plain_char c"
  shows "\<not> g_ascii_isspace c" "c \<noteq> CHR '';''" "c \<noteq> BSL" "c \<noteq> SQ" "c \<noteq> DQ" "c \<noteq> CHR ''$''"
    "c \<notin> set [CHR ''|'', CHR ''&'', CHR ''('', CHR '')'', CHR ''<'', CHR ''>'']"
proof -
  have p: "\<not> char_req_escape c" "\<not> char_req_quotes c" "\<not> schar c < 32"
    using assms by (simp_all add: plain_char_def)
  then show "\<not> g_ascii_isspace c" using space_not_plain by blast
  show "c \<noteq> BSL" "c \<noteq> DQ" "c \<noteq> CHR ''$''" using p(1) by (simp_all add: char_req_escape_def)
  show "c \<noteq> CHR '';''" "c \<noteq> SQ"
    "c \<notin> set [CHR ''|'', CHR ''&'', CHR ''('', CHR '')'', CHR ''<'', CHR ''>'']"
    using p(2) by (simp_all add: char_req_quotes_def)
qed

lemma plain_char_loop:
  "plain_char c \<Longrightarrow> sv_loop1 uc value (c # cs) None = sv_loop1 uc value cs None"
  by (simp add: plain_charD Let_def del: set_simps)

text \<open>What may follow a value: nothing, or white space, one semicolon and a comment.\<close>

definition value_end :: "string \<Rightarrow> bool" where
  "value_end t =
     (case t of [] \<Rightarrow> True
      | c # cs \<Rightarrow> (g_ascii_isspace c \<or> c = CHR '';'') \<and> tail_ok (c = CHR '';'') cs)"

lemma value_end_Nil [simp]: "value_end []"
  by (simp add: value_end_def)

lemma loop_end: "value_end t \<Longrightarrow> sv_loop1 uc value t str = Some (sv_out_value value t str)"
  by (cases t) (simp_all add: value_end_def Let_def)

lemma plain_loop:
  "\<forall>c\<in>set rest. plain_char c \<Longrightarrow> sv_loop1 uc value (rest @ t) None = sv_loop1 uc value t None"
  by (induction rest) (simp_all add: plain_char_loop del: sv_loop1.simps(2))

lemma unescape_plain:
  assumes "\<forall>c\<in>set s. plain_char c" and "value_end t"
  shows "svUnescape uc (s @ t) = Some s"
  unfolding svUnescape_def plain_loop [OF assms(1)] loop_end [OF assms(2)]
  by (cases s) (simp_all add: sv_out_value_def sv_pos_def)

lemma sv_double_char:
  "sv_double old (dq_char c @ t) = scan_app [c] (sv_double old t)"
  by (auto simp: dq_char_def char_req_escape_def dq_unescape_def)

lemma sv_double_escaped:
  "sv_double old (concat (map dq_char s) @ DQ # t) = Some (s, t)"
  by (induction s) (simp_all add: sv_double_char)

text \<open>A value that is one quoted part.\<close>

lemma sv_out_value_Some: "sv_pos value rest \<noteq> 0 \<Longrightarrow> sv_out_value value rest (Some s) = cstr s"
  by (cases s) (simp_all add: sv_out_value_def cstr_def)

lemma unescape_double:
  assumes "sv_double (looks_like_old_svescaped (DQ # q)) q = Some (s, t)" and "value_end t"
  shows "svUnescape uc (DQ # q) = Some (cstr s)"
  using assms(1) sv_double_rest [OF assms(1)]
  by (simp add: svUnescape_def g_ascii_isspace_def gstr_init_def loop_end [OF assms(2)]
      sv_out_value_Some sv_pos_def)

lemma unescape_ansic:
  assumes "sv_ansic uc q = Some (s, t)" and "value_end t"
  shows "svUnescape uc (CHR ''$'' # SQ # q) = Some (cstr s)"
  using assms(1) sv_ansic_rest [OF assms(1)]
  by (simp add: svUnescape_def g_ascii_isspace_def gstr_init_def loop_end [OF assms(2)]
      sv_out_value_Some sv_pos_def)

lemma of_char_digit: "k < 8 \<Longrightarrow> of_char (char_of (48 + k) :: char) = (48 + k :: nat)"
  by simp

lemma of_char_int: "(of_char c :: int) = int (of_char c)"
  by (simp only: of_nat_of_char)

lemma octal_char:
  assumes "k < 8"
  shows "ch_octal_is (char_of (48 + k))" "ch_octal_get (char_of (48 + k)) = k"
proof -
  have "(of_char (char_of (48 + k) :: char) :: int) = int (48 + k)"
    unfolding of_char_int of_char_digit [OF assms] ..
  with assms show "ch_octal_is (char_of (48 + k))"
    unfolding ch_octal_is_def schar_def by simp
  show "ch_octal_get (char_of (48 + k)) = k"
    unfolding ch_octal_get_def of_char_digit [OF assms] by simp
qed

lemma mod_512: "(k :: int) mod 512 = ((k div 64 mod 8) * 8 + (k div 8 mod 8)) * 8 + k mod 8"
proof -
  have a: "k mod 512 = 8 * (k div 8 mod 64) + k mod 8"
    using zmod_zmult2_eq [of 64 k 8] by simp
  have b: "k div 8 mod 64 = 8 * (k div 8 div 8 mod 8) + k div 8 mod 8"
    using zmod_zmult2_eq [of 8 "k div 8" 8] by simp
  have c: "k div 8 div 8 = k div 64"
    using zdiv_zmult2_eq [of 8 k 8] by simp
  show ?thesis unfolding a b c by (simp only: mult.commute [of _ 8])
qed

lemma octal_value:
  "(nat (k div 64 mod 8) * 8 + nat (k div 8 mod 8)) * 8 + nat (k mod 8) = nat (k mod 512)"
proof -
  have *: "0 \<le> a \<Longrightarrow> 0 \<le> b \<Longrightarrow> 0 \<le> c \<Longrightarrow> (nat a * 8 + nat b) * 8 + nat c = nat ((a * 8 + b) * 8 + c)"
    for a b c :: int by (simp add: nat_add_distrib nat_mult_distrib)
  show ?thesis unfolding mod_512 by (rule *) simp_all
qed

lemma char_of_schar: "char_of (nat (schar c mod 512) mod 256) = c"
proof -
  have "nat (schar c mod 512) mod 256 = nat (schar c mod 512 mod 256)"
    by (simp add: nat_mod_distrib)
  also have "schar c mod 512 mod 256 = schar c mod 256"
    by (rule mod_mod_cancel) simp
  also have "schar c mod 256 = of_char c mod 256"
    by (auto simp: schar_def Let_def)
  also have "of_char c mod 256 = int (of_char c)"
    unfolding of_char_int by (simp add: of_char_mod_256)
  finally show ?thesis by simp
qed

lemma ansic_octal3: "ansic_octal (octal3 c @ t) = ([c], t)"
proof -
  let ?d = "\<lambda>k. char_of (48 + nat (k mod 8)) :: char"
  have o: "ch_octal_is (?d k)" "ch_octal_get (?d k) = nat (k mod 8)" for k
    by (simp_all add: octal_char)
  have "ansic_octal ([?d a, ?d b, ?d k] @ t) =
        ([char_of (((nat (a mod 8) * 8 + nat (b mod 8)) * 8 + nat (k mod 8)) mod 256)], t)" for a b k
    by (simp add: ansic_octal_def o)
  from this [of "schar c div 64" "schar c div 8" "schar c"] show ?thesis
    unfolding octal3_def list.map octal_value char_of_schar .
qed

lemma octal_not_simple: "ch_octal_is d \<Longrightarrow> ansic_simple d = None"
  by (rule ccontr) (auto simp: ansic_simple_def ch_octal_is_def schar_def split: if_splits)

lemma octal3_Cons:
  obtains d ds where "octal3 c = d # ds" "ch_octal_is d" "ansic_simple d = None"
proof -
  have "ch_octal_is (char_of (48 + nat (schar c div 64 mod 8)))" by (simp add: octal_char)
  with octal_not_simple show ?thesis
    by (intro that [of "char_of (48 + nat (schar c div 64 mod 8))"]) (simp_all add: octal3_def)
qed

lemma sv_ansic_BSL:
  "sv_ansic uc (BSL # d # ds) =
   scan_app (fst (ansic_escape uc d ds)) (sv_ansic uc (snd (ansic_escape uc d ds)))"
  by simp

lemma sv_ansic_simple:
  "ansic_simple d = Some c \<Longrightarrow> sv_ansic uc (BSL # d # t) = scan_app [c] (sv_ansic uc t)"
  unfolding sv_ansic_BSL by (simp add: ansic_escape_def)

lemma sv_ansic_octal:
  "sv_ansic uc (BSL # octal3 c @ t) = scan_app [c] (sv_ansic uc t)"
proof -
  obtain d ds where d: "octal3 c = d # ds" "ch_octal_is d" "ansic_simple d = None"
    by (rule octal3_Cons)
  then have "ansic_escape uc d (ds @ t) = ([c], t)"
    using ansic_octal3 [of c t] by (simp add: ansic_escape_def)
  with d(1) show ?thesis by (simp add: sv_ansic_BSL del: sv_ansic.simps)
qed

lemma sv_ansic_char: "sv_ansic uc (ansic_char c @ t) = scan_app [c] (sv_ansic uc t)"
proof -
  have n: "c \<notin> set [BSL, DQ, SQ] \<Longrightarrow> sv_ansic uc (c # t) = scan_app [c] (sv_ansic uc t)"
    by simp
  have q: "c \<in> set [BSL, DQ, SQ] \<Longrightarrow> sv_ansic uc (BSL # c # t) = scan_app [c] (sv_ansic uc t)"
    by (rule sv_ansic_simple) (auto simp: ansic_simple_def)
  show ?thesis
  proof (cases "c \<in> set [CHR 0x08, CHR 0x0C, CHR 0x0A, CHR 0x0D, CHR 0x09, CHR 0x0B]")
    case True
    then show ?thesis
      by (simp only: list.set insert_iff empty_iff, elim disjE)
        (simp_all add: ansic_char_def sv_ansic_simple ansic_simple_def del: sv_ansic.simps)
  next
    case False
    then have "ansic_char c =
      (if c \<in> set [BSL, DQ, SQ] then [BSL, c]
       else if schar c < 32 \<or> schar c \<ge> 127 then BSL # octal3 c else [c])"
      by (simp add: ansic_char_def)
    then show ?thesis using n q sv_ansic_octal [of uc c t] by (simp del: sv_ansic.simps list.set)
  qed
qed

lemma sv_ansic_SQ: "sv_ansic uc (SQ # t) = Some ([], t)"
  by simp

lemma sv_ansic_escaped: "sv_ansic uc (concat (map ansic_char s) @ SQ # t) = Some (s, t)"
  by (induction s) (simp_all add: sv_ansic_char sv_ansic_SQ del: sv_ansic.simps)

lemma unescape_escape:
  assumes "c_string s" and "value_end t"
  shows "svUnescape uc (svEscape s @ t) = Some s"
proof (cases s rule: svEscape_cases)
  case plain
  then show ?thesis by (simp add: unescape_plain assms)
next
  case double
  have "svUnescape uc (DQ # concat (map dq_char s) @ DQ # t) = Some (cstr s)"
    by (rule unescape_double [OF _ assms(2)]) (rule sv_double_escaped)
  then show ?thesis using assms(1) double(2) by simp
next
  case ansic
  have "svUnescape uc (CHR ''$'' # SQ # concat (map ansic_char s) @ SQ # t) = Some (cstr s)"
    by (rule unescape_ansic [OF _ assms(2)]) (rule sv_ansic_escaped)
  then show ?thesis using assms(1) ansic by (simp add: escape_ansic_def)
qed

text \<open>
  C24. Every value is read back from its escaped form, also when white space, a semicolon or a
  comment follows it on the line: \<^verbatim>\<open>svUnescape\<close> of \<^verbatim>\<open>svEscape (s)\<close> and such a tail is \<open>s\<close> for every
  C string \<open>s\<close>, whatever bytes it has, quotes, control characters, newlines and bytes that are
  not ASCII included.
\<close>

theorem svUnescape_svEscape:
  assumes "c_string s" and "value_end t"
  shows "svUnescape uc (svEscape s @ t) = Some s"
  using assms by (rule unescape_escape)

theorem svUnescape_svEscape_witness:
  "svUnescape (\<lambda>_. []) (svEscape [CHR ''a'', CHR '' '', CHR 0x0A, CHR 0xE9, SQ] @ '' # note'') =
     Some [CHR ''a'', CHR '' '', CHR 0x0A, CHR 0xE9, SQ]"
  by (rule svUnescape_svEscape) (simp_all add: value_end_def tail_ok_def g_ascii_isspace_def)

text \<open>
  The escaped form is one line: no character of it is a control character other than the tab,
  in particular none is a newline or a NUL, and none is outside ASCII.
\<close>

definition line_char :: "char \<Rightarrow> bool" where
  "line_char c \<longleftrightarrow> schar c \<ge> 32 \<or> c = CHR 0x09"

lemma line_char_octal: "k < 8 \<Longrightarrow> line_char (char_of (48 + k :: nat))"
  using octal_char(1) [of k] by (simp add: ch_octal_is_def line_char_def)

lemma line_char_req: "char_req_escape c \<or> char_req_quotes c \<Longrightarrow> line_char c"
proof -
  assume "char_req_escape c \<or> char_req_quotes c"
  then have "c \<in> set [DQ, BSL, CHR ''$'', BTICK, CHR '' '', SQ, CHR ''~'', CHR 0x09, CHR ''|'', CHR ''&'',
      CHR '';'', CHR ''('', CHR '')'', CHR ''<'', CHR ''>'']"
    by (auto simp: char_req_escape_def char_req_quotes_def)
  moreover have "\<forall>c\<in>set [DQ, BSL, CHR ''$'', BTICK, CHR '' '', SQ, CHR ''~'', CHR 0x09, CHR ''|'', CHR ''&'',
      CHR '';'', CHR ''('', CHR '')'', CHR ''<'', CHR ''>'']. line_char c"
    by (simp add: line_char_def schar_def)
  ultimately show ?thesis by blast
qed

lemma ansic_char_line: "\<forall>d\<in>set (ansic_char c). line_char d"
proof -
  have f: "\<forall>c\<in>set [BSL, DQ, SQ, CHR ''b'', CHR ''f'', CHR ''n'', CHR ''r'', CHR ''t'', CHR ''v'']. line_char c"
    by (simp add: line_char_def schar_def)
  have o: "\<forall>d\<in>set (octal3 c). line_char d" by (simp add: octal3_def line_char_octal)
  have "\<not> schar c < 32 \<Longrightarrow> line_char c" by (simp add: line_char_def)
  then show ?thesis using f o by (simp add: ansic_char_def)
qed

lemma svEscape_one_line: "\<forall>d\<in>set (svEscape s). line_char d"
proof (cases s rule: svEscape_cases)
  case plain
  then show ?thesis by (auto simp: plain_char_def line_char_def)
next
  case double
  have "line_char DQ" "line_char BSL" by (simp_all add: line_char_def schar_def)
  moreover have "\<forall>c\<in>set s. line_char c"
    using double(1) line_char_req by (force simp: line_char_def)
  ultimately show ?thesis unfolding double(2) by (auto simp: dq_char_def)
next
  case ansic
  have "line_char SQ" "line_char (CHR ''$'')" by (simp_all add: line_char_def schar_def)
  then show ?thesis unfolding ansic using ansic_char_line by (auto simp: escape_ansic_def)
qed

section \<open>Values quoted by older versions\<close>

text \<open>
  Old versions wrote every special character, also the single quote and the tilde, with a
  backslash in double quotes. The shell keeps the backslash before these two, and so does
  \<^verbatim>\<open>svUnescape\<close>, except in a value that is quoted in exactly this way from end to end.
\<close>

definition old_dq_char :: "char \<Rightarrow> string" where
  "old_dq_char c = (if char_req_escape_old c then [BSL, c] else [c])"

definition old_svEscape :: "string \<Rightarrow> string" where
  "old_svEscape s = DQ # concat (map old_dq_char s) @ [DQ]"

lemma old_svescaped_char: "old_svescaped_from (old_dq_char c @ t) = old_svescaped_from t"
  by (simp add: old_dq_char_def char_req_escape_old_def)

lemma looks_like_old_svEscape: "looks_like_old_svescaped (old_svEscape s)"
proof -
  have "old_svescaped_from (concat (map old_dq_char s) @ [DQ])"
    by (induction s) (simp_all add: old_svescaped_char, simp add: char_req_escape_old_def)
  then show ?thesis by (simp add: looks_like_old_svescaped_def old_svEscape_def)
qed

lemma sv_double_old_char: "sv_double True (old_dq_char c @ t) = scan_app [c] (sv_double True t)"
  by (simp add: old_dq_char_def char_req_escape_old_def dq_unescape_def)

lemma sv_double_old_escaped: "sv_double True (concat (map old_dq_char s) @ DQ # t) = Some (s, t)"
  by (induction s) (simp_all add: sv_double_old_char)

text \<open>
  A value quoted by the rules of older versions, with a backslash before the single quote
  and the tilde too, is read back.
\<close>

theorem svUnescape_old_svEscape:
  assumes "c_string s"
  shows "svUnescape uc (old_svEscape s) = Some s"
proof -
  have "sv_double (looks_like_old_svescaped (old_svEscape s)) (concat (map old_dq_char s) @ [DQ]) =
        Some (s, [])"
    by (simp only: looks_like_old_svEscape sv_double_old_escaped)
  then have "svUnescape uc (old_svEscape s) = Some (cstr s)"
    unfolding old_svEscape_def by (rule unescape_double) simp
  with assms show ?thesis by simp
qed

theorem svUnescape_old_svEscape_witness:
  "svUnescape (\<lambda>_. []) (old_svEscape [CHR ''i'', SQ, CHR ''m'', BSL, CHR ''~'']) =
   Some [CHR ''i'', SQ, CHR ''m'', BSL, CHR ''~'']"
  by (rule svUnescape_old_svEscape) simp

text \<open>In any other value the backslash before these two characters is kept, as the shell does.\<close>

lemma svUnescape_keeps_backslash:
  assumes "c_string s" and "d = SQ \<or> d = CHR ''~''"
    and "\<not> looks_like_old_svescaped (DQ # BSL # d # concat (map dq_char s) @ [DQ])"
  shows "svUnescape uc (DQ # BSL # d # concat (map dq_char s) @ [DQ]) = Some (BSL # d # s)"
proof -
  let ?q = "BSL # d # concat (map dq_char s) @ [DQ]"
  have "sv_double False ?q = Some (BSL # d # s, [])"
    using assms(2) sv_double_escaped [of False s "[]"] by (auto simp: dq_unescape_def)
  with assms(3) have "sv_double (looks_like_old_svescaped (DQ # ?q)) ?q = Some (BSL # d # s, [])"
    by simp
  then have "svUnescape uc (DQ # ?q) = Some (cstr (BSL # d # s))"
    by (rule unescape_double) simp
  then show ?thesis using assms(1,2) by auto
qed

end
