(* ===== verification/Nm_Io.thy ===== *)
theory Nm_Io
  imports Nm_Ascii
begin

text \<open>
  Reading and writing whole files (\<^verbatim>\<open>shared/nm-glib-aux/nm-io-utils.c\<close> and the read loop of
  \<^verbatim>\<open>nm-shared-utils.c\<close>). What the operating system answers is an argument: the results of the
  successive calls of \<^verbatim>\<open>read\<close>, \<^verbatim>\<open>fread\<close> and \<^verbatim>\<open>write\<close> are lists, and when a list is used up the end
  of the file is reached or the rest is written at once. An error is a value \<open>Inl e\<close>.

  \<open>nm_utils_fd_get_contents\<close> keeps the size of the buffer it allocates beside the data, and a
  store outside of the buffer is \<open>None\<close>. The theorems: no store is, when \<^verbatim>\<open>fread\<close> is short only at
  the end of the file; the result is the contents of the file; and
  \<open>nm_utils_file_set_contents\<close> either leaves the file as it was or replaces it as a whole.
\<close>

datatype io_errno = IO_EINTR | IO_EAGAIN | IO_EINVAL | IO_EIO | IO_EMSGSIZE | IO_ENOMEM | IO_ERR nat

datatype io_result = Io_data string | Io_err io_errno

section \<open>The read loop\<close>

text \<open>One call of \<^verbatim>\<open>read\<close> for at most \<open>n\<close> bytes, and the answers to the later calls.\<close>

fun io_read :: "nat \<Rightarrow> io_result list \<Rightarrow> (io_errno + string) \<times> io_result list" where
  "io_read n [] = (Inr [], [])"
| "io_read n (Io_err e # rs) = (Inl e, rs)"
| "io_read n (Io_data bs # rs) =
     (if length bs \<le> n then (Inr bs, rs) else (Inr (take n bs), Io_data (drop n bs) # rs))"

lemma io_read_err: "io_read n rs = (Inl e, rs') \<Longrightarrow> length rs' < length rs"
  by (cases "(n, rs)" rule: io_read.cases) (auto split: if_splits)

lemma io_read_data: "io_read n rs = (Inr bs, rs') \<Longrightarrow> length rs' \<le> length rs \<and> length bs \<le> n"
  by (cases "(n, rs)" rule: io_read.cases) (auto split: if_splits)

text \<open>
  \<^verbatim>\<open>nm_utils_fd_read_loop\<close> with \<open>acc\<close> read so far and \<open>nbytes\<close> to go. A \<^verbatim>\<open>continue\<close> goes to the
  condition of the loop. \<^verbatim>\<open>poll\<close> only waits.
\<close>

function fd_read_loop ::
  "bool \<Rightarrow> nat \<Rightarrow> io_result list \<Rightarrow> string \<Rightarrow> (io_errno + string) \<times> io_result list" where
  "fd_read_loop do_poll nbytes rs acc =
     (case io_read nbytes rs of
        (Inl e, rs') \<Rightarrow>
          if e = IO_EINTR \<or> e = IO_EAGAIN \<and> do_poll then
            (if nbytes > 0 then fd_read_loop do_poll nbytes rs' acc else (Inr acc, rs'))
          else (if acc \<noteq> [] then Inr acc else Inl e, rs')
      | (Inr bs, rs') \<Rightarrow>
          if bs = [] then (Inr acc, rs')
          else if nbytes - length bs > 0
            then fd_read_loop do_poll (nbytes - length bs) rs' (acc @ bs)
          else (Inr (acc @ bs), rs'))"
  by pat_completeness auto
termination
  by (relation "measures [\<lambda>(p, n, rs, acc). length rs, \<lambda>(p, n, rs, acc). n]")
    (auto dest!: sym [of "(_, _)"] io_read_err io_read_data simp: le_less)

declare fd_read_loop.simps [simp del]

definition nm_utils_fd_read_loop ::
  "io_result list \<Rightarrow> nat \<Rightarrow> bool \<Rightarrow> (io_errno + string) \<times> io_result list" where
  "nm_utils_fd_read_loop rs nbytes do_poll =
     (if nbytes > 2 ^ 63 - 1 then (Inl IO_EINVAL, rs) else fd_read_loop do_poll nbytes rs [])"

definition nm_utils_fd_read_loop_exact ::
  "io_result list \<Rightarrow> nat \<Rightarrow> bool \<Rightarrow> (io_errno + string) \<times> io_result list" where
  "nm_utils_fd_read_loop_exact rs nbytes do_poll =
     (case nm_utils_fd_read_loop rs nbytes do_poll of
        (Inl e, rs') \<Rightarrow> (Inl e, rs')
      | (Inr bs, rs') \<Rightarrow> (if length bs \<noteq> nbytes then Inl IO_EIO else Inr bs, rs'))"

text \<open>The bytes that a list of answers delivers when every error is one to retry.\<close>

fun io_bytes :: "io_result list \<Rightarrow> string" where
  "io_bytes [] = []"
| "io_bytes (Io_err e # rs) = io_bytes rs"
| "io_bytes (Io_data bs # rs) = bs @ io_bytes rs"

definition io_retry :: "io_result list \<Rightarrow> bool" where
  "io_retry rs \<longleftrightarrow>
     list_all (\<lambda>r. case r of Io_data bs \<Rightarrow> bs \<noteq> [] | Io_err e \<Rightarrow> e = IO_EINTR \<or> e = IO_EAGAIN) rs"

lemma io_read_retry:
  assumes "io_retry rs" and "0 < n"
  obtains (err) e rs' where "io_read n rs = (Inl e, rs')" "e = IO_EINTR \<or> e = IO_EAGAIN"
      "io_retry rs'" "io_bytes rs' = io_bytes rs"
  | (data) bs rs' where "io_read n rs = (Inr bs, rs')" "bs @ io_bytes rs' = io_bytes rs"
      "length bs \<le> n" "io_retry rs'" "bs = [] \<Longrightarrow> rs = []"
proof (cases rs)
  case Nil
  then show ?thesis by (intro data [of "[]" "[]"]) (simp_all add: io_retry_def)
next
  case (Cons r rs')
  show ?thesis
  proof (cases r)
    case (Io_err e)
    with Cons assms show ?thesis by (intro err [of e rs']) (simp_all add: io_retry_def)
  next
    case (Io_data bs)
    show ?thesis
    proof (cases "length bs \<le> n")
      case True
      with Cons Io_data assms show ?thesis by (intro data [of bs rs']) (simp_all add: io_retry_def)
    next
      case False
      with Cons Io_data assms show ?thesis
        by (intro data [of "take n bs" "Io_data (drop n bs) # rs'"]) (auto simp: io_retry_def)
    qed
  qed
qed

text \<open>However the data is split and interrupted, the loop reads what was asked for.\<close>

lemma fd_read_loop_all:
  "do_poll \<Longrightarrow> io_retry rs \<Longrightarrow> 0 < nbytes \<Longrightarrow>
   fst (fd_read_loop do_poll nbytes rs acc) = Inr (acc @ take nbytes (io_bytes rs))"
proof (induction do_poll nbytes rs acc rule: fd_read_loop.induct)
  case (1 do_poll nbytes rs acc)
  from \<open>io_retry rs\<close> \<open>0 < nbytes\<close> show ?case
  proof (cases rule: io_read_retry)
    case (err e rs')
    have "fd_read_loop do_poll nbytes rs acc = fd_read_loop do_poll nbytes rs' acc"
      using err(1,2) "1.prems" by (subst fd_read_loop.simps) auto
    moreover have "fst (fd_read_loop do_poll nbytes rs' acc) = Inr (acc @ take nbytes (io_bytes rs'))"
      using err "1.prems" by (intro "1.IH"(1) [OF err(1) [symmetric] refl]) auto
    ultimately show ?thesis by (simp add: err(4))
  next
    case (data bs rs')
    show ?thesis
    proof (cases "bs = [] \<or> length bs = nbytes")
      case True
      with data 1 show ?thesis
        by (subst fd_read_loop.simps) (auto simp flip: data(2))
    next
      case False
      with data(3) have lt: "nbytes - length bs > 0" by simp
      have "fd_read_loop do_poll nbytes rs acc =
            fd_read_loop do_poll (nbytes - length bs) rs' (acc @ bs)"
        using data(1) False lt by (subst fd_read_loop.simps) auto
      moreover have "fst (fd_read_loop do_poll (nbytes - length bs) rs' (acc @ bs)) =
          Inr ((acc @ bs) @ take (nbytes - length bs) (io_bytes rs'))"
        using data False lt "1.prems" by (intro "1.IH"(2) [OF data(1) [symmetric] refl]) auto
      ultimately show ?thesis using data(3) by (simp flip: data(2))
    qed
  qed
qed

lemma fd_read_loop_le:
  "fst (fd_read_loop do_poll nbytes rs acc) = Inr str \<Longrightarrow> length str \<le> length acc + nbytes"
proof (induction do_poll nbytes rs acc rule: fd_read_loop.induct)
  case (1 do_poll nbytes rs acc)
  obtain r rs' where r: "io_read nbytes rs = (r, rs')" by (cases "io_read nbytes rs")
  note run = "1.prems" [unfolded fd_read_loop.simps [of do_poll nbytes rs acc] r prod.case]
  show ?case
  proof (cases r)
    case (Inl e)
    with run "1.IH"(1) [OF r [symmetric] Inl] show ?thesis by (auto split: if_splits)
  next
    case (Inr bs)
    with r have "length bs \<le> nbytes" using io_read_data by blast
    with run Inr "1.IH"(2) [OF r [symmetric] Inr] show ?thesis by (auto split: if_splits)
  qed
qed

section \<open>Reading a whole file\<close>

text \<open>
  The answers of the operating system for an open file: the size and whether it is a regular
  file, the memory that can be had, the results of \<^verbatim>\<open>read\<close>, the one of \<^verbatim>\<open>dup\<close> or \<^verbatim>\<open>fdopen\<close>, and
  the results of \<^verbatim>\<open>fread\<close> with 4096 bytes: the data and whether \<^verbatim>\<open>feof\<close> holds after the call.
\<close>

datatype fread_result = Fr_data string bool | Fr_err io_errno

record io_fd =
  fd_stat :: "io_errno + int \<times> bool"
  fd_alloc :: "nat \<Rightarrow> bool"
  fd_reads :: "io_result list"
  fd_stream :: "io_errno option"
  fd_freads :: "fread_result list"

abbreviation BUF_SIZE :: nat where "BUF_SIZE \<equiv> 4096"

text \<open>
  The loop over \<^verbatim>\<open>fread\<close>: \<open>buf\<close> is the data in the buffer, whose size is \<open>n_alloc\<close>. The sum of
  sizes cannot exceed \<^verbatim>\<open>G_MAXSIZE\<close> before it exceeds \<open>max_length\<close>.
\<close>

definition grow :: "nat \<Rightarrow> nat \<Rightarrow> nat \<Rightarrow> nat \<Rightarrow> nat" where
  "grow max_length n_alloc n_have n_read =
     (if n_have + n_read + 1 \<ge> n_alloc then
        (if n_alloc \<noteq> 0 then
           (if n_alloc \<ge> max_length div 2 then max_length else n_alloc * 2)
         else min (n_read + 1) BUF_SIZE)
      else n_alloc)"

definition fread_step ::
  "(nat \<Rightarrow> bool) \<Rightarrow> nat \<Rightarrow> nat \<Rightarrow> string \<Rightarrow> string \<Rightarrow> (io_errno + nat \<times> string) option" where
  "fread_step alloc max_length n_alloc buf bs =
     (if length buf + length bs + 1 > max_length then Some (Inl IO_EMSGSIZE)
      else
        (let n_alloc' = grow max_length n_alloc (length buf) (length bs)
         in if length buf + length bs + 1 \<ge> n_alloc \<and> \<not> alloc n_alloc' then Some (Inl IO_ENOMEM)
            else if length buf + length bs > n_alloc' then None
            else Some (Inr (n_alloc', buf @ bs))))"

fun fread_loop ::
  "(nat \<Rightarrow> bool) \<Rightarrow> nat \<Rightarrow> fread_result list \<Rightarrow> nat \<Rightarrow> string \<Rightarrow> (io_errno + nat \<times> string) option" where
  "fread_loop alloc max_length [] n_alloc buf = fread_step alloc max_length n_alloc buf []"
| "fread_loop alloc max_length (Fr_err e # rs) n_alloc buf = Some (Inl e)"
| "fread_loop alloc max_length (Fr_data bs eof # rs) n_alloc buf =
     (case fread_step alloc max_length n_alloc buf bs of
        Some (Inr (n_alloc', buf')) \<Rightarrow>
          if eof then Some (Inr (n_alloc', buf'))
          else fread_loop alloc max_length rs n_alloc' buf'
      | r \<Rightarrow> r)"

definition nm_utils_fd_get_contents :: "io_fd \<Rightarrow> nat \<Rightarrow> (io_errno + string) option" where
  "nm_utils_fd_get_contents fd max_length =
     (case fd_stat fd of
        Inl e \<Rightarrow> Some (Inl e)
      | Inr (st_size, is_reg) \<Rightarrow>
          (let max_length = (if max_length = 0 then 2 * 1024 * 1024 else max_length)
           in if st_size > 0 \<and> is_reg then
                (let n_stat = nat st_size
                 in if n_stat > max_length - 1 then Some (Inl IO_EMSGSIZE)
                    else if \<not> fd_alloc fd (n_stat + 1) then Some (Inl IO_ENOMEM)
                    else case nm_utils_fd_read_loop (fd_reads fd) n_stat True of
                        (Inl e, _) \<Rightarrow> Some (Inl e)
                      | (Inr str, _) \<Rightarrow>
                          if length str \<ge> n_stat + 1 then None
                          else if length str < n_stat \<and> \<not> fd_alloc fd (length str + 1)
                            then Some (Inl IO_ENOMEM)
                          else Some (Inr str))
              else
                (case fd_stream fd of
                   Some e \<Rightarrow> Some (Inl e)
                 | None \<Rightarrow>
                     (case fread_loop (fd_alloc fd) max_length (fd_freads fd) 0 [] of
                        None \<Rightarrow> None
                      | Some (Inl e) \<Rightarrow> Some (Inl e)
                      | Some (Inr (n_alloc, str)) \<Rightarrow>
                          if n_alloc = 0 then Some (Inr [])
                          else if length str \<ge> n_alloc then None
                          else if length str + 1 < n_alloc \<and> \<not> fd_alloc fd (length str + 1)
                            then Some (Inl IO_ENOMEM)
                          else Some (Inr str)))))"

text \<open>
  \<^verbatim>\<open>fread\<close> delivers at most what it was asked for, and fewer bytes exactly when it meets the end
  of the file.
\<close>

definition fread_ok :: "fread_result list \<Rightarrow> bool" where
  "fread_ok rs \<longleftrightarrow>
     list_all (\<lambda>r. case r of Fr_data bs eof \<Rightarrow> length bs \<le> BUF_SIZE \<and> (eof \<longleftrightarrow> length bs < BUF_SIZE)
                  | Fr_err e \<Rightarrow> True) rs"

definition buf_inv :: "nat \<Rightarrow> string \<Rightarrow> bool" where
  "buf_inv n_alloc buf \<longleftrightarrow>
     n_alloc = 0 \<and> buf = [] \<or> BUF_SIZE \<le> n_alloc \<and> length buf \<le> n_alloc"

lemma fread_step_ok:
  assumes "buf_inv n_alloc buf" and "length bs \<le> BUF_SIZE"
  obtains (err) e where "fread_step alloc max_length n_alloc buf bs = Some (Inl e)"
      "(\<forall>n. alloc n) \<Longrightarrow> e = IO_EMSGSIZE \<and> max_length \<le> length (buf @ bs)"
  | (ok) n' where "fread_step alloc max_length n_alloc buf bs = Some (Inr (n', buf @ bs))"
      "length buf + length bs + 1 \<le> max_length"
      "length bs = BUF_SIZE \<Longrightarrow> buf_inv n' (buf @ bs)"
      "length bs < BUF_SIZE \<Longrightarrow> length (buf @ bs) < n'"
proof (cases "length buf + length bs + 1 > max_length")
  case True
  then show ?thesis by (intro err [of IO_EMSGSIZE]) (simp_all add: fread_step_def)
next
  case fits: False
  let ?n = "grow max_length n_alloc (length buf) (length bs)"
  have room: "length buf + length bs \<le> ?n"
    and inv: "length bs = BUF_SIZE \<Longrightarrow> buf_inv ?n (buf @ bs)"
    and nul: "length bs < BUF_SIZE \<Longrightarrow> length (buf @ bs) < ?n"
    using assms fits by (auto simp: grow_def buf_inv_def)
  show ?thesis
  proof (cases "length buf + length bs + 1 \<ge> n_alloc \<and> \<not> alloc ?n")
    case True
    with fits show ?thesis by (intro err [of IO_ENOMEM]) (simp_all add: fread_step_def Let_def)
  next
    case False
    with fits room have "fread_step alloc max_length n_alloc buf bs = Some (Inr (?n, buf @ bs))"
      by (auto simp: fread_step_def Let_def)
    then show ?thesis using fits by (intro ok [OF _ _ inv nul]) simp_all
  qed
qed

text \<open>The data that \<^verbatim>\<open>fread\<close> delivers up to the end of the file, unless an error comes first.\<close>

fun fread_bytes :: "fread_result list \<Rightarrow> string option" where
  "fread_bytes [] = Some []"
| "fread_bytes (Fr_err e # rs) = None"
| "fread_bytes (Fr_data bs eof # rs) =
     (if eof then Some bs else map_option ((@) bs) (fread_bytes rs))"

definition fread_outcome ::
  "(nat \<Rightarrow> bool) \<Rightarrow> nat \<Rightarrow> string option \<Rightarrow> (io_errno + nat \<times> string) option \<Rightarrow> bool" where
  "fread_outcome alloc max_length bytes r =
     (case r of
        None \<Rightarrow> False
      | Some (Inl e) \<Rightarrow>
          (\<forall>n. alloc n) \<longrightarrow> bytes \<noteq> None \<longrightarrow> e = IO_EMSGSIZE \<and> max_length \<le> length (the bytes)
      | Some (Inr (n', str)) \<Rightarrow> length str < n' \<and> length str < max_length \<and> bytes = Some str)"

lemma fread_loop_ok:
  "buf_inv n_alloc buf \<Longrightarrow> fread_ok rs \<Longrightarrow>
   fread_outcome alloc max_length (map_option ((@) buf) (fread_bytes rs))
     (fread_loop alloc max_length rs n_alloc buf)"
proof (induction alloc max_length rs n_alloc buf rule: fread_loop.induct)
  case (1 alloc max_length n_alloc buf)
  show ?case
    by (rule fread_step_ok [OF "1.prems"(1), of "[]" alloc max_length])
      (simp_all add: fread_outcome_def)
next
  case (2 alloc max_length e rs n_alloc buf)
  then show ?case by (simp add: fread_outcome_def)
next
  case (3 alloc max_length bs eof rs n_alloc buf)
  from "3.prems" have bs: "length bs \<le> BUF_SIZE" "eof \<longleftrightarrow> length bs < BUF_SIZE" "fread_ok rs"
    by (simp_all add: fread_ok_def)
  from "3.prems"(1) bs(1) show ?case
  proof (cases rule: fread_step_ok [where alloc = alloc and max_length = max_length])
    case (err e)
    then show ?thesis by (auto simp: fread_outcome_def)
  next
    case (ok n')
    show ?thesis
    proof (cases eof)
      case True
      with ok bs show ?thesis by (simp add: fread_outcome_def)
    next
      case False
      with bs have "length bs = BUF_SIZE" by simp
      note "3.IH" [OF ok(1) refl refl False ok(3) [OF this] bs(3)]
      moreover have "(@) (buf @ bs) = (\<lambda>a. buf @ bs @ a)" by (simp add: fun_eq_iff)
      ultimately show ?thesis using ok(1) False by (simp add: option.map_comp comp_def)
    qed
  qed
qed

text \<open>
  What an open file answers to \<^verbatim>\<open>nm_utils_fd_get_contents\<close> when its contents are \<open>bytes\<close> and no
  call fails for good: a regular file announces its size and may deliver the data in pieces and
  with interruptions, another file is read as a stream.
\<close>

definition fd_holds :: "io_fd \<Rightarrow> string \<Rightarrow> bool" where
  "fd_holds fd bytes \<longleftrightarrow>
     (\<exists>st_size is_reg. fd_stat fd = Inr (st_size, is_reg)
        \<and> (if st_size > 0 \<and> is_reg
           then st_size = int (length bytes) \<and> io_retry (fd_reads fd) \<and> io_bytes (fd_reads fd) = bytes
           else fd_stream fd = None \<and> fread_bytes (fd_freads fd) = Some bytes))
     \<and> fread_ok (fd_freads fd) \<and> (\<forall>n. fd_alloc fd n)"

lemma fd_get_contents_holds:
  assumes "fread_ok (fd_freads fd)" and "0 < max_length" and "max_length < 2 ^ 63"
  shows "nm_utils_fd_get_contents fd max_length \<noteq> None
    \<and> (fd_holds fd bytes \<longrightarrow>
         nm_utils_fd_get_contents fd max_length =
           Some (if length bytes < max_length then Inr bytes else Inl IO_EMSGSIZE))"
proof (cases "fd_stat fd")
  case (Inl e)
  then show ?thesis by (simp add: nm_utils_fd_get_contents_def fd_holds_def)
next
  case (Inr st)
  obtain size reg where st: "st = (size, reg)" by (cases st)
  show ?thesis
  proof (cases "size > 0 \<and> reg")
    case True
    let ?n = "nat size" and ?r = "fst (nm_utils_fd_read_loop (fd_reads fd) (nat size) True)"
    have bound: "?r = Inr str \<Longrightarrow> length str \<le> ?n" for str
      using fd_read_loop_le [of True ?n "fd_reads fd" "[]" str]
      by (auto simp: nm_utils_fd_read_loop_def split: if_splits)
    have all: "fd_holds fd bytes \<Longrightarrow> ?n < max_length \<Longrightarrow> ?n = length bytes \<and> ?r = Inr bytes"
      using True Inr st assms(3) by (auto simp: fd_holds_def nm_utils_fd_read_loop_def fd_read_loop_all)
    obtain r rs where r: "nm_utils_fd_read_loop (fd_reads fd) ?n True = (r, rs)"
      by (cases "nm_utils_fd_read_loop (fd_reads fd) ?n True")
    have alloc: "fd_holds fd bytes \<Longrightarrow> fd_alloc fd n" for n by (simp add: fd_holds_def)
    have size: "fd_holds fd bytes \<Longrightarrow> ?n = length bytes"
      using True Inr st by (auto simp: fd_holds_def)
    have "nm_utils_fd_get_contents fd max_length =
      (if ?n > max_length - 1 then Some (Inl IO_EMSGSIZE)
       else if \<not> fd_alloc fd (?n + 1) then Some (Inl IO_ENOMEM)
       else case r of
           Inl e \<Rightarrow> Some (Inl e)
         | Inr str \<Rightarrow>
             if length str < ?n \<and> \<not> fd_alloc fd (length str + 1) then Some (Inl IO_ENOMEM)
             else Some (Inr str))"
      using True Inr st assms(2) r bound
      by (auto simp: nm_utils_fd_get_contents_def Let_def not_less le_imp_less_Suc split: sum.split)
    then show ?thesis
      using all alloc size r assms(2) by (auto split: sum.split)
  next
    case False
    have "fread_outcome (fd_alloc fd) max_length (fread_bytes (fd_freads fd))
        (fread_loop (fd_alloc fd) max_length (fd_freads fd) 0 [])"
      using fread_loop_ok [of 0 "[]" "fd_freads fd"] assms(1)
      by (simp add: buf_inv_def option.map_ident_strong)
    then show ?thesis
      using False Inr st assms(2)
      by (auto simp: nm_utils_fd_get_contents_def fd_holds_def fread_outcome_def
          split: option.splits sum.splits)
  qed
qed

text \<open>
  C27. \<^verbatim>\<open>nm_utils_fd_get_contents\<close> never stores beyond the buffer it allocated, whatever the
  file answers; and when no call fails, it returns the contents of the file if these are
  shorter than the limit, however the reads are split, and the error \<^verbatim>\<open>EMSGSIZE\<close> otherwise.
\<close>

theorem fd_get_contents_exact:
  assumes "fread_ok (fd_freads fd)" and "0 < max_length" and "max_length < 2 ^ 63"
  shows "nm_utils_fd_get_contents fd max_length \<noteq> None
    \<and> (fd_holds fd bytes \<longrightarrow>
         nm_utils_fd_get_contents fd max_length =
           Some (if length bytes < max_length then Inr bytes else Inl IO_EMSGSIZE))"
  using assms by (rule fd_get_contents_holds)

definition sample_fd :: io_fd where
  "sample_fd = \<lparr>fd_stat = Inr (3, True), fd_alloc = (\<lambda>_. True),
     fd_reads = [Io_data ''ab'', Io_err IO_EINTR, Io_data ''c''], fd_stream = None, fd_freads = []\<rparr>"

theorem fd_get_contents_exact_witness:
  "nm_utils_fd_get_contents sample_fd 10 = Some (Inr ''abc'')"
proof -
  have "fd_holds sample_fd ''abc''"
    by (auto simp: fd_holds_def sample_fd_def io_retry_def fread_ok_def)
  moreover have "fread_ok (fd_freads sample_fd)" by (simp add: sample_fd_def fread_ok_def)
  ultimately show ?thesis using fd_get_contents_exact [of sample_fd 10 "''abc''"] by simp
qed

definition nm_utils_file_get_contents :: "io_errno + io_fd \<Rightarrow> nat \<Rightarrow> (io_errno + string) option" where
  "nm_utils_file_get_contents open_result max_length =
     (case open_result of
        Inl e \<Rightarrow> Some (Inl e)
      | Inr fd \<Rightarrow> nm_utils_fd_get_contents fd max_length)"

section \<open>Replacing a file\<close>

text \<open>
  The file system is a map from names to contents. The answers for \<^verbatim>\<open>nm_utils_file_set_contents\<close>:
  the name of the temporary file (the six characters of \<^verbatim>\<open>mkstemp\<close>) or an error, the results of
  \<^verbatim>\<open>write\<close> (the number of bytes or an error), of \<^verbatim>\<open>lstat\<close> (the size), \<^verbatim>\<open>fsync\<close> and \<^verbatim>\<open>rename\<close>.
\<close>

type_synonym file_system = "string \<Rightarrow> string option"

record set_env =
  se_mkstemp :: "io_errno + string"
  se_writes :: "(io_errno + nat) list"
  se_lstat :: "nat option"
  se_fsync :: "io_errno option"
  se_rename :: "io_errno option"

text \<open>The loop over \<^verbatim>\<open>write\<close>: what is in the file afterwards, and the error if there was one.\<close>

fun write_loop :: "(io_errno + nat) list \<Rightarrow> string \<Rightarrow> string \<Rightarrow> io_errno option \<times> string" where
  "write_loop [] contents out = (None, out @ contents)"
| "write_loop (r # rs) contents out =
     (if contents = [] then (None, out)
      else case r of
          Inl e \<Rightarrow> if e = IO_EINTR then write_loop rs contents out else (Some e, out)
        | Inr s \<Rightarrow> write_loop rs (drop s contents) (out @ take s contents))"

definition nm_utils_file_set_contents ::
  "set_env \<Rightarrow> string \<Rightarrow> string \<Rightarrow> file_system \<Rightarrow> (io_errno + unit) \<times> file_system" where
  "nm_utils_file_set_contents env filename contents fs =
     (case se_mkstemp env of
        Inl e \<Rightarrow> (Inl e, fs)
      | Inr xxxxxx \<Rightarrow>
          (let tmp_name = filename @ ''.'' @ xxxxxx;
               (werr, written) = write_loop (se_writes env) contents [];
               fs1 = fs(tmp_name \<mapsto> written)
           in case werr of
                Some e \<Rightarrow> (Inl e, fs1(tmp_name := None))
              | None \<Rightarrow>
                  (case (case se_lstat env of
                           Some st_size \<Rightarrow> if st_size > 0 then se_fsync env else None
                         | None \<Rightarrow> None) of
                     Some e \<Rightarrow> (Inl e, fs1(tmp_name := None))
                   | None \<Rightarrow>
                       (case se_rename env of
                          Some e \<Rightarrow> (Inl e, fs1(tmp_name := None))
                        | None \<Rightarrow> (Inr (), (fs1(tmp_name := None))(filename \<mapsto> written))))))"

lemma write_loop_all: "write_loop rs contents out = (None, w) \<Longrightarrow> w = out @ contents"
proof (induction rs contents out rule: write_loop.induct)
  case (2 r rs contents out)
  then show ?case by (cases r) (auto split: if_splits)
qed simp

text \<open>
  C28. \<^verbatim>\<open>nm_utils_file_set_contents\<close> replaces a file as a whole or not at all: on success the
  file holds exactly the new contents, however the writes were split and interrupted, on an
  error it is as before; in both cases no other file has changed and the temporary file is
  gone. (\<^verbatim>\<open>mkstemp\<close> gives a name that is not in use.)
\<close>

theorem file_set_contents_atomic:
  assumes "\<forall>x. se_mkstemp env = Inr x \<longrightarrow> fs (filename @ ''.'' @ x) = None"
    and "nm_utils_file_set_contents env filename contents fs = (r, fs')"
  shows "fs' = (case r of Inl e \<Rightarrow> fs | Inr _ \<Rightarrow> fs(filename \<mapsto> contents))"
proof (cases "se_mkstemp env")
  case (Inl e)
  with assms(2) show ?thesis by (auto simp: nm_utils_file_set_contents_def)
next
  case (Inr x)
  obtain werr w where wl: "write_loop (se_writes env) contents [] = (werr, w)" by fastforce
  have w: "werr = None \<Longrightarrow> w = contents" using write_loop_all wl by fastforce
  have "fs(filename @ ''.'' @ x := None) = fs" using assms(1) Inr by auto
  with w assms(2) show ?thesis
    by (auto simp: nm_utils_file_set_contents_def Inr wl Let_def split: option.splits if_splits)
qed

theorem file_set_contents_atomic_witness:
  "nm_utils_file_set_contents
     \<lparr>se_mkstemp = Inr ''abcdef'', se_writes = [Inr 2, Inl IO_EINTR], se_lstat = Some 5,
      se_fsync = None, se_rename = None\<rparr> ''f'' ''data'' [''f'' \<mapsto> ''old''] =
   (Inr (), [''f'' \<mapsto> ''data''])"
proof -
  let ?env = "\<lparr>se_mkstemp = Inr ''abcdef'', se_writes = [Inr 2, Inl IO_EINTR], se_lstat = Some 5,
      se_fsync = None, se_rename = None\<rparr>"
  have "fst (nm_utils_file_set_contents ?env ''f'' ''data'' [''f'' \<mapsto> ''old'']) = Inr ()"
    by (simp add: nm_utils_file_set_contents_def)
  then show ?thesis
    using file_set_contents_atomic [of ?env "[''f'' \<mapsto> ''old'']" "''f''" "''data''"]
    by (cases "nm_utils_file_set_contents ?env ''f'' ''data'' [''f'' \<mapsto> ''old'']") auto
qed

end
