(* ===== verification/Shvar_File.thy ===== *)
theory Shvar_File
  imports Shvar_Quote Nm_Io "HOL-Library.Product_Lexorder" "HOL-Library.List_Lexorder"
    "HOL-Library.Multiset"
begin

text \<open>
  The file of shell variables of the ifcfg-rh plugin,
  \<^verbatim>\<open>src/settings/plugins/ifcfg-rh/shvar.c\<close>, apart from the quoting of values.

  A file is the list of its lines (\<open>shvarLine\<close>). A line that is no assignment has no key; a line
  whose value was removed keeps its key and has no value. \<open>ASSERT_shvarLine\<close> is the assertion of
  the code. The operations give the \<^verbatim>\<open>changed\<close> flag they return and the new file. Freeing of
  memory, the test-only functions and the ownership of returned strings are left out.

  The file stands for a map from keys to values (\<open>svGetValue\<close>): the last assignment of a key
  counts, and a value that cannot be unquoted counts as empty. The locale \<open>variable_store\<close> is
  the contract of such a store, interpreted on these operations. \<open>sv_inv\<close> is what all operations
  keep; it gives that a file written by \<^verbatim>\<open>svWriteFile\<close> and opened again stands for the same map.
\<close>

abbreviation newline :: char where "newline \<equiv> CHR 0x0A"

section \<open>Names and lines\<close>

definition svParseBoolean :: "string option \<Rightarrow> int \<Rightarrow> int" where
  "svParseBoolean value fallback =
     (case value of
        None \<Rightarrow> fallback
      | Some v \<Rightarrow>
          if list_ex (\<lambda>w. g_ascii_strcasecmp_eq w v) [''yes'', ''true'', ''t'', ''y'', ''1''] then 1
          else if list_ex (\<lambda>w. g_ascii_strcasecmp_eq w v) [''no'', ''false'', ''f'', ''n'', ''0''] then 0
          else fallback)"

definition name_start :: "char \<Rightarrow> bool" where
  "name_start c \<longleftrightarrow> g_ascii_isalpha c \<or> c = CHR ''_''"

definition name_char :: "char \<Rightarrow> bool" where
  "name_char c \<longleftrightarrow> g_ascii_isalnum c \<or> c = CHR ''_''"

definition shell_is_name :: "string \<Rightarrow> bool" where
  "shell_is_name key = (case key of [] \<Rightarrow> False | c # cs \<Rightarrow> name_start c \<and> list_all name_char cs)"

record shvarLine =
  sl_line :: "string option"
  sl_key :: "string option"
  sl_key_with_prefix :: "string option"

text \<open>\<^verbatim>\<open>svFile\<close>: \<open>sf_fd\<close> says whether a descriptor is open (\<^verbatim>\<open>fd\<close> is not -1).\<close>

record shvarFile =
  fileName :: string
  sf_fd :: bool
  lst_head :: "shvarLine list"
  sf_modified :: bool

definition ASSERT_shvarLine :: "shvarLine \<Rightarrow> bool" where
  "ASSERT_shvarLine ln =
     (case sl_key ln of
        None \<Rightarrow>
          (case sl_line ln of
             None \<Rightarrow> False
           | Some l \<Rightarrow>
               sl_key_with_prefix ln = None
               \<and> (let s = nm_str_skip_leading_spaces l
                  in CHR ''='' \<notin> set s \<or> \<not> shell_is_name (takeWhile (\<lambda>c. c \<noteq> CHR ''='') s)))
      | Some k \<Rightarrow>
          (case sl_key_with_prefix ln of
             None \<Rightarrow> False
           | Some kp \<Rightarrow> k = nm_str_skip_leading_spaces kp \<and> shell_is_name k))"

definition line_raw :: "string \<Rightarrow> shvarLine" where
  "line_raw value = \<lparr>sl_line = Some value, sl_key = None, sl_key_with_prefix = None\<rparr>"

definition line_new_parse :: "string \<Rightarrow> shvarLine" where
  "line_new_parse value =
     (let prefix = takeWhile g_ascii_isspace value
      in case dropWhile g_ascii_isspace value of
           [] \<Rightarrow> line_raw value
         | c # cs \<Rightarrow>
             if name_start c then
               (let key = c # takeWhile name_char cs
                in case dropWhile name_char cs of
                     [] \<Rightarrow> line_raw value
                   | d # v \<Rightarrow>
                       if d = CHR ''='' then
                         \<lparr>sl_line = Some v, sl_key = Some key, sl_key_with_prefix = Some (prefix @ key)\<rparr>
                       else line_raw value)
             else line_raw value)"

definition line_new_build :: "string \<Rightarrow> string \<Rightarrow> shvarLine" where
  "line_new_build key value =
     \<lparr>sl_line = Some (svEscape value), sl_key = Some key, sl_key_with_prefix = Some key\<rparr>"

definition line_set :: "shvarLine \<Rightarrow> string \<Rightarrow> bool \<times> shvarLine" where
  "line_set ln value =
     (let changed = (sl_key ln \<noteq> sl_key_with_prefix ln);
          line1 = (if changed then ln\<lparr>sl_key_with_prefix := sl_key ln\<rparr> else ln);
          v = svEscape value
      in if sl_line line1 = Some v then (changed, line1)
         else (True, line1\<lparr>sl_line := Some v\<rparr>))"

section \<open>Opening\<close>

definition svFile_new :: "string \<Rightarrow> shvarFile" where
  "svFile_new name = \<lparr>fileName = name, sf_fd = False, lst_head = [], sf_modified = False\<rparr>"

function sv_lines :: "string \<Rightarrow> string list" where
  "sv_lines p =
     (if newline \<in> set p then
        takeWhile (\<lambda>c. c \<noteq> newline) p # sv_lines (tl (dropWhile (\<lambda>c. c \<noteq> newline) p))
      else if p \<noteq> [] then [p] else [])"
  by pat_completeness auto
termination
proof (relation "measure length")
  fix p :: string assume "newline \<in> set p"
  then have "0 < length p" by (cases p) auto
  moreover have "length (dropWhile (\<lambda>c. c \<noteq> newline) p) \<le> length p" by (rule length_dropWhile_le)
  ultimately show "(tl (dropWhile (\<lambda>c. c \<noteq> newline) p), p) \<in> measure length"
    by (simp, linarith)
qed simp

declare sv_lines.simps [simp del]

text \<open>
  What the operating system answers: the results of opening the file for reading and writing,
  and for reading only. The contents are a C string for the loop over the lines, so that they
  end at the first NUL.
\<close>

record open_env =
  oe_rdwr :: "io_errno + io_fd"
  oe_rdonly :: "io_errno + io_fd"

datatype sv_error = Could_not_read string io_errno | Could_not_open string io_errno
  | Could_not_overwrite string io_errno | Internal_error string io_errno

definition svOpenFileInternal :: "open_env \<Rightarrow> string \<Rightarrow> bool \<Rightarrow> (sv_error + shvarFile) option" where
  "svOpenFileInternal env name create =
     (let (fd, closefd) =
        (case (if create then oe_rdwr env else Inl IO_EINVAL) of
           Inr fd \<Rightarrow> (Inr fd, False)
         | Inl _ \<Rightarrow> (oe_rdonly env, True))
      in case fd of
           Inl e \<Rightarrow> Some (if create then Inr (svFile_new name) else Inl (Could_not_read name e))
         | Inr f \<Rightarrow>
             (case nm_utils_fd_get_contents f (10 * 1024 * 1024) of
                None \<Rightarrow> None
              | Some (Inl e) \<Rightarrow>
                  Some (if create then Inr (svFile_new name) else Inl (Could_not_read name e))
              | Some (Inr arena) \<Rightarrow>
                  Some (Inr ((svFile_new name)
                    \<lparr>lst_head := map line_new_parse (sv_lines (cstr arena)), sf_fd := \<not> closefd\<rparr>))))"

definition svOpenFile :: "open_env \<Rightarrow> string \<Rightarrow> (sv_error + shvarFile) option" where
  "svOpenFile env name = svOpenFileInternal env name False"

definition svCreateFile :: "open_env \<Rightarrow> string \<Rightarrow> (sv_error + shvarFile) option" where
  "svCreateFile env name = svOpenFileInternal env name True"

section \<open>Kinds of keys\<close>

definition SV_KEY_TYPE_ANY :: u32 where "SV_KEY_TYPE_ANY = 1"
definition SV_KEY_TYPE_ROUTE_SVFORMAT :: u32 where "SV_KEY_TYPE_ROUTE_SVFORMAT = 2"
definition SV_KEY_TYPE_IP4_ADDRESS :: u32 where "SV_KEY_TYPE_IP4_ADDRESS = 4"
definition SV_KEY_TYPE_TC :: u32 where "SV_KEY_TYPE_TC = 8"
definition SV_KEY_TYPE_USER :: u32 where "SV_KEY_TYPE_USER = 16"
definition SV_KEY_TYPE_SRIOV_VF :: u32 where "SV_KEY_TYPE_SRIOV_VF = 32"
definition SV_KEY_TYPE_ROUTING_RULE4 :: u32 where "SV_KEY_TYPE_ROUTING_RULE4 = 64"
definition SV_KEY_TYPE_ROUTING_RULE6 :: u32 where "SV_KEY_TYPE_ROUTING_RULE6 = 128"

definition flags_has :: "u32 \<Rightarrow> u32 \<Rightarrow> bool" where
  "flags_has flags f \<longleftrightarrow> and flags f \<noteq> 0"

definition has_prefix :: "string \<Rightarrow> string \<Rightarrow> bool" where
  "has_prefix s p \<longleftrightarrow> take (length p) s = p"

definition is_all_digits :: "string \<Rightarrow> bool" where
  "is_all_digits str \<longleftrightarrow> str \<noteq> [] \<and> list_all g_ascii_isdigit str"

definition IS_NUMBERED_TAG :: "string \<Rightarrow> string \<Rightarrow> bool" where
  "IS_NUMBERED_TAG key tag \<longleftrightarrow> has_prefix key tag \<and> is_all_digits (drop (length tag) key)"

definition IS_NUMBERED_TAG_PARSE :: "string \<Rightarrow> string \<Rightarrow> int option" where
  "IS_NUMBERED_TAG_PARSE key tag =
     (if IS_NUMBERED_TAG key tag then
        (let num = fst (nm_utils_ascii_str_to_int64 (Some (drop (length tag) key)) 10 0 G_MAXINT64 (-1))
         in if num \<noteq> -1 then Some num else None)
      else None)"

definition svKeyMatchesType :: "string \<Rightarrow> u32 \<Rightarrow> bool" where
  "svKeyMatchesType key t \<longleftrightarrow>
     flags_has t SV_KEY_TYPE_ANY
     \<or> flags_has t SV_KEY_TYPE_ROUTE_SVFORMAT
        \<and> list_ex (IS_NUMBERED_TAG key) [''ADDRESS'', ''NETMASK'', ''GATEWAY'', ''METRIC'', ''OPTIONS'']
     \<or> flags_has t SV_KEY_TYPE_IP4_ADDRESS
        \<and> list_ex (IS_NUMBERED_TAG key) [''IPADDR'', ''PREFIX'', ''NETMASK'', ''GATEWAY'']
     \<or> flags_has t SV_KEY_TYPE_USER \<and> has_prefix key ''NM_USER_''
     \<or> flags_has t SV_KEY_TYPE_TC \<and> list_ex (IS_NUMBERED_TAG key) [''QDISC'', ''FILTER'']
     \<or> flags_has t SV_KEY_TYPE_SRIOV_VF \<and> IS_NUMBERED_TAG key ''SRIOV_VF''
     \<or> flags_has t SV_KEY_TYPE_ROUTING_RULE4 \<and> IS_NUMBERED_TAG_PARSE key ''ROUTING_RULE_'' \<noteq> None
     \<or> flags_has t SV_KEY_TYPE_ROUTING_RULE6 \<and> IS_NUMBERED_TAG_PARSE key ''ROUTING_RULE6_'' \<noteq> None"

definition svNumberedParseKey :: "string \<Rightarrow> int" where
  "svNumberedParseKey key =
     (case IS_NUMBERED_TAG_PARSE key ''ROUTING_RULE_'' of
        Some num \<Rightarrow> num
      | None \<Rightarrow> (case IS_NUMBERED_TAG_PARSE key ''ROUTING_RULE6_'' of Some num \<Rightarrow> num | None \<Rightarrow> -1))"

text \<open>
  \<^verbatim>\<open>svGetKeys\<close>: the hash table of the keys, as the list of its elements in the order of their
  first insertion; \<open>None\<close> when no key matches.
\<close>

definition matching_keys :: "shvarFile \<Rightarrow> u32 \<Rightarrow> string list" where
  "matching_keys s t =
     List.map_filter (\<lambda>l. case sl_key l of
         Some k \<Rightarrow> if sl_line l \<noteq> None \<and> svKeyMatchesType k t then Some k else None
       | None \<Rightarrow> None) (lst_head s)"

definition svGetKeys :: "shvarFile \<Rightarrow> u32 \<Rightarrow> string list option" where
  "svGetKeys s t = (case matching_keys s t of [] \<Rightarrow> None | ks \<Rightarrow> Some (remdups ks))"

text \<open>
  The order of \<^verbatim>\<open>_get_keys_sorted_cmp\<close>: by number, then by \<^verbatim>\<open>strcmp\<close>, which compares bytes as
  unsigned. \<^verbatim>\<open>nm_utils_hash_keys_to_array\<close> sorts the keys in the order \<open>ks\<close> in which the hash
  table lists them.
\<close>

definition key_rank :: "string \<Rightarrow> int \<times> nat list" where
  "key_rank k = (svNumberedParseKey k, map of_char k)"

definition get_keys_sorted_cmp :: "string \<Rightarrow> string \<Rightarrow> int" where
  "get_keys_sorted_cmp a b =
     (let n_a = svNumberedParseKey a; n_b = svNumberedParseKey b
      in if n_a < n_b then -1 else if n_a > n_b then 1
         else if map of_char a < (map of_char b :: nat list) then -1
         else if map of_char b < (map of_char a :: nat list) then 1 else 0)"

definition svGetKeysSorted :: "(string list \<Rightarrow> string list) \<Rightarrow> shvarFile \<Rightarrow> u32 \<Rightarrow> string list option" where
  "svGetKeysSorted hash_order s t =
     map_option (\<lambda>ks. sort_key key_rank (hash_order ks)) (svGetKeys s t)"

definition svFindFirstKeyWithPrefix :: "shvarFile \<Rightarrow> string \<Rightarrow> string option" where
  "svFindFirstKeyWithPrefix s key_prefix =
     (case find (\<lambda>l. case sl_key l of
          Some k \<Rightarrow> sl_line l \<noteq> None \<and> has_prefix k key_prefix | None \<Rightarrow> False) (lst_head s) of
        Some l \<Rightarrow> sl_key l | None \<Rightarrow> None)"

section \<open>Values\<close>

definition has_key :: "string \<Rightarrow> shvarLine \<Rightarrow> bool" where
  "has_key key l \<longleftrightarrow> sl_key l = Some key"

definition line_value :: "(u32 \<Rightarrow> string) \<Rightarrow> shvarLine \<Rightarrow> string option" where
  "line_value uc l = map_option (\<lambda>v. case svUnescape uc v of None \<Rightarrow> [] | Some u \<Rightarrow> u) (sl_line l)"

fun last_line :: "string \<Rightarrow> shvarLine list \<Rightarrow> shvarLine option" where
  "last_line key [] = None"
| "last_line key (l # ls) =
     (case last_line key ls of
        Some l' \<Rightarrow> Some l'
      | None \<Rightarrow> if has_key key l then Some l else None)"

definition svGetValue :: "(u32 \<Rightarrow> string) \<Rightarrow> shvarFile \<Rightarrow> string \<Rightarrow> string option" where
  "svGetValue uc s key = Option.bind (last_line key (lst_head s)) (line_value uc)"

definition svGetValueStr :: "(u32 \<Rightarrow> string) \<Rightarrow> shvarFile \<Rightarrow> string \<Rightarrow> string option" where
  "svGetValueStr uc s key =
     (case svGetValue uc s key of Some (c # cs) \<Rightarrow> Some (c # cs) | _ \<Rightarrow> None)"

definition svGetValueBoolean :: "(u32 \<Rightarrow> string) \<Rightarrow> shvarFile \<Rightarrow> string \<Rightarrow> int \<Rightarrow> int" where
  "svGetValueBoolean uc s key fallback = svParseBoolean (svGetValue uc s key) fallback"

definition svGetValueInt64 ::
  "(u32 \<Rightarrow> string) \<Rightarrow> shvarFile \<Rightarrow> string \<Rightarrow> nat \<Rightarrow> int \<Rightarrow> int \<Rightarrow> int \<Rightarrow> int \<times> nm_errno" where
  "svGetValueInt64 uc s key base mn mx fallback =
     (case svGetValue uc s key of
        None \<Rightarrow> (fallback, ENOKEY)
      | Some value \<Rightarrow> nm_utils_ascii_str_to_int64 (Some value) base mn mx fallback)"

definition mark_modified :: "bool \<Rightarrow> shvarFile \<Rightarrow> shvarFile" where
  "mark_modified changed s = (if changed then s\<lparr>sf_modified := True\<rparr> else s)"

definition key_matches :: "u32 \<Rightarrow> shvarLine \<Rightarrow> bool" where
  "key_matches t l \<longleftrightarrow> (case sl_key l of Some k \<Rightarrow> svKeyMatchesType k t | None \<Rightarrow> False)"

definition svUnsetAll :: "shvarFile \<Rightarrow> u32 \<Rightarrow> bool \<times> shvarFile" where
  "svUnsetAll s t =
     (let changed = list_ex (\<lambda>l. key_matches t l \<and> sl_line l \<noteq> None) (lst_head s)
      in (changed, mark_modified changed
            (s\<lparr>lst_head := map (\<lambda>l. if key_matches t l then l\<lparr>sl_line := None\<rparr> else l) (lst_head s)\<rparr>)))"

text \<open>The first loop of \<^verbatim>\<open>svSetValue\<close>: of the lines with the key only the last one is kept.\<close>

fun keep_last :: "string \<Rightarrow> shvarLine list \<Rightarrow> shvarLine list" where
  "keep_last key [] = []"
| "keep_last key (l # ls) =
     (if has_key key l \<and> list_ex (has_key key) ls then keep_last key ls else l # keep_last key ls)"

definition svSetValue :: "shvarFile \<Rightarrow> string \<Rightarrow> string option \<Rightarrow> bool \<times> shvarFile" where
  "svSetValue s key value =
     (let ls = keep_last key (lst_head s);
          changed = (length ls < length (lst_head s))
      in case (last_line key ls, value) of
           (None, None) \<Rightarrow> (changed, mark_modified changed (s\<lparr>lst_head := ls\<rparr>))
         | (Some l, None) \<Rightarrow>
             (let changed = (changed \<or> sl_line l \<noteq> None)
              in (changed, mark_modified changed
                   (s\<lparr>lst_head := map (\<lambda>l. if has_key key l then l\<lparr>sl_line := None\<rparr> else l) ls\<rparr>)))
         | (None, Some v) \<Rightarrow> (True, mark_modified True (s\<lparr>lst_head := ls @ [line_new_build key v]\<rparr>))
         | (Some l, Some v) \<Rightarrow>
             (let changed = (changed \<or> fst (line_set l v))
              in (changed, mark_modified changed
                   (s\<lparr>lst_head := map (\<lambda>l. if has_key key l then snd (line_set l v) else l) ls\<rparr>))))"

definition svSetValueStr :: "shvarFile \<Rightarrow> string \<Rightarrow> string option \<Rightarrow> bool \<times> shvarFile" where
  "svSetValueStr s key value = svSetValue s key (if value = Some [] then None else value)"

definition svUnsetValue :: "shvarFile \<Rightarrow> string \<Rightarrow> bool \<times> shvarFile" where
  "svUnsetValue s key = svSetValue s key None"

definition svSetValueInt64 :: "shvarFile \<Rightarrow> string \<Rightarrow> int \<Rightarrow> bool \<times> shvarFile" where
  "svSetValueInt64 s key value = svSetValue s key (Some (dec_int value))"

definition svSetValueInt64_cond :: "shvarFile \<Rightarrow> string \<Rightarrow> bool \<Rightarrow> int \<Rightarrow> bool \<times> shvarFile" where
  "svSetValueInt64_cond s key do_set value =
     (if do_set then svSetValueInt64 s key value else svUnsetValue s key)"

definition svSetValueBoolean :: "shvarFile \<Rightarrow> string \<Rightarrow> bool \<Rightarrow> bool \<times> shvarFile" where
  "svSetValueBoolean s key value = svSetValue s key (Some (if value then ''yes'' else ''no''))"

definition svSetValueBoolean_cond_true :: "shvarFile \<Rightarrow> string \<Rightarrow> bool \<Rightarrow> bool \<times> shvarFile" where
  "svSetValueBoolean_cond_true s key value = svSetValue s key (if value then Some ''yes'' else None)"

section \<open>Writing\<close>

definition line_text :: "(u32 \<Rightarrow> string) \<Rightarrow> shvarLine \<Rightarrow> string list" where
  "line_text uc l =
     (case sl_key l of
        None \<Rightarrow>
          (let ln = the (sl_line l); str = nm_str_skip_leading_spaces ln
           in if str = [] \<or> hd str = CHR ''#'' then [ln] else [''#NM: '' @ ln])
      | Some key \<Rightarrow>
          (case sl_line l of
             None \<Rightarrow> []
           | Some v \<Rightarrow>
               (let kp = the (sl_key_with_prefix l)
                in if svUnescape uc v \<noteq> None then [kp @ ''='' @ v]
                   else [key @ ''='', ''#NM: '' @ kp @ ''='' @ v])))"

definition sv_text :: "(u32 \<Rightarrow> string) \<Rightarrow> shvarFile \<Rightarrow> string" where
  "sv_text uc s = concat (map (\<lambda>t. t @ [newline]) (concat (map (line_text uc) (lst_head s))))"

text \<open>
  \<^verbatim>\<open>svWriteFile\<close> with the answers of \<^verbatim>\<open>open\<close>, \<^verbatim>\<open>ftruncate\<close> and \<^verbatim>\<open>fcntl\<close>: the error, the new state and
  what the file holds afterwards, \<open>None\<close> when it is not touched. The results of \<^verbatim>\<open>fprintf\<close> and
  \<^verbatim>\<open>fclose\<close> are ignored by the code, and the text is taken to be written.
\<close>

record write_env =
  we_open :: "io_errno option"
  we_truncate :: "io_errno option"
  we_dup :: "io_errno option"

definition svWriteFile ::
  "(u32 \<Rightarrow> string) \<Rightarrow> write_env \<Rightarrow> shvarFile \<Rightarrow> sv_error option \<times> shvarFile \<times> string option" where
  "svWriteFile uc env s =
     (if \<not> sf_modified s then (None, s, None)
      else case (if sf_fd s then None else we_open env) of
          Some e \<Rightarrow> (Some (Could_not_open (fileName s) e), s, None)
        | None \<Rightarrow>
            (let s1 = s\<lparr>sf_fd := True\<rparr>
             in case we_truncate env of
                  Some e \<Rightarrow> (Some (Could_not_overwrite (fileName s) e), s1, None)
                | None \<Rightarrow>
                    (case we_dup env of
                       Some e \<Rightarrow> (Some (Internal_error (fileName s) e), s1, Some [])
                     | None \<Rightarrow> (None, s1, Some (sv_text uc s)))))"

section \<open>The file as a map\<close>

lemma last_line_append:
  "last_line k (xs @ ys) = (case last_line k ys of None \<Rightarrow> last_line k xs | Some l \<Rightarrow> Some l)"
  by (induction xs) (simp_all split: option.split)

lemma last_line_Some: "last_line k ls = Some l \<Longrightarrow> has_key k l \<and> l \<in> set ls"
  by (induction ls) (auto split: option.splits if_splits)

lemma last_line_None: "last_line k ls = None \<longleftrightarrow> (\<forall>l\<in>set ls. \<not> has_key k l)"
  by (induction ls) (auto split: option.splits)

lemma last_line_keep_last: "last_line k (keep_last key ls) = last_line k ls"
proof (induction ls)
  case (Cons l ls)
  show ?case
  proof (cases "has_key key l \<and> list_ex (has_key key) ls")
    case True
    then have "has_key k l \<Longrightarrow> last_line k ls \<noteq> None"
      by (auto simp: last_line_None list_ex_iff has_key_def)
    with True Cons show ?thesis by (auto split: option.split)
  next
    case False
    then have "keep_last key (l # ls) = l # keep_last key ls" by auto
    with Cons show ?thesis by simp
  qed
qed simp

lemma last_line_map:
  assumes "\<And>l. sl_key (f l) = sl_key l"
  shows "last_line k (map f ls) = map_option f (last_line k ls)"
  by (induction ls) (simp_all add: has_key_def assms split: option.split)

lemma line_set_simps [simp]:
  "sl_key (snd (line_set l v)) = sl_key l" "sl_line (snd (line_set l v)) = Some (svEscape v)"
  by (simp_all add: line_set_def Let_def)

lemma line_value_escape:
  "c_string v \<Longrightarrow> sl_line l = Some (svEscape v) \<Longrightarrow> line_value uc l = Some v"
  using unescape_escape [of v "[]" uc] by (simp add: line_value_def)

lemma line_value_deleted: "sl_line l = None \<Longrightarrow> line_value uc l = None"
  by (simp add: line_value_def)

lemma mark_modified_simps [simp]:
  "lst_head (mark_modified c s) = lst_head s" "fileName (mark_modified c s) = fileName s"
  "sf_fd (mark_modified c s) = sf_fd s" "sf_modified (mark_modified c s) = (c \<or> sf_modified s)"
  by (simp_all add: mark_modified_def)

text \<open>The lines after \<^verbatim>\<open>svSetValue\<close>, in one form for all its branches.\<close>

definition set_line :: "string option \<Rightarrow> shvarLine \<Rightarrow> shvarLine" where
  "set_line value l = (case value of None \<Rightarrow> l\<lparr>sl_line := None\<rparr> | Some v \<Rightarrow> snd (line_set l v))"

lemma svSetValue_lines:
  "lst_head (snd (svSetValue s key vo)) =
     map (\<lambda>l. if has_key key l then set_line vo l else l) (keep_last key (lst_head s))
     @ (case vo of
          Some v \<Rightarrow> if list_ex (has_key key) (lst_head s) then [] else [line_new_build key v]
        | None \<Rightarrow> [])"
proof -
  have ex: "list_ex (has_key key) (lst_head s) \<longleftrightarrow> last_line key (lst_head s) \<noteq> None"
    using last_line_None [of key "lst_head s"] by (auto simp: list_ex_iff)
  have id: "last_line key (lst_head s) = None \<Longrightarrow>
      map (\<lambda>l. if has_key key l then f l else l) (keep_last key (lst_head s)) = keep_last key (lst_head s)"
    for f
    using last_line_None [of key "keep_last key (lst_head s)"]
    by (auto simp: last_line_keep_last intro!: map_idI)
  show ?thesis
    by (auto simp: svSetValue_def Let_def ex last_line_keep_last id set_line_def
        split: option.splits)
qed

lemma sl_key_set_line [simp]: "sl_key (set_line v l) = sl_key l"
  by (simp add: set_line_def split: option.split)

lemma has_key_new [simp]: "has_key k (line_new_build key v) \<longleftrightarrow> k = key"
  by (auto simp: line_new_build_def has_key_def)

lemma last_line_svSetValue:
  "last_line k (lst_head (snd (svSetValue s key vo))) =
   (if k = key then
      (case last_line key (lst_head s) of
         Some l \<Rightarrow> Some (set_line vo l)
       | None \<Rightarrow> map_option (line_new_build key) vo)
    else last_line k (lst_head s))"
proof -
  have m: "last_line k (map (\<lambda>l. if has_key key l then set_line w l else l) (keep_last key (lst_head s))) =
      map_option (\<lambda>l. if has_key key l then set_line w l else l) (last_line k (lst_head s))" for w k
    by (subst last_line_map) (simp_all add: last_line_keep_last)
  have ex: "list_ex (has_key key) (lst_head s) \<longleftrightarrow> last_line key (lst_head s) \<noteq> None"
    using last_line_None [of key "lst_head s"] by (auto simp: list_ex_iff)
  have "last_line k (lst_head s) = Some l \<Longrightarrow> has_key key l \<longleftrightarrow> k = key" for l
    by (auto simp: has_key_def dest: last_line_Some)
  then show ?thesis
    by (cases "last_line k (lst_head s)"; cases vo)
      (auto simp: svSetValue_lines last_line_append m ex)
qed

lemma line_value_set_line:
  "\<forall>v. vo = Some v \<longrightarrow> c_string v \<Longrightarrow> line_value uc (set_line vo l) = vo"
  by (cases vo) (simp_all add: set_line_def line_value_deleted line_value_escape)

lemma line_value_new: "c_string v \<Longrightarrow> line_value uc (line_new_build key v) = Some v"
  by (rule line_value_escape) (simp_all add: line_new_build_def)

lemma svGetValue_svSetValue:
  assumes "\<forall>v. vo = Some v \<longrightarrow> c_string v"
  shows "svGetValue uc (snd (svSetValue s key vo)) = (svGetValue uc s)(key := vo)"
proof
  fix k
  show "svGetValue uc (snd (svSetValue s key vo)) k = ((svGetValue uc s)(key := vo)) k"
    using assms line_value_set_line [OF assms]
    by (cases vo) (auto simp: svGetValue_def last_line_svSetValue line_value_new split: option.split)
qed

lemma has_key_set_line [simp]: "has_key k (set_line v l) \<longleftrightarrow> has_key k l"
  by (simp add: has_key_def)

lemma svGetValue_svUnsetAll:
  "svGetValue uc (snd (svUnsetAll s t)) = (\<lambda>k. if svKeyMatchesType k t then None else svGetValue uc s k)"
proof
  fix k
  have m: "last_line k (map (\<lambda>l. if key_matches t l then l\<lparr>sl_line := None\<rparr> else l) (lst_head s)) =
      map_option (\<lambda>l. if key_matches t l then l\<lparr>sl_line := None\<rparr> else l) (last_line k (lst_head s))"
    by (rule last_line_map) simp
  have "last_line k (lst_head s) = Some l \<Longrightarrow> key_matches t l \<longleftrightarrow> svKeyMatchesType k t" for l
    using last_line_Some [of k "lst_head s" l] by (simp add: has_key_def key_matches_def)
  then show "svGetValue uc (snd (svUnsetAll s t)) k =
      (if svKeyMatchesType k t then None else svGetValue uc s k)"
    by (cases "last_line k (lst_head s)")
      (simp_all add: svGetValue_def svUnsetAll_def Let_def m line_value_deleted)
qed

subsection \<open>A store of variables\<close>

text \<open>
  The contract of a store: after \<open>put s k v\<close> the key \<open>k\<close> has the value \<open>v\<close>, or none, and no other
  key has changed; \<open>inv\<close> is kept. What follows for sequences of assignments is proved here.
\<close>

locale variable_store =
  fixes inv :: "'s \<Rightarrow> bool"
    and get :: "'s \<Rightarrow> 'k \<Rightarrow> 'v option"
    and put :: "'s \<Rightarrow> 'k \<Rightarrow> 'v option \<Rightarrow> 's"
    and key_ok :: "'k \<Rightarrow> bool"
    and val_ok :: "'v \<Rightarrow> bool"
  assumes put_inv: "inv s \<Longrightarrow> key_ok k \<Longrightarrow> pred_option val_ok v \<Longrightarrow> inv (put s k v)"
    and get_put: "inv s \<Longrightarrow> key_ok k \<Longrightarrow> pred_option val_ok v \<Longrightarrow> get (put s k v) = (get s)(k := v)"
begin

lemma puts_refine:
  "inv s \<Longrightarrow> list_all (\<lambda>(k, v). key_ok k \<and> pred_option val_ok v) kvs \<Longrightarrow>
   inv (fold (\<lambda>(k, v) s. put s k v) kvs s)
   \<and> get (fold (\<lambda>(k, v) s. put s k v) kvs s) = fold (\<lambda>(k, v) m. m(k := v)) kvs (get s)"
  by (induction kvs arbitrary: s) (auto simp: put_inv get_put)

lemma put_other: "inv s \<Longrightarrow> key_ok k \<Longrightarrow> pred_option val_ok v \<Longrightarrow> k' \<noteq> k \<Longrightarrow> get (put s k v) k' = get s k'"
  by (simp add: get_put)

lemma put_twice:
  assumes "inv s" "key_ok k" "pred_option val_ok v" "pred_option val_ok w"
  shows "get (put (put s k v) k w) = get (put s k w)"
  using assms by (simp add: get_put put_inv)

end

section \<open>The invariant\<close>

definition text_ok :: "string \<Rightarrow> bool" where
  "text_ok t \<longleftrightarrow> newline \<notin> set t \<and> c_string t"

definition line_ok :: "shvarLine \<Rightarrow> bool" where
  "line_ok l \<longleftrightarrow> ASSERT_shvarLine l \<and> pred_option text_ok (sl_line l)
     \<and> pred_option text_ok (sl_key_with_prefix l)"

text \<open>Of the lines of one key either all are removed or none is.\<close>

definition del_ok :: "shvarLine list \<Rightarrow> bool" where
  "del_ok ls \<longleftrightarrow>
     (\<forall>l1\<in>set ls. \<forall>l2\<in>set ls. sl_key l1 = sl_key l2 \<longrightarrow> (sl_line l1 = None \<longleftrightarrow> sl_line l2 = None))"

definition sv_inv :: "shvarFile \<Rightarrow> bool" where
  "sv_inv s \<longleftrightarrow> list_all line_ok (lst_head s) \<and> del_ok (lst_head s)"

lemma name_start_not_space: "name_start c \<Longrightarrow> \<not> g_ascii_isspace c"
  by (auto simp: name_start_def g_ascii_isspace_def g_ascii_isalpha_def)

lemma eq_not_name [simp]: "\<not> name_char (CHR ''='')" "\<not> name_start (CHR ''='')" "\<not> name_start (CHR ''#'')"
  by (simp_all add: name_char_def name_start_def g_ascii_isalnum_def g_ascii_isalpha_def
      g_ascii_isdigit_def)

lemma name_no_space: "shell_is_name k \<Longrightarrow> nm_str_skip_leading_spaces k = k"
  by (cases k) (auto simp: shell_is_name_def name_start_not_space skip_leading_spaces_id)

lemma svEscape_text_ok: "text_ok (svEscape v)"
proof -
  have "\<not> line_char newline" "\<not> line_char NUL" by (simp_all add: line_char_def schar_def)
  with svEscape_one_line [of v] show ?thesis by (auto simp: text_ok_def c_string_def)
qed

lemma name_text_ok: "shell_is_name k \<Longrightarrow> text_ok k"
proof -
  have n: "\<not> name_char newline" "\<not> name_char NUL" "\<not> name_start newline" "\<not> name_start NUL"
    by (simp_all add: name_char_def name_start_def g_ascii_isalnum_def g_ascii_isalpha_def
        g_ascii_isdigit_def)
  assume "shell_is_name k"
  with n show ?thesis
    by (cases k) (auto simp: shell_is_name_def text_ok_def c_string_def list_all_iff)
qed

text \<open>A line is parsed as an assignment exactly when it has the form of one.\<close>

definition assign_line :: "string \<Rightarrow> string \<Rightarrow> string \<Rightarrow> shvarLine" where
  "assign_line ws k v = \<lparr>sl_line = Some v, sl_key = Some k, sl_key_with_prefix = Some (ws @ k)\<rparr>"

lemma parse_assign:
  assumes "shell_is_name k" and "list_all g_ascii_isspace ws"
  shows "line_new_parse (ws @ k @ CHR ''='' # v) = assign_line ws k v"
proof -
  obtain c cs where k: "k = c # cs" "name_start c" "\<forall>d\<in>set cs. name_char d"
    using assms(1) by (cases k) (auto simp: shell_is_name_def list_all_iff)
  have "takeWhile g_ascii_isspace (ws @ k @ CHR ''='' # v) = ws"
    "dropWhile g_ascii_isspace (ws @ k @ CHR ''='' # v) = c # cs @ CHR ''='' # v"
    using assms(2) k name_start_not_space
    by (simp_all add: list_all_iff takeWhile_append2 dropWhile_append2)
  moreover have "takeWhile name_char (cs @ CHR ''='' # v) = cs"
    "dropWhile name_char (cs @ CHR ''='' # v) = CHR ''='' # v"
    using k(3) by (simp_all add: takeWhile_append2 dropWhile_append2)
  ultimately show ?thesis using k by (simp add: line_new_parse_def assign_line_def Let_def)
qed

lemma parse_not_raw:
  assumes "line_new_parse t \<noteq> line_raw t"
  obtains ws k v where "t = ws @ k @ CHR ''='' # v" "shell_is_name k" "list_all g_ascii_isspace ws"
proof -
  let ?ws = "takeWhile g_ascii_isspace t"
  obtain c cs v where d: "dropWhile g_ascii_isspace t = c # cs" "name_start c"
    "dropWhile name_char cs = CHR ''='' # v"
    using assms by (auto simp: line_new_parse_def Let_def split: list.splits if_splits)
  have "cs = takeWhile name_char cs @ CHR ''='' # v" using d(3) by (metis takeWhile_dropWhile_id)
  moreover have "t = ?ws @ c # cs" using d(1) by (metis takeWhile_dropWhile_id)
  ultimately have "t = ?ws @ (c # takeWhile name_char cs) @ CHR ''='' # v" by simp
  then show ?thesis
    using d(2) by (intro that [of ?ws "c # takeWhile name_char cs" v])
      (auto simp: shell_is_name_def list_all_iff dest: set_takeWhileD)
qed

lemma name_no_eq: "shell_is_name k \<Longrightarrow> CHR ''='' \<notin> set k"
  by (cases k) (auto simp: shell_is_name_def list_all_iff)

lemma skip_assign:
  assumes "shell_is_name k" and "list_all g_ascii_isspace ws"
  shows "nm_str_skip_leading_spaces (ws @ k @ u) = k @ u"
proof -
  have "nm_str_skip_leading_spaces (ws @ k @ u) = nm_str_skip_leading_spaces (k @ u)"
    using assms(2) by (intro skip_leading_spaces_append) (simp add: list_all_iff)
  also have "\<dots> = k @ u"
    using assms(1) name_start_not_space
    by (intro skip_leading_spaces_id) (cases k; simp add: shell_is_name_def)
  finally show ?thesis .
qed

lemma ASSERT_line_new_parse: "ASSERT_shvarLine (line_new_parse t)"
proof (cases "line_new_parse t = line_raw t")
  case True
  let ?s = "nm_str_skip_leading_spaces t"
  have False if eq: "CHR ''='' \<in> set ?s" and name: "shell_is_name (takeWhile (\<lambda>c. c \<noteq> CHR ''='') ?s)"
  proof -
    obtain k v where k: "?s = k @ CHR ''='' # v" "CHR ''='' \<notin> set k"
      using split_list_first [OF eq] by blast
    then have "takeWhile (\<lambda>c. c \<noteq> CHR ''='') ?s = k" by (auto simp: takeWhile_tail)
    with name have "shell_is_name k" by simp
    moreover have "t = takeWhile g_ascii_isspace t @ k @ CHR ''='' # v"
      using k(1) by (metis nm_str_skip_leading_spaces_def takeWhile_dropWhile_id)
    moreover have "list_all g_ascii_isspace (takeWhile g_ascii_isspace t)"
      by (auto simp: list_all_iff dest: set_takeWhileD)
    ultimately have "line_new_parse t = assign_line (takeWhile g_ascii_isspace t) k v"
      using parse_assign by metis
    with True show False by (simp add: assign_line_def line_raw_def)
  qed
  then show ?thesis unfolding True by (auto simp: ASSERT_shvarLine_def line_raw_def Let_def)
next
  case False
  then obtain ws k v where t: "t = ws @ k @ CHR ''='' # v" "shell_is_name k" "list_all g_ascii_isspace ws"
    by (rule parse_not_raw)
  then show ?thesis
    using skip_assign [OF t(2,3), of "[]"]
    by (simp add: parse_assign assign_line_def ASSERT_shvarLine_def)
qed

lemma line_ok_parse: "text_ok t \<Longrightarrow> line_ok (line_new_parse t)"
proof (cases "line_new_parse t = line_raw t")
  case True
  moreover assume "text_ok t"
  ultimately show ?thesis using ASSERT_line_new_parse [of t] by (simp add: line_ok_def line_raw_def)
next
  case False
  then obtain ws k v where "t = ws @ k @ CHR ''='' # v" "shell_is_name k" "list_all g_ascii_isspace ws"
    by (rule parse_not_raw)
  moreover assume "text_ok t"
  ultimately show ?thesis
    using ASSERT_line_new_parse [of t]
    by (simp add: line_ok_def parse_assign assign_line_def text_ok_def)
qed

subsection \<open>Every operation keeps the invariant\<close>

lemma set_tl: "x \<in> set (tl xs) \<Longrightarrow> x \<in> set xs"
  by (cases xs) simp_all

lemma sv_lines_text:
  "c_string p \<Longrightarrow> t \<in> set (sv_lines p) \<Longrightarrow> text_ok t"
proof (induction p rule: sv_lines.induct)
  case (1 p)
  show ?case
  proof (cases "newline \<in> set p")
    case True
    have "c_string (takeWhile (\<lambda>c. c \<noteq> newline) p)" "c_string (tl (dropWhile (\<lambda>c. c \<noteq> newline) p))"
      using "1.prems"(1)
      by (auto simp: c_string_def dest!: set_takeWhileD set_tl set_dropWhileD)
    moreover have "newline \<notin> set (takeWhile (\<lambda>c. c \<noteq> newline) p)" by (auto dest: set_takeWhileD)
    ultimately show ?thesis
      using True "1.IH" "1.prems"(2) by (subst (asm) (2) sv_lines.simps) (auto simp: text_ok_def)
  next
    case False
    with "1.prems" show ?thesis
      by (subst (asm) (1) sv_lines.simps) (auto simp: text_ok_def split: if_splits)
  qed
qed

lemma del_ok_live: "\<forall>l\<in>set ls. sl_line l \<noteq> None \<Longrightarrow> del_ok ls"
  unfolding del_ok_def by blast

lemma sl_line_parse: "sl_line (line_new_parse t) \<noteq> None"
  by (simp add: line_new_parse_def line_raw_def Let_def split: list.split)

lemma sv_inv_open: "svOpenFileInternal env name create = Some (Inr s) \<Longrightarrow> sv_inv s"
proof -
  have new: "sv_inv (svFile_new name)" by (simp add: sv_inv_def svFile_new_def del_ok_def)
  have parsed: "sv_inv (s'\<lparr>lst_head := map line_new_parse (sv_lines (cstr a)), sf_fd := b\<rparr>)"
    for s' a b
    using sv_lines_text [of "cstr a"] line_ok_parse del_ok_live [of "map line_new_parse (sv_lines (cstr a))"]
      sl_line_parse
    by (simp add: sv_inv_def list_all_iff del: not_None_eq)
  assume "svOpenFileInternal env name create = Some (Inr s)"
  then show ?thesis
    using new parsed
    by (auto simp: svOpenFileInternal_def Let_def split: sum.splits option.splits if_splits)
qed

lemma set_keep_last: "l \<in> set (keep_last key ls) \<Longrightarrow> l \<in> set ls"
  by (induction ls) (auto split: if_splits)

lemma line_ok_delete: "line_ok l \<Longrightarrow> sl_key l \<noteq> None \<Longrightarrow> line_ok (l\<lparr>sl_line := None\<rparr>)"
  by (auto simp: line_ok_def ASSERT_shvarLine_def split: option.splits)

lemma line_ok_set: "line_ok l \<Longrightarrow> sl_key l = Some k \<Longrightarrow> line_ok (snd (line_set l v))"
proof -
  assume l: "line_ok l" "sl_key l = Some k"
  then have k: "shell_is_name k" by (auto simp: line_ok_def ASSERT_shvarLine_def split: option.splits)
  show ?thesis
    using l k svEscape_text_ok [of v] name_no_space [OF k] name_text_ok [OF k]
    by (auto simp: line_ok_def line_set_def Let_def ASSERT_shvarLine_def split: option.splits)
qed

lemma line_ok_build: "shell_is_name k \<Longrightarrow> line_ok (line_new_build k v)"
  by (simp add: line_ok_def line_new_build_def ASSERT_shvarLine_def name_no_space name_text_ok
      svEscape_text_ok)

lemma line_ok_set_line: "line_ok l \<Longrightarrow> has_key k l \<Longrightarrow> line_ok (set_line vo l)"
  by (auto simp: set_line_def has_key_def intro: line_ok_delete line_ok_set split: option.split)

lemma sl_line_set_line: "sl_line (set_line vo l) = None \<longleftrightarrow> vo = None"
  by (simp add: set_line_def split: option.split)

lemma svSetValue_lines_cases:
  assumes "l \<in> set (lst_head (snd (svSetValue s key vo)))"
  obtains (old) "l \<in> set (lst_head s)" "\<not> has_key key l"
  | (changed) x where "x \<in> set (lst_head s)" "has_key key x" "l = set_line vo x"
  | (added) v where "vo = Some v" "l = line_new_build key v"
proof -
  from assms consider x where "x \<in> set (keep_last key (lst_head s))"
      "l = (if has_key key x then set_line vo x else x)"
    | v where "vo = Some v" "l = line_new_build key v"
    unfolding svSetValue_lines by (auto split: option.splits if_splits)
  then show ?thesis
  proof cases
    case (1 x)
    with set_keep_last [OF 1(1)] show ?thesis
      by (cases "has_key key x") (simp_all add: old changed)
  qed (rule added)
qed

lemma sv_inv_set:
  assumes "sv_inv s" and "shell_is_name key"
  shows "sv_inv (snd (svSetValue s key vo))"
proof -
  let ?ls = "lst_head (snd (svSetValue s key vo))"
  have old: "l \<in> set ?ls \<Longrightarrow> \<not> has_key key l \<Longrightarrow> l \<in> set (lst_head s)" for l
    by (erule svSetValue_lines_cases) simp_all
  have new: "line_ok l \<and> (sl_line l = None \<longleftrightarrow> vo = None)" if "l \<in> set ?ls" "has_key key l" for l
    using that(1)
  proof (cases rule: svSetValue_lines_cases)
    case (changed x)
    moreover have "line_ok x" using changed(1) assms(1) by (simp add: sv_inv_def list_all_iff)
    ultimately show ?thesis by (simp add: line_ok_set_line sl_line_set_line)
  next
    case (added v)
    then show ?thesis using line_ok_build [OF assms(2)] by (simp add: line_new_build_def)
  qed (use that in simp)
  have "list_all line_ok ?ls"
    unfolding list_all_iff
  proof
    fix l assume l: "l \<in> set ?ls"
    show "line_ok l"
    proof (cases "has_key key l")
      case True
      with new [OF l] show ?thesis by blast
    next
      case False
      with old [OF l] assms(1) show ?thesis unfolding sv_inv_def list_all_iff by blast
    qed
  qed
  moreover have "del_ok ?ls"
    unfolding del_ok_def
  proof (intro ballI impI)
    fix l1 l2 assume l: "l1 \<in> set ?ls" "l2 \<in> set ?ls" "sl_key l1 = sl_key l2"
    then have key: "has_key key l1 \<longleftrightarrow> has_key key l2" by (simp only: has_key_def)
    show "sl_line l1 = None \<longleftrightarrow> sl_line l2 = None"
    proof (cases "has_key key l1")
      case True
      with key new [OF l(1)] new [OF l(2)] show ?thesis by blast
    next
      case False
      with key old [OF l(1)] old [OF l(2)] have "l1 \<in> set (lst_head s)" "l2 \<in> set (lst_head s)"
        by blast+
      with l(3) assms(1) show ?thesis unfolding sv_inv_def del_ok_def by blast
    qed
  qed
  ultimately show ?thesis by (simp only: sv_inv_def)
qed

definition unset_line :: "u32 \<Rightarrow> shvarLine \<Rightarrow> shvarLine" where
  "unset_line t l = (if key_matches t l then l\<lparr>sl_line := None\<rparr> else l)"

lemma unset_line_simps:
  "sl_key (unset_line t l) = sl_key l"
  "sl_line (unset_line t l) = None \<longleftrightarrow> key_matches t l \<or> sl_line l = None"
  "line_ok l \<Longrightarrow> line_ok (unset_line t l)"
  by (auto simp: unset_line_def key_matches_def intro: line_ok_delete split: option.splits)

lemma sv_inv_unset_all:
  assumes "sv_inv s"
  shows "sv_inv (snd (svUnsetAll s t))"
proof -
  have ls: "lst_head (snd (svUnsetAll s t)) = map (unset_line t) (lst_head s)"
    by (simp add: svUnsetAll_def Let_def unset_line_def)
  have "list_all line_ok (map (unset_line t) (lst_head s))"
    using assms by (simp add: sv_inv_def list_all_iff unset_line_simps(3))
  moreover have "del_ok (map (unset_line t) (lst_head s))"
    unfolding del_ok_def set_map ball_simps unset_line_simps
  proof (intro ballI impI)
    fix l1 l2
    assume l: "l1 \<in> set (lst_head s)" "l2 \<in> set (lst_head s)" "sl_key l1 = sl_key l2"
    then have "key_matches t l1 \<longleftrightarrow> key_matches t l2" by (simp only: key_matches_def)
    moreover have "sl_line l1 = None \<longleftrightarrow> sl_line l2 = None"
      using assms l unfolding sv_inv_def del_ok_def by blast
    ultimately show "key_matches t l1 \<or> sl_line l1 = None \<longleftrightarrow> key_matches t l2 \<or> sl_line l2 = None"
      by (simp only:)
  qed
  ultimately show ?thesis unfolding sv_inv_def ls by blast
qed

section \<open>Writing and opening again\<close>

lemma sv_lines_concat:
  "\<forall>t\<in>set ts. newline \<notin> set t \<Longrightarrow> sv_lines (concat (map (\<lambda>t. t @ [newline]) ts)) = ts"
proof (induction ts)
  case Nil
  then show ?case by (simp add: sv_lines.simps)
next
  case (Cons t ts)
  then have "\<forall>c\<in>set t. c \<noteq> newline" by auto
  then have "takeWhile (\<lambda>c. c \<noteq> newline) (t @ newline # u) = t"
    "dropWhile (\<lambda>c. c \<noteq> newline) (t @ newline # u) = newline # u" for u
    by (simp_all add: takeWhile_append2 dropWhile_append2)
  with Cons show ?case by (subst sv_lines.simps) simp
qed

lemma parse_comment:
  assumes "nm_str_skip_leading_spaces t = [] \<or> hd (nm_str_skip_leading_spaces t) = CHR ''#''"
  shows "line_new_parse t = line_raw t"
  using assms
  by (cases "dropWhile g_ascii_isspace t")
    (simp_all add: line_new_parse_def nm_str_skip_leading_spaces_def del: dropWhile_eq_Nil_conv)

lemma parse_NM_comment: "line_new_parse (''#NM: '' @ t) = line_raw (''#NM: '' @ t)"
  by (rule parse_comment) (simp add: nm_str_skip_leading_spaces_def g_ascii_isspace_def)

lemma sl_key_raw [simp]: "sl_key (line_raw t) = None"
  by (simp add: line_raw_def)

lemma assert_key:
  assumes "ASSERT_shvarLine l" and "sl_key l = Some k"
  obtains ws where "shell_is_name k" "list_all g_ascii_isspace ws" "sl_key_with_prefix l = Some (ws @ k)"
proof -
  from assms obtain kp where kp: "sl_key_with_prefix l = Some kp" "k = nm_str_skip_leading_spaces kp"
    "shell_is_name k"
    by (auto simp: ASSERT_shvarLine_def split: option.splits)
  have "kp = takeWhile g_ascii_isspace kp @ k"
    using kp(2) by (simp add: nm_str_skip_leading_spaces_def)
  with kp show ?thesis
    by (intro that [of "takeWhile g_ascii_isspace kp"])
      (auto simp: list_all_iff dest: set_takeWhileD)
qed

text \<open>What a line becomes when it is written and read again.\<close>

lemma reread_line:
  assumes "line_ok l"
  shows "Option.bind (last_line k (map line_new_parse (line_text uc l))) (line_value uc) =
         (if has_key k l then line_value uc l else None)"
    and "last_line k (map line_new_parse (line_text uc l)) = None \<longleftrightarrow> \<not> (has_key k l \<and> sl_line l \<noteq> None)"
proof -
  have "Option.bind (last_line k (map line_new_parse (line_text uc l))) (line_value uc) =
         (if has_key k l then line_value uc l else None)
    \<and> (last_line k (map line_new_parse (line_text uc l)) = None \<longleftrightarrow> \<not> (has_key k l \<and> sl_line l \<noteq> None))"
  proof (cases "sl_key l")
    case None
    then have raw: "map line_new_parse (line_text uc l) = map line_raw (line_text uc l)"
      by (auto simp: line_text_def Let_def parse_comment parse_NM_comment [simplified])
    have "last_line k (map line_raw (line_text uc l)) = None"
      by (simp add: last_line_None has_key_def)
    with None show ?thesis unfolding raw by (simp add: has_key_def)
  next
    case (Some key)
    with assms obtain ws where ws: "shell_is_name key" "list_all g_ascii_isspace ws"
      "sl_key_with_prefix l = Some (ws @ key)"
      by (auto simp: line_ok_def elim: assert_key)
    show ?thesis
    proof (cases "sl_line l")
      case None
      with Some show ?thesis by (simp add: line_text_def line_value_def)
    next
      case v: (Some v)
      show ?thesis
      proof (cases "svUnescape uc v")
        case None
        have "map line_new_parse (line_text uc l) =
              [assign_line [] key [], line_raw (''#NM: '' @ ws @ key @ CHR ''='' # v)]"
          using Some v None ws parse_assign [OF ws(1), of "[]" "[]"] parse_NM_comment
          by (simp add: line_text_def)
        moreover have "svUnescape uc [] = Some []" using unescape_plain [of "[]" "[]" uc] by simp
        ultimately show ?thesis
          using Some v None by (auto simp: has_key_def assign_line_def line_raw_def line_value_def)
      next
        case u: (Some u)
        have "map line_new_parse (line_text uc l) = [assign_line ws key v]"
          using Some v u ws parse_assign [OF ws(1,2), of v] by (simp add: line_text_def)
        then show ?thesis
          using Some v u by (auto simp: has_key_def assign_line_def line_value_def)
      qed
    qed
  qed
  then show "Option.bind (last_line k (map line_new_parse (line_text uc l))) (line_value uc) =
         (if has_key k l then line_value uc l else None)"
    and "last_line k (map line_new_parse (line_text uc l)) = None \<longleftrightarrow> \<not> (has_key k l \<and> sl_line l \<noteq> None)"
    by blast+
qed

lemma reread_lines:
  fixes uc k
  assumes "list_all line_ok ls" and "\<forall>l\<in>set ls. has_key k l \<longrightarrow> sl_line l \<noteq> None"
  defines "r \<equiv> \<lambda>ls. last_line k (map line_new_parse (concat (map (line_text uc) ls)))"
  shows "Option.bind (r ls) (line_value uc) = Option.bind (last_line k ls) (line_value uc)
    \<and> (r ls = None \<longleftrightarrow> last_line k ls = None)"
  using assms(1,2)
proof (induction ls)
  case Nil
  then show ?case by (simp add: r_def)
next
  case (Cons l ls)
  let ?t = "last_line k (map line_new_parse (line_text uc l))"
  have r: "r (l # ls) = (case r ls of None \<Rightarrow> ?t | Some x \<Rightarrow> Some x)"
    by (simp add: r_def last_line_append)
  have ih: "Option.bind (r ls) (line_value uc) = Option.bind (last_line k ls) (line_value uc)"
    "r ls = None \<longleftrightarrow> last_line k ls = None"
    using Cons by simp_all
  have ok: "line_ok l" using Cons.prems by simp
  have live: "has_key k l \<Longrightarrow> sl_line l \<noteq> None" using Cons.prems by simp
  show ?case
  proof (cases "r ls")
    case None
    with ih(2) have "last_line k (l # ls) = (if has_key k l then Some l else None)" by simp
    with None show ?thesis
      using reread_line [OF ok, of k uc] live by (simp add: r)
  next
    case (Some x)
    then obtain y where "last_line k ls = Some y" using ih(2) by (cases "last_line k ls") auto
    with Some ih(1) show ?thesis by (simp add: r)
  qed
qed

lemma reread_removed:
  assumes "list_all line_ok ls" and "\<forall>l\<in>set ls. has_key k l \<longrightarrow> sl_line l = None"
  shows "last_line k (map line_new_parse (concat (map (line_text uc) ls))) = None"
  using assms reread_line(2)
  by (induction ls) (simp_all add: last_line_append)

lemma text_ok_append [simp]:
  "text_ok []" "text_ok (s @ t) \<longleftrightarrow> text_ok s \<and> text_ok t"
  "text_ok (c # t) \<longleftrightarrow> c \<noteq> newline \<and> c \<noteq> NUL \<and> text_ok t"
  by (auto simp: text_ok_def)

lemma line_text_ok:
  assumes "line_ok l"
  shows "\<forall>t\<in>set (line_text uc l). text_ok t"
proof (cases "sl_key l")
  case None
  with assms show ?thesis
    by (auto simp: line_text_def Let_def line_ok_def ASSERT_shvarLine_def split: option.splits)
next
  case (Some key)
  with assms obtain ws where ws: "shell_is_name key" "sl_key_with_prefix l = Some (ws @ key)"
    by (auto simp: line_ok_def elim: assert_key)
  with assms have "text_ok ws" "text_ok key" by (simp_all add: line_ok_def)
  with Some ws assms show ?thesis
    by (cases "sl_line l") (auto simp: line_text_def Let_def line_ok_def)
qed

text \<open>The map of a file that is written and parsed again.\<close>

lemma parse_sv_text:
  assumes "sv_inv s" and "lst_head s2 = map line_new_parse (sv_lines (cstr (sv_text uc s)))"
  shows "svGetValue uc s2 = svGetValue uc s"
proof
  fix k
  let ?ts = "concat (map (line_text uc) (lst_head s))"
  have ok: "list_all line_ok (lst_head s)" using assms(1) by (simp add: sv_inv_def)
  then have ts: "\<forall>t\<in>set ?ts. text_ok t" using line_text_ok by (auto simp: list_all_iff)
  then have "c_string (sv_text uc s)"
    by (auto simp: sv_text_def text_ok_def c_string_def)
  moreover have "sv_lines (sv_text uc s) = ?ts"
    unfolding sv_text_def using ts by (intro sv_lines_concat) (auto simp: text_ok_def)
  ultimately have s2: "lst_head s2 = map line_new_parse ?ts" using assms(2) by simp
  show "svGetValue uc s2 k = svGetValue uc s k"
  proof (cases "\<exists>l\<in>set (lst_head s). has_key k l \<and> sl_line l = None")
    case True
    then have del: "\<forall>l\<in>set (lst_head s). has_key k l \<longrightarrow> sl_line l = None"
      using assms(1) unfolding sv_inv_def del_ok_def has_key_def by metis
    then have "Option.bind (last_line k (lst_head s)) (line_value uc) = None"
      by (cases "last_line k (lst_head s)") (auto simp: line_value_deleted dest: last_line_Some)
    with reread_removed [OF ok del] s2 show ?thesis by (simp add: svGetValue_def)
  next
    case False
    with reread_lines [OF ok, of k uc] s2 show ?thesis by (auto simp: svGetValue_def)
  qed
qed

section \<open>Files as the program has them\<close>

inductive sv_file :: "shvarFile \<Rightarrow> bool" where
  opened: "svOpenFileInternal env name create = Some (Inr s) \<Longrightarrow> sv_file s"
| set_value: "sv_file s \<Longrightarrow> shell_is_name key \<Longrightarrow> pred_option c_string vo \<Longrightarrow>
    sv_file (snd (svSetValue s key vo))"
| unset_all: "sv_file s \<Longrightarrow> sv_file (snd (svUnsetAll s t))"
| written: "sv_file s \<Longrightarrow> sv_file (fst (snd (svWriteFile uc env s)))"

lemma svWriteFile_lines: "lst_head (fst (snd (svWriteFile uc env s))) = lst_head s"
  by (simp add: svWriteFile_def Let_def split: option.split)

lemma sv_file_inv: "sv_file s \<Longrightarrow> sv_inv s"
proof (induction rule: sv_file.induct)
  case (written s uc env)
  then show ?case by (simp add: sv_inv_def svWriteFile_lines)
qed (auto intro: sv_inv_open sv_inv_set sv_inv_unset_all)

interpretation shvar: variable_store sv_inv "svGetValue uc" "\<lambda>s k v. snd (svSetValue s k v)"
  shell_is_name c_string for uc
  by unfold_locales (auto intro: sv_inv_set svGetValue_svSetValue simp: pred_option_def)

text \<open>
  C26. Every file the program can have, opened and then changed by any sequence of operations,
  satisfies the invariant: each line passes the assertion \<^verbatim>\<open>ASSERT_shvarLine\<close> of the code, no line
  contains a newline or a NUL, and of the lines of one key either all are removed or none is (so
  that a removed assignment does not come back when the file is written).
\<close>

theorem shvar_reachable_invariant:
  assumes "sv_file s"
  shows "sv_inv s \<and> list_all ASSERT_shvarLine (lst_head s)"
  using sv_file_inv [OF assms] by (auto simp: sv_inv_def list_all_iff line_ok_def)

definition sample_open :: open_env where
  "sample_open = \<lparr>oe_rdwr = Inl IO_EINVAL, oe_rdonly = Inl IO_EINVAL\<rparr>"

definition sample_file :: shvarFile where
  "sample_file = snd (svSetValue (svFile_new ''ifcfg-eth0'') ''NAME'' (Some ''my net''))"

lemma sv_file_sample: "sv_file sample_file"
proof -
  have "sv_file (svFile_new ''ifcfg-eth0'')"
    by (rule opened [of sample_open _ True]) (simp add: svOpenFileInternal_def sample_open_def)
  then show ?thesis unfolding sample_file_def
    by (rule set_value)
      (simp_all add: shell_is_name_def name_start_def name_char_def g_ascii_isalnum_def g_ascii_isalpha_def)
qed

theorem shvar_reachable_invariant_witness: "sv_inv sample_file"
  using shvar_reachable_invariant [OF sv_file_sample] by blast

text \<open>
  C25. A file implements a map from keys to values: after any sequence of assignments and
  removals \<^verbatim>\<open>svGetValue\<close> answers as the map does that was updated in the same order, whatever
  lines the file had before, duplicates and values that cannot be unquoted included.
\<close>

theorem shvar_refines_map:
  assumes "sv_file s" and "list_all (\<lambda>(k, v). shell_is_name k \<and> pred_option c_string v) kvs"
  shows "svGetValue uc (fold (\<lambda>(k, v) s. snd (svSetValue s k v)) kvs s) =
         fold (\<lambda>(k, v) m. m(k := v)) kvs (svGetValue uc s)"
  using shvar.puts_refine [OF sv_file_inv [OF assms(1)] assms(2), of uc] by blast

theorem shvar_refines_map_witness:
  "svGetValue (\<lambda>_. []) (fold (\<lambda>(k, v) s. snd (svSetValue s k v))
      [(''MTU'', Some ''9000''), (''NAME'', None)] sample_file) =
   [''MTU'' \<mapsto> ''9000'']"
proof -
  have n: "shell_is_name ''MTU''" "shell_is_name ''NAME''"
    by (simp_all add: shell_is_name_def name_start_def name_char_def g_ascii_isalnum_def
        g_ascii_isalpha_def)
  have "svGetValue (\<lambda>_. []) sample_file = [''NAME'' \<mapsto> ''my net'']"
    unfolding sample_file_def
    by (subst svGetValue_svSetValue) (auto simp: svGetValue_def svFile_new_def)
  then show ?thesis
    using n shvar_refines_map [OF sv_file_sample,
        of "[(''MTU'', Some ''9000''), (''NAME'', None)]" "\<lambda>_. []"]
    by simp
qed

text \<open>
  C23. Writing and reading round trip: when \<^verbatim>\<open>svWriteFile\<close> has written a file and \<^verbatim>\<open>svOpenFile\<close>
  reads what it wrote, the new file stands for the same variables as the old one, also when
  values were removed, when a key is assigned several times and when a value of the old file
  could not be unquoted.
\<close>

theorem shvar_write_open:
  assumes "sv_file s" and "svWriteFile uc wenv s = (None, s', Some bytes)"
    and "oe_rdonly env = Inr fd" and "fd_holds fd bytes" and "length bytes < 10 * 1024 * 1024"
  shows "\<exists>s2. svOpenFile env name = Some (Inr s2) \<and> svGetValue uc s2 = svGetValue uc s"
proof -
  have bytes: "bytes = sv_text uc s"
    using assms(2) by (auto simp: svWriteFile_def Let_def split: if_splits option.splits)
  have "fread_ok (fd_freads fd)" using assms(4) by (simp add: fd_holds_def)
  then have "nm_utils_fd_get_contents fd (10 * 1024 * 1024) = Some (Inr bytes)"
    using fd_get_contents_holds [of fd "10 * 1024 * 1024" bytes] assms(4,5) by simp
  then have "svOpenFile env name = Some (Inr ((svFile_new name)
      \<lparr>lst_head := map line_new_parse (sv_lines (cstr (sv_text uc s))), sf_fd := False\<rparr>))"
    using assms(3) by (simp add: svOpenFile_def svOpenFileInternal_def bytes)
  moreover have "svGetValue uc ((svFile_new name)
      \<lparr>lst_head := map line_new_parse (sv_lines (cstr (sv_text uc s))), sf_fd := False\<rparr>) = svGetValue uc s"
    by (rule parse_sv_text [OF sv_file_inv [OF assms(1)]]) simp
  ultimately show ?thesis by blast
qed

definition sample_text :: string where
  "sample_text = sv_text (\<lambda>_. []) sample_file"

theorem shvar_write_open_witness:
  "\<exists>s2. svOpenFile
      \<lparr>oe_rdwr = Inl IO_EINVAL,
       oe_rdonly = Inr \<lparr>fd_stat = Inr (0, True), fd_alloc = (\<lambda>_. True), fd_reads = [], fd_stream = None,
                       fd_freads = [Fr_data sample_text True]\<rparr>\<rparr> ''ifcfg-eth0'' = Some (Inr s2)
     \<and> svGetValue (\<lambda>_. []) s2 = svGetValue (\<lambda>_. []) sample_file"
proof (rule shvar_write_open [OF sv_file_sample])
  have e: "svEscape ''my net'' = DQ # ''my net'' @ [DQ]"
    by (simp add: svEscape_def char_req_escape_def char_req_quotes_def schar_def dq_char_def)
  have l: "lst_head sample_file =
      [\<lparr>sl_line = Some (svEscape ''my net''), sl_key = Some ''NAME'', sl_key_with_prefix = Some ''NAME''\<rparr>]"
    by (simp add: sample_file_def svSetValue_lines svFile_new_def line_new_build_def)
  have t: "sample_text = ''NAME='' @ svEscape ''my net'' @ [newline]"
    using unescape_escape [of "''my net''" "[]" "\<lambda>_. []"]
    by (simp add: sample_text_def sv_text_def l line_text_def)
  show "length sample_text < 10 * 1024 * 1024" unfolding t e by simp
  show "fd_holds \<lparr>fd_stat = Inr (0, True), fd_alloc = (\<lambda>_. True), fd_reads = [], fd_stream = None,
      fd_freads = [Fr_data sample_text True]\<rparr> sample_text"
    unfolding t e by (auto simp: fd_holds_def fread_ok_def)
  show "svWriteFile (\<lambda>_. []) \<lparr>we_open = None, we_truncate = None, we_dup = None\<rparr> sample_file =
      (None, sample_file\<lparr>sf_fd := True\<rparr>, Some sample_text)"
    by (simp add: svWriteFile_def sample_text_def sample_file_def svSetValue_def svFile_new_def)
qed simp

section \<open>Typed values\<close>

text \<open>
  Numbers and truth values survive a set and a get: a 64-bit number stored by
  \<^verbatim>\<open>svSetValueInt64\<close> is what \<^verbatim>\<open>svGetValueInt64\<close> in base 10 returns, with no error, when it is in the
  range the caller allows, and is refused with \<^verbatim>\<open>ERANGE\<close> otherwise; \<^verbatim>\<open>svGetValueBoolean\<close> returns
  what \<^verbatim>\<open>svSetValueBoolean\<close> stored.
\<close>

theorem shvar_typed_roundtrip:
  assumes "G_MININT64 \<le> v" and "v \<le> G_MAXINT64"
  shows "svGetValueInt64 uc (snd (svSetValueInt64 s key v)) key 10 mn mx fallback =
           (if mn \<le> v \<and> v \<le> mx then (v, E_NONE) else (fallback, ERANGE))
       \<and> svGetValueBoolean uc (snd (svSetValueBoolean s key b)) key fb = (if b then 1 else 0)"
proof -
  have "c_string (dec_int v)"
    unfolding c_string_def
  proof
    assume "NUL \<in> set (dec_int v)"
    then have "NUL \<in> set (dec (nat \<bar>v\<bar>))" by (auto simp: dec_int_def split: if_splits)
    then show False using dec_all_digits [of "nat \<bar>v\<bar>"] by (auto simp: digit_val_def)
  qed
  then have "svGetValue uc (snd (svSetValueInt64 s key v)) key = Some (dec_int v)"
    by (simp add: svSetValueInt64_def svGetValue_svSetValue)
  moreover have "svGetValue uc (snd (svSetValueBoolean s key b)) key = Some (if b then ''yes'' else ''no'')"
    by (simp add: svSetValueBoolean_def svGetValue_svSetValue)
  ultimately show ?thesis
    using str_to_int64_dec_int [OF assms, of "[]" "[]"]
    by (simp add: svGetValueInt64_def svGetValueBoolean_def svParseBoolean_def
        g_ascii_strcasecmp_eq_def tolower_def)
qed

theorem shvar_typed_roundtrip_witness:
  "svGetValueInt64 (\<lambda>_. []) (snd (svSetValueInt64 sample_file ''MTU'' 1500)) ''MTU'' 10 0 9000 (-1) = (1500, E_NONE)"
  using shvar_typed_roundtrip [of 1500 "\<lambda>_. []" sample_file "''MTU''" 0 9000 "-1"] by simp

section \<open>Sorted keys\<close>

lemma inj_of_char_nat: "inj (of_char :: char \<Rightarrow> nat)"
  by (rule injI) (metis char_of_char)

lemma key_rank_inj: "key_rank a = key_rank b \<longleftrightarrow> a = b"
  by (auto simp: key_rank_def inj_map_eq_map [OF inj_of_char_nat])

lemma get_keys_sorted_cmp_rank: "get_keys_sorted_cmp a b < 0 \<longleftrightarrow> key_rank a < key_rank b"
  by (auto simp: get_keys_sorted_cmp_def key_rank_def Let_def less_prod_def)

lemma in_set_map_filter: "y \<in> set (List.map_filter f xs) \<longleftrightarrow> (\<exists>x\<in>set xs. f x = Some y)"
  by (induction xs) (auto simp: map_filter_simps split: option.splits)

text \<open>The keys of a kind that have a value.\<close>

definition live_keys :: "(u32 \<Rightarrow> string) \<Rightarrow> shvarFile \<Rightarrow> u32 \<Rightarrow> string set" where
  "live_keys uc s t = {k. svGetValue uc s k \<noteq> None \<and> svKeyMatchesType k t}"

lemma matching_keys_get:
  assumes "sv_inv s"
  shows "set (matching_keys s t) = live_keys uc s t"
proof (rule set_eqI)
  fix k
  have "(case sl_key l of
          Some k \<Rightarrow> if sl_line l \<noteq> None \<and> svKeyMatchesType k t then Some k else None
        | None \<Rightarrow> None) = Some k \<longleftrightarrow> has_key k l \<and> sl_line l \<noteq> None \<and> svKeyMatchesType k t" for l
    by (simp add: has_key_def split: option.split) blast
  then have "k \<in> set (matching_keys s t) \<longleftrightarrow>
      (\<exists>l\<in>set (lst_head s). has_key k l \<and> sl_line l \<noteq> None) \<and> svKeyMatchesType k t"
    unfolding matching_keys_def in_set_map_filter by blast
  moreover have "(\<exists>l\<in>set (lst_head s). has_key k l \<and> sl_line l \<noteq> None) \<longleftrightarrow> svGetValue uc s k \<noteq> None"
  proof
    assume "\<exists>l\<in>set (lst_head s). has_key k l \<and> sl_line l \<noteq> None"
    then obtain l where l: "l \<in> set (lst_head s)" "has_key k l" "sl_line l \<noteq> None" by blast
    obtain x where x: "last_line k (lst_head s) = Some x"
      using l last_line_None [of k "lst_head s"] by (cases "last_line k (lst_head s)") auto
    with last_line_Some [OF x] l assms have "sl_line x \<noteq> None"
      unfolding sv_inv_def del_ok_def has_key_def by metis
    with x show "svGetValue uc s k \<noteq> None" by (simp add: svGetValue_def line_value_def)
  next
    assume "svGetValue uc s k \<noteq> None"
    then obtain x where "last_line k (lst_head s) = Some x" "sl_line x \<noteq> None"
      by (auto simp: svGetValue_def line_value_def bind_eq_Some_conv)
    then show "\<exists>l\<in>set (lst_head s). has_key k l \<and> sl_line l \<noteq> None"
      using last_line_Some by blast
  qed
  ultimately show "k \<in> set (matching_keys s t) \<longleftrightarrow>
      k \<in> live_keys uc s t" by (simp add: live_keys_def)
qed

text \<open>
  C29. \<^verbatim>\<open>svGetKeysSorted\<close> returns exactly the keys of the requested kind that have a value, each
  once, in the order of \<^verbatim>\<open>_get_keys_sorted_cmp\<close>, and \<^verbatim>\<open>NULL\<close> when there is none; the order in which
  the hash table lists the keys has no influence.
\<close>

theorem svGetKeysSorted_spec:
  assumes "sv_file s" and "\<forall>ks. mset (hash_order ks) = mset ks"
  shows "case svGetKeysSorted hash_order s t of
           None \<Rightarrow> live_keys uc s t = {}
         | Some xs \<Rightarrow> set xs = live_keys uc s t \<and> xs \<noteq> [] \<and> sorted_wrt (\<lambda>a b. get_keys_sorted_cmp a b < 0) xs"
proof -
  let ?ks = "live_keys uc s t"
  have ks: "set (matching_keys s t) = ?ks"
    by (rule matching_keys_get [OF sv_file_inv [OF assms(1)]])
  show ?thesis
  proof (cases "matching_keys s t")
    case Nil
    with ks show ?thesis by (simp add: svGetKeysSorted_def svGetKeys_def)
  next
    case (Cons k ks')
    let ?u = "hash_order (remdups (matching_keys s t))"
    let ?xs = "sort_key key_rank ?u"
    have m: "mset ?u = mset (remdups (matching_keys s t))" using assms(2) by simp
    then have set: "set ?u = ?ks" by (metis ks set_mset_mset set_remdups)
    have "distinct ?u" using m by (metis distinct_remdups mset_eq_imp_distinct_iff)
    then have "distinct (map key_rank ?xs)"
      by (simp add: distinct_map inj_on_def key_rank_inj)
    then have "sorted_wrt (<) (map key_rank ?xs)"
      by (simp add: strict_sorted_iff)
    then have "sorted_wrt (\<lambda>a b. get_keys_sorted_cmp a b < 0) ?xs"
      by (simp add: sorted_wrt_map get_keys_sorted_cmp_rank)
    moreover have "svGetKeysSorted hash_order s t = Some ?xs"
      by (simp add: svGetKeysSorted_def svGetKeys_def Cons)
    moreover have "?xs \<noteq> []" using set ks Cons by (metis list.set_intros(1) set_empty set_sort empty_iff)
    ultimately show ?thesis using set by simp
  qed
qed

theorem svGetKeysSorted_spec_witness:
  "case svGetKeysSorted rev sample_file SV_KEY_TYPE_ANY of
     None \<Rightarrow> live_keys (\<lambda>_. []) sample_file SV_KEY_TYPE_ANY = {}
   | Some xs \<Rightarrow> set xs = live_keys (\<lambda>_. []) sample_file SV_KEY_TYPE_ANY \<and> xs \<noteq> []
       \<and> sorted_wrt (\<lambda>a b. get_keys_sorted_cmp a b < 0) xs"
  by (rule svGetKeysSorted_spec [OF sv_file_sample]) simp

end
