(* ===== verification/Nm_Hwaddr.thy ===== *)
theory Nm_Hwaddr
  imports Nm_Ascii
begin

text \<open>
  Hexadecimal strings and hardware addresses: \<^verbatim>\<open>nm_utils_bin2hexstr_full\<close> and
  \<^verbatim>\<open>nm_utils_hexstr2bin_full\<close> of \<^verbatim>\<open>shared/nm-glib-aux/nm-shared-utils.c\<close>, and the functions on
  hardware addresses of \<^verbatim>\<open>libnm-core/nm-utils.c\<close>.

  The parser stores its bytes into a buffer of the caller; a store behind its end is the result
  \<open>None\<close>, and \<open>Some None\<close> is the \<^verbatim>\<open>NULL\<close> the function returns for a malformed string. The theorems:
  no store is behind the end of a buffer that is not empty; every address is read back from its
  text; the canonical form is a fixed point with the same meaning; and
  \<^verbatim>\<open>nm_utils_hwaddr_matches\<close> compares what the strings stand for.
\<close>

section \<open>Bytes as hexadecimal digits\<close>

definition LOOKUP :: "bool \<Rightarrow> string" where
  "LOOKUP upper_case = (if upper_case then ''0123456789ABCDEF'' else ''0123456789abcdef'')"

definition hex_byte :: "bool \<Rightarrow> u8 \<Rightarrow> string" where
  "hex_byte upper_case v =
     [LOOKUP upper_case ! unat (drop_bit 4 v), LOOKUP upper_case ! unat (and v 0x0F)]"

text \<open>A delimiter \<open>None\<close> is the NUL character.\<close>

fun nm_utils_bin2hexstr_full :: "u8 list \<Rightarrow> char option \<Rightarrow> bool \<Rightarrow> string" where
  "nm_utils_bin2hexstr_full [] delimiter upper_case = []"
| "nm_utils_bin2hexstr_full [v] delimiter upper_case = hex_byte upper_case v"
| "nm_utils_bin2hexstr_full (v # w # vs) delimiter upper_case =
     hex_byte upper_case v @ (case delimiter of None \<Rightarrow> [] | Some d \<Rightarrow> [d])
       @ nm_utils_bin2hexstr_full (w # vs) delimiter upper_case"

definition nm_utils_bin2hexstr :: "u8 list \<Rightarrow> int \<Rightarrow> string option" where
  "nm_utils_bin2hexstr src final_len =
     (if src = [] \<or> \<not> (final_len < 0 \<or> nat final_len < length src * 2 + 1) then None
      else
        (let result = nm_utils_bin2hexstr_full src None False
         in Some (if final_len \<ge> 0 then take (nat final_len) result else result)))"

definition nm_utils_hexchar_to_int :: "char \<Rightarrow> int" where
  "nm_utils_hexchar_to_int c =
     (let ch = schar c
      in if ch \<ge> 48 then
           (if ch \<le> 57 then ch - 48
            else if ch \<ge> 65 then
              (if ch \<le> 70 then ch + (10 - 65)
               else if ch \<ge> 97 \<and> ch \<le> 102 then ch + (10 - 97) else - 1)
            else - 1)
         else - 1)"

section \<open>Parsing\<close>

text \<open>
  The loop of \<^verbatim>\<open>nm_utils_hexstr2bin_full\<close>. \<open>cap\<close> is the room left in the buffer (\<^verbatim>\<open>buffer_len\<close>), \<open>bs\<close>
  what is stored in it. \<open>hex_store\<close> is the end of an iteration after \<open>b\<close> was stored, with \<open>inp\<close>
  the string from \<^verbatim>\<open>in\<close> on and \<^verbatim>\<open>d2\<close> its first character. A candidate, which is a signed \<^verbatim>\<open>char\<close>, is
  compared with an unsigned byte, so only ASCII candidates are ever accepted.
\<close>

datatype hex_next = Hex_done "u8 list" | Hex_fail | Hex_go bool "char option" string

definition hex_store ::
  "bool \<Rightarrow> string \<Rightarrow> bool \<Rightarrow> char option \<Rightarrow> nat \<Rightarrow> string \<Rightarrow> hex_next" where
  "hex_store delimiter_required candidates delimiter_has delimiter cap inp =
     (if cap - 1 = 0 then Hex_fail
      else if delimiter_has then
        (if delimiter = Some (hd inp) then Hex_go True delimiter (tl inp)
         else if delimiter \<noteq> None then Hex_fail
         else if schar (hd inp) \<ge> 0 \<and> hd inp \<in> set candidates then Hex_go True (Some (hd inp)) (tl inp)
         else if delimiter_required then Hex_fail
         else Hex_go False None inp)
      else Hex_go False delimiter inp)"

definition hex_step ::
  "bool \<Rightarrow> string \<Rightarrow> bool \<Rightarrow> char option \<Rightarrow> nat \<Rightarrow> string \<Rightarrow> u8 list \<Rightarrow> (u8 \<times> hex_next) option" where
  "hex_step delimiter_required candidates delimiter_has delimiter cap inp bs =
     (case inp of
        [] \<Rightarrow> Some (0, Hex_fail)
      | d1 # rest \<Rightarrow>
          (let i1 = nm_utils_hexchar_to_int d1
           in if i1 < 0 then Some (0, Hex_fail)
              else if cap = 0 then None
              else case rest of
                  [] \<Rightarrow>
                    Some (word_of_int i1,
                      if \<not> delimiter_has then Hex_fail else Hex_done (bs @ [word_of_int i1]))
                | d2 # rest2 \<Rightarrow>
                    (let i2 = nm_utils_hexchar_to_int d2
                     in if i2 \<ge> 0 then
                          (let b = word_of_int (i1 * 16 + i2)
                           in Some (b, if rest2 = [] then Hex_done (bs @ [b])
                                else hex_store delimiter_required candidates delimiter_has delimiter cap rest2))
                        else Some (word_of_int i1,
                            hex_store delimiter_required candidates delimiter_has delimiter cap rest))))"

lemma hex_store_shorter:
  "hex_store r c h d cap inp = Hex_go h' d' inp' \<Longrightarrow> length inp' \<le> length inp"
  by (auto simp: hex_store_def split: if_splits)

lemma hex_step_shorter:
  "hex_step r c h d cap inp bs = Some (b, Hex_go h' d' inp') \<Longrightarrow> length inp' < length inp"
  by (auto simp: hex_step_def Let_def split: list.splits if_splits dest!: hex_store_shorter)

function hex_loop ::
  "bool \<Rightarrow> string \<Rightarrow> bool \<Rightarrow> char option \<Rightarrow> nat \<Rightarrow> string \<Rightarrow> u8 list \<Rightarrow> u8 list option option" where
  "hex_loop delimiter_required candidates delimiter_has delimiter cap inp bs =
     (case hex_step delimiter_required candidates delimiter_has delimiter cap inp bs of
        None \<Rightarrow> None
      | Some (b, Hex_done out) \<Rightarrow> Some (Some out)
      | Some (b, Hex_fail) \<Rightarrow> Some None
      | Some (b, Hex_go has' delimiter' inp') \<Rightarrow>
          hex_loop delimiter_required candidates has' delimiter' (cap - 1) inp' (bs @ [b]))"
  by pat_completeness auto
termination
  by (relation "measure (\<lambda>(r, c, h, d, cap, inp, bs). length inp)") (auto dest: hex_step_shorter)

declare hex_loop.simps [simp del]

definition skip_0x :: "bool \<Rightarrow> string \<Rightarrow> string" where
  "skip_0x allow_0x_prefix hexstr =
     (if allow_0x_prefix \<and> take 2 hexstr = ''0x'' then drop 2 hexstr else hexstr)"

definition nm_utils_hexstr2bin_full ::
  "string \<Rightarrow> bool \<Rightarrow> bool \<Rightarrow> string \<Rightarrow> nat \<Rightarrow> nat \<Rightarrow> u8 list option option" where
  "nm_utils_hexstr2bin_full hexstr allow_0x_prefix delimiter_required candidates required_len buffer_len =
     (case hex_loop delimiter_required candidates True None buffer_len (skip_0x allow_0x_prefix hexstr) [] of
        Some (Some out) \<Rightarrow>
          Some (if required_len = 0 \<or> length out = required_len then Some out else None)
      | r \<Rightarrow> r)"

definition nm_utils_hexstr2bin_alloc ::
  "string \<Rightarrow> bool \<Rightarrow> bool \<Rightarrow> string \<Rightarrow> nat \<Rightarrow> u8 list option option" where
  "nm_utils_hexstr2bin_alloc hexstr allow_0x_prefix delimiter_required candidates required_len =
     (let s = skip_0x allow_0x_prefix hexstr
      in if s = [] then Some None
         else nm_utils_hexstr2bin_full s False delimiter_required candidates required_len
                (if required_len > 0 then required_len else length s div 2 + 3))"

definition nm_utils_hexstr2bin :: "string \<Rightarrow> u8 list option option" where
  "nm_utils_hexstr2bin hexstr = nm_utils_hexstr2bin_alloc hexstr True False '':'' 0"

section \<open>Hardware addresses\<close>

definition NM_UTILS_HWADDR_LEN_MAX :: nat where "NM_UTILS_HWADDR_LEN_MAX = 20"

abbreviation INFINIBAND_ALEN :: nat where "INFINIBAND_ALEN \<equiv> 20"
abbreviation ETH_ALEN :: nat where "ETH_ALEN \<equiv> 6"

definition hwaddr_aton :: "string \<Rightarrow> nat \<Rightarrow> u8 list option option" where
  "hwaddr_aton asc buffer_len = nm_utils_hexstr2bin_full asc False True '':-'' 0 buffer_len"

text \<open>\<^verbatim>\<open>nm_utils_hwaddr_aton\<close> and, for a byte array, \<^verbatim>\<open>nm_utils_hwaddr_atoba\<close>.\<close>

definition nm_utils_hwaddr_aton :: "string \<Rightarrow> nat \<Rightarrow> u8 list option option" where
  "nm_utils_hwaddr_aton asc n =
     (if \<not> (0 < n \<and> n \<le> NM_UTILS_HWADDR_LEN_MAX) then Some None
      else case hwaddr_aton asc n of
          Some (Some out) \<Rightarrow> Some (if length out = n then Some out else None)
        | r \<Rightarrow> r)"

definition nm_utils_hwaddr_ntoa :: "u8 list \<Rightarrow> string" where
  "nm_utils_hwaddr_ntoa addr = nm_utils_bin2hexstr_full addr (Some (CHR '':'')) True"

definition nm_utils_hwaddr_ntoa_buf :: "u8 list \<Rightarrow> bool \<Rightarrow> nat \<Rightarrow> string option" where
  "nm_utils_hwaddr_ntoa_buf addr upper_case buf_len =
     (if addr = [] \<or> buf_len < length addr * 3 then None
      else Some (nm_utils_bin2hexstr_full addr (Some (CHR '':'')) upper_case))"

definition nm_utils_hwaddr_valid :: "string \<Rightarrow> int \<Rightarrow> bool option" where
  "nm_utils_hwaddr_valid asc n =
     (if n > 0 \<and> n \<le> int NM_UTILS_HWADDR_LEN_MAX then
        map_option (\<lambda>r. case r of None \<Rightarrow> False | Some out \<Rightarrow> int (length out) = n) (hwaddr_aton asc (nat n))
      else if n = - 1 then map_option (\<lambda>r. r \<noteq> None) (hwaddr_aton asc NM_UTILS_HWADDR_LEN_MAX)
      else Some False)"

definition nm_utils_hwaddr_canonical :: "string \<Rightarrow> int \<Rightarrow> string option option" where
  "nm_utils_hwaddr_canonical asc n =
     (if n > 0 \<and> n \<le> int NM_UTILS_HWADDR_LEN_MAX then
        map_option (\<lambda>r. case r of
            None \<Rightarrow> None
          | Some out \<Rightarrow> if int (length out) = n then Some (nm_utils_hwaddr_ntoa out) else None)
          (hwaddr_aton asc (nat n))
      else if n = - 1 then
        map_option (map_option nm_utils_hwaddr_ntoa) (hwaddr_aton asc NM_UTILS_HWADDR_LEN_MAX)
      else Some None)"

definition nm_utils_hwaddr_canonical_or_invalid :: "string option \<Rightarrow> int \<Rightarrow> string option option" where
  "nm_utils_hwaddr_canonical_or_invalid mac n =
     (case mac of
        None \<Rightarrow> Some None
      | Some m \<Rightarrow> map_option (\<lambda>r. case r of Some c \<Rightarrow> Some c | None \<Rightarrow> Some m) (nm_utils_hwaddr_canonical m n))"

text \<open>
  The arguments of \<^verbatim>\<open>nm_utils_hwaddr_matches\<close>: a string (length -1, possibly \<^verbatim>\<open>NULL\<close>) or bytes with
  their length, where \<^verbatim>\<open>NULL\<close> stands for zeros.
\<close>

datatype hwaddr_arg = Hw_ascii "string option" | Hw_binary "u8 list option" nat

definition hw_binary :: "u8 list option \<Rightarrow> nat \<Rightarrow> u8 list" where
  "hw_binary p n = (case p of None \<Rightarrow> replicate n 0 | Some bs \<Rightarrow> take n bs)"

definition hw_compare :: "u8 list \<Rightarrow> u8 list \<Rightarrow> bool" where
  "hw_compare a b =
     (if length a = INFINIBAND_ALEN
      then take 8 (drop (INFINIBAND_ALEN - 8) a) = take 8 (drop (INFINIBAND_ALEN - 8) b)
      else a = b)"

definition nm_utils_hwaddr_matches :: "hwaddr_arg \<Rightarrow> hwaddr_arg \<Rightarrow> bool option" where
  "nm_utils_hwaddr_matches hwaddr1 hwaddr2 = do {
     a \<leftarrow> (case hwaddr1 of
          Hw_ascii None \<Rightarrow> Some (Some [])
        | Hw_ascii (Some s) \<Rightarrow> hwaddr_aton s NM_UTILS_HWADDR_LEN_MAX
        | Hw_binary p n \<Rightarrow>
            Some (if 0 < n \<and> n \<le> NM_UTILS_HWADDR_LEN_MAX then Some (hw_binary p n) else None));
     case a of
       None \<Rightarrow> Some False
     | Some a \<Rightarrow>
         (case hwaddr2 of
            Hw_ascii s2 \<Rightarrow> do {
              b \<leftarrow> (case s2 of None \<Rightarrow> Some (Some []) | Some s \<Rightarrow> hwaddr_aton s NM_UTILS_HWADDR_LEN_MAX);
              case b of
                None \<Rightarrow> Some False
              | Some b \<Rightarrow> Some (length b = length a \<and> hw_compare a b) }
          | Hw_binary p n \<Rightarrow>
              Some (0 < n \<and> n \<le> NM_UTILS_HWADDR_LEN_MAX \<and> n = length a \<and> hw_compare a (hw_binary p n))) }"

section \<open>Stores stay inside the buffer\<close>

lemma hex_store_cap: "hex_store r c h d cap inp = Hex_go h' d' inp' \<Longrightarrow> 1 < cap"
  by (auto simp: hex_store_def split: if_splits)

lemma hex_store_not_done [simp]: "hex_store r c h d cap inp \<noteq> Hex_done out"
  by (simp add: hex_store_def)

lemma hex_step_cap:
  assumes "0 < cap"
  obtains (finished) b out where "hex_step r c h d cap inp bs = Some (b, Hex_done out)"
      "length out = length bs + 1"
  | (fail) b where "hex_step r c h d cap inp bs = Some (b, Hex_fail)"
  | (go) b h' d' inp' where "hex_step r c h d cap inp bs = Some (b, Hex_go h' d' inp')" "1 < cap"
proof -
  have "hex_step r c h d cap inp bs \<noteq> None"
    using assms by (auto simp: hex_step_def Let_def split: list.split)
  then obtain b nx where s: "hex_step r c h d cap inp bs = Some (b, nx)" by auto
  show ?thesis
  proof (cases nx)
    case (Hex_done out)
    moreover from s Hex_done have "length out = length bs + 1"
      by (auto simp: hex_step_def Let_def split: list.splits if_splits)
    ultimately show ?thesis using s finished by blast
  next
    case Hex_fail
    with s fail show ?thesis by blast
  next
    case (Hex_go h' d' inp')
    with s have "1 < cap"
      by (auto simp: hex_step_def Let_def split: list.splits if_splits dest: hex_store_cap)
    with s Hex_go go show ?thesis by blast
  qed
qed

lemma hex_loop_bounds:
  "0 < cap \<Longrightarrow>
   \<exists>r'. hex_loop r c h d cap inp bs = Some r'
        \<and> (\<forall>out. r' = Some out \<longrightarrow> length bs < length out \<and> length out \<le> length bs + cap)"
proof (induction r c h d cap inp bs rule: hex_loop.induct)
  case (1 r c h d cap inp bs)
  from \<open>0 < cap\<close> show ?case
  proof (cases rule: hex_step_cap [where r = r and c = c and h = h and d = d and inp = inp and bs = bs])
    case (finished b out)
    then show ?thesis using "1.prems" by (subst hex_loop.simps) simp
  next
    case (fail b)
    then show ?thesis by (subst hex_loop.simps) simp
  next
    case (go b h' d' inp')
    then have "\<exists>r'. hex_loop r c h' d' (cap - 1) inp' (bs @ [b]) = Some r'
        \<and> (\<forall>out. r' = Some out \<longrightarrow> length (bs @ [b]) < length out \<and> length out \<le> length (bs @ [b]) + (cap - 1))"
      by (intro "1.IH" [OF go(1)]) auto
    then show ?thesis using go by (subst hex_loop.simps) force
  qed
qed

text \<open>
  C19. \<^verbatim>\<open>nm_utils_hexstr2bin_full\<close> returns for every string and every buffer that is not empty, and
  never stores outside of the buffer; the bytes it reports are at least one, fit into the
  buffer and are as many as required.
\<close>

theorem hexstr2bin_bounds:
  assumes "0 < buffer_len"
  shows "\<exists>r. nm_utils_hexstr2bin_full hexstr allow_0x required candidates required_len buffer_len = Some r
     \<and> (\<forall>out. r = Some out \<longrightarrow>
          out \<noteq> [] \<and> length out \<le> buffer_len \<and> (required_len = 0 \<or> length out = required_len))"
  using hex_loop_bounds [OF assms, of required candidates True None "skip_0x allow_0x hexstr" "[]"]
  by (auto simp: nm_utils_hexstr2bin_full_def split: option.split)

theorem hexstr2bin_bounds_witness:
  "\<exists>r. nm_utils_hexstr2bin_full ''00:11:2'' True True '':-'' 0 6 = Some r
     \<and> (\<forall>out. r = Some out \<longrightarrow> out \<noteq> [] \<and> length out \<le> 6 \<and> ((0 :: nat) = 0 \<or> length out = 0))"
  by (rule hexstr2bin_bounds) simp

section \<open>Reading back\<close>

lemma hexchar_LOOKUP:
  assumes "n < 16"
  shows "nm_utils_hexchar_to_int (LOOKUP up ! n) = int n"
proof -
  have "\<forall>n\<in>set [0..<16]. nm_utils_hexchar_to_int (LOOKUP up ! n) = int n"
    by (simp add: upt_rec LOOKUP_def nm_utils_hexchar_to_int_def schar_def)
  with assms show ?thesis by simp
qed

lemma nibbles:
  fixes v :: u8
  shows "unat (drop_bit 4 v) < 16" "unat (and v 0x0F) < 16"
    "word_of_int (int (unat (drop_bit 4 v)) * 16 + int (unat (and v 0x0F))) = v"
proof -
  have d: "unat (drop_bit 4 v) = unat v div 16"
    by (simp only: unat_drop_bit_eq) (simp add: drop_bit_eq_div)
  have m: "unat (and v 0x0F) = unat v mod 16"
  proof -
    have "and v 0x0F = take_bit 4 v" by (simp add: take_bit_eq_mask mask_eq_exp_minus_1)
    then show ?thesis by (simp add: take_bit_eq_mod unat_mod)
  qed
  have "unat v < 256" using unsigned_less [of v, where 'a = nat] by simp
  then show "unat (drop_bit 4 v) < 16" by (simp add: d less_mult_imp_div_less)
  show "unat (and v 0x0F) < 16" by (simp add: m)
  have "int (unat v div 16) * 16 + int (unat v mod 16) = int (unat v div 16 * 16 + unat v mod 16)"
    by (simp only: of_nat_add of_nat_mult of_nat_numeral)
  also have "\<dots> = int (unat v)" by (simp only: div_mult_mod_eq)
  finally show "word_of_int (int (unat (drop_bit 4 v)) * 16 + int (unat (and v 0x0F))) = v"
    by (simp add: d m)
qed

lemma hex_byte_step:
  assumes "0 < cap"
  shows "hex_step r c h d cap (hex_byte up v @ rest) bs =
         Some (v, if rest = [] then Hex_done (bs @ [v]) else hex_store r c h d cap rest)"
  using assms nibbles [of v]
  by (simp add: hex_step_def hex_byte_def hexchar_LOOKUP Let_def)

lemma hex_byte_not_Nil [simp]: "hex_byte up v \<noteq> []" "hex_byte up v @ s \<noteq> []"
  by (simp_all add: hex_byte_def)

lemma bin2hexstr_not_Nil [simp]: "nm_utils_bin2hexstr_full (v # vs) dl up \<noteq> []"
  by (cases vs) auto

lemma bin2hexstr_Cons:
  "nm_utils_bin2hexstr_full (v # vs) dl up =
   hex_byte up v @ (if vs = [] then [] else (case dl of None \<Rightarrow> [] | Some d \<Rightarrow> [d])
     @ nm_utils_bin2hexstr_full vs dl up)"
  by (cases vs) simp_all

lemma length_bin2hexstr:
  "length (nm_utils_bin2hexstr_full vs dl up) =
     (if dl = None then 2 * length vs else 3 * length vs - 1)"
  by (induction vs dl up rule: nm_utils_bin2hexstr_full.induct) (auto simp: hex_byte_def split: option.splits)

text \<open>The text and its NUL character fit into the buffer that \<^verbatim>\<open>nm_utils_hwaddr_ntoa_buf\<close> asks for.\<close>

lemma ntoa_buf_fits: "nm_utils_hwaddr_ntoa_buf addr up buf_len = Some s \<Longrightarrow> length s + 1 \<le> buf_len"
  by (auto simp: nm_utils_hwaddr_ntoa_buf_def length_bin2hexstr split: if_splits)

text \<open>With a delimiter.\<close>

lemma hex_loop_delim:
  assumes "schar dl \<ge> 0" "dl \<in> set c"
  shows "length vs \<le> cap \<Longrightarrow> vs \<noteq> [] \<Longrightarrow> d = None \<or> d = Some dl \<Longrightarrow>
    hex_loop r c True d cap (nm_utils_bin2hexstr_full vs (Some dl) up) bs = Some (Some (bs @ vs))"
proof (induction vs arbitrary: cap d bs)
  case (Cons v vs)
  then have cap: "0 < cap" by simp
  show ?case
  proof (cases "vs = []")
    case True
    then show ?thesis
      using hex_byte_step [OF cap, of r c True d up v "[]" bs] by (subst hex_loop.simps) simp
  next
    case False
    let ?t = "nm_utils_bin2hexstr_full vs (Some dl) up"
    have cap1: "1 < cap" using Cons.prems(1) False by (cases vs) simp_all
    have "hex_store r c True d cap (dl # ?t) = Hex_go True (Some dl) ?t"
      using Cons.prems(3) cap1 assms by (auto simp: hex_store_def)
    then have "hex_loop r c True d cap (nm_utils_bin2hexstr_full (v # vs) (Some dl) up) bs =
               hex_loop r c True (Some dl) (cap - 1) ?t (bs @ [v])"
      using hex_byte_step [OF cap, of r c True d up v "dl # ?t" bs] False
      by (subst hex_loop.simps) (simp add: bin2hexstr_Cons)
    also have "\<dots> = Some (Some ((bs @ [v]) @ vs))"
      using Cons.prems False by (intro Cons.IH) auto
    finally show ?thesis by simp
  qed
qed simp

text \<open>Without one.\<close>

lemma hex_loop_plain:
  assumes "\<forall>x\<in>set c. nm_utils_hexchar_to_int x < 0" and "\<not> r"
  shows "length vs \<le> cap \<Longrightarrow> vs \<noteq> [] \<Longrightarrow>
    hex_loop r c h None cap (nm_utils_bin2hexstr_full vs None up) bs = Some (Some (bs @ vs))"
proof (induction vs arbitrary: cap h bs)
  case (Cons v vs)
  then have cap: "0 < cap" by simp
  show ?case
  proof (cases vs)
    case Nil
    then show ?thesis
      using hex_byte_step [OF cap, of r c h None up v "[]" bs] by (subst hex_loop.simps) simp
  next
    case (Cons w ws)
    let ?t = "nm_utils_bin2hexstr_full vs None up"
    have "hd ?t = LOOKUP up ! unat (drop_bit 4 w)"
      by (simp add: Cons bin2hexstr_Cons hex_byte_def)
    then have "nm_utils_hexchar_to_int (hd ?t) \<ge> 0" by (simp add: hexchar_LOOKUP nibbles(1))
    then have "hd ?t \<notin> set c" using assms(1) by auto
    then have "hex_store r c h None cap ?t = Hex_go False None ?t"
      using Cons Cons.prems assms(2) by (auto simp: hex_store_def)
    then have "hex_loop r c h None cap (nm_utils_bin2hexstr_full (v # vs) None up) bs =
               hex_loop r c False None (cap - 1) ?t (bs @ [v])"
      using hex_byte_step [OF cap, of r c h None up v ?t bs] Cons
      by (subst hex_loop.simps) (simp add: bin2hexstr_Cons)
    also have "\<dots> = Some (Some ((bs @ [v]) @ vs))"
      using Cons Cons.prems by (intro Cons.IH) auto
    finally show ?thesis by simp
  qed
qed simp

text \<open>
  C20. Every sequence of bytes is read back from its hexadecimal text: what
  \<^verbatim>\<open>nm_utils_bin2hexstr_full\<close> prints, in upper or lower case, with a delimiter the reader accepts or
  without one where the reader allows that, \<^verbatim>\<open>nm_utils_hexstr2bin_full\<close> reads as the same bytes
  into any buffer that has room for them.
\<close>

theorem hexstr_roundtrip:
  assumes "bs \<noteq> []" and "length bs \<le> buffer_len" and "required_len = 0 \<or> required_len = length bs"
    and "case delimiter of
           Some d \<Rightarrow> schar d \<ge> 0 \<and> d \<in> set candidates
         | None \<Rightarrow> \<not> required \<and> (\<forall>c\<in>set candidates. nm_utils_hexchar_to_int c < 0)"
  shows "nm_utils_hexstr2bin_full (nm_utils_bin2hexstr_full bs delimiter up) False required candidates
           required_len buffer_len = Some (Some bs)"
proof -
  have "hex_loop required candidates True None buffer_len (nm_utils_bin2hexstr_full bs delimiter up) [] =
        Some (Some bs)"
    using assms hex_loop_delim [of _ candidates bs buffer_len None required up "[]"]
      hex_loop_plain [of candidates required bs buffer_len True up "[]"]
    by (cases delimiter) auto
  then show ?thesis using assms(3) by (auto simp: nm_utils_hexstr2bin_full_def skip_0x_def)
qed

theorem hexstr_roundtrip_witness:
  "nm_utils_hexstr2bin_full (nm_utils_bin2hexstr_full [0x52, 0x54, 0, 0xFE] (Some (CHR '':'')) True) False True
     '':-'' 0 20 = Some (Some [0x52, 0x54, 0, 0xFE])"
  by (rule hexstr_roundtrip) (simp_all add: schar_def)

section \<open>Canonical form and comparison\<close>

lemma aton_ntoa:
  assumes "out \<noteq> []" and "length out \<le> n"
  shows "hwaddr_aton (nm_utils_hwaddr_ntoa out) n = Some (Some out)"
proof -
  have "hex_loop True '':-'' True None n (nm_utils_bin2hexstr_full out (Some (CHR '':'')) True) [] =
        Some (Some out)"
    using assms hex_loop_delim [of "CHR '':''" "'':-''" out n None True True "[]"] by (simp add: schar_def)
  then show ?thesis
    by (simp add: hwaddr_aton_def nm_utils_hwaddr_ntoa_def nm_utils_hexstr2bin_full_def skip_0x_def)
qed

lemma aton_bounds:
  assumes "0 < n"
  obtains r where "hwaddr_aton s n = Some r" "\<And>out. r = Some out \<Longrightarrow> out \<noteq> [] \<and> length out \<le> n"
proof -
  obtain r where r: "hex_loop True '':-'' True None n (skip_0x False s) [] = Some r"
    "\<forall>out. r = Some out \<longrightarrow> out \<noteq> [] \<and> length out \<le> n"
    using hex_loop_bounds [OF assms, of True "'':-''" True None "skip_0x False s" "[]"] by auto
  then have "hwaddr_aton s n = Some r"
    by (cases r) (simp_all add: hwaddr_aton_def nm_utils_hexstr2bin_full_def)
  with r(2) show ?thesis by (intro that [of r]) auto
qed

text \<open>
  C21. \<^verbatim>\<open>nm_utils_hwaddr_canonical\<close> gives, for exactly the strings that \<^verbatim>\<open>nm_utils_hwaddr_valid\<close>
  accepts, a string that stands for the same bytes, and the canonical form of a canonical form
  is itself.
\<close>

theorem hwaddr_canonical_correct:
  assumes "n = - 1 \<or> 0 < n \<and> n \<le> 20"
  shows "\<exists>r. nm_utils_hwaddr_canonical asc n = Some r
    \<and> nm_utils_hwaddr_valid asc n = Some (r \<noteq> None)
    \<and> (\<forall>c. r = Some c \<longrightarrow>
          hwaddr_aton c NM_UTILS_HWADDR_LEN_MAX = hwaddr_aton asc (if n = - 1 then NM_UTILS_HWADDR_LEN_MAX else nat n)
        \<and> nm_utils_hwaddr_canonical c n = Some (Some c))"
proof -
  let ?m = "if n = - 1 then 20 else nat n"
  have m: "0 < ?m" "?m \<le> 20" using assms by auto
  obtain r where r: "hwaddr_aton asc ?m = Some r" "\<And>out. r = Some out \<Longrightarrow> out \<noteq> [] \<and> length out \<le> ?m"
    using aton_bounds [OF m(1)] by metis
  show ?thesis
  proof (cases r)
    case None
    with r(1) assms show ?thesis
      by (auto simp: nm_utils_hwaddr_canonical_def nm_utils_hwaddr_valid_def NM_UTILS_HWADDR_LEN_MAX_def)
  next
    case (Some out)
    with r(2) have out: "out \<noteq> []" "length out \<le> ?m" by auto
    then have a: "hwaddr_aton (nm_utils_hwaddr_ntoa out) ?m = Some (Some out)"
      "hwaddr_aton (nm_utils_hwaddr_ntoa out) 20 = Some (Some out)"
      using m(2) by (auto intro: aton_ntoa)
    show ?thesis
      using assms a r(1) Some
      by (auto simp: nm_utils_hwaddr_canonical_def nm_utils_hwaddr_valid_def NM_UTILS_HWADDR_LEN_MAX_def
          split: if_splits)
  qed
qed

theorem hwaddr_canonical_correct_witness:
  "\<exists>r. nm_utils_hwaddr_canonical ''52-54-0-ab'' (- 1) = Some r
    \<and> nm_utils_hwaddr_valid ''52-54-0-ab'' (- 1) = Some (r \<noteq> None)
    \<and> (\<forall>c. r = Some c \<longrightarrow>
          hwaddr_aton c NM_UTILS_HWADDR_LEN_MAX = hwaddr_aton ''52-54-0-ab'' NM_UTILS_HWADDR_LEN_MAX
        \<and> nm_utils_hwaddr_canonical c (- 1) = Some (Some c))"
  using hwaddr_canonical_correct [of "- 1" "''52-54-0-ab''"] by simp

text \<open>
  What an argument of \<^verbatim>\<open>nm_utils_hwaddr_matches\<close> stands for, and the bytes that identify the
  hardware: for InfiniBand the last 8.
\<close>

definition hw_meaning :: "hwaddr_arg \<Rightarrow> u8 list option" where
  "hw_meaning a =
     (case a of
        Hw_ascii None \<Rightarrow> Some []
      | Hw_ascii (Some s) \<Rightarrow> the (hwaddr_aton s NM_UTILS_HWADDR_LEN_MAX)
      | Hw_binary p n \<Rightarrow> if 0 < n \<and> n \<le> NM_UTILS_HWADDR_LEN_MAX then Some (hw_binary p n) else None)"

definition hw_ident :: "u8 list \<Rightarrow> nat \<times> u8 list" where
  "hw_ident a = (length a, if length a = INFINIBAND_ALEN then drop 12 a else a)"

lemma hw_compare_ident: "length a = length b \<Longrightarrow> hw_compare a b \<longleftrightarrow> hw_ident a = hw_ident b"
  by (auto simp: hw_compare_def hw_ident_def)

text \<open>The bytes of a binary argument are as many as it says.\<close>

definition hw_arg_ok :: "hwaddr_arg \<Rightarrow> bool" where
  "hw_arg_ok a = (case a of Hw_binary (Some bs) n \<Rightarrow> n \<le> length bs | _ \<Rightarrow> True)"

lemma length_hw_binary: "hw_arg_ok (Hw_binary p n) \<Longrightarrow> length (hw_binary p n) = n"
  by (cases p) (simp_all add: hw_arg_ok_def hw_binary_def)

lemma aton_total: "hwaddr_aton s NM_UTILS_HWADDR_LEN_MAX = Some (the (hwaddr_aton s NM_UTILS_HWADDR_LEN_MAX))"
  by (rule aton_bounds [of NM_UTILS_HWADDR_LEN_MAX s]) (simp_all add: NM_UTILS_HWADDR_LEN_MAX_def)

text \<open>
  \<^verbatim>\<open>nm_utils_hwaddr_matches\<close> agrees with its documentation: it holds exactly when both
  arguments stand for an address, a string for the bytes it parses to and a missing binary
  address for zeros, and the addresses have the same length and identify the same hardware,
  which is decided by the last 8 bytes for InfiniBand and by all bytes otherwise.
\<close>

theorem hwaddr_matches_correct:
  assumes "hw_arg_ok x" and "hw_arg_ok y"
  shows "nm_utils_hwaddr_matches x y =
    Some (case (hw_meaning x, hw_meaning y) of
            (Some a, Some b) \<Rightarrow> hw_ident a = hw_ident b | _ \<Rightarrow> False)"
proof -
  have x: "(case x of
        Hw_ascii None \<Rightarrow> Some (Some [])
      | Hw_ascii (Some s) \<Rightarrow> hwaddr_aton s NM_UTILS_HWADDR_LEN_MAX
      | Hw_binary p n \<Rightarrow>
          Some (if 0 < n \<and> n \<le> NM_UTILS_HWADDR_LEN_MAX then Some (hw_binary p n) else None)) =
      Some (hw_meaning x)"
    using aton_total by (simp add: hw_meaning_def split: hwaddr_arg.split option.split)
  have same: "length b = length a \<and> hw_compare a b \<longleftrightarrow> hw_ident a = hw_ident b" for a b
  proof (cases "length a = length b")
    case True
    then show ?thesis by (simp only: hw_compare_ident simp_thms)
  next
    case False
    then have "hw_ident a \<noteq> hw_ident b" by (simp add: hw_ident_def)
    with False show ?thesis by (simp only: eq_commute [of "length b"] simp_thms)
  qed
  show ?thesis
  proof (cases "hw_meaning x")
    case None
    then show ?thesis by (simp add: nm_utils_hwaddr_matches_def x)
  next
    case a: (Some a)
    show ?thesis
    proof (cases y)
      case (Hw_ascii s2)
      have "(case s2 of None \<Rightarrow> Some (Some []) | Some s \<Rightarrow> hwaddr_aton s NM_UTILS_HWADDR_LEN_MAX) =
            Some (hw_meaning y)"
        using aton_total by (simp add: Hw_ascii hw_meaning_def split: option.split)
      with a same Hw_ascii show ?thesis
        by (simp add: nm_utils_hwaddr_matches_def x split: option.split)
    next
      case (Hw_binary p n)
      have "length (hw_binary p n) = n" using assms(2) Hw_binary by (simp add: length_hw_binary)
      then have "n = length a \<and> hw_compare a (hw_binary p n) \<longleftrightarrow> hw_ident a = hw_ident (hw_binary p n)"
        using same [of "hw_binary p n" a] by simp
      with a Hw_binary show ?thesis
        by (auto simp: nm_utils_hwaddr_matches_def x hw_meaning_def)
    qed
  qed
qed

theorem hwaddr_matches_correct_witness:
  "nm_utils_hwaddr_matches (Hw_ascii (Some ''00:00'')) (Hw_binary None 2) =
   Some (case (hw_meaning (Hw_ascii (Some ''00:00'')), hw_meaning (Hw_binary None 2)) of
           (Some a, Some b) \<Rightarrow> hw_ident a = hw_ident b | _ \<Rightarrow> False)"
  by (rule hwaddr_matches_correct) (simp_all add: hw_arg_ok_def)

end
