(* ===== verification/Spec2Isabelle.thy ===== *)
theory Spec2Isabelle
  imports Inet4 Ndisc_Machine Nm_Acd Dmi_Main Vpd_Decode Ownership Shvar_File Nm_Hwaddr
begin

text \<open>
  A verification development for the programs of this repository: parts of NetworkManager
  (\<^verbatim>\<open>src/NetworkManager\<close>: router discovery, IPv4 address conflict detection, the files of
  shell variables of the ifcfg-rh settings plugin and the helpers they use) and the dmidecode package with its callback extension
  (\<^verbatim>\<open>src/dmidecode\<close>). All of them process data that is not trusted, router advertisements and ARP packets from the
  network, files edited by hand and tables written by the firmware, and keep it in state that
  later steps rely on; the theorems state what holds of that state whatever the data is.

  \<^bold>\<open>Router discovery.\<close> \<^verbatim>\<open>nm-lndp-ndisc.c\<close> receives a router advertisement and hands its
  contents to \<^verbatim>\<open>nm-ndisc.c\<close>, which merges gateways, prefixes, routes, DNS servers and DNS
  domains into arrays, lets them expire, schedules the next check, announces changes by a
  signal, and sends solicitations or, as a router, advertisements.

  \<^item> \<open>Prelude\<close>: machine types, arrays, first-index searches, keyed lists as maps.
  \<^item> \<open>Ndisc_Data\<close>: the items (\<^verbatim>\<open>NMNDiscGateway\<close> and so on are records of the same name), the
    private state \<open>NMNDiscPrivate\<close>, the operations \<open>nm_ndisc_add_gateway\<close>, \<open>_route\<close>,
    \<open>_dns_server\<close>, \<open>_dns_domain\<close>, \<open>_address\<close>. The locale \<open>expiring_store\<close> is the contract
    of a keyed array whose items expire; it is interpreted on the four arrays, and the
    refinement theorems (the arrays implement maps in which the last advertisement wins)
    are its consequences. \<open>add_gateway_invariant\<close> is what \<^verbatim>\<open>_ASSERT_data_gateways\<close> checks.
  \<^item> \<open>Ndisc_Address\<close>: lifetimes of autoconfigured addresses, the two-hour rule of RFC 4862
    and the invariant of the address array.
  \<^item> \<open>Ndisc_Timers\<close>: \<^verbatim>\<open>expiry_next\<close>, the clean functions, \<^verbatim>\<open>check_timestamps\<close> and its callers.
    A check is shown to keep exactly the items that have not expired, to signal exactly the
    changes, and to leave a timer that fires in time.
  \<^item> \<open>Ndisc_Machine\<close>: solicitations, announcements, start, identifier change, DAD failure and
    \<^verbatim>\<open>receive_ra\<close>; the step relation of a host, its reachable states and their invariant;
    the number of solicitations.
  \<^item> \<open>Inet\<close>, \<open>Inet4\<close>: clearing the host part of an address, comparing prefixes, IPv4 netmasks and
    prefix lengths.

  Times are integers (the code's seconds fit in 32 bits, and the one place where a difference
  overflows is written out). The clock, random delays, the results of sends, the accessors of
  libndp and the keyed hash of stable privacy addresses are arguments.

  \<^bold>\<open>IPv4 address conflict detection.\<close> A device that wants an IPv4 address asks the link first
  (RFC 5227). The object of \<^verbatim>\<open>src/devices/nm-acd-manager.c\<close> probes a set of addresses and reports once when
  all probes ended; below it the engine \<^verbatim>\<open>shared/n-acd\<close> keeps the probes, their timeouts and the
  packet filter the kernel runs.

  \<^item> \<open>Acd_Filter\<close>: the eBPF program of \<^verbatim>\<open>n-acd-bpf.c\<close> with an interpreter for its instructions, and
    the check of received packets; \<open>filter_exact\<close> says which packets pass.
  \<^item> \<open>Acd_Engine\<close>: \<^verbatim>\<open>n-acd.c\<close>, \<^verbatim>\<open>n-acd-probe.c\<close>, \<^verbatim>\<open>util/timer.c\<close>. The record \<open>NAcd\<close> is the context with its
    probes, the tree of addresses, the tree of timeouts and the map shared with the filter. A
    failed assertion, a freed probe that is used and a loop that does not end are \<open>None\<close>. What the
    kernel answers is a record \<open>acd_os\<close> of functions of the number of calls made so far.
  \<^item> \<open>Acd_Inv\<close>, \<open>Acd_Safe\<close>: the invariant of the context, that every operation keeps it and is not
    \<open>None\<close>, and the states a client reaches (\<open>acd_safe\<close>). The loops over due timeouts and over the probes
    of an address are partial functions, so that their termination is part of the theorem. The
    hypotheses \<open>good_os\<close> say that the clock does not go backwards and stays between 1 and \<open>2 ^ 62\<close>
    ns, that the error numbers of the kernel are not negative, and that the rebalancing of the
    red-black tree keeps its elements in order.
  \<^item> \<open>Acd_Track\<close>: what a client sees of its probes: a probe that stops probing raises exactly one of
    READY and USED.
  \<^item> \<open>Acd_Protocol\<close>: conflicts are detected and answered according to the policy, and a free address
    is ready in time.
  \<^item> \<open>Nm_Acd\<close>: the manager over the engine. Its invariant relates the table of addresses to the
    probes and the pending events; the callback is called exactly once, when every address has
    an answer. The order of the hash table is an argument, \<open>good_order\<close> says that it is a
    permutation of the keys.

  \<^bold>\<open>Files of shell variables.\<close> The ifcfg-rh plugin keeps connections in files of assignments in
  shell syntax. \<^verbatim>\<open>shvar.c\<close> parses them into lines, gets and sets variables, and writes them back.

  \<^item> \<open>Nm_Ascii\<close>: characters, C strings and the number parsers of \<^verbatim>\<open>nm-shared-utils.c\<close>.
  \<^item> \<open>Nm_Io\<close>: \<^verbatim>\<open>nm-io-utils.c\<close>, reading a whole file within the bounds of a growing buffer and
    replacing a file as a whole.
  \<^item> \<open>Shvar_Quote\<close>: \<^verbatim>\<open>svEscape\<close> and \<^verbatim>\<open>svUnescape\<close>; every string is read back from its quoted form.
  \<^item> \<open>Shvar_File\<close>: the lines, their invariant (\<^verbatim>\<open>ASSERT_shvarLine\<close> among others), the operations and
    writing. The locale \<open>variable_store\<close> is the contract of a store of variables, interpreted on
    them; a file implements a map, and writing and opening again does not change it.

  \<^bold>\<open>Hardware addresses.\<close> \<open>Nm_Hwaddr\<close> models the hexadecimal strings of \<^verbatim>\<open>nm-shared-utils.c\<close> and the
  functions on hardware addresses of \<^verbatim>\<open>libnm-core/nm-utils.c\<close>: no store leaves the buffer of the caller
  and every address is read back from its text.

  \<^bold>\<open>dmidecode.\<close> The program finds an entry point, reads the table it announces, walks its
  structures and prints each of them; \<^verbatim>\<open>dmi_ext\<close> offers the same walk with a callback.

  \<^item> \<open>Dmi_Base\<close>: checked memory accesses. A pointer is the list of bytes readable from it, an
    access beyond the end is \<open>None\<close>, and \<open>safe\<close> says that a computation makes none. A
    printing function is the text it prints. \<open>structure_ok\<close> is the contract between the walk
    and the decoders.
  \<^item> \<open>Dmi_String\<close>: \<^verbatim>\<open>dmi_string\<close>, its output and the transparency of its in-place filter.
  \<^item> \<open>Dmi_Walk\<close>: \<^verbatim>\<open>dmi_table_decode_ext\<close> and the searches. \<open>table_structures\<close> is the
    specification, the list of the complete structures of a table; the walk is a fold over
    it. The locale \<open>dmi_callback\<close> is the interface to the clients of the walk, interpreted on
    the callbacks of both searches.
  \<^item> \<open>Dmi_Tables\<close>: the lookup functions with their static tables, and that no index leaves its
    table.
  \<^item> \<open>Dmi_Print\<close>, \<open>Dmi_Print2\<close>: the printers of fields and the parsers of variable-length
    structures, with the lengths their reads need.
  \<^item> \<open>Dmi_Sizes\<close>: the arithmetic of the printers against reference definitions.
  \<^item> \<open>Dmi_Oem\<close>: \<^verbatim>\<open>dmioem.c\<close>.
  \<^item> \<open>Dmi_Decode\<close>: \<^verbatim>\<open>dmi_decode\<close>, one definition \<open>decode_<n>\<close> per case, and the theorem that
    decoding stays inside the structure.
  \<^item> \<open>Dmi_Table\<close>: \<^verbatim>\<open>dmi_table_decode\<close> and the composition of walk and decoder.
  \<^item> \<open>Dmi_Entry\<close>: \<^verbatim>\<open>dmi_table\<close>, the entry points and the patching of their addresses.
  \<^item> \<open>Dmi_Libc\<close>: the functions of the C library the programs call, \<^verbatim>\<open>strtoul\<close>, \<^verbatim>\<open>strcasecmp\<close>
    and \<^verbatim>\<open>getopt_long\<close>.
  \<^item> \<open>Dmi_Util\<close>: \<^verbatim>\<open>util.c\<close> on a model of the operating system (\<open>os\<close>: files whose reads may be
    short, interrupted or fail, mapping, permissions). The locale \<open>honest_file\<close> is what a file
    promises; \<^verbatim>\<open>read_file\<close> and \<^verbatim>\<open>mem_chunk\<close> are shown to give exactly the bytes of the file.
  \<^item> \<open>Dmi_Opt\<close>: \<^verbatim>\<open>dmiopt.c\<close>; what is accepted is consistent.
  \<^item> \<open>Dmi_Main\<close>: \<^verbatim>\<open>address_from_efi\<close> and \<^verbatim>\<open>main\<close> with its order of sources (a dump, sysfs, EFI,
    the scan of memory). \<open>dump_roundtrip\<close> composes everything below it: the file that
    \<^verbatim>\<open>--dump-bin\<close> writes, given to \<^verbatim>\<open>--from-dump\<close>, is decoded to the same structures.
  \<^item> \<open>Bios_Decode\<close>: \<^verbatim>\<open>biosdecode.c\<close>. The locale \<open>bios_scanner\<close> is the contract between the scan
    and the decoders of its table, interpreted on that table; the scan stays inside the mapped
    area and ends when no decoder accepts an empty structure.
  \<^item> \<open>Vpd_Decode\<close>, \<open>Ownership\<close>: the programs of the same name with their command lines.

  Conventions of this part: bytes and words have their width; \<^verbatim>\<open>char\<close> is signed, as on x86;
  integers are little-endian; \<^verbatim>\<open>printf\<close> conversions and the string functions of C are
  definitions. The value of \<^verbatim>\<open>1 << n\<close> for \<open>n\<close> above 31, which C leaves undefined, is an
  argument. A printed \<^verbatim>\<open>float\<close> is the exact decimal fraction, since the rounding error is
  below half a unit of the last digit printed. \<^verbatim>\<open>dmi_string\<close> overwrites the string it returns;
  the decoders read it as a pure function, which \<open>dmi_string_filter_transparent\<close> justifies.
  The only loop that may not end is the one of \<^verbatim>\<open>dmi_dump\<close>; it has fuel for 256 rounds, which
  is exact: it ends within them for every structure with fewer than 255 strings and never for
  the others (\<open>dump_of_255_strings_diverges\<close>).

  \<^bold>\<open>Defects.\<close> Where the code does not do what it means to, the theorem says what it does:
  a route less preferred than all others is put first (\<open>add_route_least_preferred_first\<close>), the
  expiry of a DNS server is not scheduled (\<open>dns_server_expiry_not_scheduled\<close>), the first
  solicitation is not answered early (\<open>first_solicitation_not_expedited\<close>), memory channels
  (\<open>memory_channel_reads_past_structure\<close>), single strings (\<open>table_string_overreads\<close>) and
  sysfs entry points (\<open>smbios3_overreads_sysfs_buffer\<close>) are over-read, the dump of a structure
  with 255 strings does not end, slot bifurcation is hidden (\<open>slot_bifurcation_hidden\<close>), a
  blank vendor is taken for Acer (\<open>set_vendor_blank\<close>), biosdecode hangs on a Sony structure of
  length 0 (\<open>biosdecode_hangs\<close>), a handle on the command line is cut to 32 bits before it is
  checked (\<open>handle_cut_to_32_bits\<close>), a line of the EFI file without an equals sign is a
  null pointer access (\<open>efi_line_without_equals\<close>), a probe whose packet is dropped by a full queue is
  never scheduled again (\<open>dropped_probe_stuck\<close>), and probing never completes when one of several probes
  could not be started (\<open>partial_start_never_completes\<close>).

  \<^bold>\<open>Not modelled.\<close> Of router discovery: logging, the building of outgoing packets, sockets. Of
  conflict detection: opening sockets, loading the filter, the random seed and the setters of
  configurations. Of dmidecode: the code for other operating systems that is compiled out on Linux.
  Of NetworkManager: the DHCP clients and \<^verbatim>\<open>n-dhcp4\<close>, the objects of IP configurations, the DNS manager, the
  D-Bus services, devices, settings, platform code, clients and the other vendored libraries: most of
  it is event-driven glue over D-Bus, GObject and the kernel.

  \<^bold>\<open>Left by this plan.\<close> The option parsing of \<^verbatim>\<open>n-dhcp4\<close>; the outgoing packets of router discovery; the
  list operations of \<^verbatim>\<open>nm-ip4-config.c\<close> and \<^verbatim>\<open>nm-ip6-config.c\<close>; the other string helpers of
  \<^verbatim>\<open>nm-shared-utils.c\<close>.
\<close>

end
